(* ===== verification/Prelude.thy ===== *)
theory Prelude
  imports Complex_Main "HOL-Library.Multiset" "HOL-Library.Product_Lexorder"
begin

text \<open>
  Shared vocabulary of the development: the exceptions of the source as a datatype, programs
  over a state that may raise (state in, outcome and state out), a small calculus for
  relations that every step of such a program keeps, and the list and sorting lemmas the
  components share.
\<close>

section \<open>Exceptions and programs\<close>

text \<open>
  The Python exceptions the modelled code raises or lets escape. An exception does not undo
  the state changes made before it, so a program returns its outcome together with the state
  it leaves behind, also when the outcome is an exception.
\<close>

datatype exn =
    ValueError string
  | TypeError
  | OverflowError
  | AttributeError string
  | OperationalError
  | IntegrityError
  | RuntimeError string

type_synonym ('s, 'a) prog = "'s \<Rightarrow> (exn + 'a) \<times> 's"

definition ret :: "'a \<Rightarrow> ('s, 'a) prog" where
  "ret x s = (Inr x, s)"

definition raise_exn :: "exn \<Rightarrow> ('s, 'a) prog" where
  "raise_exn e s = (Inl e, s)"

definition bindp :: "('s, 'a) prog \<Rightarrow> ('a \<Rightarrow> ('s, 'b) prog) \<Rightarrow> ('s, 'b) prog" where
  "bindp m f s = (case m s of (Inl e, t) \<Rightarrow> (Inl e, t) | (Inr x, t) \<Rightarrow> f x t)"

definition readp :: "('s \<Rightarrow> 'a) \<Rightarrow> ('s, 'a) prog" where
  "readp g s = (Inr (g s), s)"

definition updp :: "('s \<Rightarrow> 's) \<Rightarrow> ('s, unit) prog" where
  "updp g s = (Inr (), g s)"

definition catchp :: "('s, 'a) prog \<Rightarrow> (exn \<Rightarrow> ('s, 'a) prog) \<Rightarrow> ('s, 'a) prog" where
  "catchp m h s = (case m s of (Inl e, t) \<Rightarrow> h e t | (Inr x, t) \<Rightarrow> (Inr x, t))"

fun forp :: "('a \<Rightarrow> ('s, unit) prog) \<Rightarrow> 'a list \<Rightarrow> ('s, unit) prog" where
  "forp f [] = ret ()"
| "forp f (x # xs) = bindp (f x) (\<lambda>_. forp f xs)"

named_theorems prog_defs \<open>unfolding the program combinators\<close>
declare ret_def [prog_defs] raise_exn_def [prog_defs] bindp_def [prog_defs]
  readp_def [prog_defs] updp_def [prog_defs] catchp_def [prog_defs]

lemma bindp_ret [simp]: "bindp (ret x) f = f x"
  by (simp add: fun_eq_iff prog_defs)

lemma bindp_readp [simp]: "bindp (readp g) f = (\<lambda>s. f (g s) s)"
  by (simp add: fun_eq_iff prog_defs)

lemma bindp_updp [simp]: "bindp (updp g) f = (\<lambda>s. f () (g s))"
  by (simp add: fun_eq_iff prog_defs)

lemma bindp_raise [simp]: "bindp (raise_exn e) f = raise_exn e"
  by (simp add: fun_eq_iff prog_defs)

lemma bindp_assoc: "bindp (bindp m f) g = bindp m (\<lambda>x. bindp (f x) g)"
  by (auto simp: fun_eq_iff prog_defs split: prod.splits sum.splits)

lemma bindp_Inr: "m s = (Inr x, t) \<Longrightarrow> bindp m f s = f x t"
  by (simp add: bindp_def)

lemma bindp_Inl: "m s = (Inl e, t) \<Longrightarrow> bindp m f s = (Inl e, t)"
  by (simp add: bindp_def)

lemma snd_prog [simp]:
  "snd (ret x s) = s" "snd (raise_exn e s) = s" "snd (readp g s) = s" "snd (updp h s) = h s"
  by (simp_all add: prog_defs)

lemma fst_prog [simp]:
  "fst (ret x s) = Inr x" "fst (raise_exn e s) = Inl e" "fst (readp g s) = Inr (g s)"
  "fst (updp h s) = Inr ()"
  by (simp_all add: prog_defs)

section \<open>Relations that every step keeps\<close>

text \<open>
  \<open>keeps R m\<close>: whatever the state before, the state after \<open>m\<close> (returned or raised) is
  related to it by \<open>R\<close>. For a reflexive and transitive \<open>R\<close> (a frame condition, or an
  invariant \<open>\<lambda>s t. I s \<longrightarrow> I t\<close>) the combinators preserve it, so a handler keeps \<open>R\<close> when its
  elementary steps do. The locale below is that interface; each component interprets it for
  its own frame conditions.
\<close>

definition keeps :: "('s \<Rightarrow> 's \<Rightarrow> bool) \<Rightarrow> ('s, 'a) prog \<Rightarrow> bool" where
  "keeps R m \<longleftrightarrow> (\<forall>s. R s (snd (m s)))"

lemma keepsI: "(\<And>s. R s (snd (m s))) \<Longrightarrow> keeps R m"
  by (simp add: keeps_def)

lemma keepsD: "keeps R m \<Longrightarrow> R s (snd (m s))"
  by (simp add: keeps_def)

lemma keeps_result: "keeps R m \<Longrightarrow> m s = (r, t) \<Longrightarrow> R s t"
  by (drule keepsD [of R m s]) simp

locale step_frame =
  fixes R :: "'s \<Rightarrow> 's \<Rightarrow> bool"
  assumes frame_refl: "R s s"
    and frame_trans: "R s t \<Longrightarrow> R t u \<Longrightarrow> R s u"
begin

lemma keeps_ret: "keeps R (ret x)"
  by (simp add: keeps_def frame_refl)

lemma keeps_raise: "keeps R (raise_exn e)"
  by (simp add: keeps_def frame_refl)

lemma keeps_readp: "keeps R (readp g)"
  by (simp add: keeps_def frame_refl)

lemma keeps_updp: "(\<And>s. R s (g s)) \<Longrightarrow> keeps R (updp g)"
  by (simp add: keeps_def)

lemma keeps_bindp: "keeps R m \<Longrightarrow> (\<And>x. keeps R (f x)) \<Longrightarrow> keeps R (bindp m f)"
  by (auto simp: keeps_def bindp_def split: prod.splits sum.splits)
     (metis frame_trans snd_conv)+

lemma keeps_catchp: "keeps R m \<Longrightarrow> (\<And>e. keeps R (h e)) \<Longrightarrow> keeps R (catchp m h)"
  by (auto simp: keeps_def catchp_def split: prod.splits sum.splits)
     (metis frame_trans snd_conv)+

lemma keeps_if: "(b \<Longrightarrow> keeps R m) \<Longrightarrow> (\<not> b \<Longrightarrow> keeps R n) \<Longrightarrow> keeps R (if b then m else n)"
  by simp

lemma keeps_option:
  "(x = None \<Longrightarrow> keeps R m) \<Longrightarrow> (\<And>y. x = Some y \<Longrightarrow> keeps R (f y)) \<Longrightarrow>
   keeps R (case x of None \<Rightarrow> m | Some y \<Rightarrow> f y)"
  by (cases x) auto

lemma keeps_sum:
  "(\<And>e. x = Inl e \<Longrightarrow> keeps R (g e)) \<Longrightarrow> (\<And>y. x = Inr y \<Longrightarrow> keeps R (f y)) \<Longrightarrow>
   keeps R (case x of Inl e \<Rightarrow> g e | Inr y \<Rightarrow> f y)"
  by (cases x) auto

lemma keeps_prod: "(\<And>a b. x = (a, b) \<Longrightarrow> keeps R (f a b)) \<Longrightarrow> keeps R (case x of (a, b) \<Rightarrow> f a b)"
  by (cases x) auto

lemma keeps_forp: "(\<And>x. keeps R (f x)) \<Longrightarrow> keeps R (forp f xs)"
  by (induction xs) (auto intro!: keeps_ret keeps_bindp)

lemma keeps_state: "(\<And>s. keeps R (f s)) \<Longrightarrow> keeps R (\<lambda>s. f s s)"
  by (simp add: keeps_def)

lemmas keeps_rules = keeps_ret keeps_raise keeps_readp keeps_updp keeps_bindp keeps_catchp
  keeps_if keeps_option keeps_sum keeps_prod keeps_forp

end

text \<open>An invariant is the relation \<open>\<lambda>s t. I s \<longrightarrow> I t\<close>, and this is always a frame.\<close>

definition inv_rel :: "('s \<Rightarrow> bool) \<Rightarrow> 's \<Rightarrow> 's \<Rightarrow> bool" where
  "inv_rel I s t \<longleftrightarrow> (I s \<longrightarrow> I t)"

interpretation invariant_frame: step_frame "inv_rel I" for I
  by unfold_locales (auto simp: inv_rel_def)

text \<open>A projection that no step changes is a frame as well.\<close>

definition same_rel :: "('s \<Rightarrow> 'b) \<Rightarrow> 's \<Rightarrow> 's \<Rightarrow> bool" where
  "same_rel f s t \<longleftrightarrow> f t = f s"

interpretation projection_frame: step_frame "same_rel f" for f
  by unfold_locales (auto simp: same_rel_def)

section \<open>Lists\<close>

text \<open>
  Python's \<open>rows.insert(j, rows.pop(i))\<close>, for indices inside the list (the callers check them).
\<close>

definition pop_insert :: "nat \<Rightarrow> nat \<Rightarrow> 'a list \<Rightarrow> 'a list" where
  "pop_insert i j xs =
     (let ys = take i xs @ drop (Suc i) xs in take j ys @ [xs ! i] @ drop j ys)"

lemma mset_pop_insert [simp]: "i < length xs \<Longrightarrow> mset (pop_insert i j xs) = mset xs"
proof -
  assume i: "i < length xs"
  let ?ys = "take i xs @ drop (Suc i) xs"
  have "mset (pop_insert i j xs) = add_mset (xs ! i) (mset (take j ?ys) + mset (drop j ?ys))"
    by (simp only: pop_insert_def Let_def mset_append mset.simps) simp
  also have "\<dots> = add_mset (xs ! i) (mset ?ys)"
    by (metis append_take_drop_id mset_append)
  also have "\<dots> = mset xs"
  proof -
    have "mset (take i xs @ xs ! i # drop (Suc i) xs) = mset xs"
      using i by (simp only: id_take_nth_drop [symmetric])
    then show ?thesis by simp
  qed
  finally show ?thesis .
qed

lemma set_pop_insert [simp]: "i < length xs \<Longrightarrow> set (pop_insert i j xs) = set xs"
  by (metis mset_pop_insert set_mset_mset)

lemma length_pop_insert [simp]: "i < length xs \<Longrightarrow> length (pop_insert i j xs) = length xs"
  by (metis mset_pop_insert size_mset)

lemma distinct_pop_insert [simp]:
  "i < length xs \<Longrightarrow> distinct (pop_insert i j xs) = distinct xs"
  by (metis mset_pop_insert mset_eq_imp_distinct_iff)

lemma pop_insert_same [simp]: "i < length xs \<Longrightarrow> pop_insert i i xs = xs"
  by (simp add: pop_insert_def Let_def id_take_nth_drop [symmetric])

lemma nth_pop_insert_target:
  "i < length xs \<Longrightarrow> j < length xs \<Longrightarrow> pop_insert i j xs ! j = xs ! i"
  by (simp add: pop_insert_def Let_def nth_append min_def)

lemma map_pop_insert: "i < length xs \<Longrightarrow> map f (pop_insert i j xs) = pop_insert i j (map f xs)"
  by (simp add: pop_insert_def Let_def take_map drop_map)

text \<open>Every other element keeps its place relative to the others.\<close>

lemma filter_pop_insert:
  assumes "i < length xs" "\<not> P (xs ! i)"
  shows "filter P (pop_insert i j xs) = filter P xs"
proof -
  let ?ys = "take i xs @ drop (Suc i) xs"
  have "filter P (pop_insert i j xs) = filter P (take j ?ys @ drop j ?ys)"
    using assms(2) by (simp add: pop_insert_def Let_def)
  also have "\<dots> = filter P ?ys" by (simp only: append_take_drop_id)
  also have "\<dots> = filter P (take i xs @ xs ! i # drop (Suc i) xs)"
    using assms(2) by simp
  also have "\<dots> = filter P xs" using assms(1) by (simp only: id_take_nth_drop [symmetric])
  finally show ?thesis .
qed

section \<open>Sorting by a key\<close>

lemma sort_key_unique:
  assumes "mset ys = mset xs" "sorted (map f ys)" "inj_on f (set xs)"
  shows "sort_key f xs = ys"
proof -
  have "set ys = set xs" using assms(1) by (metis set_mset_mset)
  with assms have "inj_on f (set ys)" by simp
  with assms show ?thesis
    by (metis sort_key_inj_key_eq sort_key_id_if_sorted)
qed

lemma sorted_map_filter: "sorted (map f xs) \<Longrightarrow> sorted (map f (filter P xs))"
  by (induction xs) auto

lemma filter_sort_key: "filter P (sort_key f xs) = sort_key f (filter P xs)"
  by (rule filter_sort)

lemma hd_sort_key_le:
  assumes "x \<in> set xs"
  shows "f (hd (sort_key f xs)) \<le> f x"
proof -
  obtain y ys where eq: "sort_key f xs = y # ys"
    using assms by (cases "sort_key f xs") (auto simp flip: set_empty)
  have "sorted (map f (y # ys))" by (metis eq sorted_sort_key)
  moreover have "x \<in> set (y # ys)" using assms eq by (metis set_sort)
  ultimately show ?thesis by (auto simp: eq)
qed

lemma hd_sort_key_in: "xs \<noteq> [] \<Longrightarrow> hd (sort_key f xs) \<in> set xs"
  by (metis hd_in_set length_0_conv length_sort set_sort)

section \<open>Maxima as the queries compute them\<close>

text \<open>\<open>COALESCE(MAX(column), 0)\<close> over the selected rows.\<close>

definition max_or_zero :: "int list \<Rightarrow> int" where
  "max_or_zero xs = (case xs of [] \<Rightarrow> 0 | y # ys \<Rightarrow> fold max ys y)"

lemma max_or_zero_ge: "x \<in> set xs \<Longrightarrow> x \<le> max_or_zero xs"
proof (cases xs)
  case (Cons y ys)
  assume "x \<in> set xs"
  then show ?thesis
    using Cons Max.set_eq_fold [of y ys] Max_ge [of "set (y # ys)" x]
    by (simp add: max_or_zero_def)
qed simp

lemma max_or_zero_in: "xs \<noteq> [] \<Longrightarrow> max_or_zero xs \<in> set xs"
  using Max.set_eq_fold [of "hd xs" "tl xs"] Max_in [of "set xs"]
  by (cases xs) (auto simp: max_or_zero_def simp flip: Max.set_eq_fold)

lemma max_or_zero_Nil [simp]: "max_or_zero [] = 0"
  by (simp add: max_or_zero_def)

end
