(* ===== verification/Py_Text.thy ===== *)
theory Py_Text
  imports Prelude
begin

text \<open>
  The text operations of Python and SQLite the modelled code uses: \<open>str.strip\<close>, \<open>str.lower\<close>,
  \<open>int(text)\<close>, \<open>float(text)\<close>, \<open>int(float)\<close>, \<open>str(int)\<close> and \<open>str.join\<close>. Text is ASCII;
  a Python float is an exact rational or one of the three non-finite values.
\<close>

section \<open>strip and lower\<close>

definition is_space :: "char \<Rightarrow> bool" where
  "is_space c \<longleftrightarrow> c \<in> {CHR 0x09, CHR 0x0A, CHR 0x0B, CHR 0x0C, CHR 0x0D,
     CHR 0x1C, CHR 0x1D, CHR 0x1E, CHR 0x1F, CHR 0x20}"

definition strip :: "string \<Rightarrow> string" where
  "strip s = rev (dropWhile is_space (rev (dropWhile is_space s)))"

text \<open>SQLite's \<open>TRIM\<close> removes blanks only.\<close>

definition sql_trim :: "string \<Rightarrow> string" where
  "sql_trim s = rev (dropWhile (\<lambda>c. c = CHR 0x20) (rev (dropWhile (\<lambda>c. c = CHR 0x20) s)))"

definition lower_table :: "(char \<times> char) list" where
  "lower_table = zip ''ABCDEFGHIJKLMNOPQRSTUVWXYZ'' ''abcdefghijklmnopqrstuvwxyz''"

definition lower_char :: "char \<Rightarrow> char" where
  "lower_char c = (case map_of lower_table c of None \<Rightarrow> c | Some d \<Rightarrow> d)"

definition lower :: "string \<Rightarrow> string" where
  "lower s = map lower_char s"

lemma lower_char_idem [simp]: "lower_char (lower_char c) = lower_char c"
proof (cases "map_of lower_table c")
  case None
  then show ?thesis by (simp add: lower_char_def)
next
  case (Some d)
  then have "d \<in> set (map snd lower_table)" by (metis map_of_SomeD in_set_zipE set_zip_rightD zip_map_fst_snd)
  moreover have "\<forall>d \<in> set (map snd lower_table). map_of lower_table d = None"
    by (simp add: lower_table_def)
  ultimately have "map_of lower_table d = None" by blast
  with Some show ?thesis by (simp add: lower_char_def)
qed

lemma lower_idem [simp]: "lower (lower s) = lower s"
  by (simp add: lower_def)

text \<open>\<open>s or d\<close>.\<close>

definition or_default :: "string \<Rightarrow> string \<Rightarrow> string" where
  "or_default d s = (if s = [] then d else s)"

lemma strip_Nil [simp]: "strip [] = []"
  by (simp add: strip_def)

lemma lower_Nil [simp]: "lower [] = []"
  by (simp add: lower_def)

text \<open>The four spellings the settings accept for \<open>true\<close>.\<close>

definition truthy_words :: "string list" where
  "truthy_words = [''1'', ''true'', ''yes'', ''on'']"

definition truthy_text :: "string \<Rightarrow> bool" where
  "truthy_text s \<longleftrightarrow> lower (strip s) \<in> set truthy_words"

lemma truthy_text_simps [simp]:
  "truthy_text ''true''" "truthy_text ''1''" "\<not> truthy_text ''false''" "\<not> truthy_text []"
  by (simp_all add: truthy_text_def truthy_words_def strip_def lower_def lower_char_def
        lower_table_def is_space_def)

section \<open>Decimal digits\<close>

definition is_digit :: "char \<Rightarrow> bool" where
  "is_digit c \<longleftrightarrow> c \<in> set ''0123456789''"

definition digit_char :: "nat \<Rightarrow> char" where
  "digit_char n = ''0123456789'' ! n"

definition digit_val :: "char \<Rightarrow> nat" where
  "digit_val c = length (takeWhile (\<lambda>d. d \<noteq> c) ''0123456789'')"

definition digits_val :: "string \<Rightarrow> nat" where
  "digits_val ds = foldl (\<lambda>a c. 10 * a + digit_val c) 0 ds"

fun nat_str :: "nat \<Rightarrow> string" where
  "nat_str n = (if n < 10 then [digit_char n] else nat_str (n div 10) @ [digit_char (n mod 10)])"

declare nat_str.simps [simp del]

text \<open>Python's \<open>str\<close> of an integer.\<close>

definition int_str :: "int \<Rightarrow> string" where
  "int_str i = (if i < 0 then CHR ''-'' # nat_str (nat (- i)) else nat_str (nat i))"

lemma less_10_cases:
  "(n::nat) < 10 \<Longrightarrow>
   n = 0 \<or> n = 1 \<or> n = 2 \<or> n = 3 \<or> n = 4 \<or> n = 5 \<or> n = 6 \<or> n = 7 \<or> n = 8 \<or> n = 9"
  by arith

lemma digit_val_char [simp]: "n < 10 \<Longrightarrow> digit_val (digit_char n) = n"
  by (drule less_10_cases) (auto simp: digit_val_def digit_char_def)

lemma is_digit_char [simp]: "n < 10 \<Longrightarrow> is_digit (digit_char n)"
  by (drule less_10_cases) (auto simp: is_digit_def digit_char_def)

lemma digits_val_nat_str [simp]: "digits_val (nat_str n) = n"
proof (induction n rule: nat_str.induct)
  case (1 n)
  show ?case
  proof (cases "n < 10")
    case True
    then show ?thesis by (simp add: nat_str.simps [of n] digits_val_def)
  next
    case False
    with "1.IH" have "digits_val (nat_str (n div 10)) = n div 10" by simp
    with False show ?thesis by (simp add: nat_str.simps [of n] digits_val_def)
  qed
qed

lemma nat_str_digits: "c \<in> set (nat_str n) \<Longrightarrow> is_digit c"
proof (induction n rule: nat_str.induct)
  case (1 n)
  then show ?case by (subst (asm) (2) nat_str.simps) (auto split: if_splits)
qed

lemma nat_str_nonempty [simp]: "nat_str n \<noteq> []"
  by (subst nat_str.simps) simp

lemma nat_str_inj: "nat_str m = nat_str n \<Longrightarrow> m = n"
  by (metis digits_val_nat_str)

lemma int_str_nonempty [simp]: "int_str i \<noteq> []"
  by (simp add: int_str_def)

lemma nat_str_no_minus [simp]: "nat_str n \<noteq> CHR ''-'' # xs" "CHR ''-'' # xs \<noteq> nat_str n"
proof -
  have "CHR ''-'' \<notin> set (nat_str n)"
    using nat_str_digits [of "CHR ''-''" n] by (auto simp: is_digit_def)
  then show "nat_str n \<noteq> CHR ''-'' # xs" "CHR ''-'' # xs \<noteq> nat_str n"
    by (metis list.set_intros(1))+
qed

lemma int_str_inj: "int_str i = int_str j \<Longrightarrow> i = j"
  by (auto simp: int_str_def split: if_splits dest!: nat_str_inj)

lemma int_str_chars: "c \<in> set (int_str i) \<Longrightarrow> is_digit c \<or> c = CHR ''-''"
  by (auto simp: int_str_def dest: nat_str_digits split: if_splits)

section \<open>Separated text\<close>

text \<open>Python's \<open>sep.join(parts)\<close> for a one-character separator.\<close>

fun join_char :: "char \<Rightarrow> string list \<Rightarrow> string" where
  "join_char c [] = []"
| "join_char c [s] = s"
| "join_char c (s # t # ss) = s @ c # join_char c (t # ss)"

lemma split_at_char:
  assumes "c \<notin> set s" "c \<notin> set t" "s @ c # u = t @ c # v"
  shows "s = t \<and> u = v"
  using assms
proof (induction s arbitrary: t)
  case Nil
  then show ?case by (cases t) auto
next
  case (Cons a s)
  then show ?case by (cases t) auto
qed

lemma join_char_Nil_iff: "(\<And>s. s \<in> set xs \<Longrightarrow> s \<noteq> []) \<Longrightarrow> join_char c xs = [] \<longleftrightarrow> xs = []"
  by (cases "(c, xs)" rule: join_char.cases) auto

lemma join_char_Cons:
  "join_char c (s # ss) = (if ss = [] then s else s @ c # join_char c ss)"
  by (cases ss) auto

lemma join_char_inj:
  assumes "\<And>s. s \<in> set xs \<Longrightarrow> s \<noteq> [] \<and> c \<notin> set s" "\<And>s. s \<in> set ys \<Longrightarrow> s \<noteq> [] \<and> c \<notin> set s"
    and "join_char c xs = join_char c ys"
  shows "xs = ys"
  using assms
proof (induction xs arbitrary: ys)
  case Nil
  then show ?case by (metis join_char.simps(1) join_char_Nil_iff)
next
  case (Cons s ss)
  then obtain t ts where ys: "ys = t # ts"
    by (metis join_char_Nil_iff list.exhaust list.simps(3))
  have free: "c \<notin> set s" "c \<notin> set t" using Cons.prems ys by auto
  have eq: "(if ss = [] then s else s @ c # join_char c ss)
          = (if ts = [] then t else t @ c # join_char c ts)"
    using Cons.prems(3) ys by (simp add: join_char_Cons)
  show ?case
  proof (cases "ss = [] \<or> ts = []")
    case True
    with eq free show ?thesis by (auto simp: ys split: if_splits)
  next
    case False
    with eq have "s @ c # join_char c ss = t @ c # join_char c ts" by simp
    then have "s = t \<and> join_char c ss = join_char c ts" by (rule split_at_char [OF free])
    moreover from this have "ss = ts" using Cons.prems ys by (intro Cons.IH) auto
    ultimately show ?thesis by (simp add: ys)
  qed
qed

section \<open>int(text)\<close>

text \<open>
  A digit part: digits with single underscores between them, as \<open>int\<close> and \<open>float\<close> accept.
  The result is the digits read and the rest of the text.
\<close>

fun scan_digits :: "string \<Rightarrow> string \<times> string" where
  "scan_digits [] = ([], [])"
| "scan_digits (c # cs) =
     (if is_digit c then
        (case cs of
           d # e # es \<Rightarrow>
             if d = CHR ''_'' \<and> is_digit e
             then (let (ds, r) = scan_digits (e # es) in (c # ds, r))
             else (let (ds, r) = scan_digits cs in (c # ds, r))
         | _ \<Rightarrow> (let (ds, r) = scan_digits cs in (c # ds, r)))
      else ([], c # cs))"

definition split_sign :: "string \<Rightarrow> bool \<times> string" where
  "split_sign s = (case s of
     c # cs \<Rightarrow> if c = CHR ''-'' then (True, cs) else if c = CHR ''+'' then (False, cs) else (False, s)
   | [] \<Rightarrow> (False, []))"

text \<open>\<open>int(text)\<close>; \<open>None\<close> is the \<open>ValueError\<close>.\<close>

definition py_int :: "string \<Rightarrow> int option" where
  "py_int s =
     (let (neg, u) = split_sign (strip s); (ds, r) = scan_digits u
      in if ds = [] \<or> r \<noteq> [] then None
         else Some (if neg then - int (digits_val ds) else int (digits_val ds)))"

lemma strip_digits: "(\<And>c. c \<in> set s \<Longrightarrow> \<not> is_space c) \<Longrightarrow> strip s = s"
proof -
  assume ns: "\<And>c. c \<in> set s \<Longrightarrow> \<not> is_space c"
  then have "dropWhile is_space s = s" by (cases s) auto
  moreover have "dropWhile is_space (rev s) = rev s" using ns by (cases "rev s") (auto simp: rev_eq_Cons_iff)
  ultimately show ?thesis by (simp add: strip_def)
qed

lemma digit_not_space: "is_digit c \<Longrightarrow> \<not> is_space c" "is_digit c \<Longrightarrow> c \<noteq> CHR ''_''"
  by (auto simp: is_digit_def is_space_def)

lemma scan_all_digits: "(\<And>c. c \<in> set s \<Longrightarrow> is_digit c) \<Longrightarrow> scan_digits s = (s, [])"
  by (induction s rule: scan_digits.induct)
     (auto simp: digit_not_space split: list.splits)

lemma split_sign_nat_str [simp]: "split_sign (nat_str n) = (False, nat_str n)"
proof -
  have "hd (nat_str n) \<in> set (nat_str n)" by simp
  then have "is_digit (hd (nat_str n))" by (rule nat_str_digits)
  then show ?thesis by (cases "nat_str n") (auto simp: split_sign_def is_digit_def)
qed

text \<open>\<open>int(str(i)) = i\<close>.\<close>

lemma py_int_int_str [simp]: "py_int (int_str i) = Some i"
proof -
  have scan: "scan_digits (nat_str n) = (nat_str n, [])" for n
    by (rule scan_all_digits) (rule nat_str_digits)
  have "strip (int_str i) = int_str i"
    by (rule strip_digits) (auto simp: is_space_def dest!: int_str_chars digit_not_space(1))
  then show ?thesis
    by (auto simp: py_int_def int_str_def scan) (auto simp: split_sign_def scan)
qed

text \<open>
  SQLite's \<open>CAST(text AS INTEGER)\<close>: the longest integer prefix after leading blanks, 0 without
  one.
\<close>

definition sql_cast_int :: "string \<Rightarrow> int" where
  "sql_cast_int s =
     (let (neg, u) = split_sign (dropWhile is_space s);
          n = int (digits_val (takeWhile is_digit u))
      in if neg then - n else n)"

lemma sql_cast_int_str [simp]: "sql_cast_int (int_str i) = i"
proof -
  have all: "takeWhile is_digit (nat_str n) = nat_str n" for n
    by (simp add: takeWhile_eq_all_conv) (auto dest: nat_str_digits)
  have "\<not> is_space (hd (int_str i))"
    using int_str_chars [of "hd (int_str i)" i] digit_not_space(1) by (auto simp: is_space_def)
  then have "dropWhile is_space (int_str i) = int_str i" by (cases "int_str i") auto
  then show ?thesis
    by (auto simp: sql_cast_int_def int_str_def all) (auto simp: split_sign_def all)
qed

section \<open>float(text) and int(float)\<close>

datatype pyfloat = Finite rat | PosInf | NegInf | NaN

definition scale10 :: "rat \<Rightarrow> int \<Rightarrow> rat" where
  "scale10 q e = (if 0 \<le> e then q * 10 ^ nat e else q / 10 ^ nat (- e))"

definition scan_exponent :: "string \<Rightarrow> int option" where
  "scan_exponent s = (case s of
     [] \<Rightarrow> Some 0
   | c # cs \<Rightarrow>
       if c = CHR ''e'' then
         (let (neg, u) = split_sign cs; (ds, r) = scan_digits u
          in if ds = [] \<or> r \<noteq> [] then None
             else Some (if neg then - int (digits_val ds) else int (digits_val ds)))
       else None)"

definition py_float :: "string \<Rightarrow> pyfloat option" where
  "py_float s =
     (let (neg, u) = split_sign (lower (strip s)) in
      if u = ''inf'' \<or> u = ''infinity'' then Some (if neg then NegInf else PosInf)
      else if u = ''nan'' then Some NaN
      else
        (let (ip, r1) = scan_digits u;
             (fp, r2) = (case r1 of c # r \<Rightarrow> if c = CHR ''.'' then scan_digits r else ([], r1)
                                  | [] \<Rightarrow> ([], []))
         in if ip = [] \<and> fp = [] then None
            else (case scan_exponent r2 of
                None \<Rightarrow> None
              | Some e \<Rightarrow>
                  (let q = scale10 (of_nat (digits_val (ip @ fp))) (e - int (length fp))
                   in Some (Finite (if neg then - q else q))))))"

text \<open>
  \<open>int(x)\<close> of a float rounds towards zero; infinities raise \<open>OverflowError\<close> and \<open>nan\<close> raises
  \<open>ValueError\<close>.
\<close>

definition trunc_rat :: "rat \<Rightarrow> int" where
  "trunc_rat q = (if 0 \<le> q then \<lfloor>q\<rfloor> else \<lceil>q\<rceil>)"

definition py_int_of_float :: "pyfloat \<Rightarrow> exn + int" where
  "py_int_of_float x = (case x of
     Finite q \<Rightarrow> Inr (trunc_rat q)
   | PosInf \<Rightarrow> Inl OverflowError
   | NegInf \<Rightarrow> Inl OverflowError
   | NaN \<Rightarrow> Inl (ValueError ''cannot convert float NaN to integer''))"

text \<open>
  \<open>int(float(text))\<close> under \<open>except (TypeError, ValueError): default\<close>, the idiom of the
  settings readers: a text that is not a number and \<open>nan\<close> give the default, an infinity
  escapes as \<open>OverflowError\<close>.
\<close>

definition int_float_or :: "string \<Rightarrow> int \<Rightarrow> exn + int" where
  "int_float_or s dflt = (case py_float s of
     None \<Rightarrow> Inr dflt
   | Some x \<Rightarrow> (case py_int_of_float x of
       Inr i \<Rightarrow> Inr i
     | Inl (ValueError _) \<Rightarrow> Inr dflt
     | Inl e \<Rightarrow> Inl e))"

lemma int_float_or_total:
  "py_float s \<notin> {Some PosInf, Some NegInf} \<Longrightarrow> \<exists>i. int_float_or s d = Inr i"
  by (auto simp: int_float_or_def py_int_of_float_def split: option.splits pyfloat.splits)

lemma int_float_or_Inl: "int_float_or s d = Inl e \<Longrightarrow> e = OverflowError"
  by (auto simp: int_float_or_def py_int_of_float_def split: option.splits pyfloat.splits)

end
