(* ===== verification/Database.thy ===== *)
theory Database
  imports Py_Text "HOL-Library.AList"
begin

text \<open>
  The SQLite database as the modelled code sees it (\<open>app/db.py\<close> declares the tables) and one
  Python \<open>sqlite3\<close> connection to it. A table is the list of its rows in rowid order; columns
  that only display code reads are left out. A timestamp column holds seconds since the epoch;
  \<open>CURRENT_TIMESTAMP\<close> has a resolution of one second.
\<close>

section \<open>Columns\<close>

text \<open>The \<open>status\<close> texts of \<open>queue_items\<close>, \<open>ad_break_items\<close> and \<open>schedule_items\<close>.\<close>

datatype item_status = Pending | Playing | Done | Failed | Missed

fun status_text :: "item_status \<Rightarrow> string" where
  "status_text Pending = ''pending''"
| "status_text Playing = ''playing''"
| "status_text Done = ''done''"
| "status_text Failed = ''failed''"
| "status_text Missed = ''missed''"

lemma status_text_inj: "status_text a = status_text b \<Longrightarrow> a = b"
  by (cases a; cases b) auto

text \<open>
  \<open>started_at\<close> of a queue or ad row: \<open>NULL\<close> or empty, a UTC time, or text that neither
  \<open>strptime\<close> nor \<open>fromisoformat\<close> reads.
\<close>

datatype stamp = NullStamp | At rat | Garbled

definition current_timestamp :: "rat \<Rightarrow> rat" where
  "current_timestamp now = of_int \<lfloor>now\<rfloor>"

lemma current_timestamp_le: "current_timestamp now \<le> now" "now < current_timestamp now + 1"
  using floor_correct [of now] by (simp_all add: current_timestamp_def)

datatype show_status =
    Preparing | GoingLive | IntroPlaying | Live | BreakOutro | OnBreak | BreakIntro | OutroPlaying
  | Ended

section \<open>Rows\<close>

record queue_row =
  q_id :: int
  q_station :: int
  q_track :: int
  q_position :: int
  q_status :: item_status
  q_started :: stamp
  q_finished :: "rat option"
  q_dedupe :: "string option"

record track_row =
  t_id :: int
  t_station :: int
  t_title :: string
  t_artist :: string
  t_album :: string
  t_genre :: string
  t_language :: string
  t_duration :: rat
  t_bpm :: rat
  t_type :: string
  t_path :: string
  t_mbid :: string
  t_active :: bool
  t_exclude :: bool
  t_plays :: int
  t_last_played :: "rat option"

text \<open>\<open>due_at\<close> and \<open>play_at\<close> are texts; \<open>None\<close> is a text \<open>datetime()\<close> turns into \<open>NULL\<close>.\<close>

record ad_row =
  ad_id :: int
  ad_station :: int
  ad_track :: int
  ad_due :: "rat option"
  ad_status :: item_status
  ad_priority :: int
  ad_started :: stamp
  ad_finished :: "rat option"
  ad_dedupe :: "string option"

record sched_row =
  sc_id :: int
  sc_station :: int
  sc_track :: int
  sc_play_at :: "rat option"
  sc_window_end :: "rat option option"
  sc_event :: string
  sc_status :: item_status

record host_row =
  h_id :: int
  h_station :: int
  h_track :: int
  h_position :: int

record show_row =
  sh_id :: int
  sh_station :: int
  sh_name :: string
  sh_intro :: "string option"
  sh_outro :: "string option"
  sh_break_outro :: "string option"
  sh_break_intro :: "string option"

record session_row =
  ss_id :: int
  ss_show :: int
  ss_station :: int
  ss_user :: int
  ss_status :: show_status
  ss_started :: "rat option"
  ss_ended :: "rat option"

text \<open>What is on air for a station: \<open>current_source\<close> and \<open>current_item_id\<close>.\<close>

type_synonym playout = "string \<times> int option"

record transition_row =
  tr_station :: int
  tr_from :: playout
  tr_to :: playout
  tr_reason :: string

section \<open>The database\<close>

record db =
  stations :: "(int \<times> string) list"
  queue_items :: "queue_row list"
  tracks :: "track_row list"
  ads :: "ad_row list"
  schedules :: "sched_row list"
  host_items :: "host_row list"
  playlist_items :: "(int \<times> int) list"
  show_rows :: "show_row list"
  sessions :: "session_row list"
  playout_states :: "(int \<times> playout) list"
  transitions :: "transition_row list"
  station_settings :: "int \<Rightarrow> string \<Rightarrow> string option"
  system_settings :: "string \<Rightarrow> string option"
  leases :: "int \<Rightarrow> (string \<times> rat option) option"

text \<open>The schema with no row in it.\<close>

definition empty_db :: db where
  "empty_db = \<lparr>stations = [], queue_items = [], tracks = [], ads = [], schedules = [],
     host_items = [], playlist_items = [], show_rows = [], sessions = [],
     playout_states = [], transitions = [], station_settings = (\<lambda>_ _. None),
     system_settings = (\<lambda>_. None), leases = (\<lambda>_. None)\<rparr>"

lemma empty_db_simps [simp]:
  "stations empty_db = []" "queue_items empty_db = []" "tracks empty_db = []" "ads empty_db = []"
  "schedules empty_db = []" "host_items empty_db = []" "playlist_items empty_db = []"
  "show_rows empty_db = []" "sessions empty_db = []" "playout_states empty_db = []"
  "transitions empty_db = []" "station_settings empty_db = (\<lambda>_ _. None)"
  "system_settings empty_db = (\<lambda>_. None)" "leases empty_db = (\<lambda>_. None)"
  by (simp_all add: empty_db_def)

section \<open>Statements\<close>

definition update_where :: "('r \<Rightarrow> bool) \<Rightarrow> ('r \<Rightarrow> 'r) \<Rightarrow> 'r list \<Rightarrow> 'r list" where
  "update_where P f rows = map (\<lambda>r. if P r then f r else r) rows"

definition delete_where :: "('r \<Rightarrow> bool) \<Rightarrow> 'r list \<Rightarrow> 'r list" where
  "delete_where P rows = filter (\<lambda>r. \<not> P r) rows"

definition rowcount :: "('r \<Rightarrow> bool) \<Rightarrow> 'r list \<Rightarrow> nat" where
  "rowcount P rows = length (filter P rows)"

text \<open>The id SQLite gives a new row of an \<open>INTEGER PRIMARY KEY\<close> table.\<close>

definition next_rowid :: "int list \<Rightarrow> int" where
  "next_rowid ids = (if ids = [] then 1 else max_or_zero ids + 1)"

lemma next_rowid_fresh: "next_rowid ids \<notin> set ids"
  using max_or_zero_ge [of "next_rowid ids" ids] by (auto simp: next_rowid_def split: if_splits)

lemma next_rowid_greater: "i \<in> set ids \<Longrightarrow> i < next_rowid ids"
  using max_or_zero_ge [of i ids] by (auto simp: next_rowid_def)

lemma length_update_where [simp]: "length (update_where P f rows) = length rows"
  by (simp add: update_where_def)

lemma map_update_where [simp]:
  "(\<And>r. g (f r) = g r) \<Longrightarrow> map g (update_where P f rows) = map g rows"
  by (auto simp: update_where_def)

lemma set_update_where: "set (update_where P f rows) = (\<lambda>r. if P r then f r else r) ` set rows"
  by (simp add: update_where_def)

lemma set_delete_where [simp]: "set (delete_where P rows) = {r \<in> set rows. \<not> P r}"
  by (auto simp: delete_where_def)

lemma update_where_Nil [simp]: "update_where P f [] = []"
  by (simp add: update_where_def)

lemma update_where_Cons [simp]:
  "update_where P f (r # rs) = (if P r then f r else r) # update_where P f rs"
  by (simp add: update_where_def)

lemma update_where_append [simp]:
  "update_where P f (rs @ rs') = update_where P f rs @ update_where P f rs'"
  by (simp add: update_where_def)

lemma update_where_none: "(\<And>r. r \<in> set rows \<Longrightarrow> \<not> P r) \<Longrightarrow> update_where P f rows = rows"
  by (simp add: update_where_def map_idI)

lemma ball_update_where:
  "(\<forall>r \<in> set (update_where P f rows). Q r) \<longleftrightarrow> (\<forall>r \<in> set rows. Q (if P r then f r else r))"
  by (simp only: set_update_where ball_simps)

lemma filter_update_where:
  "(\<And>r. Q (f r) = Q r) \<Longrightarrow> filter Q (update_where P f rows) = update_where P f (filter Q rows)"
  by (induction rows) auto

lemma bex_update_where:
  "(\<exists>r \<in> set (update_where P f rows). Q r) \<longleftrightarrow> (\<exists>r \<in> set rows. Q (if P r then f r else r))"
  by (simp only: set_update_where bex_simps)

lemma find_SomeD: "find P xs = Some x \<Longrightarrow> x \<in> set xs \<and> P x"
  by (induction xs) (auto split: if_splits)

lemma find_update_where:
  "(\<And>u. u_id (f u) = u_id u) \<Longrightarrow>
   find (\<lambda>u. u_id u = i) (update_where P f us) = map_option (\<lambda>u. if P u then f u else u) (find (\<lambda>u. u_id u = i) us)"
  by (induction us) auto

section \<open>Connections\<close>

text \<open>
  \<open>disk\<close> is what other connections read, \<open>work\<close> what this one reads; they differ only inside a
  transaction. With the default isolation level of \<open>sqlite3\<close> the first data-changing statement
  opens a transaction, and \<open>BEGIN IMMEDIATE\<close> inside one raises \<open>OperationalError\<close>. Waiting for
  another process's write lock is not modelled.
\<close>

record 'd connection =
  disk :: 'd
  work :: 'd
  in_tx :: bool

type_synonym conn = "db connection"

definition dml :: "('d \<Rightarrow> 'd) \<Rightarrow> 'd connection \<Rightarrow> 'd connection" where
  "dml g c = c\<lparr>work := g (work c), in_tx := True\<rparr>"

definition commit :: "'d connection \<Rightarrow> 'd connection" where
  "commit c = c\<lparr>disk := work c, in_tx := False\<rparr>"

definition rollback :: "'d connection \<Rightarrow> 'd connection" where
  "rollback c = c\<lparr>work := disk c, in_tx := False\<rparr>"

definition begin_immediate :: "('d connection, unit) prog" where
  "begin_immediate c = (if in_tx c then (Inl OperationalError, c) else (Inr (), c\<lparr>in_tx := True\<rparr>))"

definition open_conn :: "'d \<Rightarrow> 'd connection" where
  "open_conn d = \<lparr>disk = d, work = d, in_tx = False\<rparr>"

text \<open>Outside a transaction a connection reads what is on disk.\<close>

definition conn_ok :: "'d connection \<Rightarrow> bool" where
  "conn_ok c \<longleftrightarrow> (in_tx c \<or> work c = disk c)"

lemma conn_simps [simp]:
  "work (dml g c) = g (work c)" "disk (dml g c) = disk c" "in_tx (dml g c)"
  "work (commit c) = work c" "disk (commit c) = work c" "\<not> in_tx (commit c)"
  "work (rollback c) = disk c" "disk (rollback c) = disk c" "\<not> in_tx (rollback c)"
  "work (open_conn d) = d" "disk (open_conn d) = d" "\<not> in_tx (open_conn d)"
  by (simp_all add: dml_def commit_def rollback_def open_conn_def)

lemma conn_ok_simps [simp]:
  "conn_ok (dml g c)" "conn_ok (commit c)" "conn_ok (rollback c)" "conn_ok (open_conn d)"
  by (simp_all add: conn_ok_def)

lemma rollback_idle: "conn_ok c \<Longrightarrow> \<not> in_tx c \<Longrightarrow> rollback c = c"
  by (simp add: conn_ok_def rollback_def)

lemma begin_immediate_cases:
  "in_tx c \<Longrightarrow> begin_immediate c = (Inl OperationalError, c)"
  "\<not> in_tx c \<Longrightarrow> begin_immediate c = (Inr (), c\<lparr>in_tx := True\<rparr>)"
  by (simp_all add: begin_immediate_def)

section \<open>The queue table and its partial unique index\<close>

definition q_active :: "queue_row \<Rightarrow> bool" where
  "q_active r \<longleftrightarrow> q_status r = Pending \<or> q_status r = Playing"

text \<open>
  \<open>idx_queue_active_dedupe\<close>: one pending or playing row per station and dedupe key, for keys
  that are not blank.
\<close>

definition index_key :: "queue_row \<Rightarrow> (int \<times> string) option" where
  "index_key r = (case q_dedupe r of
     None \<Rightarrow> None
   | Some k \<Rightarrow> if q_active r \<and> sql_trim k \<noteq> [] then Some (q_station r, k) else None)"

definition index_keys :: "queue_row list \<Rightarrow> (int \<times> string) list" where
  "index_keys rows = concat (map (\<lambda>r. case index_key r of None \<Rightarrow> [] | Some k \<Rightarrow> [k]) rows)"

definition queue_index_ok :: "queue_row list \<Rightarrow> bool" where
  "queue_index_ok rows \<longleftrightarrow> distinct (index_keys rows)"

text \<open>Rowids are unique and the index holds: what SQLite keeps true of the table.\<close>

definition queue_ok :: "queue_row list \<Rightarrow> bool" where
  "queue_ok rows \<longleftrightarrow> distinct (map q_id rows) \<and> queue_index_ok rows"

text \<open>
  A statement that may violate the index: it fails as a whole with \<open>IntegrityError\<close>, leaving
  the transaction it opened open.
\<close>

definition queue_dml :: "(queue_row list \<Rightarrow> queue_row list) \<Rightarrow> (conn, unit) prog" where
  "queue_dml f c =
     (if queue_index_ok (f (queue_items (work c)))
      then (Inr (), dml (queue_items_update f) c)
      else (Inl IntegrityError, dml id c))"

definition new_queue_row :: "int \<Rightarrow> int \<Rightarrow> int \<Rightarrow> string option \<Rightarrow> queue_row list \<Rightarrow> queue_row" where
  "new_queue_row st track pos key rows =
     \<lparr>q_id = next_rowid (map q_id rows), q_station = st, q_track = track, q_position = pos,
      q_status = Pending, q_started = NullStamp, q_finished = None, q_dedupe = key\<rparr>"

definition insert_queue_row :: "int \<Rightarrow> int \<Rightarrow> int \<Rightarrow> string option \<Rightarrow> queue_row list \<Rightarrow> queue_row list" where
  "insert_queue_row st track pos key rows = rows @ [new_queue_row st track pos key rows]"

lemma new_queue_row_simps [simp]:
  "q_id (new_queue_row st t p k rows) = next_rowid (map q_id rows)"
  "q_station (new_queue_row st t p k rows) = st" "q_track (new_queue_row st t p k rows) = t"
  "q_position (new_queue_row st t p k rows) = p" "q_status (new_queue_row st t p k rows) = Pending"
  "q_dedupe (new_queue_row st t p k rows) = k" "q_started (new_queue_row st t p k rows) = NullStamp"
  by (simp_all add: new_queue_row_def)

text \<open>\<open>INSERT OR IGNORE\<close>: a row the index refuses is dropped; the result is the row count.\<close>

definition insert_or_ignore ::
  "int \<Rightarrow> int \<Rightarrow> int \<Rightarrow> string option \<Rightarrow> (conn, nat) prog" where
  "insert_or_ignore st track pos key c =
     (if queue_index_ok (insert_queue_row st track pos key (queue_items (work c)))
      then (Inr 1, dml (queue_items_update (insert_queue_row st track pos key)) c)
      else (Inr 0, dml id c))"

lemma index_keys_simps [simp]:
  "index_keys [] = []"
  "index_keys (r # rs) = (case index_key r of None \<Rightarrow> [] | Some k \<Rightarrow> [k]) @ index_keys rs"
  "index_keys (rs @ rs') = index_keys rs @ index_keys rs'"
  by (simp_all add: index_keys_def)

lemma set_index_keys: "set (index_keys rows) = {k. \<exists>r \<in> set rows. index_key r = Some k}"
  by (auto simp: index_keys_def split: option.splits)

lemma index_keys_filter_sub: "distinct (index_keys rows) \<Longrightarrow> distinct (index_keys (filter P rows))"
proof (induction rows)
  case (Cons r rows)
  have "set (index_keys (filter P rows)) \<subseteq> set (index_keys rows)"
    by (auto simp: set_index_keys)
  with Cons show ?case by (auto split: option.splits)
qed simp

lemma queue_ok_delete [intro]: "queue_ok rows \<Longrightarrow> queue_ok (delete_where P rows)"
  by (simp add: queue_ok_def queue_index_ok_def delete_where_def index_keys_filter_sub
        distinct_map_filter)

text \<open>An update that keeps or ends the activity of rows keeps the index.\<close>

lemma index_keys_update_where:
  assumes "\<And>r. index_key (f r) = index_key r \<or> index_key (f r) = None"
    and "distinct (index_keys rows)"
  shows "distinct (index_keys (update_where P f rows))"
  using assms(2)
proof (induction rows)
  case (Cons r rows)
  have sub: "set (index_keys (update_where P f rows)) \<subseteq> set (index_keys rows)"
  proof
    fix k
    assume "k \<in> set (index_keys (update_where P f rows))"
    then obtain s where "s \<in> set rows" "index_key (if P s then f s else s) = Some k"
      by (auto simp: set_index_keys set_update_where simp del: if_split)
    then have "index_key s = Some k" using assms(1) [of s] by (cases "P s") simp_all
    then show "k \<in> set (index_keys rows)" using \<open>s \<in> set rows\<close> by (auto simp: set_index_keys)
  qed
  consider "index_key (if P r then f r else r) = None"
    | "index_key (if P r then f r else r) = index_key r"
    using assms(1) [of r] by (cases "P r") auto
  then show ?case using Cons sub by cases (auto split: option.splits simp del: if_split)
qed simp

lemma queue_ok_update [intro]:
  assumes "queue_ok rows" "\<And>r. q_id (f r) = q_id r"
    and "\<And>r. index_key (f r) = index_key r \<or> index_key (f r) = None"
  shows "queue_ok (update_where P f rows)"
  using assms index_keys_update_where [of f rows P]
  by (simp add: queue_ok_def queue_index_ok_def)

lemma queue_ok_insert:
  "queue_ok rows \<Longrightarrow> queue_index_ok (insert_queue_row st t p k rows) \<Longrightarrow>
   queue_ok (insert_queue_row st t p k rows)"
  using next_rowid_fresh [of "map q_id rows"]
  by (simp add: queue_ok_def insert_queue_row_def)

lemma index_key_new [simp]:
  "index_key (new_queue_row st t p k rows) =
   (case k of None \<Rightarrow> None | Some key \<Rightarrow> if sql_trim key \<noteq> [] then Some (st, key) else None)"
  by (simp add: index_key_def q_active_def split: option.split)

lemma queue_index_insert_iff:
  assumes "queue_index_ok rows"
  shows "queue_index_ok (insert_queue_row st t p k rows) \<longleftrightarrow>
    (case k of None \<Rightarrow> True
     | Some key \<Rightarrow> sql_trim key = [] \<or> (st, key) \<notin> set (index_keys rows))"
  using assms by (cases k) (simp_all add: queue_index_ok_def insert_queue_row_def)

lemma index_key_cong:
  "q_dedupe r' = q_dedupe r \<Longrightarrow> q_station r' = q_station r \<Longrightarrow> q_active r' = q_active r \<Longrightarrow>
   index_key r' = index_key r"
  by (simp add: index_key_def split: option.splits)

lemma index_key_inactive: "\<not> q_active r \<Longrightarrow> index_key r = None"
  by (simp add: index_key_def split: option.splits)

end
