(* ===== verification/Sha256.thy ===== *)
theory Sha256
  imports Py_Text "HOL-Library.Word"
begin

text \<open>
  SHA-256 as \<open>hashlib.sha256(text.encode("utf-8")).hexdigest()\<close> computes it (FIPS 180-4), on
  ASCII text. The queue's optimistic-concurrency token, the audit chain, the replication journal
  and the autoplay shuffle all rest on it.
\<close>

unbundle bit_operations_syntax

type_synonym w32 = "32 word"

definition k256 :: "w32 list" where
  "k256 = [
    1116352408, 1899447441, 3049323471, 3921009573, 961987163, 1508970993, 2453635748, 2870763221,
    3624381080, 310598401, 607225278, 1426881987, 1925078388, 2162078206, 2614888103, 3248222580,
    3835390401, 4022224774, 264347078, 604807628, 770255983, 1249150122, 1555081692, 1996064986,
    2554220882, 2821834349, 2952996808, 3210313671, 3336571891, 3584528711, 113926993, 338241895,
    666307205, 773529912, 1294757372, 1396182291, 1695183700, 1986661051, 2177026350, 2456956037,
    2730485921, 2820302411, 3259730800, 3345764771, 3516065817, 3600352804, 4094571909, 275423344,
    430227734, 506948616, 659060556, 883997877, 958139571, 1322822218, 1537002063, 1747873779,
    1955562222, 2024104815, 2227730452, 2361852424, 2428436474, 2756734187, 3204031479, 3329325298]"

definition h256 :: "w32 list" where
  "h256 = [1779033703, 3144134277, 1013904242, 2773480762,
           1359893119, 2600822924, 528734635, 1541459225]"

definition rotr :: "nat \<Rightarrow> w32 \<Rightarrow> w32" where
  "rotr n x = (drop_bit n x) OR (push_bit (32 - n) x)"

definition sigma_big :: "nat \<Rightarrow> nat \<Rightarrow> nat \<Rightarrow> w32 \<Rightarrow> w32" where
  "sigma_big a b c x = rotr a x XOR rotr b x XOR rotr c x"

definition sigma_small :: "nat \<Rightarrow> nat \<Rightarrow> nat \<Rightarrow> w32 \<Rightarrow> w32" where
  "sigma_small a b c x = rotr a x XOR rotr b x XOR drop_bit c x"

definition word_of_bytes :: "int list \<Rightarrow> w32" where
  "word_of_bytes bs = word_of_int (foldl (\<lambda>a b. 256 * a + b) 0 bs)"

definition bytes_of :: "nat \<Rightarrow> int \<Rightarrow> int list" where
  "bytes_of n v = map (\<lambda>i. v div 256 ^ i mod 256) (rev [0..<n])"

definition pad_message :: "string \<Rightarrow> int list" where
  "pad_message s =
     (let n = length s; z = (119 - n mod 64) mod 64
      in map of_char s @ [128] @ replicate z 0 @ bytes_of 8 (8 * int n))"

fun chunks :: "nat \<Rightarrow> 'a list \<Rightarrow> 'a list list" where
  "chunks n [] = []"
| "chunks n (x # xs) =
     (if n = 0 then [x # xs] else take n (x # xs) # chunks n (drop n (x # xs)))"

text \<open>The message schedule is kept newest first.\<close>

fun extend_schedule :: "nat \<Rightarrow> w32 list \<Rightarrow> w32 list" where
  "extend_schedule 0 ws = ws"
| "extend_schedule (Suc n) ws =
     extend_schedule n
       ((sigma_small 17 19 10 (ws ! 1) + ws ! 6 + sigma_small 7 18 3 (ws ! 14) + ws ! 15) # ws)"

type_synonym regs = "w32 \<times> w32 \<times> w32 \<times> w32 \<times> w32 \<times> w32 \<times> w32 \<times> w32"

fun sha_round :: "regs \<Rightarrow> w32 \<times> w32 \<Rightarrow> regs" where
  "sha_round (a, b, c, d, e, f, g, h) (k, w) =
     (let t1 = h + sigma_big 6 11 25 e + ((e AND f) XOR ((NOT e) AND g)) + k + w;
          t2 = sigma_big 2 13 22 a + ((a AND b) XOR (a AND c) XOR (b AND c))
      in (t1 + t2, a, b, c, d + t1, e, f, g))"

definition regs_of :: "w32 list \<Rightarrow> regs" where
  "regs_of hs = (hs ! 0, hs ! 1, hs ! 2, hs ! 3, hs ! 4, hs ! 5, hs ! 6, hs ! 7)"

fun regs_list :: "regs \<Rightarrow> w32 list" where
  "regs_list (a, b, c, d, e, f, g, h) = [a, b, c, d, e, f, g, h]"

definition compress :: "w32 list \<Rightarrow> int list \<Rightarrow> w32 list" where
  "compress hs block =
     (let ws = rev (extend_schedule 48 (rev (map word_of_bytes (chunks 4 block))))
      in map2 (+) hs (regs_list (foldl sha_round (regs_of hs) (zip k256 ws))))"

definition sha256_words :: "string \<Rightarrow> w32 list" where
  "sha256_words s = foldl compress h256 (chunks 64 (pad_message s))"

definition hex_digit :: "nat \<Rightarrow> char" where
  "hex_digit n = ''0123456789abcdef'' ! n"

definition hex_word :: "w32 \<Rightarrow> string" where
  "hex_word w = map (\<lambda>i. hex_digit (nat (uint w div 16 ^ i mod 16))) (rev [0..<8])"

text \<open>\<open>hexdigest()\<close>.\<close>

definition sha256 :: "string \<Rightarrow> string" where
  "sha256 s = concat (map hex_word (sha256_words s))"

lemma length_regs_list [simp]: "length (regs_list r) = 8"
  by (cases r rule: regs_list.cases) simp

lemma length_compress: "length hs = 8 \<Longrightarrow> length (compress hs b) = 8"
  by (simp add: compress_def Let_def)

lemma length_foldl_compress: "length hs = 8 \<Longrightarrow> length (foldl compress hs bs) = 8"
  by (induction bs arbitrary: hs) (auto simp: length_compress)

lemma length_sha256 [simp]: "length (sha256 s) = 64"
proof -
  have eight: "length (sha256_words s) = 8"
    unfolding sha256_words_def by (rule length_foldl_compress) (simp add: h256_def)
  have "length (concat (map hex_word ws)) = 8 * length ws" for ws
    by (induction ws) (simp_all add: hex_word_def)
  with eight show ?thesis by (simp add: sha256_def)
qed

lemma sha256_hex: "c \<in> set (sha256 s) \<Longrightarrow> c \<in> set ''0123456789abcdef''"
proof -
  have "hex_digit n \<in> set ''0123456789abcdef''" if "n < 16" for n
    using nth_mem [of n "''0123456789abcdef''"] that by (simp add: hex_digit_def)
  then have "hex_digit (nat (z mod 16)) \<in> set ''0123456789abcdef''" for z :: int
    by (simp add: nat_less_iff)
  then show "c \<in> set (sha256 s) \<Longrightarrow> ?thesis" by (auto simp: sha256_def hex_word_def simp del: set_simps)
qed

end
