(* ===== verification/Queue_Repo.thy ===== *)
theory Queue_Repo
  imports Database Sha256
begin

text \<open>
  \<open>QueueRepository\<close> (\<open>app/repositories/queue_repo.py\<close>): the broadcast queue of a station over
  the table \<open>queue_items\<close>, with the operator's optimistic-concurrency token, the dedupe rule, the
  reordering operations and the two-phase skip. Queries are functions of the database, operations
  are programs over a connection.
\<close>

section \<open>Queries\<close>

definition track_of :: "int \<Rightarrow> db \<Rightarrow> track_row option" where
  "track_of tid d = find (\<lambda>t. t_id t = tid) (tracks d)"

text \<open>The joined columns, with the \<open>COALESCE\<close> defaults of the queries.\<close>

definition row_title :: "db \<Rightarrow> queue_row \<Rightarrow> string" where
  "row_title d r = (case track_of (q_track r) d of None \<Rightarrow> [] | Some t \<Rightarrow> t_title t)"

definition row_artist :: "db \<Rightarrow> queue_row \<Rightarrow> string" where
  "row_artist d r = (case track_of (q_track r) d of None \<Rightarrow> [] | Some t \<Rightarrow> t_artist t)"

definition row_duration :: "db \<Rightarrow> queue_row \<Rightarrow> rat" where
  "row_duration d r = (case track_of (q_track r) d of None \<Rightarrow> 0 | Some t \<Rightarrow> t_duration t)"

definition row_track_type :: "db \<Rightarrow> queue_row \<Rightarrow> string" where
  "row_track_type d r = (case track_of (q_track r) d of None \<Rightarrow> ''music'' | Some t \<Rightarrow> t_type t)"

definition order_key :: "queue_row \<Rightarrow> int \<times> int" where
  "order_key r = (q_position r, q_id r)"

definition active_at :: "int \<Rightarrow> queue_row \<Rightarrow> bool" where
  "active_at st r \<longleftrightarrow> q_station r = st \<and> q_active r"

definition pending_at :: "int \<Rightarrow> queue_row \<Rightarrow> bool" where
  "pending_at st r \<longleftrightarrow> q_station r = st \<and> q_status r = Pending"

definition playing_at :: "int \<Rightarrow> queue_row \<Rightarrow> bool" where
  "playing_at st r \<longleftrightarrow> q_station r = st \<and> q_status r = Playing"

definition first_of :: "'a list \<Rightarrow> 'a option" where
  "first_of xs = (case xs of [] \<Rightarrow> None | x # _ \<Rightarrow> Some x)"

lemma first_of_simps [simp]: "first_of [] = None" "first_of (x # xs) = Some x"
  by (simp_all add: first_of_def)

definition find_by_dedupe_key ::
  "int \<Rightarrow> string option \<Rightarrow> item_status list \<Rightarrow> db \<Rightarrow> queue_row option" where
  "find_by_dedupe_key st key statuses d = (case key of
     None \<Rightarrow> None
   | Some k \<Rightarrow>
       if k = [] \<or> statuses = [] then None
       else first_of (sort_key q_id (filter (\<lambda>r. q_station r = st \<and> q_dedupe r = Some k \<and>
              q_status r \<in> set statuses) (queue_items d))))"

definition list_active_ordered :: "int \<Rightarrow> db \<Rightarrow> queue_row list" where
  "list_active_ordered st d = sort_key order_key (filter (active_at st) (queue_items d))"

text \<open>The query orders by position alone; rows with equal positions come in rowid order.\<close>

definition next_pending :: "int \<Rightarrow> db \<Rightarrow> queue_row option" where
  "next_pending st d = first_of (sort_key order_key (filter (pending_at st) (queue_items d)))"

definition current_playing :: "int \<Rightarrow> db \<Rightarrow> queue_row option" where
  "current_playing st d = first_of (sort_key q_id (filter (playing_at st) (queue_items d)))"

definition clamp_limit :: "int \<Rightarrow> int \<Rightarrow> int \<Rightarrow> nat" where
  "clamp_limit lo hi n = nat (max lo (min n hi))"

definition list_recent :: "int \<Rightarrow> int \<Rightarrow> db \<Rightarrow> queue_row list" where
  "list_recent st limit d =
     take (clamp_limit 1 200 limit)
       (rev (sort_key q_id (filter (\<lambda>r. q_station r = st) (queue_items d))))"

definition list_done_recent :: "int \<Rightarrow> int \<Rightarrow> db \<Rightarrow> queue_row list" where
  "list_done_recent st limit d =
     rev (take (clamp_limit 1 20 limit)
       (rev (sort_key q_id
          (filter (\<lambda>r. q_station r = st \<and> q_status r = Done) (queue_items d)))))"

section \<open>The change sequence\<close>

definition seq_key :: string where
  "seq_key = ''_queue_change_sequence''"

definition change_sequence :: "int \<Rightarrow> db \<Rightarrow> int" where
  "change_sequence st d =
     (case py_int (case station_settings d st seq_key of None \<Rightarrow> ''0'' | Some v \<Rightarrow> v) of
        None \<Rightarrow> 0 | Some n \<Rightarrow> max 0 n)"

definition put_setting :: "int \<Rightarrow> string \<Rightarrow> string \<Rightarrow> db \<Rightarrow> db" where
  "put_setting st k v d =
     d\<lparr>station_settings := (station_settings d)(st := (station_settings d st)(k := Some v))\<rparr>"

definition bump_change_sequence :: "int \<Rightarrow> db \<Rightarrow> db" where
  "bump_change_sequence st d =
     put_setting st seq_key
       (case station_settings d st seq_key of
          None \<Rightarrow> ''1'' | Some v \<Rightarrow> int_str (sql_cast_int v + 1)) d"

section \<open>Enqueueing\<close>

definition next_position :: "int \<Rightarrow> db \<Rightarrow> int" where
  "next_position st d =
     max_or_zero (map q_position (filter (\<lambda>r. q_station r = st) (queue_items d))) + 1"

definition last_rowid :: "conn \<Rightarrow> int" where
  "last_rowid c = q_id (last (queue_items (work c)))"

definition enqueue_or_get_existing ::
  "int \<Rightarrow> int \<Rightarrow> string option \<Rightarrow> bool \<Rightarrow> (conn, int \<times> bool) prog" where
  "enqueue_or_get_existing st track key manage c =
     (let owns = (manage \<and> \<not> in_tx c);
          c1 = (if owns then c\<lparr>in_tx := True\<rparr> else c) in
      case find_by_dedupe_key st key [Pending, Playing] (work c1) of
        Some r \<Rightarrow> (Inr (q_id r, False), if owns then commit c1 else c1)
      | None \<Rightarrow>
          (case queue_dml (insert_queue_row st track (next_position st (work c1)) key) c1 of
             (Inl e, c2) \<Rightarrow> (Inl e, if owns then rollback c2 else c2)
           | (Inr _, c2) \<Rightarrow>
               (let c3 = dml (bump_change_sequence st) c2
                in (Inr (last_rowid c2, True), if owns then commit c3 else c3))))"

definition enqueue :: "int \<Rightarrow> int \<Rightarrow> string option \<Rightarrow> (conn, int) prog" where
  "enqueue st track key =
     bindp (enqueue_or_get_existing st track key True) (\<lambda>(i, _). ret i)"

definition shift_from :: "int \<Rightarrow> int \<Rightarrow> queue_row list \<Rightarrow> queue_row list" where
  "shift_from st pos = update_where (\<lambda>r. active_at st r \<and> pos \<le> q_position r)
     (\<lambda>r. r\<lparr>q_position := q_position r + 1\<rparr>)"

definition insert_before_item_or_get_existing ::
  "int \<Rightarrow> int \<Rightarrow> int \<Rightarrow> string option \<Rightarrow> item_status list \<Rightarrow> (conn, int \<times> bool) prog" where
  "insert_before_item_or_get_existing st before track key statuses c =
     (case find_by_dedupe_key st key statuses (work c) of
        Some r \<Rightarrow> (Inr (q_id r, False), c)
      | None \<Rightarrow>
          (case find (\<lambda>r. active_at st r \<and> q_id r = before) (queue_items (work c)) of
             None \<Rightarrow> enqueue_or_get_existing st track key True c
           | Some r \<Rightarrow>
               (let pos = (if q_position r = 0 then 1 else q_position r) in
                case begin_immediate c of
                  (Inl e, c1) \<Rightarrow> (Inl e, rollback c1)
                | (Inr _, c1) \<Rightarrow>
                    (let c2 = dml (queue_items_update (shift_from st pos)) c1 in
                     case queue_dml (insert_queue_row st track pos key) c2 of
                       (Inl e, c3) \<Rightarrow> (Inl e, rollback c3)
                     | (Inr _, c3) \<Rightarrow> (Inr (last_rowid c3, True), commit c3)))))"

section \<open>Marking\<close>

definition set_playing :: "rat \<Rightarrow> int \<Rightarrow> queue_row list \<Rightarrow> queue_row list" where
  "set_playing now i = update_where (\<lambda>r. q_id r = i)
     (\<lambda>r. r\<lparr>q_status := Playing, q_started := At (current_timestamp now)\<rparr>)"

definition set_finished :: "item_status \<Rightarrow> rat \<Rightarrow> int \<Rightarrow> queue_row list \<Rightarrow> queue_row list" where
  "set_finished s now i = update_where (\<lambda>r. q_id r = i)
     (\<lambda>r. r\<lparr>q_status := s, q_finished := Some (current_timestamp now)\<rparr>)"

definition mark_playing :: "rat \<Rightarrow> int \<Rightarrow> (conn, unit) prog" where
  "mark_playing now i = bindp (queue_dml (set_playing now i)) (\<lambda>_. updp commit)"

definition mark_done :: "rat \<Rightarrow> int \<Rightarrow> (conn, unit) prog" where
  "mark_done now i = updp (\<lambda>c. commit (dml (queue_items_update (set_finished Done now i)) c))"

definition mark_failed :: "rat \<Rightarrow> int \<Rightarrow> (conn, unit) prog" where
  "mark_failed now i = updp (\<lambda>c. commit (dml (queue_items_update (set_finished Failed now i)) c))"

section \<open>Renumbering\<close>

text \<open>\<open>for pos, row in enumerate(rows, start=n): UPDATE queue_items SET position=pos WHERE id=row.id\<close>.\<close>

fun renumber :: "int \<Rightarrow> int list \<Rightarrow> queue_row list \<Rightarrow> queue_row list" where
  "renumber n [] rows = rows"
| "renumber n (i # is) rows =
     renumber (n + 1) is (update_where (\<lambda>r. q_id r = i) (\<lambda>r. r\<lparr>q_position := n\<rparr>) rows)"

definition reindex_active_rows :: "int \<Rightarrow> db \<Rightarrow> db" where
  "reindex_active_rows st d =
     d\<lparr>queue_items := renumber 1 (map q_id (list_active_ordered st d)) (queue_items d)\<rparr>"

definition reindex_active :: "int \<Rightarrow> (conn, unit) prog" where
  "reindex_active st = updp (\<lambda>c. commit (dml (reindex_active_rows st) c))"

section \<open>The concurrency token and the guarded operations\<close>

definition revision_field :: "queue_row \<Rightarrow> string" where
  "revision_field r = int_str (q_id r) @ '':'' @ int_str (q_position r) @ '':'' @ status_text (q_status r)"

definition active_revision :: "queue_row list \<Rightarrow> string" where
  "active_revision rows = take 24 (sha256 (join_char (CHR ''|'') (map revision_field rows)))"

datatype queue_outcome =
  OutcomeOk | OutcomeStale | OutcomeMissing | OutcomePlaying | OutcomeNotPlaying
| OutcomeInvalidDestination

definition delete_pending_item :: "int \<Rightarrow> int \<Rightarrow> string \<Rightarrow> (conn, queue_outcome) prog" where
  "delete_pending_item st item expected c =
     (case begin_immediate c of
        (Inl e, c1) \<Rightarrow> (Inl e, rollback c1)
      | (Inr _, c1) \<Rightarrow>
          (let rows = list_active_ordered st (work c1) in
           if active_revision rows \<noteq> expected then (Inr OutcomeStale, rollback c1)
           else (case find (\<lambda>r. q_id r = item) rows of
               None \<Rightarrow> (Inr OutcomeMissing, rollback c1)
             | Some target \<Rightarrow>
                 if q_status target \<noteq> Pending then (Inr OutcomePlaying, rollback c1)
                 else
                   (let doomed = (\<lambda>r. q_id r = item \<and> q_station r = st \<and> q_status r = Pending);
                        n = rowcount doomed (queue_items (work c1));
                        c2 = dml (queue_items_update (delete_where doomed)) c1 in
                    if n \<noteq> 1 then (Inr OutcomeStale, rollback c2)
                    else (Inr OutcomeOk,
                          commit (dml (bump_change_sequence st) (dml (reindex_active_rows st) c2)))))))"

fun index_where :: "('a \<Rightarrow> bool) \<Rightarrow> 'a list \<Rightarrow> nat option" where
  "index_where P [] = None"
| "index_where P (x # xs) = (if P x then Some 0 else map_option Suc (index_where P xs))"

definition move_pending_item :: "int \<Rightarrow> int \<Rightarrow> int \<Rightarrow> string \<Rightarrow> (conn, queue_outcome) prog" where
  "move_pending_item st item to_index expected c =
     (case begin_immediate c of
        (Inl e, c1) \<Rightarrow> (Inl e, rollback c1)
      | (Inr _, c1) \<Rightarrow>
          (let rows = list_active_ordered st (work c1) in
           if active_revision rows \<noteq> expected then (Inr OutcomeStale, rollback c1)
           else (case index_where (\<lambda>r. q_id r = item) rows of
               None \<Rightarrow> (Inr OutcomeMissing, rollback c1)
             | Some from_index \<Rightarrow>
                 if q_status (rows ! from_index) \<noteq> Pending then (Inr OutcomePlaying, rollback c1)
                 else if \<not> (0 \<le> to_index \<and> to_index < int (length rows) \<and>
                            q_status (rows ! nat to_index) = Pending)
                 then (Inr OutcomeInvalidDestination, rollback c1)
                 else if from_index \<noteq> nat to_index then
                   (let moved = pop_insert from_index (nat to_index) rows;
                        c2 = dml (queue_items_update (renumber 1 (map q_id moved))) c1
                    in (Inr OutcomeOk, commit (dml (bump_change_sequence st) c2)))
                 else (Inr OutcomeOk, commit c1))))"

text \<open>A successful \<open>begin_skip_playing_item\<close> leaves the transaction, and so the write lock, open.\<close>

definition begin_skip_playing_item :: "int \<Rightarrow> int \<Rightarrow> string \<Rightarrow> (conn, queue_outcome) prog" where
  "begin_skip_playing_item st item expected c =
     (case begin_immediate c of
        (Inl e, c1) \<Rightarrow> (Inl e, rollback c1)
      | (Inr _, c1) \<Rightarrow>
          (let rows = list_active_ordered st (work c1) in
           if active_revision rows \<noteq> expected then (Inr OutcomeStale, rollback c1)
           else (case find (\<lambda>r. q_id r = item) rows of
               None \<Rightarrow> (Inr OutcomeMissing, rollback c1)
             | Some target \<Rightarrow>
                 if q_status target \<noteq> Playing then (Inr OutcomeNotPlaying, rollback c1)
                 else (Inr OutcomeOk, c1))))"

definition commit_skip_playing_item :: "rat \<Rightarrow> int \<Rightarrow> int \<Rightarrow> (conn, queue_outcome) prog" where
  "commit_skip_playing_item now st item c =
     (let victim = (\<lambda>r. q_id r = item \<and> q_station r = st \<and> q_status r = Playing);
          n = rowcount victim (queue_items (work c));
          c1 = dml (queue_items_update (update_where victim
                 (\<lambda>r. r\<lparr>q_status := Done, q_finished := Some (current_timestamp now)\<rparr>))) c in
      if n \<noteq> 1 then (Inr OutcomeStale, rollback c1)
      else (Inr OutcomeOk, commit (dml (bump_change_sequence st) c1)))"

definition rollback_skip_playing_item :: "(conn, unit) prog" where
  "rollback_skip_playing_item = updp rollback"

definition skip_playing_item :: "rat \<Rightarrow> int \<Rightarrow> int \<Rightarrow> string \<Rightarrow> (conn, queue_outcome) prog" where
  "skip_playing_item now st item expected =
     bindp (begin_skip_playing_item st item expected) (\<lambda>outcome.
       if outcome \<noteq> OutcomeOk then ret outcome
       else catchp (commit_skip_playing_item now st item)
              (\<lambda>e. bindp rollback_skip_playing_item (\<lambda>_. raise_exn e)))"

section \<open>The operations by queue index\<close>

definition delete_by_queue_index :: "int \<Rightarrow> int \<Rightarrow> (conn, bool) prog" where
  "delete_by_queue_index st idx c =
     (let rows = list_active_ordered st (work c) in
      if idx < 0 \<or> int (length rows) \<le> idx then (Inr False, c)
      else (let target = q_id (rows ! nat idx);
                c1 = commit (dml (queue_items_update (delete_where (\<lambda>r. q_id r = target))) c)
            in (Inr True, commit (dml (reindex_active_rows st) c1))))"

definition move_by_queue_index :: "int \<Rightarrow> int \<Rightarrow> int \<Rightarrow> (conn, bool) prog" where
  "move_by_queue_index st from_index to_index c =
     (let rows = list_active_ordered st (work c); n = int (length rows) in
      if from_index < 0 \<or> n \<le> from_index then (Inr False, c)
      else (let to0 = (if to_index < 0 then 0 else to_index);
                to1 = (if n \<le> to0 then n - 1 else to0) in
            if from_index = to1 then (Inr True, c)
            else (let moved = pop_insert (nat from_index) (nat to1) rows
                  in (Inr True,
                      commit (dml (queue_items_update (renumber 1 (map q_id moved))) c)))))"

end
