(* ===== verification/Queue_Laws.thy ===== *)
theory Queue_Laws
  imports Queue_Repo
begin

text \<open>
  What the queue operations promise: renumbering realises an order, refused operations change
  nothing, the concurrency token identifies the snapshot, and a station's operations leave the
  rows of the other stations alone.
\<close>

section \<open>Renumbering realises the order of the list it is given\<close>

fun repos :: "int \<Rightarrow> int list \<Rightarrow> queue_row \<Rightarrow> queue_row" where
  "repos n [] r = r"
| "repos n (i # is) r = repos (n + 1) is (if q_id r = i then r\<lparr>q_position := n\<rparr> else r)"

lemma renumber_map: "renumber n ids rows = map (repos n ids) rows"
  by (induction ids arbitrary: n rows) (auto simp: update_where_def comp_def intro!: map_idI [symmetric])

lemma repos_frame [simp]:
  "q_id (repos n ids r) = q_id r" "q_station (repos n ids r) = q_station r"
  "q_track (repos n ids r) = q_track r" "q_status (repos n ids r) = q_status r"
  "q_started (repos n ids r) = q_started r" "q_finished (repos n ids r) = q_finished r"
  "q_dedupe (repos n ids r) = q_dedupe r"
  by (induction ids arbitrary: n r) simp_all

lemma repos_unlisted: "q_id r \<notin> set ids \<Longrightarrow> repos n ids r = r"
  by (induction ids arbitrary: n) auto

text \<open>The rows of a list with the positions \<open>n, n + 1, \<dots>\<close>.\<close>

fun place :: "int \<Rightarrow> queue_row list \<Rightarrow> queue_row list" where
  "place n [] = []"
| "place n (r # rs) = r\<lparr>q_position := n\<rparr> # place (n + 1) rs"

lemma map_repos_place:
  "distinct (map q_id rs) \<Longrightarrow> map (repos n (map q_id rs)) rs = place n rs"
proof (induction rs arbitrary: n)
  case (Cons r rs)
  have "repos n (map q_id (r # rs)) x = repos (n + 1) (map q_id rs) x" if "x \<in> set rs" for x
    using Cons.prems that by (cases "q_id x = q_id r") (auto dest: image_eqI)
  then have "map (repos n (map q_id (r # rs))) rs = place (n + 1) rs"
    using Cons.IH [of "n + 1"] Cons.prems by (simp cong: map_cong)
  moreover have "repos n (map q_id (r # rs)) r = r\<lparr>q_position := n\<rparr>"
    using Cons.prems by (simp add: repos_unlisted)
  ultimately show ?case by (simp del: repos.simps)
qed simp

lemma place_simps [simp]:
  "map q_id (place n rs) = map q_id rs" "map q_status (place n rs) = map q_status rs"
  "map q_track (place n rs) = map q_track rs" "length (place n rs) = length rs"
  by (induction rs arbitrary: n) simp_all

lemma positions_place: "map q_position (place n rs) = [n..n + int (length rs) - 1]"
proof (induction rs arbitrary: n)
  case (Cons r rs)
  have "[n..n + int (length (r # rs)) - 1] = n # [n + 1..n + 1 + int (length rs) - 1]"
    by (simp add: upto_rec1)
  with Cons show ?case by simp
qed simp

lemma place_ge: "r \<in> set (place n rs) \<Longrightarrow> n \<le> q_position r"
  by (induction rs arbitrary: n) (auto, fastforce)

lemma place_keys_sorted: "sorted (map order_key (place n rs))"
proof (induction rs arbitrary: n)
  case (Cons r rs)
  have "n < q_position s" if "s \<in> set (place (n + 1) rs)" for s
    using place_ge [OF that] by simp
  with Cons [of "n + 1"] show ?case by (auto simp: order_key_def less_eq_prod_def)
qed simp

text \<open>Ordering is determined by position and rowid, and rowids are unique.\<close>

lemma order_key_inj: "distinct (map q_id rows) \<Longrightarrow> inj_on order_key (set rows)"
  by (auto simp: inj_on_def order_key_def distinct_map)

lemma active_at_repos [simp]: "active_at st (repos n ids r) = active_at st r"
  by (simp add: active_at_def q_active_def)

lemma sort_renumbered:
  assumes "mset listed = mset (filter (active_at st) rows)" and "distinct (map q_id rows)"
  shows "sort_key order_key (filter (active_at st) (renumber n (map q_id listed) rows)) =
         place n listed"
proof -
  let ?f = "repos n (map q_id listed)"
  have dist: "distinct (map q_id listed)"
  proof -
    have "mset (map q_id listed) = mset (map q_id (filter (active_at st) rows))"
      by (simp add: assms(1))
    then show ?thesis
      using assms(2) by (metis distinct_map_filter mset_eq_imp_distinct_iff)
  qed
  have eq: "filter (active_at st) (renumber n (map q_id listed) rows) =
            map ?f (filter (active_at st) rows)"
    by (simp add: renumber_map filter_map comp_def)
  have "mset (place n listed) = mset (map ?f (filter (active_at st) rows))"
    using assms(1) by (simp flip: map_repos_place [OF dist])
  moreover have "inj_on order_key (set (map ?f (filter (active_at st) rows)))"
    by (rule order_key_inj) (use assms(2) in \<open>simp add: comp_def distinct_map_filter\<close>)
  ultimately show ?thesis
    unfolding eq by (intro sort_key_unique) (simp_all add: place_keys_sorted)
qed

lemma list_active_mset: "mset (list_active_ordered st d) = mset (filter (active_at st) (queue_items d))"
  by (simp add: list_active_ordered_def)

lemma list_active_set: "set (list_active_ordered st d) = {r \<in> set (queue_items d). active_at st r}"
  by (auto simp: list_active_ordered_def)

lemma list_active_distinct: "queue_ok (queue_items d) \<Longrightarrow> distinct (map q_id (list_active_ordered st d))"
  by (metis (no_types, lifting) distinct_map_filter list_active_mset mset_eq_imp_distinct_iff
        mset_map queue_ok_def)

lemma list_active_renumbered:
  assumes "queue_ok (queue_items d)"
    and "mset listed = mset (list_active_ordered st d)"
    and "queue_items d' = renumber n (map q_id listed) (queue_items d)"
  shows "list_active_ordered st d' = place n listed"
  using assms sort_renumbered [of listed st "queue_items d" n]
  by (simp add: list_active_ordered_def queue_ok_def)

lemma list_active_reindexed:
  "queue_ok (queue_items d) \<Longrightarrow>
   list_active_ordered st (reindex_active_rows st d) = place 1 (list_active_ordered st d)"
  by (rule list_active_renumbered) (simp_all add: reindex_active_rows_def)

lemma index_keys_renumber [simp]: "index_keys (renumber n ids rows) = index_keys rows"
proof -
  have "index_key (repos n ids r) = index_key r" for r
    by (rule index_key_cong) (simp_all add: q_active_def)
  then show ?thesis by (simp add: index_keys_def renumber_map comp_def)
qed

lemma queue_ok_renumber [simp]: "queue_ok (renumber n ids rows) = queue_ok rows"
  by (simp add: queue_ok_def queue_index_ok_def) (simp add: renumber_map comp_def)

lemma renumber_other_station:
  assumes "set ids \<subseteq> q_id ` {r \<in> set rows. active_at st r}" "distinct (map q_id rows)" "st' \<noteq> st"
  shows "filter (\<lambda>r. q_station r = st') (renumber n ids rows) =
         filter (\<lambda>r. q_station r = st') rows"
proof -
  have "repos n ids r = r" if "r \<in> set rows" "q_station r = st'" for r
    using that assms
    by (intro repos_unlisted) (auto simp: active_at_def distinct_map inj_on_def)
  then show ?thesis
    by (auto simp: renumber_map filter_map comp_def intro!: map_idI)
qed

section \<open>Settings written by the queue do not touch its rows\<close>

lemma put_setting_frame [simp]:
  "queue_items (put_setting st k v d) = queue_items d" "tracks (put_setting st k v d) = tracks d"
  "ads (put_setting st k v d) = ads d" "schedules (put_setting st k v d) = schedules d"
  "host_items (put_setting st k v d) = host_items d" "sessions (put_setting st k v d) = sessions d"
  "playout_states (put_setting st k v d) = playout_states d"
  "transitions (put_setting st k v d) = transitions d" "stations (put_setting st k v d) = stations d"
  "leases (put_setting st k v d) = leases d" "show_rows (put_setting st k v d) = show_rows d"
  "playlist_items (put_setting st k v d) = playlist_items d"
  "system_settings (put_setting st k v d) = system_settings d"
  "station_settings (put_setting st k v d) st k = Some v"
  "k' \<noteq> k \<Longrightarrow> station_settings (put_setting st k v d) st k' = station_settings d st k'"
  "st' \<noteq> st \<Longrightarrow> station_settings (put_setting st k v d) st' = station_settings d st'"
  by (simp_all add: put_setting_def)

lemma bump_frame [simp]:
  "queue_items (bump_change_sequence st d) = queue_items d"
  "tracks (bump_change_sequence st d) = tracks d" "ads (bump_change_sequence st d) = ads d"
  "schedules (bump_change_sequence st d) = schedules d"
  "host_items (bump_change_sequence st d) = host_items d"
  "playout_states (bump_change_sequence st d) = playout_states d"
  "transitions (bump_change_sequence st d) = transitions d"
  by (simp_all add: bump_change_sequence_def)

lemma list_active_bump [simp]:
  "list_active_ordered st (bump_change_sequence st' d) = list_active_ordered st d"
  by (simp add: list_active_ordered_def)

text \<open>The stored value is the text the counter itself wrote, or absent.\<close>

definition seq_ok :: "int \<Rightarrow> db \<Rightarrow> bool" where
  "seq_ok st d \<longleftrightarrow> (case station_settings d st seq_key of
     None \<Rightarrow> True | Some v \<Rightarrow> v = int_str (change_sequence st d))"

lemma change_sequence_put:
  "change_sequence st (put_setting st seq_key (int_str m) d) = max 0 m"
  by (simp add: change_sequence_def)

lemma seq_ok_put: "0 \<le> m \<Longrightarrow> seq_ok st (put_setting st seq_key (int_str m) d)"
  by (simp add: seq_ok_def change_sequence_put)

lemma change_sequence_nonneg: "0 \<le> change_sequence st d"
  by (simp add: change_sequence_def split: option.splits)

lemma change_sequence_bump:
  assumes "seq_ok st d"
  shows "change_sequence st (bump_change_sequence st d) = change_sequence st d + 1 \<and>
         seq_ok st (bump_change_sequence st d)"
proof -
  let ?n = "change_sequence st d"
  have "bump_change_sequence st d = put_setting st seq_key (int_str (?n + 1)) d"
  proof (cases "station_settings d st seq_key")
    case None
    moreover have "py_int ''0'' = Some 0" "int_str (0 + 1) = ''1''" by code_simp+
    ultimately show ?thesis by (simp add: bump_change_sequence_def change_sequence_def)
  next
    case (Some v)
    with assms have "v = int_str ?n" by (simp add: seq_ok_def)
    with Some have "bump_change_sequence st d =
        put_setting st seq_key (int_str (sql_cast_int (int_str ?n) + 1)) d"
      by (simp only: bump_change_sequence_def option.case)
    then show ?thesis by simp
  qed
  then show ?thesis
    using change_sequence_nonneg [of st d] by (simp add: change_sequence_put seq_ok_put)
qed

section \<open>Finding rows in the snapshot\<close>

lemma find_id_SomeD:
  "find (\<lambda>r. q_id r = i) rows = Some t \<Longrightarrow> t \<in> set rows \<and> q_id t = i"
  by (induction rows) (auto split: if_splits)

lemma find_id_NoneD: "find (\<lambda>r. q_id r = i) rows = None \<Longrightarrow> i \<notin> q_id ` set rows"
  by (induction rows) (auto split: if_splits)

lemma index_where_SomeD:
  "index_where P xs = Some k \<Longrightarrow> k < length xs \<and> P (xs ! k) \<and> (\<forall>j<k. \<not> P (xs ! j))"
proof (induction xs arbitrary: k)
  case (Cons x xs)
  then show ?case
    by (cases k) (auto split: if_splits simp: less_Suc_eq_0_disj)
qed simp

lemma rowcount_unique:
  assumes "distinct (map q_id rows)" "r \<in> set rows" "P r" "\<And>s. P s \<Longrightarrow> q_id s = q_id r"
  shows "rowcount P rows = 1"
proof -
  have "inj_on q_id (set rows)" "distinct rows" using assms(1) by (simp_all add: distinct_map)
  then have "{s \<in> set rows. P s} = {r}"
    using assms(2,3) assms(4) by (auto dest: inj_onD)
  then have "card (set (filter P rows)) = 1" by simp
  moreover have "distinct (filter P rows)" using \<open>distinct rows\<close> by simp
  ultimately show ?thesis by (simp only: rowcount_def distinct_card)
qed

end
