(* ===== verification/Interfaces.thy ===== *)
theory Interfaces
  imports Queue_Laws
begin

text \<open>
  The interfaces several components rely on. \<open>indexed_queue\<close> is the contract of the two queues
  an operator edits by index (the broadcast queue and the programme queue). \<open>managed_items\<close> is
  the contract of the three kinds of item the station worker plays (queue, ad break, schedule):
  how marking one item changes the status of the items. Each is interpreted in the theory of the
  repository that provides it.
\<close>

section \<open>A queue edited by index\<close>

locale indexed_queue =
  fixes ok :: "'s \<Rightarrow> bool"
    and ids :: "'s \<Rightarrow> int list"
    and delete_at :: "int \<Rightarrow> ('s, bool) prog"
    and move_at :: "int \<Rightarrow> int \<Rightarrow> ('s, bool) prog"
  assumes delete_out: "i < 0 \<or> int (length (ids s)) \<le> i \<Longrightarrow> delete_at i s = (Inr False, s)"
    and delete_in: "ok s \<Longrightarrow> 0 \<le> i \<Longrightarrow> i < int (length (ids s)) \<Longrightarrow>
      \<exists>t. delete_at i s = (Inr True, t) \<and> ok t \<and>
          ids t = take (nat i) (ids s) @ drop (Suc (nat i)) (ids s)"
    and move_out: "i < 0 \<or> int (length (ids s)) \<le> i \<Longrightarrow> move_at i j s = (Inr False, s)"
    and move_in: "ok s \<Longrightarrow> 0 \<le> i \<Longrightarrow> i < int (length (ids s)) \<Longrightarrow>
      \<exists>t. move_at i j s = (Inr True, t) \<and> ok t \<and>
          ids t = pop_insert (nat i)
            (nat (if j < 0 then 0 else if int (length (ids s)) \<le> j then int (length (ids s)) - 1 else j))
            (ids s)"
begin

lemma delete_at_ok: "ok s \<Longrightarrow> ok (snd (delete_at i s))"
  using delete_out [of i s] delete_in [of s i] by (metis linorder_not_less snd_conv)

lemma move_at_ok: "ok s \<Longrightarrow> ok (snd (move_at i j s))"
  using move_out [of i s j] move_in [of s i j] by (metis linorder_not_less snd_conv)

lemma move_at_mset: "ok s \<Longrightarrow> mset (ids (snd (move_at i j s))) = mset (ids s)"
proof (cases "i < 0 \<or> int (length (ids s)) \<le> i")
  case False
  moreover assume "ok s"
  ultimately obtain t k where "move_at i j s = (Inr True, t)" "ids t = pop_insert (nat i) k (ids s)"
    using move_in [of s i j] by fastforce
  moreover have "nat i < length (ids s)" using False by (simp add: nat_less_iff)
  ultimately show ?thesis by simp
qed (simp add: move_out)

text \<open>Emptying the queue from the front takes as many deletions as it has items.\<close>

lemma drain_front: "ok s \<Longrightarrow> ids (((\<lambda>s. snd (delete_at 0 s)) ^^ length (ids s)) s) = []"
proof (induction "length (ids s)" arbitrary: s)
  case (Suc n)
  then obtain t where t: "delete_at 0 s = (Inr True, t)" "ok t" "ids t = drop 1 (ids s)"
    using delete_in [of s 0] by fastforce
  moreover have "length (ids t) = n" using t Suc.hyps by simp
  ultimately show ?case
    using Suc.hyps(1) [of t] Suc.hyps(2) [symmetric] by (simp add: funpow_Suc_right del: funpow.simps)
qed simp

text \<open>Moving an item to another index and back restores the order.\<close>

lemma pop_insert_back:
  assumes "i < length xs" "j < length xs"
  shows "pop_insert j i (pop_insert i j xs) = xs"
proof -
  define ys where "ys = take i xs @ drop (Suc i) xs"
  have "length ys = length xs - 1" using assms(1) by (simp add: ys_def)
  then have j: "j \<le> length ys" using assms(2) by linarith
  have moved: "pop_insert i j xs = take j ys @ [xs ! i] @ drop j ys"
    by (simp add: pop_insert_def Let_def ys_def)
  have "take j (pop_insert i j xs) @ drop (Suc j) (pop_insert i j xs) = ys"
    using j by (simp add: moved)
  moreover have "pop_insert i j xs ! j = xs ! i" by (rule nth_pop_insert_target [OF assms])
  ultimately have "pop_insert j i (pop_insert i j xs) = take i ys @ [xs ! i] @ drop i ys"
    by (simp only: pop_insert_def [of j i "pop_insert i j xs"] Let_def)
  also have "\<dots> = xs" using assms(1) by (simp add: ys_def id_take_nth_drop [symmetric])
  finally show ?thesis .
qed

lemma move_back:
  assumes "ok s" "0 \<le> i" "i < int (length (ids s))" "0 \<le> j" "j < int (length (ids s))"
  shows "ids (snd (move_at j i (snd (move_at i j s)))) = ids s"
proof -
  obtain t where t: "move_at i j s = (Inr True, t)" "ok t" "ids t = pop_insert (nat i) (nat j) (ids s)"
    using move_in [of s i j] assms by auto
  have len: "length (ids t) = length (ids s)" using t(3) assms by simp
  obtain u where u: "move_at j i t = (Inr True, u)" "ids u = pop_insert (nat j) (nat i) (ids t)"
    using move_in [of t j i] t(2) assms len by auto
  show ?thesis using assms by (simp add: t(1,3) u pop_insert_back)
qed

end

section \<open>Items the worker marks\<close>

text \<open>
  \<open>status_of s i\<close> is the status of item \<open>i\<close> of the table, \<open>ids s\<close> its item ids. Marking an item
  that exists sets its status and no other; marking an absent one changes none.
\<close>

locale managed_items =
  fixes status_of :: "'s \<Rightarrow> int \<Rightarrow> item_status option"
    and mark :: "item_status \<Rightarrow> int \<Rightarrow> 's \<Rightarrow> 's"
  assumes mark_self: "status_of s i = Some x \<Longrightarrow> status_of (mark st i s) i = Some st"
    and mark_absent: "status_of s i = None \<Longrightarrow> status_of (mark st i s) i = None"
    and mark_other: "j \<noteq> i \<Longrightarrow> status_of (mark st i s) j = status_of s j"
begin

lemma mark_status:
  "status_of (mark st i s) j = (if j = i \<and> status_of s i \<noteq> None then Some st else status_of s j)"
  using mark_self mark_absent mark_other by (cases "status_of s i"; cases "j = i") auto

lemma mark_twice: "status_of (mark st i (mark st' i s)) j = status_of (mark st i s) j"
  by (auto simp: mark_status)

lemma mark_commute:
  "i \<noteq> k \<Longrightarrow> status_of (mark st i (mark st' k s)) j = status_of (mark st' k (mark st i s)) j"
  by (auto simp: mark_status)

text \<open>Marking a playing item finished removes it, and nothing else, from what plays.\<close>

lemma mark_finished_playing:
  "st \<noteq> Playing \<Longrightarrow>
   {j. status_of (mark st i s) j = Some Playing} = {j. status_of s j = Some Playing} - {i}"
  by (auto simp: mark_status split: if_splits)

lemma mark_playing_playing:
  "status_of s i \<noteq> None \<Longrightarrow>
   {j. status_of (mark Playing i s) j = Some Playing} = insert i {j. status_of s j = Some Playing}"
  by (auto simp: mark_status split: if_splits)

end

end
