(* ===== verification/Queue_Props.thy ===== *)
theory Queue_Props
  imports Interfaces
begin

text \<open>
  The properties of the guarded queue operations: exact effect when they succeed, no effect when
  they refuse, what the concurrency token guarantees, and that enqueueing appends and is
  idempotent per dedupe key. The operations by index satisfy the interface of an indexed queue.
\<close>

section \<open>Shape of the successful outcomes\<close>

lemma delete_ok_shape:
  assumes "delete_pending_item st item e c = (Inr OutcomeOk, c')"
  obtains t where "\<not> in_tx c" "find (\<lambda>r. q_id r = item) (list_active_ordered st (work c)) = Some t"
    "q_status t = Pending" "active_revision (list_active_ordered st (work c)) = e"
    "disk c' = work c'" "\<not> in_tx c'"
    "work c' = bump_change_sequence st (reindex_active_rows st (queue_items_update
       (delete_where (\<lambda>r. q_id r = item \<and> q_station r = st \<and> q_status r = Pending)) (work c)))"
  using assms
  by (auto simp: delete_pending_item_def begin_immediate_def Let_def
        split: if_splits option.splits)

lemma move_ok_shape:
  assumes "move_pending_item st item to_index e c = (Inr OutcomeOk, c')"
  obtains k where "\<not> in_tx c"
    "index_where (\<lambda>r. q_id r = item) (list_active_ordered st (work c)) = Some k"
    "q_status (list_active_ordered st (work c) ! k) = Pending"
    "active_revision (list_active_ordered st (work c)) = e"
    "0 \<le> to_index" "nat to_index < length (list_active_ordered st (work c))"
    "q_status (list_active_ordered st (work c) ! nat to_index) = Pending"
    "disk c' = work c'" "\<not> in_tx c'"
    "work c' = (if k = nat to_index then work c
       else bump_change_sequence st (queue_items_update (renumber 1 (map q_id
              (pop_insert k (nat to_index) (list_active_ordered st (work c))))) (work c)))"
  using assms
  by (auto simp: move_pending_item_def begin_immediate_def Let_def
        split: if_splits option.splits)

lemma list_active_delete:
  "list_active_ordered st (queue_items_update (delete_where P) d) =
   filter (\<lambda>r. \<not> P r) (list_active_ordered st d)"
  by (simp add: list_active_ordered_def delete_where_def filter_sort_key conj_commute)

lemma list_active_cong:
  "queue_items d' = queue_items d \<Longrightarrow> list_active_ordered st d' = list_active_ordered st d"
  by (simp add: list_active_ordered_def)

lemma same_id_same_row:
  "distinct (map q_id rows) \<Longrightarrow> r \<in> set rows \<Longrightarrow> s \<in> set rows \<Longrightarrow> q_id r = q_id s \<Longrightarrow> r = s"
  by (auto simp: distinct_map dest: inj_onD)

lemma reindex_keeps_others:
  assumes "queue_ok (queue_items d)" "st' \<noteq> st"
  shows "filter (\<lambda>r. q_station r = st') (queue_items (reindex_active_rows st d)) =
         filter (\<lambda>r. q_station r = st') (queue_items d)"
proof -
  have "set (map q_id (list_active_ordered st d)) \<subseteq> q_id ` {r \<in> set (queue_items d). active_at st r}"
    by (simp add: list_active_set)
  moreover have "distinct (map q_id (queue_items d))" using assms(1) by (simp add: queue_ok_def)
  ultimately show ?thesis
    using renumber_other_station assms(2) by (simp add: reindex_active_rows_def)
qed

lemma reindex_settings [simp]:
  "station_settings (reindex_active_rows st d) = station_settings d"
  by (simp add: reindex_active_rows_def)

lemma change_sequence_cong:
  "station_settings d' = station_settings d \<Longrightarrow>
   change_sequence st d' = change_sequence st d \<and> seq_ok st d' = seq_ok st d"
  by (simp add: change_sequence_def seq_ok_def split: option.split)

section \<open>Deleting a pending item\<close>

lemma delete_listed:
  assumes ok: "queue_ok (queue_items (work c))"
    and res: "delete_pending_item st item e c = (Inr OutcomeOk, c')"
  shows "list_active_ordered st (work c') =
         place 1 (filter (\<lambda>r. q_id r \<noteq> item) (list_active_ordered st (work c)))"
    and "\<exists>r \<in> set (list_active_ordered st (work c)). q_id r = item \<and> q_status r = Pending"
proof -
  let ?P = "\<lambda>r. q_id r = item \<and> q_station r = st \<and> q_status r = Pending"
  let ?rows = "list_active_ordered st (work c)"
  let ?d = "queue_items_update (delete_where ?P) (work c)"
  obtain t where t: "find (\<lambda>r. q_id r = item) ?rows = Some t" "q_status t = Pending"
    and c': "work c' = bump_change_sequence st (reindex_active_rows st ?d)"
    by (rule delete_ok_shape [OF res])
  have t_in: "t \<in> set ?rows" "q_id t = item" using find_id_SomeD [OF t(1)] by simp_all
  then show "\<exists>r \<in> set (list_active_ordered st (work c)). q_id r = item \<and> q_status r = Pending"
    using t(2) by blast
  have ok': "queue_ok (queue_items ?d)" using ok by (simp add: queue_ok_delete)
  have "?P r \<longleftrightarrow> q_id r = item" if "r \<in> set ?rows" for r
    using that same_id_same_row [OF list_active_distinct [OF ok] that t_in(1)] t_in t(2)
    by (auto simp: list_active_set active_at_def)
  then have "filter (\<lambda>r. \<not> ?P r) ?rows = filter (\<lambda>r. q_id r \<noteq> item) ?rows"
    by (intro filter_cong) auto
  then show "list_active_ordered st (work c') = place 1 (filter (\<lambda>r. q_id r \<noteq> item) ?rows)"
    using list_active_reindexed [OF ok', of st] by (simp add: c' list_active_delete)
qed

lemma delete_others:
  assumes ok: "queue_ok (queue_items (work c))" and "st' \<noteq> st"
    and res: "delete_pending_item st item e c = (Inr OutcomeOk, c')"
  shows "filter (\<lambda>r. q_station r = st') (queue_items (work c')) =
         filter (\<lambda>r. q_station r = st') (queue_items (work c))"
proof -
  let ?P = "\<lambda>r. q_id r = item \<and> q_station r = st \<and> q_status r = Pending"
  let ?d = "queue_items_update (delete_where ?P) (work c)"
  have c': "work c' = bump_change_sequence st (reindex_active_rows st ?d)"
    by (rule delete_ok_shape [OF res]) simp
  have ok': "queue_ok (queue_items ?d)" using ok by (simp add: queue_ok_delete)
  show ?thesis
    using assms(2) reindex_keeps_others [OF ok' assms(2)]
    by (auto simp: c' delete_where_def intro!: filter_cong)
qed

lemma delete_sequence:
  assumes seq: "seq_ok st (work c)"
    and res: "delete_pending_item st item e c = (Inr OutcomeOk, c')"
  shows "change_sequence st (work c') = change_sequence st (work c) + 1"
proof (rule delete_ok_shape [OF res])
  let ?d = "queue_items_update
    (delete_where (\<lambda>r. q_id r = item \<and> q_station r = st \<and> q_status r = Pending)) (work c)"
  assume w: "work c' = bump_change_sequence st (reindex_active_rows st ?d)"
  have "station_settings (reindex_active_rows st ?d) = station_settings (work c)" by simp
  from change_sequence_cong [OF this, of st] change_sequence_bump seq show ?thesis
    by (simp add: w)
qed

lemma delete_durable:
  "delete_pending_item st item e c = (Inr OutcomeOk, c') \<Longrightarrow> disk c' = work c' \<and> \<not> in_tx c'"
  by (erule delete_ok_shape) simp

lemma place_contents [simp]:
  "map (q_position_update (\<lambda>_. 0)) (place n rows) = map (q_position_update (\<lambda>_. 0)) rows"
  by (induction rows arbitrary: n) simp_all

text \<open>
  C13: when the operator's guarded delete succeeds, the named item was a pending one of the station's
  active queue and exactly it is gone; the remaining items, a playing one included, keep their
  contents and their order and are numbered from 1, the change sequence advances by one, the change
  is committed, and the rows of every other station are what they were.
\<close>

theorem delete_pending_exact:
  assumes "queue_ok (queue_items (work c))" and "seq_ok st (work c)"
    and "delete_pending_item st item expected c = (Inr OutcomeOk, c')" and "st' \<noteq> st"
  shows "(\<exists>r \<in> set (list_active_ordered st (work c)). q_id r = item \<and> q_status r = Pending) \<and>
    map (q_position_update (\<lambda>_. 0)) (list_active_ordered st (work c')) =
      map (q_position_update (\<lambda>_. 0)) (filter (\<lambda>r. q_id r \<noteq> item) (list_active_ordered st (work c))) \<and>
    map q_position (list_active_ordered st (work c')) =
      [1..int (length (list_active_ordered st (work c')))] \<and>
    change_sequence st (work c') = change_sequence st (work c) + 1 \<and>
    disk c' = work c' \<and> \<not> in_tx c' \<and>
    filter (\<lambda>r. q_station r = st') (queue_items (work c')) =
      filter (\<lambda>r. q_station r = st') (queue_items (work c))"
  using delete_listed [OF assms(1,3)] delete_others [OF assms(1,4,3)]
    delete_sequence [OF assms(2,3)] delete_durable [OF assms(3)]
  by (simp add: positions_place)

lemma list_active_rows:
  "list_active_ordered st (d\<lparr>queue_items := rows\<rparr>) = sort_key order_key (filter (active_at st) rows)"
  by (simp add: list_active_ordered_def)

section \<open>Moving a pending item\<close>

lemma move_listed:
  assumes ok: "queue_ok (queue_items (work c))"
    and res: "move_pending_item st item to_index e c = (Inr OutcomeOk, c')"
  obtains k where "k < length (list_active_ordered st (work c))"
    "q_id (list_active_ordered st (work c) ! k) = item"
    "0 \<le> to_index" "nat to_index < length (list_active_ordered st (work c))"
    "map q_id (list_active_ordered st (work c')) =
       pop_insert k (nat to_index) (map q_id (list_active_ordered st (work c)))"
    "k = nat to_index \<Longrightarrow> work c' = work c"
    "k \<noteq> nat to_index \<Longrightarrow> work c' = bump_change_sequence st (queue_items_update (renumber 1
        (pop_insert k (nat to_index) (map q_id (list_active_ordered st (work c))))) (work c))"
    "disk c' = work c'" "\<not> in_tx c'"
proof (rule move_ok_shape [OF res])
  let ?rows = "list_active_ordered st (work c)"
  fix k
  assume k: "index_where (\<lambda>r. q_id r = item) ?rows = Some k"
    and to: "0 \<le> to_index" "nat to_index < length ?rows"
    and dur: "disk c' = work c'" "\<not> in_tx c'"
    and w: "work c' = (if k = nat to_index then work c
       else bump_change_sequence st (queue_items_update (renumber 1 (map q_id
              (pop_insert k (nat to_index) ?rows))) (work c)))"
  have k': "k < length ?rows" "q_id (?rows ! k) = item" using index_where_SomeD [OF k] by auto
  let ?moved = "pop_insert k (nat to_index) ?rows"
  have "list_active_ordered st (queue_items_update (renumber 1 (map q_id ?moved)) (work c)) =
        place 1 ?moved"
    using k'(1) by (intro list_active_renumbered [OF ok]) simp_all
  then have "map q_id (list_active_ordered st (work c')) = map q_id ?moved"
    using k'(1) by (simp add: w)
  then have "map q_id (list_active_ordered st (work c')) =
      pop_insert k (nat to_index) (map q_id ?rows)"
    by (simp only: map_pop_insert [OF k'(1)])
  with that [of k] k' to dur w show thesis by (simp add: map_pop_insert)
qed

lemma move_sequence:
  assumes "seq_ok st d"
  shows "change_sequence st (bump_change_sequence st (queue_items_update f d)) =
         change_sequence st d + 1"
  using change_sequence_cong [of "queue_items_update f d" d st] assms
    change_sequence_bump [of st "queue_items_update f d"] by simp

text \<open>
  When the operator's guarded move succeeds, the item sits at the requested index, every
  other active item keeps its order, nothing is lost or added, the change is committed, and the
  change sequence advances by one exactly when the order changed.
\<close>

theorem move_pending_exact:
  assumes "queue_ok (queue_items (work c))" and "seq_ok st (work c)"
    and "move_pending_item st item to_index expected c = (Inr OutcomeOk, c')"
  shows "map q_id (list_active_ordered st (work c')) ! nat to_index = item \<and>
    filter (\<lambda>i. i \<noteq> item) (map q_id (list_active_ordered st (work c'))) =
      filter (\<lambda>i. i \<noteq> item) (map q_id (list_active_ordered st (work c))) \<and>
    mset (map q_id (list_active_ordered st (work c'))) =
      mset (map q_id (list_active_ordered st (work c))) \<and>
    disk c' = work c' \<and> \<not> in_tx c' \<and>
    change_sequence st (work c') = change_sequence st (work c) +
      (if map q_id (list_active_ordered st (work c')) = map q_id (list_active_ordered st (work c))
       then 0 else 1)"
proof (rule move_listed [OF assms(1,3)])
  let ?ids = "map q_id (list_active_ordered st (work c))"
  fix k
  assume k: "k < length (list_active_ordered st (work c))"
      "q_id (list_active_ordered st (work c) ! k) = item"
    and to: "nat to_index < length (list_active_ordered st (work c))"
    and ids: "map q_id (list_active_ordered st (work c')) = pop_insert k (nat to_index) ?ids"
    and same: "k = nat to_index \<Longrightarrow> work c' = work c"
    and moved: "k \<noteq> nat to_index \<Longrightarrow> work c' = bump_change_sequence st
       (queue_items_update (renumber 1 (pop_insert k (nat to_index) ?ids)) (work c))"
    and dur: "disk c' = work c'" "\<not> in_tx c'"
  have k_ids: "k < length ?ids" "?ids ! k = item" using k by simp_all
  have target: "pop_insert k (nat to_index) ?ids ! nat to_index = item"
    using k to nth_pop_insert_target [of k ?ids "nat to_index"] by simp
  have dist: "distinct ?ids" by (rule list_active_distinct [OF assms(1)])
  have "k = nat to_index \<or> pop_insert k (nat to_index) ?ids \<noteq> ?ids"
    using target k to dist by (metis k_ids length_map nth_eq_iff_index_eq)
  then have "change_sequence st (work c') = change_sequence st (work c) +
      (if pop_insert k (nat to_index) ?ids = ?ids then 0 else 1)"
    using same moved move_sequence [OF assms(2)] k_ids by (cases "k = nat to_index") simp_all
  moreover have "filter (\<lambda>i. i \<noteq> item) (pop_insert k (nat to_index) ?ids) = filter (\<lambda>i. i \<noteq> item) ?ids"
    using k_ids by (intro filter_pop_insert) simp_all
  ultimately show ?thesis using target k_ids dur unfolding ids by (simp add: mset_pop_insert)
qed

section \<open>Refusals and the concurrency token\<close>

text \<open>
  C17: a guarded delete, move or skip that does not answer \<open>ok\<close> (stale token, missing or
  ineligible item, invalid destination, or an exception) leaves exactly the rolled back
  connection: no row of any table changes and no transaction stays open.
\<close>

theorem guarded_refusal_unchanged:
  assumes "(r, c') \<in> {delete_pending_item st item expected c,
      move_pending_item st item to_index expected c, begin_skip_playing_item st item expected c,
      skip_playing_item now st item expected c}"
    and "r \<noteq> Inr OutcomeOk"
  shows "c' = rollback c"
  using assms
  by (auto simp: delete_pending_item_def move_pending_item_def begin_skip_playing_item_def
      skip_playing_item_def commit_skip_playing_item_def begin_immediate_def Let_def prog_defs
      rollback_skip_playing_item_def rollback_def dml_def
      split: if_splits option.splits)

lemma revision_field_char: "CHR ''|'' \<notin> set (revision_field r)"
proof -
  have "CHR ''|'' \<notin> set (int_str i)" for i
    using int_str_chars [of "CHR ''|''" i] by (auto simp: is_digit_def)
  moreover have "CHR ''|'' \<notin> set (status_text s)" for s by (cases s) auto
  ultimately show ?thesis by (simp add: revision_field_def)
qed

lemma revision_field_nonempty: "revision_field r \<noteq> []"
  by (simp add: revision_field_def)

lemma revision_field_inj:
  assumes "revision_field r = revision_field s"
  shows "(q_id r, q_position r, q_status r) = (q_id s, q_position s, q_status s)"
proof -
  have no_colon: "CHR '':'' \<notin> set (int_str i)" for i
    using int_str_chars [of "CHR '':''" i] by (auto simp: is_digit_def)
  have "int_str (q_id r) = int_str (q_id s) \<and>
      int_str (q_position r) @ '':'' @ status_text (q_status r) =
      int_str (q_position s) @ '':'' @ status_text (q_status s)"
    using assms split_at_char [OF no_colon no_colon]
    by (simp add: revision_field_def)
  moreover from this have "int_str (q_position r) = int_str (q_position s) \<and>
      status_text (q_status r) = status_text (q_status s)"
    using split_at_char [OF no_colon no_colon] by (metis append_Cons append_Nil)
  ultimately show ?thesis by (simp add: int_str_inj status_text_inj)
qed


definition snapshot :: "queue_row list \<Rightarrow> (int \<times> int \<times> item_status) list" where
  "snapshot rows = map (\<lambda>r. (q_id r, q_position r, q_status r)) rows"

definition revision_text :: "queue_row list \<Rightarrow> string" where
  "revision_text rows = join_char (CHR ''|'') (map revision_field rows)"

lemma revision_text_inj:
  assumes "revision_text rows = revision_text rows'"
  shows "snapshot rows = snapshot rows'"
proof -
  have "map revision_field rows = map revision_field rows'"
    by (rule join_char_inj [of _ "CHR ''|''"])
      (use assms revision_field_char revision_field_nonempty in \<open>auto simp: revision_text_def\<close>)
  then show ?thesis unfolding snapshot_def
  proof (induction rows arbitrary: rows')
    case (Cons r rows)
    then obtain s ss where "rows' = s # ss" by (cases rows') auto
    with Cons show ?case using revision_field_inj [of r s] by simp
  qed simp
qed

lemma same_token:
  assumes "active_revision seen = active_revision rows"
  shows "snapshot seen = snapshot rows \<or>
    revision_text seen \<noteq> revision_text rows \<and>
    take 24 (sha256 (revision_text seen)) = take 24 (sha256 (revision_text rows))"
proof (cases "revision_text seen = revision_text rows")
  case True
  then show ?thesis by (rule disjI1 [OF revision_text_inj])
next
  case False
  with assms show ?thesis by (simp only: active_revision_def revision_text_def not_False_eq_True simp_thms)
qed

text \<open>
  C22: an operator command that carries the token of the queue it saw succeeds only when the
  station's active queue still has those ids, positions and statuses; the one exception is a
  pair of different snapshots whose texts have the same 96-bit digest prefix.
\<close>

theorem token_guards_snapshot:
  assumes "(Inr OutcomeOk, c') \<in> {delete_pending_item st item (active_revision seen) c,
      move_pending_item st item to_index (active_revision seen) c,
      begin_skip_playing_item st item (active_revision seen) c}"
  shows "snapshot seen = snapshot (list_active_ordered st (work c)) \<or>
    revision_text seen \<noteq> revision_text (list_active_ordered st (work c)) \<and>
    take 24 (sha256 (revision_text seen)) =
      take 24 (sha256 (revision_text (list_active_ordered st (work c))))"
proof (rule same_token)
  show "active_revision seen = active_revision (list_active_ordered st (work c))"
    using assms
    by (auto simp: delete_pending_item_def move_pending_item_def begin_skip_playing_item_def
        begin_immediate_def Let_def split: if_splits option.splits)
qed

section \<open>Enqueueing\<close>

lemma first_of_None [simp]: "first_of xs = None \<longleftrightarrow> xs = []"
  by (cases xs) simp_all

lemma first_ofD: "first_of xs = Some x \<Longrightarrow> x \<in> set xs"
  by (auto simp: first_of_def split: list.splits)

lemma find_dedupe_Some:
  "find_by_dedupe_key st key ss d = Some r \<Longrightarrow>
   r \<in> set (queue_items d) \<and> q_station r = st \<and> q_dedupe r = key \<and> q_status r \<in> set ss"
  by (auto simp: find_by_dedupe_key_def dest!: first_ofD split: option.splits if_splits)

lemma sort_key_Nil_iff [simp]: "sort_key f xs = [] \<longleftrightarrow> xs = []"
  by (metis length_0_conv length_sort)

lemma find_dedupe_None:
  assumes "find_by_dedupe_key st (Some k) [Pending, Playing] d = None" "k \<noteq> []"
  shows "(st, k) \<notin> set (index_keys (queue_items d))"
proof
  assume "(st, k) \<in> set (index_keys (queue_items d))"
  then obtain r where r: "r \<in> set (queue_items d)" "index_key r = Some (st, k)"
    by (auto simp: set_index_keys)
  then have "q_station r = st" "q_dedupe r = Some k" "q_active r"
    by (auto simp: index_key_def split: option.splits if_splits)
  with r(1) assms show False
    by (auto simp: find_by_dedupe_key_def q_active_def filter_empty_conv)
qed

lemma sql_trim_Nil [simp]: "sql_trim [] = []"
  by (simp add: sql_trim_def)

lemma enqueue_index_ok:
  assumes "queue_ok rows" "find_by_dedupe_key st key [Pending, Playing] d = None"
    and "index_keys (queue_items d) = index_keys rows"
  shows "queue_index_ok (insert_queue_row st t p key rows)"
proof (cases key)
  case (Some k)
  then show ?thesis
    using assms find_dedupe_None [of st k d] queue_index_insert_iff [of rows st t p key]
    by (cases "k = []") (auto simp: queue_ok_def)
qed (use assms queue_index_insert_iff [of rows st t p key] in \<open>simp add: queue_ok_def\<close>)

lemma sort_key_append_max:
  assumes "\<And>y. y \<in> set xs \<Longrightarrow> f y \<le> f x"
  shows "sort_key f (xs @ [x]) = sort_key f xs @ [x]"
proof (rule properties_for_sort_key)
  show "filter (\<lambda>y. f k = f y) (sort_key f xs @ [x]) = filter (\<lambda>y. f k = f y) (xs @ [x])" for k
    using sort_key_stable [of f "f k" xs] by (simp add: eq_commute [of "f k"])
  show "sorted (map f (sort_key f xs @ [x]))" using assms by (simp add: sorted_append)
qed simp

lemma next_position_greater:
  "r \<in> set (queue_items d) \<Longrightarrow> q_station r = st \<Longrightarrow> q_position r < next_position st d"
  using max_or_zero_ge [of "q_position r" "map q_position (filter (\<lambda>r. q_station r = st) (queue_items d))"]
  by (simp add: next_position_def)

lemma list_active_insert_last:
  assumes "queue_ok (queue_items d)" and "pos = next_position st d"
  shows "list_active_ordered st (queue_items_update (insert_queue_row st t pos key) d) =
    list_active_ordered st d @ [new_queue_row st t pos key (queue_items d)]"
proof -
  let ?new = "new_queue_row st t pos key (queue_items d)"
  have "order_key y < order_key ?new" if "y \<in> set (filter (active_at st) (queue_items d))" for y
    using that next_position_greater [of y d st] assms(2)
    by (auto simp: order_key_def active_at_def less_prod_def)
  then have "sort_key order_key (filter (active_at st) (queue_items d) @ [?new]) =
      sort_key order_key (filter (active_at st) (queue_items d)) @ [?new]"
    by (intro sort_key_append_max) (metis less_imp_le)
  moreover have "active_at st ?new" by (simp add: active_at_def q_active_def)
  ultimately show ?thesis by (simp add: list_active_ordered_def insert_queue_row_def)
qed

lemma enqueue_effect:
  fixes st track :: int and key :: "string option" and c :: conn
  assumes "queue_ok (queue_items (work c))" and "\<not> in_tx c" and "conn_ok c"
  defines "new \<equiv> new_queue_row st track (next_position st (work c)) key (queue_items (work c))"
  defines "found \<equiv> find_by_dedupe_key st key [Pending, Playing] (work c)"
  obtains c' where
    "enqueue_or_get_existing st track key True c =
      (Inr (case found of None \<Rightarrow> (q_id new, True) | Some r \<Rightarrow> (q_id r, False)), c')"
    "disk c' = work c'" "\<not> in_tx c'"
    "work c' = (case found of None \<Rightarrow> bump_change_sequence st
       (queue_items_update (insert_queue_row st track (next_position st (work c)) key) (work c)) | Some r \<Rightarrow> work c)"
    "queue_ok (queue_items (work c'))"
    "list_active_ordered st (work c') =
       list_active_ordered st (work c) @ (case found of None \<Rightarrow> [new] | Some r \<Rightarrow> [])"
    "\<And>r. found = Some r \<Longrightarrow> r \<in> set (list_active_ordered st (work c)) \<and> q_dedupe r = key"
proof (cases found)
  case (Some r)
  then have "r \<in> set (list_active_ordered st (work c)) \<and> q_dedupe r = key"
    using find_dedupe_Some [of st key "[Pending, Playing]" "work c" r]
    by (auto simp: list_active_set active_at_def q_active_def found_def)
  with Some assms(1-3) show ?thesis
    by (intro that [of "commit (c\<lparr>in_tx := True\<rparr>)"])
       (simp_all add: enqueue_or_get_existing_def Let_def conn_ok_def found_def)
next
  case None
  let ?pos = "next_position st (work c)"
  have iok: "queue_index_ok (insert_queue_row st track ?pos key (queue_items (work c)))"
    by (rule enqueue_index_ok [OF assms(1) None [unfolded found_def]]) simp
  have "queue_ok (queue_items (work c) @ [new])"
    using queue_ok_insert [OF assms(1) iok] by (simp add: insert_queue_row_def new_def)
  moreover have "list_active_ordered st (queue_items_update (insert_queue_row st track (next_position st (work c)) key) (work c)) =
      list_active_ordered st (work c) @ [new]"
    using list_active_insert_last [OF assms(1) refl, of st track key]
    by (simp add: insert_queue_row_def new_def list_active_ordered_def)
  ultimately show ?thesis
    using None assms(2) iok
    by (intro that [of "snd (enqueue_or_get_existing st track key True c)"])
       (simp_all add: enqueue_or_get_existing_def queue_dml_def last_rowid_def Let_def found_def,
        simp_all add: insert_queue_row_def new_def)
qed

text \<open>Whether the station's active queue holds the key; an absent and an empty key are never held.\<close>

definition key_queued :: "int \<Rightarrow> string option \<Rightarrow> db \<Rightarrow> bool" where
  "key_queued st key d \<longleftrightarrow> key \<noteq> None \<and> key \<noteq> Some [] \<and> (\<exists>r \<in> set (list_active_ordered st d). q_dedupe r = key)"

lemma key_queued_found: "key_queued st key d \<longleftrightarrow> find_by_dedupe_key st key [Pending, Playing] d \<noteq> None"
proof (cases "key = None \<or> key = Some []")
  case False
  then obtain k where k: "key = Some k" "k \<noteq> []" by auto
  have "find_by_dedupe_key st key [Pending, Playing] d = None \<longleftrightarrow>
      filter (\<lambda>r. q_station r = st \<and> q_dedupe r = Some k \<and> q_status r \<in> set [Pending, Playing]) (queue_items d) = []"
    using k by (simp add: find_by_dedupe_key_def first_of_def split: list.split)
       (metis length_0_conv length_sort list.distinct(1))
  then show ?thesis
    by (auto simp: k key_queued_def list_active_set active_at_def q_active_def filter_empty_conv)
qed (auto simp: key_queued_def find_by_dedupe_key_def)

text \<open>
  C23: enqueueing outside a transaction never fails on the unique index. A row is appended exactly when
  the key is absent or empty or no active row of the station has it: then one row with a fresh id goes
  to the end of the station's queue and is committed. Otherwise the id of the row that has the key is
  returned and the database is what it was.
\<close>

theorem enqueue_appends_once:
  assumes "queue_ok (queue_items (work c))" and "\<not> in_tx c" and "conn_ok c"
  shows "\<exists>i c'. enqueue_or_get_existing st track key True c = (Inr (i, \<not> key_queued st key (work c)), c') \<and>
    disk c' = work c' \<and> \<not> in_tx c' \<and> queue_ok (queue_items (work c')) \<and>
    (if key_queued st key (work c)
     then work c' = work c \<and>
          (\<exists>r \<in> set (list_active_ordered st (work c)). q_id r = i \<and> q_dedupe r = key)
     else i \<notin> q_id ` set (queue_items (work c)) \<and>
          list_active_ordered st (work c') = list_active_ordered st (work c) @
            [new_queue_row st track (next_position st (work c)) key (queue_items (work c))] \<and>
          q_id (last (list_active_ordered st (work c'))) = i)"
proof (rule enqueue_effect [OF assms, of st track key])
  let ?found = "find_by_dedupe_key st key [Pending, Playing] (work c)"
  let ?new = "new_queue_row st track (next_position st (work c)) key (queue_items (work c))"
  fix c'
  assume run: "enqueue_or_get_existing st track key True c =
      (Inr (case ?found of None \<Rightarrow> (q_id ?new, True) | Some r \<Rightarrow> (q_id r, False)), c')"
    and rest: "disk c' = work c'" "\<not> in_tx c'" "queue_ok (queue_items (work c'))"
      "list_active_ordered st (work c') =
       list_active_ordered st (work c) @ (case ?found of None \<Rightarrow> [?new] | Some r \<Rightarrow> [])"
      "work c' = (case ?found of None \<Rightarrow> bump_change_sequence st
         (queue_items_update (insert_queue_row st track (next_position st (work c)) key) (work c)) | Some r \<Rightarrow> work c)"
    and found: "\<And>r. ?found = Some r \<Longrightarrow> r \<in> set (list_active_ordered st (work c)) \<and> q_dedupe r = key"
  have "next_rowid (map q_id (queue_items (work c))) \<notin> q_id ` set (queue_items (work c))"
    using next_rowid_fresh [of "map q_id (queue_items (work c))"] by simp
  then show ?thesis
  proof (cases ?found)
    case None
    then show ?thesis using \<open>next_rowid _ \<notin> _\<close> rest run
      by - (rule exI [of _ "q_id ?new"], rule exI [of _ c'], simp add: key_queued_found)
  next
    case (Some r)
    then show ?thesis using found [OF Some] rest run
      by - (rule exI [of _ "q_id r"], rule exI [of _ c'], auto simp: key_queued_found)
  qed
qed

section \<open>Inserting before an item\<close>

lemma shift_id [simp]: "map q_id (shift_from st pos rows) = map q_id rows"
  by (simp add: shift_from_def)

lemma index_keys_shift [simp]: "index_keys (shift_from st pos rows) = index_keys rows"
proof -
  have "index_key (r\<lparr>q_position := p\<rparr>) = index_key r" for r p
    by (rule index_key_cong) (simp_all add: q_active_def)
  then show ?thesis
    by (induction rows) (simp_all add: shift_from_def)
qed

lemma queue_ok_shift [simp]: "queue_ok (shift_from st pos rows) = queue_ok rows"
  by (simp add: queue_ok_def queue_index_ok_def)

definition shift_row :: "int \<Rightarrow> int \<Rightarrow> queue_row \<Rightarrow> queue_row" where
  "shift_row st pos r = (if active_at st r \<and> pos \<le> q_position r then r\<lparr>q_position := q_position r + 1\<rparr> else r)"

lemma shift_from_map: "shift_from st pos rows = map (shift_row st pos) rows"
  by (simp add: shift_from_def update_where_def shift_row_def)

lemma active_at_shift_row [simp]: "active_at st' (shift_row st pos r) = active_at st' r"
  by (simp add: shift_row_def active_at_def q_active_def)

lemma shift_row_simps [simp]:
  "q_id (shift_row st pos r) = q_id r" "q_status (shift_row st pos r) = q_status r"
  "q_track (shift_row st pos r) = q_track r"
  by (simp_all add: shift_row_def)

lemma mset_filter_both: "mset (filter P xs @ filter (\<lambda>x. \<not> P x) xs) = mset xs"
  by (induction xs) auto

lemma insert_before_sorted:
  assumes ok: "queue_ok (queue_items d)"
    and new: "active_at st new" "q_position new = pos" "q_id new \<notin> q_id ` set (queue_items d)"
  shows "sort_key order_key (filter (active_at st) (shift_from st pos (queue_items d) @ [new])) =
    filter (\<lambda>r. q_position r < pos) (list_active_ordered st d) @ [new] @
    map (shift_row st pos) (filter (\<lambda>r. pos \<le> q_position r) (list_active_ordered st d))"
    (is "sort_key _ ?rows = ?before @ [new] @ ?after")
proof (rule sort_key_unique)
  let ?act = "list_active_ordered st d"
  have sorted: "sorted (map order_key ?act)" by (simp add: list_active_ordered_def)
  have same: "shift_row st pos r = r" if "q_position r < pos" for r
    using that by (simp add: shift_row_def)
  have "mset (?before @ ?after) = mset (map (shift_row st pos) ?act)"
  proof -
    have "?before = map (shift_row st pos) ?before" by (auto simp: same intro!: map_idI [symmetric])
    then have "?before @ ?after = map (shift_row st pos)
        (filter (\<lambda>r. q_position r < pos) ?act @ filter (\<lambda>r. \<not> q_position r < pos) ?act)"
      by (simp add: not_less)
    then show ?thesis by (simp only: mset_map mset_filter_both)
  qed
  moreover have "mset ?rows = mset (map (shift_row st pos) (filter (active_at st) (queue_items d))) + {#new#}"
    using new(1) by (simp add: shift_from_map filter_map comp_def)
  ultimately show "mset (?before @ [new] @ ?after) = mset ?rows"
    by (simp add: list_active_mset)
  show "inj_on order_key (set ?rows)"
    using ok new(3) by (intro order_key_inj)
      (auto simp: queue_ok_def shift_from_map distinct_map_filter comp_def filter_map new(1))
  have shifted: "shift_row st pos r = r\<lparr>q_position := q_position r + 1\<rparr>"
    if "r \<in> set (filter (\<lambda>r. pos \<le> q_position r) ?act)" for r
    using that by (simp add: shift_row_def list_active_set)
  have "sorted (map order_key ?after)"
  proof -
    have "sorted (map order_key (filter (\<lambda>r. pos \<le> q_position r) ?act))"
      by (rule sorted_map_filter [OF sorted])
    then show ?thesis
      using shifted by (auto simp: sorted_map sorted_wrt_map order_key_def less_eq_prod_def
          intro: sorted_wrt_mono_rel [rotated])
  qed
  then show "sorted (map order_key (?before @ [new] @ ?after))"
    using sorted_map_filter [OF sorted] shifted new(2)
    by (auto simp: sorted_append order_key_def less_eq_prod_def)
qed

text \<open>
  Inserting before an active item (the show lifecycle's jingle insertion) outside a
  transaction puts exactly one new row in front of the item and of every row that shares its
  position, after the rows before it; nothing else is reordered. A position of zero counts as
  one, as in the source.
\<close>

theorem insert_before_exact:
  assumes "queue_ok (queue_items (work c))" and "\<not> in_tx c"
    and "find_by_dedupe_key st key statuses (work c) = None"
    and "find_by_dedupe_key st key [Pending, Playing] (work c) = None"
    and "find (\<lambda>r. active_at st r \<and> q_id r = before) (queue_items (work c)) = Some r"
    and "pos = (if q_position r = 0 then 1 else q_position r)"
  shows "\<exists>i c'. insert_before_item_or_get_existing st before track key statuses c = (Inr (i, True), c') \<and>
    disk c' = work c' \<and> \<not> in_tx c' \<and> queue_ok (queue_items (work c')) \<and>
    i \<notin> q_id ` set (queue_items (work c)) \<and>
    map q_id (list_active_ordered st (work c')) =
      map q_id (filter (\<lambda>s. q_position s < pos) (list_active_ordered st (work c))) @ [i] @
      map q_id (filter (\<lambda>s. pos \<le> q_position s) (list_active_ordered st (work c)))"
proof -
  let ?rows = "shift_from st pos (queue_items (work c))"
  let ?new = "new_queue_row st track pos key ?rows"
  let ?run = "insert_before_item_or_get_existing st before track key statuses c"
  have iok: "queue_index_ok (insert_queue_row st track pos key ?rows)"
    by (rule enqueue_index_ok [OF _ assms(4)]) (simp_all add: assms(1))
  have result: "?run = (Inr (q_id ?new, True), snd ?run)"
    "work (snd ?run) = queue_items_update (insert_queue_row st track pos key)
       (queue_items_update (shift_from st pos) (work c))"
    "disk (snd ?run) = work (snd ?run)" "\<not> in_tx (snd ?run)"
    using assms(2,3,5) iok
    by (simp_all add: insert_before_item_or_get_existing_def begin_immediate_def queue_dml_def
        last_rowid_def Let_def insert_queue_row_def assms(6))
  have fresh: "q_id ?new \<notin> q_id ` set (queue_items (work c))"
    using next_rowid_fresh [of "map q_id ?rows"] by (metis list.set_map new_queue_row_simps(1) shift_id)
  have "list_active_ordered st (work (snd ?run)) =
      sort_key order_key (filter (active_at st) (?rows @ [?new]))"
    by (simp add: result(2) list_active_ordered_def insert_queue_row_def)
  also have "\<dots> = filter (\<lambda>r. q_position r < pos) (list_active_ordered st (work c)) @ [?new] @
    map (shift_row st pos) (filter (\<lambda>r. pos \<le> q_position r) (list_active_ordered st (work c)))"
    using fresh by (intro insert_before_sorted [OF assms(1)])
      (simp_all add: active_at_def q_active_def del: new_queue_row_simps(1))
  finally have "map q_id (list_active_ordered st (work (snd ?run))) =
      map q_id (filter (\<lambda>s. q_position s < pos) (list_active_ordered st (work c))) @ [q_id ?new] @
      map q_id (filter (\<lambda>s. pos \<le> q_position s) (list_active_ordered st (work c)))"
    by (simp add: comp_def del: new_queue_row_simps(1))
  moreover have "queue_ok (queue_items (work (snd ?run)))"
    using queue_ok_insert [OF _ iok] assms(1) by (simp add: result(2))
  ultimately show ?thesis
    using fresh result(3,4) by - (intro exI conjI, rule result(1), assumption+)
qed

section \<open>The two-phase skip\<close>

lemma filter_finished:
  "filter (active_at st) (map (\<lambda>r. if q_id r = item
      then r\<lparr>q_status := Done, q_finished := Some t\<rparr> else r) rows) =
   filter (\<lambda>r. q_id r \<noteq> item) (filter (active_at st) rows)"
  by (induction rows) (simp_all add: active_at_def q_active_def)

lemma list_active_finished:
  "list_active_ordered st (queue_items_update (map (\<lambda>r. if q_id r = item
      then r\<lparr>q_status := Done, q_finished := Some (current_timestamp now)\<rparr> else r)) d) =
   filter (\<lambda>r. q_id r \<noteq> item) (list_active_ordered st d)"
  by (simp add: list_active_ordered_def filter_finished filter_sort_key del: filter_filter)

text \<open>
  C24: a skip of the operator that succeeds names an active item of the station that was playing,
  marks exactly this row as done at the present time, leaves every other row and column alone (so
  the active queue of the station only loses the item), advances the change sequence by one and
  commits.
\<close>

theorem skip_playing_exact:
  assumes "queue_ok (queue_items (work c))" and "seq_ok st (work c)"
    and "skip_playing_item now st item expected c = (Inr OutcomeOk, c')"
  shows "(\<exists>r \<in> set (list_active_ordered st (work c)). q_id r = item \<and> q_status r = Playing) \<and>
    queue_items (work c') = map (\<lambda>r. if q_id r = item
      then r\<lparr>q_status := Done, q_finished := Some (current_timestamp now)\<rparr> else r) (queue_items (work c)) \<and>
    list_active_ordered st (work c') = filter (\<lambda>r. q_id r \<noteq> item) (list_active_ordered st (work c)) \<and>
    disk c' = work c' \<and> \<not> in_tx c' \<and>
    change_sequence st (work c') = change_sequence st (work c) + 1"
proof -
  let ?rows = "list_active_ordered st (work c)"
  let ?victim = "\<lambda>r. q_id r = item \<and> q_station r = st \<and> q_status r = Playing"
  let ?fin = "\<lambda>r. r\<lparr>q_status := Done, q_finished := Some (current_timestamp now)\<rparr>"
  obtain t where find: "find (\<lambda>r. q_id r = item) ?rows = Some t" "q_status t = Playing"
    and commit: "commit_skip_playing_item now st item (c\<lparr>in_tx := True\<rparr>) = (Inr OutcomeOk, c')"
    using assms(3)
    by (auto simp: skip_playing_item_def begin_skip_playing_item_def begin_immediate_def Let_def
        prog_defs split: if_splits option.splits prod.splits sum.splits)
  have t: "t \<in> set ?rows" "q_id t = item" using find_id_SomeD [OF find(1)] by simp_all
  have c': "work c' = bump_change_sequence st (queue_items_update (update_where ?victim ?fin) (work c))"
    "disk c' = work c'" "\<not> in_tx c'"
    using commit by (auto simp: commit_skip_playing_item_def Let_def split: if_splits)
  have "?victim r \<longleftrightarrow> q_id r = item" if "r \<in> set (queue_items (work c))" for r
    using that assms(1) t find(2) same_id_same_row [of "queue_items (work c)" r t]
    by (auto simp: queue_ok_def list_active_set active_at_def)
  then have rows: "update_where ?victim ?fin (queue_items (work c)) =
      map (\<lambda>r. if q_id r = item then ?fin r else r) (queue_items (work c))"
    unfolding update_where_def by (intro map_cong) auto
  have "list_active_ordered st (work c') = filter (\<lambda>r. q_id r \<noteq> item) ?rows"
    unfolding c'(1) list_active_bump using list_active_finished [of st item now "work c"] rows
    by (simp add: list_active_ordered_def)
  then show ?thesis
    using t find(2) move_sequence [OF assms(2)] c' rows by (auto simp: c'(1))
qed

section \<open>What every queue operation keeps\<close>

datatype queue_command =
  CmdEnqueue int int "string option" | CmdInsertBefore int int int "string option" "item_status list"
| CmdMarkPlaying rat int | CmdMarkDone rat int | CmdMarkFailed rat int | CmdReindex int
| CmdDelete int int string | CmdMove int int int string | CmdBeginSkip int int string
| CmdCommitSkip rat int int | CmdRollbackSkip | CmdSkip rat int int string
| CmdDeleteIndex int int | CmdMoveIndex int int int

fun run_queue_command :: "queue_command \<Rightarrow> conn \<Rightarrow> conn" where
  "run_queue_command (CmdEnqueue st t k) c = snd (enqueue_or_get_existing st t k True c)"
| "run_queue_command (CmdInsertBefore st b t k ss) c =
     snd (insert_before_item_or_get_existing st b t k ss c)"
| "run_queue_command (CmdMarkPlaying now i) c = snd (mark_playing now i c)"
| "run_queue_command (CmdMarkDone now i) c = snd (mark_done now i c)"
| "run_queue_command (CmdMarkFailed now i) c = snd (mark_failed now i c)"
| "run_queue_command (CmdReindex st) c = snd (reindex_active st c)"
| "run_queue_command (CmdDelete st i e) c = snd (delete_pending_item st i e c)"
| "run_queue_command (CmdMove st i j e) c = snd (move_pending_item st i j e c)"
| "run_queue_command (CmdBeginSkip st i e) c = snd (begin_skip_playing_item st i e c)"
| "run_queue_command (CmdCommitSkip now st i) c = snd (commit_skip_playing_item now st i c)"
| "run_queue_command CmdRollbackSkip c = snd (rollback_skip_playing_item c)"
| "run_queue_command (CmdSkip now st i e) c = snd (skip_playing_item now st i e c)"
| "run_queue_command (CmdDeleteIndex st i) c = snd (delete_by_queue_index st i c)"
| "run_queue_command (CmdMoveIndex st i j) c = snd (move_by_queue_index st i j c)"

definition conn_queue_ok :: "conn \<Rightarrow> bool" where
  "conn_queue_ok c \<longleftrightarrow> queue_ok (queue_items (work c)) \<and> queue_ok (queue_items (disk c))"

lemma conn_queue_ok_conn [simp]:
  "conn_queue_ok c \<Longrightarrow> conn_queue_ok (commit c)" "conn_queue_ok c \<Longrightarrow> conn_queue_ok (rollback c)"
  "conn_queue_ok c \<Longrightarrow> conn_queue_ok (c\<lparr>in_tx := b\<rparr>)"
  "conn_queue_ok c \<Longrightarrow> conn_queue_ok (dml (bump_change_sequence st) c)"
  "conn_queue_ok c \<Longrightarrow> conn_queue_ok (dml id c)"
  "conn_queue_ok c \<Longrightarrow> conn_queue_ok (dml (queue_items_update (delete_where P)) c)"
  "conn_queue_ok c \<Longrightarrow> conn_queue_ok (dml (queue_items_update (renumber n is)) c)"
  "conn_queue_ok c \<Longrightarrow> conn_queue_ok (dml (queue_items_update (shift_from st p)) c)"
  "conn_queue_ok c \<Longrightarrow> conn_queue_ok (dml (reindex_active_rows st) c)"
  by (auto simp: conn_queue_ok_def reindex_active_rows_def)

lemma queue_ok_finished: "queue_ok rows \<Longrightarrow> s \<notin> {Pending, Playing} \<Longrightarrow>
  queue_ok (update_where P (\<lambda>r. r\<lparr>q_status := s, q_finished := f\<rparr>) rows)"
  by (rule queue_ok_update) (simp_all add: index_key_inactive q_active_def)

lemma conn_queue_ok_finished [simp]:
  "conn_queue_ok c \<Longrightarrow> conn_queue_ok (dml (queue_items_update (set_finished Done now i)) c)"
  "conn_queue_ok c \<Longrightarrow> conn_queue_ok (dml (queue_items_update (set_finished Failed now i)) c)"
  "conn_queue_ok c \<Longrightarrow> conn_queue_ok (dml (queue_items_update (update_where P
      (\<lambda>r. r\<lparr>q_status := Done, q_finished := f\<rparr>))) c)"
  by (simp_all add: conn_queue_ok_def set_finished_def queue_ok_finished)

lemma conn_queue_ok_dml:
  "conn_queue_ok c \<Longrightarrow> (\<And>rows. queue_ok rows \<Longrightarrow> distinct (map q_id (f rows))) \<Longrightarrow>
   queue_dml f c = (r, c') \<Longrightarrow> conn_queue_ok c'"
  by (auto simp: queue_dml_def conn_queue_ok_def queue_ok_def split: if_splits)

lemma distinct_insert_row [simp]:
  "queue_ok rows \<Longrightarrow> distinct (map q_id (insert_queue_row st t p k rows))"
  using next_rowid_fresh [of "map q_id rows"] by (simp add: insert_queue_row_def queue_ok_def)

lemma distinct_set_playing [simp]:
  "queue_ok rows \<Longrightarrow> distinct (map q_id (set_playing now i rows))"
  by (simp add: set_playing_def queue_ok_def)

lemma enqueue_keeps_ok: "conn_queue_ok c \<Longrightarrow> conn_queue_ok (snd (enqueue_or_get_existing st t k m c))"
  by (auto simp: enqueue_or_get_existing_def Let_def split: option.split prod.split sum.split
      intro!: conn_queue_ok_conn(1,2,4) elim: conn_queue_ok_dml [rotated 2])

lemma insert_before_keeps_ok:
  "conn_queue_ok c \<Longrightarrow> conn_queue_ok (snd (insert_before_item_or_get_existing st b t k ss c))"
  by (auto simp: insert_before_item_or_get_existing_def begin_immediate_def Let_def enqueue_keeps_ok
      split: option.split prod.split sum.split
      intro!: conn_queue_ok_conn(1,2) elim: conn_queue_ok_dml [rotated 2])

lemma guarded_keep_ok:
  assumes "conn_queue_ok c"
  shows "conn_queue_ok (snd (delete_pending_item st item e c))"
    and "conn_queue_ok (snd (move_pending_item st item to_index e c))"
    and "conn_queue_ok (snd (begin_skip_playing_item st item e c))"
    and "conn_queue_ok (snd (commit_skip_playing_item now st item c))"
  using assms
  by (simp_all add: delete_pending_item_def move_pending_item_def begin_skip_playing_item_def
      commit_skip_playing_item_def begin_immediate_def Let_def split: option.split)

lemma run_queue_command_ok: "conn_queue_ok c \<Longrightarrow> conn_queue_ok (run_queue_command cmd c)"
proof (cases cmd)
  case (CmdSkip now st i e)
  moreover assume "conn_queue_ok c"
  ultimately show ?thesis
    using guarded_keep_ok(3) [of c st i e]
      guarded_keep_ok(4) [of "snd (begin_skip_playing_item st i e c)" now st i]
    by (cases "begin_skip_playing_item st i e c")
      (auto simp: skip_playing_item_def rollback_skip_playing_item_def bindp_def catchp_def ret_def
        updp_def raise_exn_def split: sum.split prod.split)
qed (auto simp: enqueue_keeps_ok insert_before_keeps_ok guarded_keep_ok mark_playing_def mark_done_def
      mark_failed_def reindex_active_def rollback_skip_playing_item_def delete_by_queue_index_def
      move_by_queue_index_def bindp_def updp_def Let_def split: prod.split sum.split
      intro!: conn_queue_ok_conn(1) elim: conn_queue_ok_dml [rotated 2])

text \<open>
  Starting from the empty database, after any sequence of queue operations (refused and
  raising ones included) row ids are unique and no station has two active rows with the same
  dedupe key, both in what the connection reads and on disk.
\<close>

theorem queue_commands_keep_index:
  "conn_queue_ok (fold run_queue_command cmds (open_conn empty_db))"
proof -
  have "conn_queue_ok (fold run_queue_command cmds c)" if "conn_queue_ok c" for c
    using that by (induction cmds arbitrary: c) (simp_all add: run_queue_command_ok)
  moreover have "conn_queue_ok (open_conn empty_db)"
    by (simp add: conn_queue_ok_def queue_ok_def queue_index_ok_def empty_db_def)
  ultimately show ?thesis by blast
qed

section \<open>The broadcast queue provides the interfaces\<close>

lemma filter_neq_nth:
  "distinct (map f xs) \<Longrightarrow> k < length xs \<Longrightarrow>
   filter (\<lambda>x. f x \<noteq> f (xs ! k)) xs = take k xs @ drop (Suc k) xs"
proof (induction xs arbitrary: k)
  case (Cons x xs)
  show ?case
  proof (cases k)
    case 0
    with Cons.prems show ?thesis by (auto intro!: filter_True) (metis imageI)
  next
    case (Suc j)
    with Cons.prems have "f x \<noteq> f (xs ! j)" by (auto dest: nth_mem)
    with Cons Suc show ?thesis by simp
  qed
qed simp

interpretation broadcast_queue: indexed_queue
  "\<lambda>c. queue_ok (queue_items (work c))" "\<lambda>c. map q_id (list_active_ordered st (work c))"
  "delete_by_queue_index st" "move_by_queue_index st" for st
proof
  fix c :: conn and i j :: int
  let ?rows = "list_active_ordered st (work c)"
  show "i < 0 \<or> int (length (map q_id ?rows)) \<le> i \<Longrightarrow> delete_by_queue_index st i c = (Inr False, c)"
    "i < 0 \<or> int (length (map q_id ?rows)) \<le> i \<Longrightarrow> move_by_queue_index st i j c = (Inr False, c)"
    by (simp_all add: delete_by_queue_index_def move_by_queue_index_def Let_def)
  assume ok: "queue_ok (queue_items (work c))" and i: "0 \<le> i" "i < int (length (map q_id ?rows))"
  have in_i: "nat i < length ?rows" using i by (simp add: nat_less_iff)
  let ?d = "queue_items_update (delete_where (\<lambda>r. q_id r = q_id (?rows ! nat i))) (work c)"
  have ok': "queue_ok (queue_items ?d)" using ok by (simp add: queue_ok_delete)
  have "list_active_ordered st ?d = take (nat i) ?rows @ drop (Suc (nat i)) ?rows"
    using filter_neq_nth [OF list_active_distinct [OF ok] in_i] by (simp add: list_active_delete)
  then have "map q_id (list_active_ordered st (reindex_active_rows st ?d)) =
      take (nat i) (map q_id ?rows) @ drop (Suc (nat i)) (map q_id ?rows)"
    by (simp add: list_active_reindexed [OF ok'] take_map drop_map)
  moreover have "queue_ok (queue_items (reindex_active_rows st ?d))"
    using ok' by (simp add: reindex_active_rows_def)
  ultimately show "\<exists>c'. delete_by_queue_index st i c = (Inr True, c') \<and> queue_ok (queue_items (work c')) \<and>
      map q_id (list_active_ordered st (work c')) =
        take (nat i) (map q_id ?rows) @ drop (Suc (nat i)) (map q_id ?rows)"
    using i by (simp add: delete_by_queue_index_def Let_def)
  let ?to = "if j < 0 then 0 else if int (length (map q_id ?rows)) \<le> j
      then int (length (map q_id ?rows)) - 1 else j"
  let ?moved = "pop_insert (nat i) (nat ?to) ?rows"
  have "map q_id (list_active_ordered st (queue_items_update (renumber 1 (map q_id ?moved)) (work c))) =
      pop_insert (nat i) (nat ?to) (map q_id ?rows)"
    using in_i by (subst list_active_renumbered [OF ok, of ?moved]) (simp_all add: map_pop_insert)
  moreover have "nat i = nat ?to \<Longrightarrow> pop_insert (nat i) (nat ?to) (map q_id ?rows) = map q_id ?rows"
    using in_i by (simp del: map_pop_insert)
  ultimately show "\<exists>c'. move_by_queue_index st i j c = (Inr True, c') \<and> queue_ok (queue_items (work c')) \<and>
      map q_id (list_active_ordered st (work c')) = pop_insert (nat i) (nat ?to) (map q_id ?rows)"
    using i ok by (cases "i = ?to") (auto simp: move_by_queue_index_def Let_def)
qed

text \<open>The status of a queue item by id, and the row a mark writes.\<close>

definition queue_status :: "queue_row list \<Rightarrow> int \<Rightarrow> item_status option" where
  "queue_status rows i = map_option q_status (find (\<lambda>r. q_id r = i) rows)"

definition mark_queue_rows :: "rat \<Rightarrow> item_status \<Rightarrow> int \<Rightarrow> queue_row list \<Rightarrow> queue_row list" where
  "mark_queue_rows now s = (if s = Playing then set_playing now else set_finished s now)"

lemma queue_status_update:
  "(\<And>r. q_id (f r) = q_id r) \<Longrightarrow> queue_status (update_where (\<lambda>r. q_id r = i) f rows) j =
   (if j = i then map_option (\<lambda>r. q_status (f r)) (find (\<lambda>r. q_id r = i) rows) else queue_status rows j)"
  by (induction rows) (auto simp: queue_status_def)

interpretation queue_marks: managed_items queue_status "mark_queue_rows now" for now
proof
  fix rows i j st x
  show "queue_status rows i = Some x \<Longrightarrow> queue_status (mark_queue_rows now st i rows) i = Some st"
    by (cases "st = Playing")
      (auto simp: mark_queue_rows_def set_playing_def set_finished_def queue_status_update,
       auto simp: queue_status_def)
  show "queue_status rows i = None \<Longrightarrow> queue_status (mark_queue_rows now st i rows) i = None"
    by (cases "st = Playing")
      (auto simp: mark_queue_rows_def set_playing_def set_finished_def queue_status_update,
       simp_all add: queue_status_def)
  show "j \<noteq> i \<Longrightarrow> queue_status (mark_queue_rows now st i rows) j = queue_status rows j"
    by (cases "st = Playing")
      (auto simp: mark_queue_rows_def set_playing_def set_finished_def queue_status_update)
qed

section \<open>A concrete queue\<close>

text \<open>Station 1 plays item 1 and has items 2 and 3 pending; station 2 has item 4 pending.\<close>

definition sample_row :: "int \<Rightarrow> int \<Rightarrow> int \<Rightarrow> item_status \<Rightarrow> queue_row" where
  "sample_row i st pos s = \<lparr>q_id = i, q_station = st, q_track = 10 + i, q_position = pos,
     q_status = s, q_started = NullStamp, q_finished = None, q_dedupe = None\<rparr>"

definition sample_rows :: "queue_row list" where
  "sample_rows = [sample_row 1 1 1 Playing, sample_row 2 1 2 Pending, sample_row 3 1 3 Pending,
     sample_row 4 2 1 Pending]"

definition sample_conn :: conn where
  "sample_conn = open_conn (empty_db\<lparr>queue_items := sample_rows\<rparr>)"

lemma sample_simps [simp]:
  "q_id (sample_row i st pos s) = i" "q_station (sample_row i st pos s) = st"
  "q_position (sample_row i st pos s) = pos" "q_status (sample_row i st pos s) = s"
  "q_dedupe (sample_row i st pos s) = None" "index_key (sample_row i st pos s) = None"
  "order_key (sample_row i st pos s) = (pos, i)"
  "active_at st' (sample_row i st pos s) \<longleftrightarrow> st = st' \<and> s \<in> {Pending, Playing}"
  by (auto simp: sample_row_def index_key_def order_key_def active_at_def q_active_def)

lemma sample_conn_simps [simp]:
  "work sample_conn = empty_db\<lparr>queue_items := sample_rows\<rparr>" "\<not> in_tx sample_conn"
  "disk sample_conn = empty_db\<lparr>queue_items := sample_rows\<rparr>" "conn_ok sample_conn"
  by (simp_all add: sample_conn_def)

lemma sample_active [simp]:
  "list_active_ordered 1 (empty_db\<lparr>queue_items := sample_rows\<rparr>) =
   [sample_row 1 1 1 Playing, sample_row 2 1 2 Pending, sample_row 3 1 3 Pending]"
  by (simp add: list_active_ordered_def sample_rows_def less_eq_prod_def)

lemma sample_ok [simp]: "queue_ok sample_rows" "seq_ok st (empty_db\<lparr>queue_items := rows\<rparr>)"
  by (simp_all add: queue_ok_def queue_index_ok_def sample_rows_def seq_ok_def empty_db_def)

lemma sample_delete:
  "\<exists>c'. delete_pending_item 1 2 (active_revision (list_active_ordered 1 (work sample_conn)))
     sample_conn = (Inr OutcomeOk, c')"
  by (simp add: delete_pending_item_def begin_immediate_def Let_def)
     (simp add: sample_rows_def rowcount_def)

lemma sample_move:
  "\<exists>c'. move_pending_item 1 3 1 (active_revision (list_active_ordered 1 (work sample_conn)))
     sample_conn = (Inr OutcomeOk, c')"
  by (simp add: move_pending_item_def begin_immediate_def Let_def)

lemma sample_skip:
  "\<exists>c'. skip_playing_item 0 1 1 (active_revision (list_active_ordered 1 (work sample_conn)))
     sample_conn = (Inr OutcomeOk, c')"
  by (simp add: skip_playing_item_def begin_skip_playing_item_def commit_skip_playing_item_def
      begin_immediate_def Let_def prog_defs)
     (simp add: sample_rows_def rowcount_def)

theorem delete_pending_exact_witness:
  "\<exists>c' :: conn. map q_track (list_active_ordered 1 (work c')) = map q_track [sample_row 1 1 1 Playing, sample_row 3 1 3 Pending] \<and>
     map q_position (list_active_ordered 1 (work c')) = [1, 2] \<and>
     change_sequence 1 (work c') = change_sequence 1 (work sample_conn) + 1"
proof -
  obtain c' where c': "delete_pending_item 1 2 (active_revision (list_active_ordered 1 (work sample_conn)))
     sample_conn = (Inr OutcomeOk, c')" using sample_delete by blast
  have e: "map (q_position_update (\<lambda>_. 0)) (list_active_ordered 1 (work c')) =
        map (q_position_update (\<lambda>_. 0)) [sample_row 1 1 1 Playing, sample_row 3 1 3 Pending] \<and>
      map q_position (list_active_ordered 1 (work c')) = [1..int (length (list_active_ordered 1 (work c')))] \<and>
      change_sequence 1 (work c') = change_sequence 1 (work sample_conn) + 1"
    using delete_pending_exact [OF _ _ c', of 2] by simp
  have len: "length (list_active_ordered 1 (work c')) = 2"
    using arg_cong [OF conjunct1 [OF e], of length] by simp
  have "map q_track (map (q_position_update (\<lambda>_. 0)) rs) = map q_track rs" for rs by simp
  then have "map q_track (list_active_ordered 1 (work c')) = map q_track [sample_row 1 1 1 Playing, sample_row 3 1 3 Pending]"
    using conjunct1 [OF e] by metis
  moreover have "[1..int 2] = [1, 2]" by (simp add: upto.simps)
  ultimately show ?thesis using e by (intro exI [of _ c']) (simp add: len)
qed

theorem move_pending_exact_witness:
  "\<exists>c' :: conn. map q_id (list_active_ordered 1 (work c')) ! 1 = 3 \<and> disk c' = work c'"
proof -
  obtain c' where "move_pending_item 1 3 1 (active_revision (list_active_ordered 1 (work sample_conn)))
     sample_conn = (Inr OutcomeOk, c')" using sample_move by blast
  then have "map q_id (list_active_ordered 1 (work c')) ! 1 = 3 \<and> disk c' = work c'"
    using move_pending_exact [of sample_conn 1 3 1 _ c'] by simp
  then show ?thesis by blast
qed

theorem guarded_refusal_unchanged_witness:
  "snd (move_pending_item 1 9 0 (active_revision (list_active_ordered 1 (work sample_conn))) sample_conn)
   = rollback sample_conn"
  by (rule guarded_refusal_unchanged [where st = 1 and item = 9 and to_index = 0 and c = sample_conn
        and expected = "active_revision (list_active_ordered 1 (work sample_conn))"
        and r = "Inr OutcomeMissing"])
     (simp_all add: move_pending_item_def begin_immediate_def Let_def)

theorem token_guards_snapshot_witness:
  "snapshot (list_active_ordered 1 (work sample_conn)) = [(1, 1, Playing), (2, 2, Pending), (3, 3, Pending)]"
proof -
  obtain c' where "delete_pending_item 1 2 (active_revision (list_active_ordered 1 (work sample_conn)))
     sample_conn = (Inr OutcomeOk, c')" using sample_delete by blast
  then have "snapshot (list_active_ordered 1 (work sample_conn)) =
      snapshot (list_active_ordered 1 (work sample_conn))"
    using token_guards_snapshot [of c' 1 2 "list_active_ordered 1 (work sample_conn)" sample_conn] by auto
  then show ?thesis by (simp add: snapshot_def)
qed

theorem enqueue_appends_once_witness:
  "\<exists>i c'. enqueue_or_get_existing 1 50 (Some ''k'') True sample_conn = (Inr (i, True), c') \<and>
     map q_id (list_active_ordered 1 (work c')) = [1, 2, 3, i]"
proof -
  have "\<not> key_queued 1 (Some ''k'') (work sample_conn)"
    by (simp add: key_queued_found find_by_dedupe_key_def sample_rows_def)
  then show ?thesis using enqueue_appends_once [of sample_conn 1 50 "Some ''k''"] by auto
qed

theorem insert_before_exact_witness:
  "\<exists>i c'. insert_before_item_or_get_existing 1 2 50 None [Pending, Playing] sample_conn = (Inr (i, True), c') \<and>
     map q_id (list_active_ordered 1 (work c')) = [1, i, 2, 3]"
proof -
  have "find (\<lambda>r. active_at 1 r \<and> q_id r = 2) (queue_items (work sample_conn)) = Some (sample_row 2 1 2 Pending)"
    by (simp add: sample_rows_def)
  from insert_before_exact [OF _ _ _ _ this, of None "[Pending, Playing]" 2 50] show ?thesis
    by (auto simp: find_by_dedupe_key_def)
qed

theorem skip_playing_exact_witness:
  "\<exists>c' :: conn. map q_status (queue_items (work c')) = Done # map q_status (tl sample_rows)
     \<and> map q_id (list_active_ordered 1 (work c')) = [2, 3] \<and> disk c' = work c'"
proof -
  obtain c' where "skip_playing_item 0 1 1 (active_revision (list_active_ordered 1 (work sample_conn)))
     sample_conn = (Inr OutcomeOk, c')" using sample_skip by blast
  from skip_playing_exact [OF _ _ this]
  have "map q_status (queue_items (work c')) = map (\<lambda>r. if q_id r = 1 then Done else q_status r) sample_rows
     \<and> map q_id (list_active_ordered 1 (work c')) = map q_id (filter (\<lambda>r. q_id r \<noteq> 1) (list_active_ordered 1 (work sample_conn)))
     \<and> disk c' = work c'"
    by (simp add: if_distrib cong: if_cong)
  then have "map q_status (queue_items (work c')) = Done # map q_status (tl sample_rows)
     \<and> map q_id (list_active_ordered 1 (work c')) = [2, 3] \<and> disk c' = work c'"
    by simp (simp add: sample_rows_def)
  then show ?thesis by (rule exI)
qed

end
