(* ===== verification/Media_Repos.thy ===== *)
theory Media_Repos
  imports Queue_Props
begin

text \<open>
  The repositories beside the broadcast queue: ad breaks (\<open>ad_break_repo.py\<close>), scheduled items
  (\<open>schedule_repo.py\<close>), the host's programme queue (\<open>program_queue_repo.py\<close>) and show sessions
  (\<open>show_session_repo.py\<close>).
\<close>

section \<open>Ad breaks\<close>

definition stamp_key :: "stamp \<Rightarrow> nat \<times> rat" where
  "stamp_key s = (case s of NullStamp \<Rightarrow> (0, 0) | At t \<Rightarrow> (1, t) | Garbled \<Rightarrow> (2, 0))"

definition due_key :: "rat option \<Rightarrow> nat \<times> rat" where
  "due_key d = (case d of None \<Rightarrow> (0, 0) | Some t \<Rightarrow> (1, t))"

definition ad_enqueue ::
  "int \<Rightarrow> int \<Rightarrow> rat option \<Rightarrow> int \<Rightarrow> string option \<Rightarrow> (conn, int) prog" where
  "ad_enqueue st track due priority key c =
     (let same = (\<lambda>r. ad_station r = st \<and> ad_dedupe r = key \<and> ad_status r \<in> {Pending, Playing, Done});
          existing = (if key = None \<or> key = Some [] then None
            else first_of (sort_key ad_id (filter same (ads (work c))))) in
      case existing of
        Some r \<Rightarrow> (Inr (ad_id r), c)
      | None \<Rightarrow>
          (let new = \<lparr>ad_id = next_rowid (map ad_id (ads (work c))), ad_station = st, ad_track = track,
                      ad_due = due, ad_status = Pending, ad_priority = priority, ad_started = NullStamp,
                      ad_finished = None, ad_dedupe = key\<rparr>
           in (Inr (ad_id new), commit (dml (ads_update (\<lambda>rows. rows @ [new])) c))))"

definition ad_due_at :: "int \<Rightarrow> rat \<Rightarrow> ad_row \<Rightarrow> bool" where
  "ad_due_at st now r \<longleftrightarrow> ad_station r = st \<and> ad_status r = Pending \<and>
     (case ad_due r of None \<Rightarrow> False | Some t \<Rightarrow> t \<le> current_timestamp now)"

definition ad_next_due :: "int \<Rightarrow> rat \<Rightarrow> db \<Rightarrow> ad_row option" where
  "ad_next_due st now d =
     first_of (sort_key (\<lambda>r. (- ad_priority r, due_key (ad_due r), ad_id r))
       (filter (ad_due_at st now) (ads d)))"

definition ad_current_playing :: "int \<Rightarrow> db \<Rightarrow> ad_row option" where
  "ad_current_playing st d =
     first_of (sort_key (\<lambda>r. (stamp_key (ad_started r), ad_id r))
       (filter (\<lambda>r. ad_station r = st \<and> ad_status r = Playing) (ads d)))"

definition ad_list_active :: "int \<Rightarrow> int \<Rightarrow> db \<Rightarrow> ad_row list" where
  "ad_list_active st limit d =
     take (clamp_limit 1 500 limit)
       (sort_key (\<lambda>r. (if ad_status r = Playing then 0 else 1 :: nat, due_key (ad_due r),
                       - ad_priority r, ad_id r))
         (filter (\<lambda>r. ad_station r = st \<and> (ad_status r = Pending \<or> ad_status r = Playing)) (ads d)))"

definition ad_list_recent :: "int \<Rightarrow> int \<Rightarrow> db \<Rightarrow> ad_row list" where
  "ad_list_recent st limit d =
     take (clamp_limit 1 200 limit) (rev (sort_key ad_id (filter (\<lambda>r. ad_station r = st) (ads d))))"

definition ad_set_status :: "rat \<Rightarrow> item_status \<Rightarrow> int \<Rightarrow> ad_row list \<Rightarrow> ad_row list" where
  "ad_set_status now s i = update_where (\<lambda>r. ad_id r = i)
     (\<lambda>r. if s = Playing
          then r\<lparr>ad_status := Playing,
                 ad_started := (if ad_status r = Playing \<and> ad_started r \<noteq> NullStamp
                                then ad_started r else At (current_timestamp now))\<rparr>
          else r\<lparr>ad_status := s, ad_finished := Some (current_timestamp now)\<rparr>)"

definition ad_mark :: "item_status \<Rightarrow> rat \<Rightarrow> int \<Rightarrow> (conn, unit) prog" where
  "ad_mark s now i = updp (\<lambda>c. commit (dml (ads_update (ad_set_status now s i)) c))"

section \<open>Scheduled items\<close>

definition sched_ready :: "int \<Rightarrow> rat \<Rightarrow> sched_row \<Rightarrow> bool" where
  "sched_ready st now r \<longleftrightarrow> sc_station r = st \<and> sc_status r = Pending \<and>
     (case sc_play_at r of None \<Rightarrow> False | Some t \<Rightarrow> t \<le> current_timestamp now) \<and>
     (case sc_window_end r of None \<Rightarrow> True
      | Some None \<Rightarrow> False
      | Some (Some t) \<Rightarrow> current_timestamp now \<le> t)"

definition sched_next_ready :: "int \<Rightarrow> rat \<Rightarrow> db \<Rightarrow> sched_row option" where
  "sched_next_ready st now d =
     first_of (sort_key (\<lambda>r. (due_key (sc_play_at r), sc_id r))
       (filter (sched_ready st now) (schedules d)))"

definition sched_list_recent :: "int \<Rightarrow> int \<Rightarrow> db \<Rightarrow> sched_row list" where
  "sched_list_recent st limit d =
     take (clamp_limit 1 200 limit) (rev (sort_key sc_id (filter (\<lambda>r. sc_station r = st) (schedules d))))"

definition sched_list_all :: "int \<Rightarrow> db \<Rightarrow> sched_row list" where
  "sched_list_all st d =
     sort_key (\<lambda>r. (due_key (sc_play_at r), sc_id r)) (filter (\<lambda>r. sc_station r = st) (schedules d))"

definition sched_get :: "int \<Rightarrow> db \<Rightarrow> sched_row option" where
  "sched_get i d = find (\<lambda>r. sc_id r = i) (schedules d)"

definition sched_set_status :: "item_status \<Rightarrow> int \<Rightarrow> sched_row list \<Rightarrow> sched_row list" where
  "sched_set_status s i = update_where (\<lambda>r. sc_id r = i) (\<lambda>r. r\<lparr>sc_status := s\<rparr>)"

definition sched_mark :: "item_status \<Rightarrow> int \<Rightarrow> (conn, unit) prog" where
  "sched_mark s i = updp (\<lambda>c. commit (dml (schedules_update (sched_set_status s i)) c))"

section \<open>The programme queue\<close>

definition host_key :: "host_row \<Rightarrow> int \<times> int" where
  "host_key r = (h_position r, h_id r)"

definition list_items :: "int \<Rightarrow> db \<Rightarrow> host_row list" where
  "list_items st d = sort_key host_key (filter (\<lambda>r. h_station r = st) (host_items d))"

definition host_next_pending :: "int \<Rightarrow> db \<Rightarrow> host_row option" where
  "host_next_pending st d = first_of (list_items st d)"

definition pop_item :: "int \<Rightarrow> (conn, unit) prog" where
  "pop_item i = updp (\<lambda>c. commit (dml (host_items_update (delete_where (\<lambda>r. h_id r = i))) c))"

definition add_item :: "int \<Rightarrow> int \<Rightarrow> (conn, int) prog" where
  "add_item st track c =
     (let pos = max_or_zero (map h_position (filter (\<lambda>r. h_station r = st) (host_items (work c)))) + 1;
          new = \<lparr>h_id = next_rowid (map h_id (host_items (work c))), h_station = st, h_track = track,
                 h_position = pos\<rparr>
      in (Inr (h_id new), commit (dml (host_items_update (\<lambda>rows. rows @ [new])) c)))"

fun host_renumber :: "int \<Rightarrow> int list \<Rightarrow> host_row list \<Rightarrow> host_row list" where
  "host_renumber n [] rows = rows"
| "host_renumber n (i # is) rows =
     host_renumber (n + 1) is (update_where (\<lambda>r. h_id r = i) (\<lambda>r. r\<lparr>h_position := n\<rparr>) rows)"

definition host_reindex :: "int \<Rightarrow> db \<Rightarrow> db" where
  "host_reindex st d = d\<lparr>host_items := host_renumber 1 (map h_id (list_items st d)) (host_items d)\<rparr>"

definition move_by_index :: "int \<Rightarrow> int \<Rightarrow> int \<Rightarrow> (conn, bool) prog" where
  "move_by_index st from_index to_index c =
     (let rows = list_items st (work c); n = int (length rows) in
      if from_index < 0 \<or> n \<le> from_index then (Inr False, c)
      else (let to0 = (if to_index < 0 then 0 else to_index);
                to1 = (if n \<le> to0 then n - 1 else to0);
                moved = pop_insert (nat from_index) (nat to1) rows
            in (Inr True, commit (dml (host_items_update (host_renumber 1 (map h_id moved))) c))))"

definition delete_by_index :: "int \<Rightarrow> int \<Rightarrow> (conn, bool) prog" where
  "delete_by_index st idx c =
     (let rows = list_items st (work c) in
      if idx < 0 \<or> int (length rows) \<le> idx then (Inr False, c)
      else (let target = h_id (rows ! nat idx);
                c1 = commit (dml (host_items_update (delete_where (\<lambda>r. h_id r = target))) c)
            in (Inr True, commit (dml (host_reindex st) c1))))"

definition host_clear :: "int \<Rightarrow> (conn, unit) prog" where
  "host_clear st = updp (\<lambda>c. commit (dml (host_items_update (delete_where (\<lambda>r. h_station r = st))) c))"

definition source_key :: string where
  "source_key = ''program_queue_source''"

definition set_source :: "int \<Rightarrow> string \<Rightarrow> (conn, unit) prog" where
  "set_source st source = updp (\<lambda>c. commit (dml (put_setting st source_key
     (if lower (strip source) = ''host'' then ''host'' else ''automation'')) c))"

definition get_source :: "int \<Rightarrow> db \<Rightarrow> string" where
  "get_source st d = (case station_settings d st source_key of
     None \<Rightarrow> ''automation''
   | Some v \<Rightarrow> if lower (strip v) = ''host'' then ''host'' else ''automation'')"

section \<open>Show sessions\<close>

text \<open>\<open>idx_show_sessions_active_station\<close>: one session of a station that has not ended.\<close>

definition session_index_ok :: "session_row list \<Rightarrow> bool" where
  "session_index_ok rows \<longleftrightarrow> distinct (map ss_station (filter (\<lambda>r. ss_status r \<noteq> Ended) rows))"

definition session_create :: "int \<Rightarrow> int \<Rightarrow> int \<Rightarrow> (conn, int) prog" where
  "session_create show_id st user c =
     (let new = \<lparr>ss_id = next_rowid (map ss_id (sessions (work c))), ss_show = show_id,
                 ss_station = st, ss_user = user, ss_status = Preparing, ss_started = None,
                 ss_ended = None\<rparr> in
      if session_index_ok (sessions (work c) @ [new])
      then (Inr (ss_id new), commit (dml (sessions_update (\<lambda>rows. rows @ [new])) c))
      else (Inl IntegrityError, dml id c))"

definition session_get :: "int \<Rightarrow> db \<Rightarrow> session_row option" where
  "session_get i d = find (\<lambda>r. ss_id r = i) (sessions d)"

definition get_active_for_station :: "int \<Rightarrow> db \<Rightarrow> session_row option" where
  "get_active_for_station st d =
     first_of (rev (sort_key ss_id (filter (\<lambda>r. ss_station r = st \<and> ss_status r \<noteq> Ended) (sessions d))))"

definition session_set_status :: "rat \<Rightarrow> int \<Rightarrow> show_status \<Rightarrow> session_row list \<Rightarrow> session_row list" where
  "session_set_status now i s = update_where (\<lambda>r. ss_id r = i)
     (\<lambda>r. if s = Live
          then r\<lparr>ss_status := Live, ss_started := (case ss_started r of
                   None \<Rightarrow> Some (current_timestamp now) | Some t \<Rightarrow> Some t)\<rparr>
          else r\<lparr>ss_status := s\<rparr>)"

text \<open>
  The statement fails on the index when it reopens an ended session of a station with another
  open one.
\<close>

definition update_status :: "rat \<Rightarrow> int \<Rightarrow> show_status \<Rightarrow> (conn, session_row option) prog" where
  "update_status now i s c =
     (let rows = session_set_status now i s (sessions (work c)) in
      if session_index_ok rows
      then (let c1 = commit (dml (sessions_update (\<lambda>_. rows)) c) in (Inr (session_get i (work c1)), c1))
      else (Inl IntegrityError, dml id c))"

definition end_session :: "rat \<Rightarrow> int \<Rightarrow> (conn, session_row option) prog" where
  "end_session now i c =
     (let c1 = commit (dml (sessions_update (update_where (\<lambda>r. ss_id r = i)
            (\<lambda>r. r\<lparr>ss_status := Ended, ss_ended := Some (current_timestamp now)\<rparr>))) c)
      in (Inr (session_get i (work c1)), c1))"

definition list_for_show :: "int \<Rightarrow> db \<Rightarrow> session_row list" where
  "list_for_show show_id d = rev (sort_key ss_id (filter (\<lambda>r. ss_show r = show_id) (sessions d)))"

definition end_stale_sessions :: "rat \<Rightarrow> (conn, nat) prog" where
  "end_stale_sessions now c =
     (let stale = (\<lambda>r. ss_status r \<notin> {Ended, Preparing})
      in (Inr (rowcount stale (sessions (work c))),
          commit (dml (sessions_update (update_where stale
            (\<lambda>r. r\<lparr>ss_status := Ended, ss_ended := Some (current_timestamp now)\<rparr>))) c)))"

end
