(* ===== verification/Media_Props.thy ===== *)
theory Media_Props
  imports Media_Repos
begin

text \<open>
  The programme queue as an indexed queue, ads and schedule as managed items, one open session
  per station, and which due ad is taken first.
\<close>

section \<open>Renumbering the programme queue\<close>

fun host_repos :: "int \<Rightarrow> int list \<Rightarrow> host_row \<Rightarrow> host_row" where
  "host_repos n [] r = r"
| "host_repos n (i # is) r = host_repos (n + 1) is (if h_id r = i then r\<lparr>h_position := n\<rparr> else r)"

lemma host_renumber_map: "host_renumber n ids rows = map (host_repos n ids) rows"
  by (induction ids arbitrary: n rows) (auto simp: update_where_def comp_def intro!: map_idI [symmetric])

lemma host_repos_frame [simp]:
  "h_id (host_repos n ids r) = h_id r" "h_station (host_repos n ids r) = h_station r"
  by (induction ids arbitrary: n r) simp_all

lemma host_repos_unlisted: "h_id r \<notin> set ids \<Longrightarrow> host_repos n ids r = r"
  by (induction ids arbitrary: n) auto

lemma host_repos_position:
  "distinct ids \<Longrightarrow> k < length ids \<Longrightarrow> h_id r = ids ! k \<Longrightarrow> h_position (host_repos n ids r) = n + int k"
proof (induction ids arbitrary: n k r)
  case (Cons i ids)
  show ?case
  proof (cases k)
    case 0
    with Cons.prems show ?thesis by (simp add: host_repos_unlisted)
  next
    case (Suc j)
    then have "h_id r \<noteq> i" using Cons.prems by auto
    with Cons.IH [of j r "n + 1"] Cons.prems Suc show ?thesis by simp
  qed
qed simp

lemma map_h_id_renumber [simp]: "map h_id (host_renumber n ids rows) = map h_id rows"
  by (simp add: host_renumber_map comp_def)

lemma host_key_inj: "distinct (map h_id rows) \<Longrightarrow> inj_on host_key (set rows)"
  by (auto simp: inj_on_def host_key_def distinct_map)

lemma list_items_renumbered:
  assumes "distinct (map h_id (host_items d))" "mset listed = mset (list_items st d)"
    and "host_items d' = host_renumber 1 (map h_id listed) (host_items d)"
  shows "list_items st d' = map (host_repos 1 (map h_id listed)) listed"
proof -
  let ?f = "host_repos 1 (map h_id listed)"
  have dist: "distinct (map h_id listed)"
  proof -
    have "mset (map h_id listed) = mset (map h_id (filter (\<lambda>r. h_station r = st) (host_items d)))"
      by (simp add: assms(2) list_items_def)
    then show ?thesis using assms(1) by (metis distinct_map_filter mset_eq_imp_distinct_iff)
  qed
  have pos: "h_position (?f (listed ! k)) = 1 + int k" if "k < length listed" for k
    using host_repos_position [OF dist, of k "listed ! k" 1] that by simp
  have "host_key (?f (listed ! i)) \<le> host_key (?f (listed ! j))" if "i < j" "j < length listed" for i j
    using pos [of i] pos [of j] that by (simp add: host_key_def less_eq_prod_def)
  then have "sorted (map host_key (map ?f listed))"
    by (simp add: sorted_iff_nth_mono_less)
  moreover have "inj_on host_key (set (filter (\<lambda>r. h_station r = st) (host_items d')))"
  proof (rule host_key_inj)
    have "distinct (map h_id (host_items d'))"
      by (simp only: assms(1,3) map_h_id_renumber)
    then show "distinct (map h_id (filter (\<lambda>r. h_station r = st) (host_items d')))"
      by (rule distinct_map_filter)
  qed
  moreover have "mset (map ?f listed) = mset (filter (\<lambda>r. h_station r = st) (host_items d'))"
  proof -
    have "mset (map ?f listed) = image_mset ?f (mset (filter (\<lambda>r. h_station r = st) (host_items d)))"
      by (simp only: mset_map assms(2) list_items_def mset_sort)
    also have "\<dots> = mset (map ?f (filter (\<lambda>r. h_station r = st) (host_items d)))"
      by (simp only: mset_map)
    also have "map ?f (filter (\<lambda>r. h_station r = st) (host_items d)) =
        filter (\<lambda>r. h_station r = st) (host_items d')"
      by (simp only: assms(3) host_renumber_map filter_map comp_def host_repos_frame)
    finally show ?thesis .
  qed
  ultimately show ?thesis
    unfolding list_items_def by (intro sort_key_unique)
qed

lemma list_items_distinct:
  "distinct (map h_id (host_items d)) \<Longrightarrow> distinct (map h_id (list_items st d))"
  by (metis (no_types, lifting) distinct_map_filter list_items_def mset_eq_imp_distinct_iff mset_map mset_sort)

lemma h_ids_repos [simp]: "map h_id (map (host_repos n ids) rows) = map h_id rows"
  by (simp add: comp_def)

lemma list_items_delete:
  "list_items st (host_items_update (delete_where P) d) = filter (\<lambda>r. \<not> P r) (list_items st d)"
  by (simp add: list_items_def delete_where_def filter_sort_key conj_commute)

interpretation programme_queue: indexed_queue
  "\<lambda>c. distinct (map h_id (host_items (work c)))" "\<lambda>c. map h_id (list_items st (work c))"
  "delete_by_index st" "move_by_index st" for st
proof
  fix c :: conn and i j :: int
  let ?rows = "list_items st (work c)"
  show "i < 0 \<or> int (length (map h_id ?rows)) \<le> i \<Longrightarrow> delete_by_index st i c = (Inr False, c)"
    "i < 0 \<or> int (length (map h_id ?rows)) \<le> i \<Longrightarrow> move_by_index st i j c = (Inr False, c)"
    by (simp_all add: delete_by_index_def move_by_index_def Let_def)
  assume ok: "distinct (map h_id (host_items (work c)))"
    and i: "0 \<le> i" "i < int (length (map h_id ?rows))"
  have in_i: "nat i < length ?rows" using i by (simp add: nat_less_iff)
  let ?d = "host_items_update (delete_where (\<lambda>r. h_id r = h_id (?rows ! nat i))) (work c)"
  have ok': "distinct (map h_id (host_items ?d))"
    using ok by (simp add: delete_where_def distinct_map_filter)
  have "list_items st ?d = take (nat i) ?rows @ drop (Suc (nat i)) ?rows"
    using filter_neq_nth [OF list_items_distinct [OF ok] in_i] by (simp add: list_items_delete)
  then have "map h_id (list_items st (host_reindex st ?d)) =
      take (nat i) (map h_id ?rows) @ drop (Suc (nat i)) (map h_id ?rows)"
    using list_items_renumbered [OF ok' refl, of "host_reindex st ?d" st]
    by (simp add: host_reindex_def take_map drop_map del: map_map)
  moreover have "distinct (map h_id (host_items (host_reindex st ?d)))"
    using ok' by (simp add: host_reindex_def)
  ultimately show "\<exists>c'. delete_by_index st i c = (Inr True, c') \<and>
      distinct (map h_id (host_items (work c'))) \<and>
      map h_id (list_items st (work c')) =
        take (nat i) (map h_id ?rows) @ drop (Suc (nat i)) (map h_id ?rows)"
    using i by (simp add: delete_by_index_def Let_def)
  let ?to = "if j < 0 then 0 else if int (length (map h_id ?rows)) \<le> j
      then int (length (map h_id ?rows)) - 1 else j"
  let ?moved = "pop_insert (nat i) (nat ?to) ?rows"
  let ?d' = "host_items_update (host_renumber 1 (map h_id ?moved)) (work c)"
  have "list_items st ?d' = map (host_repos 1 (map h_id ?moved)) ?moved"
    using in_i by (intro list_items_renumbered [OF ok]) simp_all
  then have "map h_id (list_items st ?d') = map h_id ?moved" by (simp only: h_ids_repos)
  also have "map h_id ?moved = pop_insert (nat i) (nat ?to) (map h_id ?rows)"
    by (rule map_pop_insert [OF in_i])
  finally show "\<exists>c'. move_by_index st i j c = (Inr True, c') \<and>
      distinct (map h_id (host_items (work c'))) \<and>
      map h_id (list_items st (work c')) = pop_insert (nat i) (nat ?to) (map h_id ?rows)"
    using i ok by (auto simp: move_by_index_def Let_def)
qed

text \<open>
  C25: in both queues an operator edits by index, moving an item to another index and back
  restores the order, and deleting the first item as often as there are items empties the queue.
\<close>

theorem index_edits_reversible:
  assumes "queue_ok (queue_items (work c))" and "distinct (map h_id (host_items (work c)))"
    and "0 \<le> i" and "0 \<le> j"
  shows "(i < int (length (list_active_ordered st (work c))) \<longrightarrow>
      j < int (length (list_active_ordered st (work c))) \<longrightarrow>
      map q_id (list_active_ordered st (work (snd (move_by_queue_index st j i
        (snd (move_by_queue_index st i j c)))))) = map q_id (list_active_ordered st (work c))) \<and>
    (i < int (length (list_items st (work c))) \<longrightarrow> j < int (length (list_items st (work c))) \<longrightarrow>
      map h_id (list_items st (work (snd (move_by_index st j i (snd (move_by_index st i j c)))))) =
      map h_id (list_items st (work c))) \<and>
    list_active_ordered st (work (((\<lambda>c. snd (delete_by_queue_index st 0 c)) ^^
      length (list_active_ordered st (work c))) c)) = [] \<and>
    list_items st (work (((\<lambda>c. snd (delete_by_index st 0 c)) ^^
      length (list_items st (work c))) c)) = []"
  using broadcast_queue.move_back [OF assms(1,3) _ assms(4)]
    programme_queue.move_back [OF assms(2,3) _ assms(4)]
    broadcast_queue.drain_front [OF assms(1)] programme_queue.drain_front [OF assms(2)]
  by simp

section \<open>Ads and schedule as managed items\<close>

definition ad_status_of :: "ad_row list \<Rightarrow> int \<Rightarrow> item_status option" where
  "ad_status_of rows i = map_option ad_status (find (\<lambda>r. ad_id r = i) rows)"

definition sched_status_of :: "sched_row list \<Rightarrow> int \<Rightarrow> item_status option" where
  "sched_status_of rows i = map_option sc_status (find (\<lambda>r. sc_id r = i) rows)"

lemma ad_status_set:
  "ad_status_of (ad_set_status now s i rows) j =
   (if j = i \<and> ad_status_of rows i \<noteq> None then Some s else ad_status_of rows j)"
  by (induction rows) (auto simp: ad_status_of_def ad_set_status_def)

lemma sched_status_set:
  "sched_status_of (sched_set_status s i rows) j =
   (if j = i \<and> sched_status_of rows i \<noteq> None then Some s else sched_status_of rows j)"
  by (induction rows) (auto simp: sched_status_of_def sched_set_status_def)

interpretation ad_marks: managed_items ad_status_of "ad_set_status now" for now
  by unfold_locales (auto simp: ad_status_set)

interpretation sched_marks: managed_items sched_status_of sched_set_status
  by unfold_locales (auto simp: sched_status_set)

text \<open>
  The ad the worker takes is pending, of its station and due, and no other due ad of the
  station has a higher priority, or the same priority and an earlier due time; when none is
  returned, none is due.
\<close>

theorem next_due_is_best:
  "case ad_next_due st now d of
     None \<Rightarrow> \<not> (\<exists>r \<in> set (ads d). ad_due_at st now r)
   | Some r \<Rightarrow> r \<in> set (ads d) \<and> ad_due_at st now r \<and>
       (\<forall>s \<in> {s \<in> set (ads d). ad_due_at st now s}.
          ad_priority s < ad_priority r \<or>
          ad_priority s = ad_priority r \<and> due_key (ad_due r) \<le> due_key (ad_due s))"
proof -
  let ?k = "\<lambda>r. (- ad_priority r, due_key (ad_due r), ad_id r)"
  let ?due = "filter (ad_due_at st now) (ads d)"
  show ?thesis
  proof (cases "?due = []")
    case True
    then show ?thesis by (auto simp: ad_next_due_def filter_empty_conv)
  next
    case False
    then obtain r rs where sorted: "sort_key ?k ?due = r # rs"
      by (cases "sort_key ?k ?due") auto
    have "r \<in> set ?due" using hd_sort_key_in [OF False, of ?k] by (simp only: sorted list.sel)
    moreover have "?k r \<le> ?k s" if "s \<in> set ?due" for s
      using hd_sort_key_le [OF that, of ?k] by (simp only: sorted list.sel)
    then have "ad_priority s < ad_priority r \<or>
        ad_priority s = ad_priority r \<and> due_key (ad_due r) \<le> due_key (ad_due s)"
      if "s \<in> set ?due" for s
      using that by (fastforce simp: less_eq_prod_def less_le)
    ultimately show ?thesis using sorted by (auto simp: ad_next_due_def first_of_def)
  qed
qed

section \<open>One open session per station\<close>

datatype session_command =
  SessCreate int int int | SessStatus rat int show_status | SessEnd rat int | SessEndStale rat

fun run_session_command :: "session_command \<Rightarrow> conn \<Rightarrow> conn" where
  "run_session_command (SessCreate sh st u) c = snd (session_create sh st u c)"
| "run_session_command (SessStatus now i s) c = snd (update_status now i s c)"
| "run_session_command (SessEnd now i) c = snd (end_session now i c)"
| "run_session_command (SessEndStale now) c = snd (end_stale_sessions now c)"

lemma session_index_ended:
  assumes "session_index_ok rows" "\<And>r. ss_station (f r) = ss_station r" "\<And>r. ss_status (f r) = Ended"
  shows "session_index_ok (update_where P f rows)"
  using assms(1)
proof (induction rows)
  case (Cons r rows)
  have "set (map ss_station (filter (\<lambda>r. ss_status r \<noteq> Ended) (update_where P f rows)))
      \<subseteq> set (map ss_station (filter (\<lambda>r. ss_status r \<noteq> Ended) rows))"
    using assms(2,3) by (auto simp: set_update_where)
  then have "ss_station r \<notin> set (map ss_station (filter (\<lambda>r. ss_status r \<noteq> Ended) (update_where P f rows)))"
    if "ss_status r \<noteq> Ended" using Cons.prems that by (auto simp: session_index_ok_def)
  moreover have "session_index_ok rows"
    using Cons.prems by (cases "ss_status r = Ended") (simp_all add: session_index_ok_def)
  ultimately show ?case
    using Cons.IH assms(3) [of r] by (cases "ss_status r = Ended") (simp_all add: session_index_ok_def)
qed (simp add: session_index_ok_def)

text \<open>
  C26: however sessions are created, advanced and ended, a station never has two sessions that
  have not ended, and the session the worker finds for a station is its only open one.
\<close>

theorem one_open_session:
  "session_index_ok (sessions (work (fold run_session_command cmds (open_conn empty_db)))) \<and>
   (case get_active_for_station st (work (fold run_session_command cmds (open_conn empty_db))) of
      None \<Rightarrow> \<not> (\<exists>r \<in> set (sessions (work (fold run_session_command cmds (open_conn empty_db)))).
                 ss_station r = st \<and> ss_status r \<noteq> Ended)
    | Some s \<Rightarrow> {r \<in> set (sessions (work (fold run_session_command cmds (open_conn empty_db)))).
                 ss_station r = st \<and> ss_status r \<noteq> Ended} = {s})"
proof -
  have step: "session_index_ok (sessions (work (run_session_command cmd c)))"
    if "session_index_ok (sessions (work c))" for cmd c
    using that by (cases cmd) (auto simp: session_create_def update_status_def end_session_def
        end_stale_sessions_def Let_def intro!: session_index_ended)
  have "session_index_ok (sessions (work (fold run_session_command cmds c)))"
    if "session_index_ok (sessions (work c))" for c
    using that by (induction cmds arbitrary: c) (simp_all add: step)
  moreover have "session_index_ok (sessions (work (open_conn empty_db)))"
    by (simp add: session_index_ok_def empty_db_def)
  ultimately have ok: "session_index_ok (sessions (work (fold run_session_command cmds (open_conn empty_db))))"
    by blast
  define d where "d = work (fold run_session_command cmds (open_conn empty_db))"
  let ?open = "filter (\<lambda>r. ss_station r = st \<and> ss_status r \<noteq> Ended) (sessions d)"
  have "case get_active_for_station st d of
      None \<Rightarrow> ?open = [] | Some s \<Rightarrow> set ?open = {s}"
  proof (cases "get_active_for_station st d")
    case (Some s)
    then have "s \<in> set ?open" by (auto simp: get_active_for_station_def dest: first_ofD)
    moreover have "inj_on ss_station (set (filter (\<lambda>r. ss_status r \<noteq> Ended) (sessions d)))"
      using ok by (simp add: session_index_ok_def distinct_map d_def)
    ultimately have "set ?open = {s}" by (auto dest: inj_onD)
    with Some show ?thesis by simp
  qed (simp add: get_active_for_station_def)
  with ok show ?thesis unfolding d_def [symmetric] by (auto simp: filter_empty_conv split: option.splits)
qed

theorem index_edits_reversible_witness:
  "map q_id (list_active_ordered 1 (work (snd (move_by_queue_index 1 2 0
     (snd (move_by_queue_index 1 0 2 sample_conn)))))) = [1, 2, 3]"
  using index_edits_reversible [of sample_conn 0 2 1] by simp

definition sample_ad :: "int \<Rightarrow> int \<Rightarrow> ad_row" where
  "sample_ad i priority = \<lparr>ad_id = i, ad_station = 1, ad_track = 5, ad_due = Some 3, ad_status = Pending,
     ad_priority = priority, ad_started = NullStamp, ad_finished = None, ad_dedupe = None\<rparr>"

theorem next_due_is_best_witness:
  "\<exists>r. ad_next_due 1 10 (empty_db\<lparr>ads := [sample_ad 1 0, sample_ad 2 5]\<rparr>) = Some r \<and> ad_priority r = 5"
proof -
  let ?d = "empty_db\<lparr>ads := [sample_ad 1 0, sample_ad 2 5]\<rparr>"
  have due: "ad_due_at 1 10 (sample_ad i p)" for i p
    by (simp add: ad_due_at_def sample_ad_def current_timestamp_def)
  note best = next_due_is_best [of ?d 1 10]
  obtain r where r: "ad_next_due 1 10 ?d = Some r"
    using best due by (cases "ad_next_due 1 10 ?d") auto
  with best due have "r \<in> {sample_ad 1 0, sample_ad 2 5}" "\<not> ad_priority r < ad_priority (sample_ad 2 5)"
    by auto
  then have "ad_priority r = 5" by (auto simp: sample_ad_def)
  with r show ?thesis by blast
qed

end
