(* ===== verification/Playout_State.thy ===== *)
theory Playout_State
  imports Media_Props
begin

text \<open>
  \<open>PlayoutStateService\<close> and the start-up reconciliation (\<open>engine/playout_state.py\<close>), and the
  worker's station lease (\<open>engine/lease.py\<close>). \<open>file_env\<close> holds what the duration backfill asks of
  the file system and of the audio prober.
\<close>

section \<open>The current item of a station\<close>

definition none_playout :: playout where
  "none_playout = (''none'', None)"

definition or_none :: "string \<Rightarrow> string" where
  "or_none s = (if s = [] then ''none'' else s)"

definition get_current :: "int \<Rightarrow> db \<Rightarrow> playout" where
  "get_current st d = (case map_of (playout_states d) st of
     None \<Rightarrow> none_playout | Some (source, item) \<Rightarrow> (or_none source, item))"

definition put_playout :: "int \<Rightarrow> playout \<Rightarrow> db \<Rightarrow> db" where
  "put_playout st p d = d\<lparr>playout_states := AList.update st p (playout_states d)\<rparr>"

text \<open>The \<open>station_id\<close> of a transition references \<open>stations\<close>; foreign keys are on.\<close>

definition add_transition :: "int \<Rightarrow> playout \<Rightarrow> playout \<Rightarrow> string \<Rightarrow> (conn, unit) prog" where
  "add_transition st from_p to_p reason c =
     (if st \<in> fst ` set (stations (work c))
      then (Inr (), dml (transitions_update (\<lambda>ts. ts @
             [\<lparr>tr_station = st, tr_from = from_p, tr_to = to_p, tr_reason = reason\<rparr>])) c)
      else (Inl IntegrityError, dml id c))"

definition set_current :: "int \<Rightarrow> string \<Rightarrow> int option \<Rightarrow> string \<Rightarrow> (conn, unit) prog" where
  "set_current st source item reason c =
     (let previous = get_current st (work c);
          target = (or_none source, item);
          c1 = dml (put_playout st target) c in
      if previous \<noteq> target
      then bindp (add_transition st previous target reason) (\<lambda>_. updp commit) c1
      else (Inr (), commit c1))"

definition list_transitions :: "int \<Rightarrow> int \<Rightarrow> db \<Rightarrow> transition_row list" where
  "list_transitions st limit d =
     take (clamp_limit 1 1000 limit) (rev (filter (\<lambda>t. tr_station t = st) (transitions d)))"

definition requeue_row :: "queue_row \<Rightarrow> queue_row" where
  "requeue_row r = r\<lparr>q_status := Pending, q_started := NullStamp, q_finished := None\<rparr>"

definition reconcile_startup :: "int \<Rightarrow> (conn, unit) prog" where
  "reconcile_startup st c =
     (let previous = get_current st (work c);
          c1 = dml (queue_items_update (update_where (playing_at st) requeue_row)) c;
          c2 = dml (put_playout st none_playout) c1 in
      if previous \<noteq> none_playout
      then bindp (add_transition st previous none_playout ''startup_reconcile'') (\<lambda>_. updp commit) c2
      else (Inr (), commit c2))"

section \<open>Backfilling durations\<close>

record file_env =
  resolve_path :: "string \<Rightarrow> string"
  file_exists :: "string \<Rightarrow> bool"
  probe_seconds :: "string \<Rightarrow> rat \<Rightarrow> rat"
  elapsed :: "nat \<Rightarrow> rat"

text \<open>
  \<open>probe_seconds p t\<close> is the duration found within \<open>t\<close> seconds (0 when none), \<open>elapsed k\<close> the
  monotonic time spent before the \<open>k\<close>-th selected track is looked at.
\<close>

fun contains_text :: "string \<Rightarrow> string \<Rightarrow> bool" where
  "contains_text p [] = (p = [])"
| "contains_text p (x # xs) = (take (length p) (x # xs) = p \<or> contains_text p xs)"

definition backfill_candidates :: "db \<Rightarrow> track_row list" where
  "backfill_candidates d =
     take 64 (sort_key
       (\<lambda>t. (if \<exists>q \<in> set (queue_items d). q_track q = t_id t \<and> q_active q then 0 else 1 :: nat, t_id t))
       (filter (\<lambda>t. t_active t \<and> t_duration t \<le> 0 \<and> sql_trim (t_path t) \<noteq> []) (tracks d)))"

definition set_duration :: "int \<Rightarrow> rat \<Rightarrow> track_row list \<Rightarrow> track_row list" where
  "set_duration i x = update_where (\<lambda>t. t_id t = i) (\<lambda>t. t\<lparr>t_duration := x\<rparr>)"

fun backfill_loop :: "file_env \<Rightarrow> nat \<Rightarrow> track_row list \<Rightarrow> conn \<Rightarrow> nat \<times> conn" where
  "backfill_loop fe k [] c = (0, c)"
| "backfill_loop fe k (t # ts) c =
     (let remaining = 10 - elapsed fe k in
      if remaining \<le> 0 then (0, c)
      else
        (let path = resolve_path fe (strip (t_path t)) in
         if path = [] \<or> contains_text ''://'' path \<or> \<not> file_exists fe path
         then backfill_loop fe (Suc k) ts c
         else
           (let x = probe_seconds fe path (min 3 remaining) in
            if x \<le> 0 then backfill_loop fe (Suc k) ts c
            else
              (let n = rowcount (\<lambda>r. t_id r = t_id t) (tracks (work c));
                   (m, c') = backfill_loop fe (Suc k) ts (dml (tracks_update (set_duration (t_id t) x)) c)
               in (n + m, c')))))"

definition backfill_missing_track_durations :: "file_env \<Rightarrow> conn \<Rightarrow> nat \<times> conn" where
  "backfill_missing_track_durations fe c = backfill_loop fe 0 (backfill_candidates (work c)) c"

section \<open>Reconciling every station at start-up\<close>

record reconcile_counts =
  queue_requeued :: nat
  ad_requeued :: nat
  schedule_requeued :: nat
  playout_reset :: nat
  sessions_ended :: nat
  durations_backfilled :: nat

definition stale_playout :: "int \<times> playout \<Rightarrow> bool" where
  "stale_playout p \<longleftrightarrow> snd p \<noteq> none_playout"

definition reconcile_rows :: "rat \<Rightarrow> db \<Rightarrow> db" where
  "reconcile_rows now d =
     d\<lparr>queue_items := update_where (\<lambda>r. q_status r = Playing) requeue_row (queue_items d),
       ads := update_where (\<lambda>r. ad_status r = Playing) (\<lambda>r. r\<lparr>ad_status := Pending\<rparr>) (ads d),
       schedules := update_where (\<lambda>r. sc_status r = Playing) (\<lambda>r. r\<lparr>sc_status := Pending\<rparr>) (schedules d),
       playout_states := update_where stale_playout (\<lambda>p. (fst p, none_playout)) (playout_states d)\<rparr>"

definition open_session :: "session_row \<Rightarrow> bool" where
  "open_session r \<longleftrightarrow> ss_status r \<notin> {Ended, Preparing}"

definition end_open_sessions :: "rat \<Rightarrow> db \<Rightarrow> db" where
  "end_open_sessions now d =
     d\<lparr>sessions := update_where open_session
        (\<lambda>r. r\<lparr>ss_status := Ended, ss_ended := Some (current_timestamp now)\<rparr>) (sessions d)\<rparr>"

definition host_sources_to_automation :: "db \<Rightarrow> db" where
  "host_sources_to_automation d =
     d\<lparr>station_settings := (\<lambda>st k. if k = source_key \<and> station_settings d st k = Some ''host''
                                   then Some ''automation'' else station_settings d st k)\<rparr>"

definition reconcile_all_startup :: "file_env \<Rightarrow> rat \<Rightarrow> (conn, reconcile_counts) prog" where
  "reconcile_all_startup fe now c =
     (let d = work c;
          stale = sort_key fst (filter stale_playout (playout_states d));
          c1 = dml (reconcile_rows now) c in
      bindp (forp (\<lambda>(st, p). add_transition st (or_none (fst p), snd p) none_playout ''startup_reconcile'')
               stale)
        (\<lambda>_ c2.
           (let ended = rowcount open_session (sessions (work c2));
                c3 = dml (end_open_sessions now) c2;
                c4 = (if ended > 0 then dml host_sources_to_automation c3 else c3);
                (filled, c5) = backfill_missing_track_durations fe c4
            in (Inr \<lparr>queue_requeued = rowcount (\<lambda>r. q_status r = Playing) (queue_items d),
                     ad_requeued = rowcount (\<lambda>r. ad_status r = Playing) (ads d),
                     schedule_requeued = rowcount (\<lambda>r. sc_status r = Playing) (schedules d),
                     playout_reset = length stale, sessions_ended = ended,
                     durations_backfilled = filled\<rparr>, commit c5))) c1)"

section \<open>The station lease\<close>

definition try_acquire :: "int \<Rightarrow> rat \<Rightarrow> int \<Rightarrow> string \<Rightarrow> (conn, bool) prog" where
  "try_acquire lease_seconds now st worker c =
     (let expires = now + of_int lease_seconds;
          latest = now + of_int (max 1 lease_seconds * 4);
          takes = (case leases (work c) st of
             None \<Rightarrow> True
           | Some (w, e) \<Rightarrow> w = worker \<or>
               (case e of None \<Rightarrow> True | Some t \<Rightarrow> t \<le> now \<or> latest < t))
      in (Inr takes,
          commit (dml (\<lambda>d. if takes then d\<lparr>leases := (leases d)(st := Some (worker, Some expires))\<rparr> else d) c)))"

end
