(* ===== verification/Settings.thy ===== *)
theory Settings
  imports Playout_State
begin

text \<open>
  Key/value settings (\<open>settings_repo.py\<close>), the ad switches derived from them (\<open>ad_policy.py\<close>) and
  the sweeper configuration (\<open>broadcast_queue_autofill.py\<close>).
\<close>

section \<open>The repository\<close>

definition default_system_settings :: "(string \<times> string) list" where
  "default_system_settings =
     [(''ui_language'', ''en-US''), (''default_crossfade_seconds'', ''3.0''),
      (''operation_logs_enabled'', ''true''), (''auto_scan_on_startup'', ''false''),
      (''display_brand_name'', ''RadioTEDU OnAir''), (''active_station_id'', ''1''),
      (''speaker_monitor_station_id'', ''1'')]"

definition put_system :: "string \<Rightarrow> string \<Rightarrow> db \<Rightarrow> db" where
  "put_system k v d = d\<lparr>system_settings := (system_settings d)(k := Some v)\<rparr>"

definition upsert_system :: "(string \<times> string) list \<Rightarrow> (conn, unit) prog" where
  "upsert_system values =
     updp (\<lambda>c. commit (if values = [] then c else dml (fold (\<lambda>(k, v). put_system k v) values) c))"

definition get_system :: "db \<Rightarrow> string \<Rightarrow> string option" where
  "get_system d k = (case system_settings d k of
     Some v \<Rightarrow> Some v | None \<Rightarrow> map_of default_system_settings k)"

definition ensure_system_defaults :: "(string \<times> string) list \<Rightarrow> (conn, string \<Rightarrow> string option) prog" where
  "ensure_system_defaults values c =
     (let defaults = fold (\<lambda>(k, v). AList.update k v) values default_system_settings;
          c1 = commit (dml (fold (\<lambda>(k, v) d. if system_settings d k = None then put_system k v d else d)
                 defaults) c)
      in (Inr (get_system (work c1)), c1))"

definition upsert_station :: "int \<Rightarrow> (string \<times> string) list \<Rightarrow> (conn, unit) prog" where
  "upsert_station st values =
     updp (\<lambda>c. commit (if values = [] then c else dml (fold (\<lambda>(k, v). put_setting st k v) values) c))"

definition get_station :: "int \<Rightarrow> db \<Rightarrow> string \<Rightarrow> string option" where
  "get_station st d k = station_settings d st k"

text \<open>\<open>settings.get(key, default)\<close>.\<close>

definition setting :: "(string \<Rightarrow> string option) \<Rightarrow> string \<Rightarrow> string \<Rightarrow> string" where
  "setting s k dflt = (case s k of None \<Rightarrow> dflt | Some v \<Rightarrow> v)"

text \<open>\<open>str(settings.get(key, default) or default)\<close>.\<close>

definition setting_or :: "(string \<Rightarrow> string option) \<Rightarrow> string \<Rightarrow> string \<Rightarrow> string" where
  "setting_or s k dflt = (let v = setting s k dflt in if v = [] then dflt else v)"

section \<open>Ads\<close>

definition is_truthy :: "string option \<Rightarrow> bool" where
  "is_truthy raw = (case raw of None \<Rightarrow> False | Some s \<Rightarrow> truthy_text s)"

definition ads_enabled_from_settings :: "(string \<Rightarrow> string option) \<Rightarrow> bool" where
  "ads_enabled_from_settings s \<longleftrightarrow>
     is_truthy (s ''hourly_ad_v2_enabled'') \<or> is_truthy (s ''hourly_ad_enabled'')"

definition rocket_ad_insertion_enabled_from_settings :: "(string \<Rightarrow> string option) \<Rightarrow> bool" where
  "rocket_ad_insertion_enabled_from_settings s \<longleftrightarrow>
     truthy_text (setting s ''rocket_ad_insertion_enabled'' ''false'')"

definition station_ads_enabled :: "int \<Rightarrow> db \<Rightarrow> bool" where
  "station_ads_enabled st d \<longleftrightarrow> ads_enabled_from_settings (get_station st d)"

section \<open>The sweeper\<close>

record sweeper =
  sw_enabled :: bool
  sw_interval :: int
  sw_minutes :: bool
  sw_mode :: string

definition get_sweeper_settings :: "int \<Rightarrow> db \<Rightarrow> exn + sweeper" where
  "get_sweeper_settings st d =
     (let s = get_station st d in
      case int_float_or (setting s ''sweeper_interval'' ''2'') 2 of
        Inl e \<Rightarrow> Inl e
      | Inr n \<Rightarrow> Inr \<lparr>sw_enabled = truthy_text (setting s ''sweeper_enabled'' ''false''),
                     sw_interval = max 1 n,
                     sw_minutes = (lower (strip (setting_or s ''sweeper_interval_unit'' ''tracks'')) = ''minutes''),
                     sw_mode = setting_or s ''sweeper_mode'' ''random''\<rparr>)"

lemma sweeper_interval_pos: "get_sweeper_settings st d = Inr s \<Longrightarrow> 1 \<le> sw_interval s"
  by (auto simp: get_sweeper_settings_def Let_def split: sum.splits)

end
