(* ===== verification/Autofill.thy ===== *)
theory Autofill
  imports Settings
begin

text \<open>
  Filling an empty queue from the library and placing sweeper jingles
  (\<open>engine/broadcast_queue_autofill.py\<close>). The module's lock serialises threads of one process; a
  single run is modelled.
\<close>

section \<open>Selecting tracks\<close>

definition get_library_fallback_track_id :: "int \<Rightarrow> db \<Rightarrow> int option" where
  "get_library_fallback_track_id st d = (case map_of (playout_states d) st of
     Some (source, item) \<Rightarrow> if source = ''library_fallback'' then item else None
   | None \<Rightarrow> None)"

text \<open>Least played first, then never played, then longest unplayed, then by id.\<close>

definition rotation_key :: "track_row \<Rightarrow> int \<times> (nat \<times> rat) \<times> int" where
  "rotation_key t = (t_plays t, due_key (t_last_played t), t_id t)"

definition jingle_at :: "int \<Rightarrow> track_row \<Rightarrow> bool" where
  "jingle_at st t \<longleftrightarrow> t_station t = st \<and> t_active t \<and> lower (t_type t) = ''jingle'' \<and> t_path t \<noteq> []"

definition music_at :: "int \<Rightarrow> track_row \<Rightarrow> bool" where
  "music_at st t \<longleftrightarrow> t_station t = st \<and> t_active t \<and> lower (t_type t) = ''music'' \<and> t_path t \<noteq> [] \<and>
     \<not> t_exclude t"

definition blocked_ids :: "int list \<Rightarrow> int list" where
  "blocked_ids ids = filter (\<lambda>i. 0 < i) ids"

text \<open>When every jingle is excluded the source asks again without exclusions.\<close>

definition pick_jingle :: "int \<Rightarrow> int list \<Rightarrow> db \<Rightarrow> track_row option" where
  "pick_jingle st exclude d =
     (let blocked = blocked_ids exclude;
          among = (\<lambda>ids. first_of (sort_key rotation_key
            (filter (\<lambda>t. jingle_at st t \<and> t_id t \<notin> set ids) (tracks d)))) in
      case among blocked of
        Some t \<Rightarrow> Some t
      | None \<Rightarrow> if blocked \<noteq> [] then among [] else None)"

definition row_type :: "db \<Rightarrow> queue_row \<Rightarrow> string" where
  "row_type d r = lower (row_track_type d r)"

definition aired_recently :: "int \<Rightarrow> db \<Rightarrow> queue_row list" where
  "aired_recently st d = rev (sort_key q_id (filter (\<lambda>r. q_station r = st \<and>
     (q_status r = Done \<or> q_status r = Playing)) (queue_items d)))"

fun count_music :: "string list \<Rightarrow> int" where
  "count_music [] = 0"
| "count_music (t # ts) =
     (if t = ''jingle'' then 0 else (if t = ''music'' then 1 else 0) + count_music ts)"

definition count_music_since_last_jingle :: "int \<Rightarrow> db \<Rightarrow> int" where
  "count_music_since_last_jingle st d = count_music (map (row_type d) (take 50 (aired_recently st d)))"

definition recent_jingle_track_ids :: "int \<Rightarrow> int \<Rightarrow> db \<Rightarrow> int list" where
  "recent_jingle_track_ids st limit d =
     filter (\<lambda>i. 0 < i) (map q_track (take (nat (max 1 limit))
       (filter (\<lambda>r. row_type d r = ''jingle'') (aired_recently st d))))"

definition select_autofill_tracks :: "int \<Rightarrow> int \<Rightarrow> int list \<Rightarrow> db \<Rightarrow> track_row list" where
  "select_autofill_tracks st limit exclude d =
     take (nat (max 1 limit)) (sort_key rotation_key
       (filter (\<lambda>t. music_at st t \<and> t_id t \<notin> set (blocked_ids exclude)) (tracks d)))"

section \<open>Interleaving jingles\<close>

fun interleave_loop ::
  "int \<Rightarrow> db \<Rightarrow> int \<Rightarrow> int list \<Rightarrow> int \<Rightarrow> int list \<Rightarrow> track_row list \<Rightarrow> track_row list" where
  "interleave_loop st d interval recent counter used [] = []"
| "interleave_loop st d interval recent counter used (t # ts) =
     (case (if interval \<le> counter then pick_jingle st (recent @ used) d else None) of
        None \<Rightarrow> t # interleave_loop st d interval recent (counter + 1) used ts
      | Some j \<Rightarrow> j # t # interleave_loop st d interval recent 1 (t_id j # used) ts)"

definition interleave_with_jingles ::
  "int \<Rightarrow> db \<Rightarrow> track_row list \<Rightarrow> sweeper \<Rightarrow> int \<Rightarrow> track_row list" where
  "interleave_with_jingles st d music sw since =
     (if \<not> sw_enabled sw \<or> sw_minutes sw \<or> music = [] then music
      else interleave_loop st d (sw_interval sw) (recent_jingle_track_ids st 1 d) since [] music)"

section \<open>Filling the queue\<close>

definition can_refill_while_playing :: "bool \<Rightarrow> queue_row list \<Rightarrow> bool" where
  "can_refill_while_playing allow current \<longleftrightarrow>
     current \<noteq> [] \<and> \<not> (\<exists>r \<in> set current. q_status r = Pending) \<and> allow"

definition autofill_key :: "int \<Rightarrow> track_row \<Rightarrow> string" where
  "autofill_key idx t =
     (if lower (t_type t) = ''jingle''
      then ''jingle:'' @ int_str (t_id t) @ '':'' @ int_str idx
      else ''autofill:'' @ int_str (t_id t))"

fun enqueue_all :: "int \<Rightarrow> int \<Rightarrow> track_row list \<Rightarrow> (conn, unit) prog" where
  "enqueue_all st idx [] = ret ()"
| "enqueue_all st idx (t # ts) =
     bindp (enqueue st (t_id t) (Some (autofill_key idx t))) (\<lambda>_. enqueue_all st (idx + 1) ts)"

definition autofill_exclusions :: "int \<Rightarrow> int list \<Rightarrow> queue_row list \<Rightarrow> db \<Rightarrow> int list" where
  "autofill_exclusions st exclude current d =
     filter (\<lambda>i. 0 < i) (map q_track current) @
     (case get_library_fallback_track_id st d of None \<Rightarrow> [] | Some i \<Rightarrow> if i = 0 then [] else [i]) @
     filter (\<lambda>i. 0 < i) exclude"

definition ensure_broadcast_queue_ready_for_playback ::
  "int \<Rightarrow> int \<Rightarrow> bool \<Rightarrow> int list \<Rightarrow> (conn, queue_row list) prog" where
  "ensure_broadcast_queue_ready_for_playback st refill allow exclude c =
     (let d = work c; current = list_active_ordered st d in
      if current \<noteq> [] \<and> \<not> can_refill_while_playing allow current then (Inr current, c)
      else
        (let candidates = select_autofill_tracks st refill (autofill_exclusions st exclude current d) d in
         case get_sweeper_settings st d of
           Inl e \<Rightarrow> (Inl e, c)
         | Inr sw \<Rightarrow>
             bindp (enqueue_all st 1 (interleave_with_jingles st d candidates sw
                      (count_music_since_last_jingle st d)))
               (\<lambda>_. readp (\<lambda>c'. list_active_ordered st (work c'))) c))"

definition ensure_broadcast_queue_filled :: "int \<Rightarrow> int \<Rightarrow> int list \<Rightarrow> (conn, queue_row list) prog" where
  "ensure_broadcast_queue_filled st refill exclude =
     ensure_broadcast_queue_ready_for_playback st refill False exclude"

section \<open>Reconciling pending jingles with the sweeper settings\<close>

definition pending_jingle :: "int \<Rightarrow> db \<Rightarrow> queue_row \<Rightarrow> bool" where
  "pending_jingle st d r \<longleftrightarrow> pending_at st r \<and> row_type d r = ''jingle''"

fun place_pending ::
  "int \<Rightarrow> sweeper \<Rightarrow> int list \<Rightarrow> int \<Rightarrow> int \<Rightarrow> int list \<Rightarrow> nat \<Rightarrow> queue_row list \<Rightarrow> (conn, nat) prog" where
  "place_pending st sw recent pos counter used inserted [] = ret inserted"
| "place_pending st sw recent pos counter used inserted (r # rs) =
     (\<lambda>c. let track_type = lower (strip (let v = row_track_type (work c) r in if v = [] then ''music'' else v));
              jingle = (if track_type = ''music'' \<and> sw_interval sw \<le> counter
                        then pick_jingle st (recent @ used) (work c) else None);
              place = (\<lambda>p. updp (dml (queue_items_update
                         (update_where (\<lambda>q. q_id q = q_id r) (\<lambda>q. q\<lparr>q_position := p\<rparr>)))));
              next_counter = (\<lambda>k. if track_type = ''jingle'' then 0
                                  else if track_type = ''music'' then k + 1 else k) in
          case jingle of
            None \<Rightarrow>
              bindp (place pos) (\<lambda>_. place_pending st sw recent (pos + 1) (next_counter counter) used inserted rs) c
          | Some j \<Rightarrow>
              bindp (queue_dml (insert_queue_row st (t_id j) pos
                       (Some (''jingle:'' @ int_str (t_id j) @ '':'' @ int_str pos))))
                (\<lambda>_. bindp (place (pos + 1)) (\<lambda>_. place_pending st sw recent (pos + 2) (next_counter 0)
                        (t_id j # used) (Suc inserted) rs)) c)"

definition reconcile_pending_sweeper_queue :: "int \<Rightarrow> (conn, queue_row list) prog" where
  "reconcile_pending_sweeper_queue st c =
     (case get_sweeper_settings st (work c) of
        Inl e \<Rightarrow> (Inl e, c)
      | Inr sw \<Rightarrow>
          (let doomed = pending_jingle st (work c);
               removed = rowcount doomed (queue_items (work c));
               c1 = dml (queue_items_update (delete_where doomed)) c;
               rows = list_active_ordered st (work c1);
               playing = filter (\<lambda>r. q_status r = Playing) rows;
               pending = filter (\<lambda>r. q_status r = Pending) rows;
               c2 = dml (queue_items_update (renumber 1 (map q_id playing))) c1;
               pos = 1 + int (length playing);
               c3 = dml (queue_items_update (renumber pos (map q_id pending))) c2;
               listed = readp (\<lambda>c. list_active_ordered st (work c)) in
           if \<not> sw_enabled sw then listed (if removed > 0 then commit c3 else c3)
           else if sw_minutes sw then
             (if pending = [] then ensure_broadcast_queue_ready_for_playback st 10 True [] (commit c3)
              else listed (commit c3))
           else if pending = [] then ensure_broadcast_queue_ready_for_playback st 10 True [] (commit c2)
           else bindp (place_pending st sw (recent_jingle_track_ids st 1 (work c2)) pos
                         (count_music_since_last_jingle st (work c2)) [] 0 pending)
                  (\<lambda>inserted c4. listed (if removed > 0 \<or> inserted > 0 then commit c4 else c4)) c2))"

end
