(* ===== verification/Autofill_Props.thy ===== *)
theory Autofill_Props
  imports Autofill
begin

text \<open>
  What autofill does to the queue: the music keeps its order, jingles keep their distance, the
  queue is only extended, and only with selectable tracks of the station.
\<close>

section \<open>Interleaving\<close>

definition is_jingle :: "track_row \<Rightarrow> bool" where
  "is_jingle t \<longleftrightarrow> lower (t_type t) = ''jingle''"

text \<open>Every jingle is preceded by at least \<open>k\<close> other tracks since the previous jingle.\<close>

fun spaced :: "int \<Rightarrow> int \<Rightarrow> track_row list \<Rightarrow> bool" where
  "spaced k n [] \<longleftrightarrow> True"
| "spaced k n (t # ts) \<longleftrightarrow> (if is_jingle t then k \<le> n \<and> spaced k 0 ts else spaced k (n + 1) ts)"

lemma first_of_sort_in: "first_of (sort_key f xs) = Some x \<Longrightarrow> x \<in> set xs"
  using first_ofD by fastforce

lemma pick_jingle_in: "pick_jingle st ex d = Some j \<Longrightarrow> j \<in> set (tracks d) \<and> jingle_at st j"
  by (auto simp: pick_jingle_def Let_def dest!: first_of_sort_in split: option.splits if_splits)

text \<open>An excluded jingle is picked only when no other jingle is left.\<close>

lemma pick_jingle_avoids:
  assumes "pick_jingle st ex d = Some j" "t_id j \<in> set ex" "0 < t_id j"
    and "t \<in> set (tracks d)" "jingle_at st t"
  shows "t_id t \<in> set ex"
proof (rule ccontr)
  assume "t_id t \<notin> set ex"
  then have "filter (\<lambda>t. jingle_at st t \<and> t_id t \<notin> set (blocked_ids ex)) (tracks d) \<noteq> []"
    using assms(4,5) by (auto simp: filter_empty_conv blocked_ids_def)
  then obtain u where "first_of (sort_key rotation_key
      (filter (\<lambda>t. jingle_at st t \<and> t_id t \<notin> set (blocked_ids ex)) (tracks d))) = Some u"
    by (metis first_of_None not_None_eq sort_key_Nil_iff)
  then have "j = u" "u \<in> set (filter (\<lambda>t. jingle_at st t \<and> t_id t \<notin> set (blocked_ids ex)) (tracks d))"
    using assms(1) first_of_sort_in by (force simp: pick_jingle_def Let_def)+
  then show False using assms(2,3) by (simp add: blocked_ids_def)
qed

lemma interleave_loop_facts:
  assumes "\<And>t. t \<in> set music \<Longrightarrow> \<not> is_jingle t" "1 \<le> k"
  shows "filter (\<lambda>t. \<not> is_jingle t) (interleave_loop st d k recent n used music) = music"
    and "spaced k n (interleave_loop st d k recent n used music)"
    and "set (interleave_loop st d k recent n used music) \<subseteq> set music \<union> {t \<in> set (tracks d). jingle_at st t}"
  using assms(1)
proof (induction music arbitrary: n used)
  case (Cons t ts)
  {
    case 1
    have "\<And>j. pick_jingle st (recent @ used) d = Some j \<Longrightarrow> is_jingle j"
      using pick_jingle_in by (force simp: jingle_at_def is_jingle_def)
    with Cons 1 show ?case by (auto split: option.split)
  next
    case 2
    have "\<And>j. pick_jingle st (recent @ used) d = Some j \<Longrightarrow> is_jingle j"
      using pick_jingle_in by (force simp: jingle_at_def is_jingle_def)
    with Cons 2 show ?case by (auto split: option.split)
  next
    case 3
    have IH: "set (interleave_loop st d k recent m u ts) \<subseteq> set ts \<union> {t \<in> set (tracks d). jingle_at st t}" for m u
      using Cons(3) 3 by simp
    show ?case
    proof (cases "if k \<le> n then pick_jingle st (recent @ used) d else None")
      case None
      with IH [of "n + 1" used] show ?thesis by auto
    next
      case (Some j)
      then have "j \<in> set (tracks d) \<and> jingle_at st j"
        using pick_jingle_in by (metis option.distinct(1))
      with Some IH [of 1 "t_id j # used"] show ?thesis by auto
    qed
  }
qed simp_all

text \<open>
  Interleaving jingles never reorders, drops or repeats the selected music, inserts only
  active jingles of the station that have a file, and leaves at least the configured interval of
  other tracks between two jingles (counting what aired before).
\<close>

theorem interleave_keeps_music:
  assumes "\<forall>t \<in> set music. \<not> is_jingle t" and "get_sweeper_settings st d = Inr sw"
  shows "filter (\<lambda>t. \<not> is_jingle t) (interleave_with_jingles st d music sw n) = music \<and>
    spaced (sw_interval sw) n (interleave_with_jingles st d music sw n) \<and>
    set (interleave_with_jingles st d music sw n) \<subseteq> set music \<union> {t \<in> set (tracks d). jingle_at st t}"
proof (cases "\<not> sw_enabled sw \<or> sw_minutes sw \<or> music = []")
  case True
  have "spaced k n music" if "\<forall>t \<in> set music. \<not> is_jingle t" for k n
    using that by (induction music arbitrary: n) auto
  with True assms(1) show ?thesis by (auto simp: interleave_with_jingles_def)
next
  case False
  with interleave_loop_facts [of music "sw_interval sw"] assms sweeper_interval_pos [OF assms(2)]
  show ?thesis by (simp add: interleave_with_jingles_def)
qed

section \<open>Filling\<close>

lemma enqueue_all_effect:
  assumes "queue_ok (queue_items (work c))" "\<not> in_tx c" "conn_ok c"
  shows "\<exists>c' new. enqueue_all st n ts c = (Inr (), c') \<and> conn_ok c' \<and> \<not> in_tx c' \<and>
    queue_ok (queue_items (work c')) \<and> queue_items (work c') = queue_items (work c) @ new \<and>
    list_active_ordered st (work c') = list_active_ordered st (work c) @ new \<and>
    (\<forall>r \<in> set new. q_station r = st \<and> q_status r = Pending \<and> q_track r \<in> t_id ` set ts) \<and>
    tracks (work c') = tracks (work c)"
  using assms
proof (induction ts arbitrary: c n)
  case Nil
  then show ?case by (auto simp: ret_def)
next
  case (Cons t ts)
  let ?key = "Some (autofill_key n t)"
  let ?found = "find_by_dedupe_key st ?key [Pending, Playing] (work c)"
  let ?new = "new_queue_row st (t_id t) (next_position st (work c)) ?key (queue_items (work c))"
  obtain c1 where c1: "enqueue_or_get_existing st (t_id t) ?key True c =
      (Inr (case ?found of None \<Rightarrow> (q_id ?new, True) | Some r \<Rightarrow> (q_id r, False)), c1)"
    "disk c1 = work c1" "\<not> in_tx c1" "queue_ok (queue_items (work c1))"
    "list_active_ordered st (work c1) =
       list_active_ordered st (work c) @ (case ?found of None \<Rightarrow> [?new] | Some r \<Rightarrow> [])"
    "work c1 = (case ?found of None \<Rightarrow> bump_change_sequence st
       (queue_items_update (insert_queue_row st (t_id t) (next_position st (work c)) ?key) (work c)) | Some r \<Rightarrow> work c)"
    by (rule enqueue_effect [OF Cons.prems, of st "t_id t" ?key]) (rule that; assumption)
  have e: "enqueue st (t_id t) ?key c =
      (Inr (fst (case ?found of None \<Rightarrow> (q_id ?new, True) | Some r \<Rightarrow> (q_id r, False))), c1)"
    by (simp add: enqueue_def bindp_def c1(1) ret_def case_prod_beta)
  have "conn_ok c1" using c1(2) by (simp add: conn_ok_def)
  from Cons.IH [OF c1(4,3) this, of "n + 1"] obtain c' new where
    rest: "enqueue_all st (n + 1) ts c1 = (Inr (), c')" "conn_ok c'" "\<not> in_tx c'"
      "queue_ok (queue_items (work c'))" "queue_items (work c') = queue_items (work c1) @ new"
      "list_active_ordered st (work c') = list_active_ordered st (work c1) @ new"
      "\<forall>r \<in> set new. q_station r = st \<and> q_status r = Pending \<and> q_track r \<in> t_id ` set ts"
      "tracks (work c') = tracks (work c1)" by blast
  have run: "enqueue_all st n (t # ts) c = (Inr (), c')"
    using rest(1) by (simp add: bindp_def e)
  show ?case
  proof (cases ?found)
    case None
    then show ?thesis using rest run c1(5,6)
      by - (rule exI [of _ c'], rule exI [of _ "?new # new"], simp add: insert_queue_row_def)
  next
    case (Some r)
    then show ?thesis using rest run c1(5,6)
      by - (rule exI [of _ c'], rule exI [of _ new], auto)
  qed
qed

text \<open>
  Filling the queue only extends it. When an item is pending nothing happens at all;
  otherwise the new rows are pending rows of the station at its end, each for an active track of
  the station with a file that is either a jingle or music open to autoplay which is neither
  queued nor excluded by the caller, the rows of all stations before it are unchanged, and the
  unique index holds.
\<close>

theorem autofill_only_extends:
  assumes "queue_ok (queue_items (work c))" and "\<not> in_tx c" and "conn_ok c"
    and "ensure_broadcast_queue_ready_for_playback st refill allow exclude c = (Inr rows, c')"
  shows "rows = list_active_ordered st (work c') \<and> queue_ok (queue_items (work c')) \<and> \<not> in_tx c' \<and>
    (if (\<exists>r \<in> set (list_active_ordered st (work c)). q_status r = Pending) then c' = c
     else \<exists>new. queue_items (work c') = queue_items (work c) @ new \<and>
       rows = list_active_ordered st (work c) @ new \<and>
       (\<forall>r \<in> set new. q_station r = st \<and> q_status r = Pending \<and>
         (\<exists>t \<in> set (tracks (work c)). t_id t = q_track r \<and>
            (jingle_at st t \<or>
             music_at st t \<and> (t_id t \<le> 0 \<or> t_id t \<notin> q_track ` set (list_active_ordered st (work c)) \<union> set exclude)))))"
proof -
  let ?d = "work c"
  let ?current = "list_active_ordered st ?d"
  have refl: "\<exists>new. queue_items (work c) = queue_items (work c) @ new \<and> ?current = ?current @ new \<and>
       (\<forall>r \<in> set new. P r)" for P by (intro exI [of _ "[]"]) simp
  show ?thesis
  proof (cases "?current \<noteq> [] \<and> \<not> can_refill_while_playing allow ?current")
    case True
    then have same: "c' = c" "rows = ?current"
      using assms(4) by (auto simp: ensure_broadcast_queue_ready_for_playback_def Let_def)
    with assms(1,2) refl show ?thesis unfolding same by simp
  next
    case False
    then have none: "\<not> (\<exists>r \<in> set ?current. q_status r = Pending)"
      by (auto simp: can_refill_while_playing_def)
    let ?cand = "select_autofill_tracks st refill (autofill_exclusions st exclude ?current ?d) ?d"
    obtain sw where sw: "get_sweeper_settings st ?d = Inr sw"
      using assms(4) False
      by (auto simp: ensure_broadcast_queue_ready_for_playback_def Let_def split: sum.splits)
    let ?items = "interleave_with_jingles st ?d ?cand sw (count_music_since_last_jingle st ?d)"
    have cand: "t \<in> set (tracks ?d) \<and> music_at st t \<and>
        (t_id t \<le> 0 \<or> t_id t \<notin> q_track ` set ?current \<union> set exclude)" if "t \<in> set ?cand" for t
      using that by (auto simp: select_autofill_tracks_def blocked_ids_def autofill_exclusions_def
          dest!: in_set_takeD)
    then have "\<forall>t \<in> set ?cand. \<not> is_jingle t" by (auto simp: music_at_def is_jingle_def)
    from interleave_loop_facts(3) [of ?cand "sw_interval sw"] this sweeper_interval_pos [OF sw]
    have items: "set ?items \<subseteq> set ?cand \<union> {t \<in> set (tracks ?d). jingle_at st t}"
      by (auto simp: interleave_with_jingles_def split: if_splits)
    obtain c1 new where c1: "enqueue_all st 1 ?items c = (Inr (), c1)" "\<not> in_tx c1"
      "queue_ok (queue_items (work c1))" "queue_items (work c1) = queue_items (work c) @ new"
      "list_active_ordered st (work c1) = ?current @ new"
      "\<forall>r \<in> set new. q_station r = st \<and> q_status r = Pending \<and> q_track r \<in> t_id ` set ?items"
      using enqueue_all_effect [OF assms(1-3)] by metis
    have "c' = c1" "rows = list_active_ordered st (work c1)"
      using assms(4) False sw c1(1)
      by (auto simp: ensure_broadcast_queue_ready_for_playback_def Let_def bindp_def readp_def)
    moreover have "\<exists>t \<in> set (tracks ?d). t_id t = q_track r \<and> (jingle_at st t \<or> music_at st t \<and>
        (t_id t \<le> 0 \<or> t_id t \<notin> q_track ` set ?current \<union> set exclude))" if "r \<in> set new" for r
    proof -
      have "q_track r \<in> t_id ` set ?items" using c1(6) that by blast
      then obtain t where "t \<in> set ?items" "t_id t = q_track r" by auto
      with items cand [of t] show ?thesis by (intro bexI [of _ t]) auto
    qed
    ultimately show ?thesis using c1 none by auto
  qed
qed

section \<open>A concrete library\<close>

definition sample_track :: "int \<Rightarrow> string \<Rightarrow> track_row" where
  "sample_track i kind = \<lparr>t_id = i, t_station = 1, t_title = [], t_artist = [], t_album = [],
     t_genre = [], t_language = [], t_duration = 180, t_bpm = 0, t_type = kind, t_path = ''a.mp3'',
     t_mbid = [], t_active = True, t_exclude = False, t_plays = 0, t_last_played = None\<rparr>"

definition sample_sweeper :: sweeper where
  "sample_sweeper = \<lparr>sw_enabled = False, sw_interval = 2, sw_minutes = False, sw_mode = ''random''\<rparr>"

lemma empty_sweeper: "get_sweeper_settings st (empty_db\<lparr>tracks := ts\<rparr>) = Inr sample_sweeper"
proof -
  have "int_float_or ''2'' 2 = Inr 2" by code_simp
  moreover have "truthy_text ''false'' = False" by code_simp
  moreover have "lower (strip ''tracks'') \<noteq> ''minutes''" by code_simp
  ultimately show ?thesis
    by (simp add: get_sweeper_settings_def get_station_def setting_def setting_or_def sample_sweeper_def)
qed

theorem interleave_keeps_music_witness:
  "filter (\<lambda>t. \<not> is_jingle t) (interleave_with_jingles 1 (empty_db\<lparr>tracks := []\<rparr>)
     [sample_track 1 ''music''] sample_sweeper 0) = [sample_track 1 ''music'']"
proof -
  have "lower ''music'' \<noteq> ''jingle''" by code_simp
  then have "\<forall>t \<in> set [sample_track 1 ''music'']. \<not> is_jingle t"
    by (simp add: is_jingle_def sample_track_def)
  from interleave_keeps_music [OF this empty_sweeper] show ?thesis by blast
qed

theorem autofill_only_extends_witness:
  "\<exists>rows c'. ensure_broadcast_queue_ready_for_playback 1 10 False []
      (open_conn (empty_db\<lparr>tracks := [sample_track 1 ''music'']\<rparr>)) = (Inr rows, c') \<and>
     rows = list_active_ordered 1 (work c')"
proof -
  let ?c = "open_conn (empty_db\<lparr>tracks := [sample_track 1 ''music'']\<rparr>)"
  have ok: "queue_ok (queue_items (work ?c))" "\<not> in_tx ?c" "conn_ok ?c"
    by (simp_all add: queue_ok_def queue_index_ok_def)
  let ?items = "interleave_with_jingles 1 (work ?c)
      (select_autofill_tracks 1 10 (autofill_exclusions 1 [] (list_active_ordered 1 (work ?c)) (work ?c)) (work ?c))
      sample_sweeper (count_music_since_last_jingle 1 (work ?c))"
  obtain c1 where "enqueue_all 1 1 ?items ?c = (Inr (), c1)"
    using enqueue_all_effect [OF ok, of 1 1 ?items] by blast
  then have run: "ensure_broadcast_queue_ready_for_playback 1 10 False [] ?c =
      (Inr (list_active_ordered 1 (work c1)), c1)"
    by (simp add: ensure_broadcast_queue_ready_for_playback_def Let_def list_active_ordered_def
        empty_sweeper bindp_def readp_def)
  from autofill_only_extends [OF ok this] run show ?thesis by blast
qed

end
