(* ===== verification/Playout_Props.thy ===== *)
theory Playout_Props
  imports Playout_State
begin

text \<open>
  The transition log explains the current item of every station, start-up reconciliation leaves
  nothing on air, and a station lease excludes every other worker until it expires.
\<close>

section \<open>The transition log\<close>

fun linked :: "playout \<Rightarrow> transition_row list \<Rightarrow> playout \<Rightarrow> bool" where
  "linked p [] q \<longleftrightarrow> p = q"
| "linked p (t # ts) q \<longleftrightarrow> tr_from t = p \<and> linked (tr_to t) ts q"

definition chain_ok :: "int \<Rightarrow> db \<Rightarrow> bool" where
  "chain_ok st d \<longleftrightarrow>
     linked none_playout (filter (\<lambda>t. tr_station t = st) (transitions d)) (get_current st d)"

lemma linked_snoc: "linked p (ts @ [t]) q \<longleftrightarrow> linked p ts (tr_from t) \<and> tr_to t = q"
  by (induction ts arbitrary: p) auto

lemma or_none_idem [simp]: "or_none (or_none s) = or_none s"
  by (simp add: or_none_def)

lemma get_current_normal [simp]: "or_none (fst (get_current st d)) = fst (get_current st d)"
  by (simp add: get_current_def none_playout_def or_none_def split: option.split prod.split)

lemma get_current_put:
  "get_current st' (put_playout st (or_none s, i) d) =
   (if st' = st then (or_none s, i) else get_current st' d)"
  by (simp add: get_current_def put_playout_def update_conv')

lemma get_current_frame:
  "playout_states d' = playout_states d \<Longrightarrow> get_current st d' = get_current st d"
  by (simp add: get_current_def)

lemma none_playout_normal: "none_playout = (or_none ''none'', None)"
  by (simp add: none_playout_def or_none_def)

lemma put_playout_frame [simp]:
  "transitions (put_playout st p d) = transitions d" "stations (put_playout st p d) = stations d"
  "queue_items (put_playout st p d) = queue_items d" "tracks (put_playout st p d) = tracks d"
  "ads (put_playout st p d) = ads d" "schedules (put_playout st p d) = schedules d"
  "host_items (put_playout st p d) = host_items d" "sessions (put_playout st p d) = sessions d"
  "playlist_items (put_playout st p d) = playlist_items d"
  "show_rows (put_playout st p d) = show_rows d" "leases (put_playout st p d) = leases d"
  "station_settings (put_playout st p d) = station_settings d"
  "system_settings (put_playout st p d) = system_settings d"
  by (simp_all add: put_playout_def)

lemma get_current_put_other [simp]:
  "st' \<noteq> st \<Longrightarrow> get_current st' (put_playout st p d) = get_current st' d"
  by (simp add: get_current_def put_playout_def update_conv')

lemma get_current_updates [simp]:
  "get_current st (transitions_update f d) = get_current st d"
  "get_current st (queue_items_update g d) = get_current st d"
  by (simp_all add: get_current_def)

definition log_row :: "int \<Rightarrow> playout \<Rightarrow> playout \<Rightarrow> string \<Rightarrow> transition_row" where
  "log_row st p q why = \<lparr>tr_station = st, tr_from = p, tr_to = q, tr_reason = why\<rparr>"

lemma log_row_simps [simp]:
  "tr_station (log_row st p q why) = st" "tr_from (log_row st p q why) = p"
  "tr_to (log_row st p q why) = q"
  by (simp_all add: log_row_def)

text \<open>Setting a normal current item and logging the change when there is one.\<close>

definition publish :: "int \<Rightarrow> playout \<Rightarrow> string \<Rightarrow> conn \<Rightarrow> conn" where
  "publish st target why c =
     (let c1 = dml (put_playout st target) c in
      if get_current st (work c) = target then commit c1
      else if st \<in> fst ` set (stations (work c))
      then commit (dml (transitions_update (\<lambda>ts. ts @ [log_row st (get_current st (work c)) target why])) c1)
      else dml id c1)"

lemma set_current_publish:
  "snd (set_current st source item why c) = publish st (or_none source, item) why c"
  by (simp add: set_current_def publish_def Let_def bindp_def add_transition_def updp_def log_row_def)

lemma reconcile_startup_publish:
  "snd (reconcile_startup st c) = publish st none_playout ''startup_reconcile''
     (dml (queue_items_update (update_where (playing_at st) requeue_row)) c)"
  by (simp add: reconcile_startup_def publish_def Let_def bindp_def add_transition_def updp_def log_row_def)

definition log_ok :: "(int \<times> string) list \<Rightarrow> db \<Rightarrow> bool" where
  "log_ok known d \<longleftrightarrow> stations d = known \<and> distinct (map fst (playout_states d)) \<and>
     (\<forall>st \<in> fst ` set known. chain_ok st d)"

lemma put_playout_distinct:
  "distinct (map fst (playout_states d)) \<Longrightarrow> distinct (map fst (playout_states (put_playout st p d)))"
  by (simp add: put_playout_def distinct_update)

lemma chain_ok_put:
  "chain_ok st d \<Longrightarrow> get_current st0 d = (or_none s, i) \<or> st \<noteq> st0 \<Longrightarrow>
   chain_ok st (put_playout st0 (or_none s, i) d)"
  by (auto simp: chain_ok_def get_current_put)

lemma chain_ok_log:
  "chain_ok st d \<Longrightarrow> chain_ok st (transitions_update
     (\<lambda>ts. ts @ [log_row st0 (get_current st0 d) (or_none s, i) why]) (put_playout st0 (or_none s, i) d))"
  by (auto simp: chain_ok_def get_current_put linked_snoc)

definition log_conn_ok :: "(int \<times> string) list \<Rightarrow> conn \<Rightarrow> bool" where
  "log_conn_ok known c \<longleftrightarrow> log_ok known (work c) \<and> log_ok known (disk c)"

lemma publish_log_ok:
  assumes "log_conn_ok known c"
  shows "log_conn_ok known (publish st0 (or_none s, i) why c)"
proof -
  have "log_ok known (work (publish st0 (or_none s, i) why c))"
  proof (cases "get_current st0 (work c) = (or_none s, i) \<or> st0 \<in> fst ` set (stations (work c))")
    case True
    then show ?thesis using assms
      by (auto simp: log_conn_ok_def log_ok_def publish_def Let_def chain_ok_put chain_ok_log
          put_playout_distinct)
  next
    case False
    then have "st \<noteq> st0" if "st \<in> fst ` set (stations (work c))" for st using that by blast
    with False assms show ?thesis
      by (simp add: log_conn_ok_def log_ok_def publish_def Let_def chain_ok_put put_playout_distinct)
  qed
  then show ?thesis using assms
    by (cases "get_current st0 (work c) = (or_none s, i)"; cases "st0 \<in> fst ` set (stations (work c))")
      (simp_all add: log_conn_ok_def publish_def Let_def)
qed

lemma log_ok_rows: "log_ok known (queue_items_update f d) = log_ok known d"
  by (simp add: log_ok_def chain_ok_def)

section \<open>Reconciling every station keeps the log\<close>

lemma add_transition_Inr:
  "add_transition st p q why c = (Inr u, c') \<Longrightarrow>
   c' = dml (transitions_update (\<lambda>ts. ts @ [log_row st p q why])) c"
  by (simp add: add_transition_def log_row_def split: if_splits)

lemma forp_transitions:
  assumes "forp (\<lambda>(st, p). add_transition st (g p) q why) xs c = (Inr (), c')"
  shows "work c' = transitions_update (\<lambda>ts. ts @ map (\<lambda>(st, p). log_row st (g p) q why) xs) (work c)"
  using assms
proof (induction xs arbitrary: c)
  case (Cons x xs)
  obtain st p where x: "x = (st, p)" by (cases x)
  obtain c1 where c1: "add_transition st (g p) q why c = (Inr (), c1)"
    "forp (\<lambda>(st, p). add_transition st (g p) q why) xs c1 = (Inr (), c')"
    using Cons.prems by (auto simp: x bindp_def split: prod.splits sum.splits)
  have "forp (\<lambda>(st, p). add_transition st (g p) q why) xs
      (dml (transitions_update (\<lambda>ts. ts @ [log_row st (g p) q why])) c) = (Inr (), c')"
    using c1 add_transition_Inr [OF c1(1)] by simp
  from Cons.IH [OF this] show ?case by (simp add: x comp_def)
qed (simp add: ret_def)

definition only_tracks :: "conn \<Rightarrow> conn \<Rightarrow> bool" where
  "only_tracks c c' \<longleftrightarrow> (\<exists>rows. work c' = tracks_update (\<lambda>_. rows) (work c)) \<and> disk c' = disk c"

interpretation track_frame: step_frame only_tracks
proof
  show "only_tracks c c" for c
    unfolding only_tracks_def by (intro conjI exI [of _ "tracks (work c)"]) simp_all
  show "only_tracks c e" if "only_tracks c d" "only_tracks d e" for c d e
    using that by (auto simp: only_tracks_def)
qed

lemma only_tracks_dml: "only_tracks c (dml (tracks_update f) c)"
  unfolding only_tracks_def by (intro conjI exI [of _ "f (tracks (work c))"]) simp_all

lemma backfill_loop_frame: "only_tracks c (snd (backfill_loop fe k ts c))"
proof (induction ts arbitrary: k c)
  case (Cons t ts)
  have "only_tracks c (snd (backfill_loop fe (Suc k) ts (dml (tracks_update f) c)))" for f
    by (rule track_frame.frame_trans [OF only_tracks_dml Cons.IH])
  with Cons.IH [of c "Suc k"] track_frame.frame_refl [of c] show ?case
    by (simp add: Let_def split: prod.split) (metis snd_conv)
qed (simp add: track_frame.frame_refl)

text \<open>What reconciliation writes when it returns.\<close>

lemma reconcile_all_shape:
  assumes "reconcile_all_startup fe now c = (Inr counts, c')"
  obtains rows f where "disk c' = work c'" "\<not> in_tx c'"
    "work c' = tracks_update (\<lambda>_. rows) (f (end_open_sessions now (transitions_update (\<lambda>ts. ts @
       map (\<lambda>(st, p). log_row st (or_none (fst p), snd p) none_playout ''startup_reconcile'')
         (sort_key fst (filter stale_playout (playout_states (work c)))))
       (reconcile_rows now (work c)))))"
    "f = id \<or> f = host_sources_to_automation"
proof -
  let ?stale = "sort_key fst (filter stale_playout (playout_states (work c)))"
  let ?log = "\<lambda>(st, p). add_transition st (or_none (fst p), snd p) none_playout ''startup_reconcile''"
  obtain c2 where c2: "forp ?log ?stale (dml (reconcile_rows now) c) = (Inr (), c2)"
    using assms by (auto simp: reconcile_all_startup_def Let_def bindp_def split: prod.splits sum.splits)
  define f where "f = (if rowcount open_session (sessions (work c2)) > 0
      then host_sources_to_automation else id)"
  define c4 where "c4 = (if rowcount open_session (sessions (work c2)) > 0
       then dml host_sources_to_automation (dml (end_open_sessions now) c2)
       else dml (end_open_sessions now) c2)"
  obtain n c5 where bf: "backfill_missing_track_durations fe c4 = (n, c5)" by fastforce
  have "work c4 = f (end_open_sessions now (work c2))" by (simp add: c4_def f_def)
  moreover have "only_tracks c4 c5"
    using backfill_loop_frame [of c4 fe 0 "backfill_candidates (work c4)"] bf
    by (simp add: backfill_missing_track_durations_def)
  ultimately obtain rows where "work c5 = tracks_update (\<lambda>_. rows) (f (end_open_sessions now (work c2)))"
    by (auto simp: only_tracks_def)
  moreover have "c' = commit c5"
    using assms c2 bf by (simp add: reconcile_all_startup_def Let_def bindp_def c4_def [symmetric])
  ultimately show thesis
    using forp_transitions [OF c2] by (intro that [of rows f]) (auto simp: f_def)
qed

lemma map_of_reset:
  "map_of (update_where stale_playout (\<lambda>p. (fst p, none_playout)) xs) st =
   map_option (\<lambda>_. none_playout) (map_of xs st)"
  by (induction xs) (auto simp: stale_playout_def)

lemma get_current_reset:
  "get_current st (reconcile_rows now d) = none_playout"
proof -
  have "or_none ''none'' = ''none''" by (simp add: or_none_def)
  then show ?thesis
    by (cases "map_of (playout_states d) st")
      (simp_all add: get_current_def reconcile_rows_def map_of_reset, simp_all add: none_playout_def)
qed

lemma stale_entries:
  assumes "distinct (map fst xs)"
  shows "filter (\<lambda>t. tr_station t = st) (map (\<lambda>(st, p). log_row st (g p) q why) (sort_key fst (filter P xs))) =
    (case map_of xs st of None \<Rightarrow> [] | Some p \<Rightarrow> if P (st, p) then [log_row st (g p) q why] else [])"
proof -
  have "filter (\<lambda>x. fst x = st) (filter P xs) =
      (case map_of xs st of None \<Rightarrow> [] | Some p \<Rightarrow> if P (st, p) then [(st, p)] else [])"
    using assms
  proof (induction xs)
    case (Cons x xs)
    then show ?case
      by (cases x) (auto simp: map_of_eq_None_iff filter_empty_conv split: option.split)
  qed simp
  moreover have "sort_key fst (filter (\<lambda>x. fst x = st) (filter P xs)) = filter (\<lambda>x. fst x = st) (filter P xs)"
    unfolding calculation by (simp split: option.split)
  ultimately show ?thesis
    by (simp add: filter_map comp_def case_prod_beta filter_sort_key split: option.split)
qed

lemma reconcile_all_chain:
  assumes "chain_ok st d" "distinct (map fst (playout_states d))"
    and "d' = transitions_update (\<lambda>ts. ts @
       map (\<lambda>(st, p). log_row st (or_none (fst p), snd p) none_playout ''startup_reconcile'')
         (sort_key fst (filter stale_playout (playout_states d)))) (reconcile_rows now d)"
  shows "chain_ok st d'"
proof -
  have cur: "get_current st d' = none_playout" by (simp add: assms(3) get_current_reset)
  have trs: "transitions (reconcile_rows now d) = transitions d" by (simp add: reconcile_rows_def)
  show ?thesis
  proof (cases "map_of (playout_states d) st")
    case None
    then have "get_current st d = none_playout" by (simp add: get_current_def)
    with assms(1) show ?thesis
      unfolding chain_ok_def cur by (simp add: assms(3) trs stale_entries [OF assms(2)] None)
  next
    case (Some p)
    then have p: "get_current st d = (or_none (fst p), snd p)"
      by (simp add: get_current_def case_prod_beta)
    show ?thesis
    proof (cases "stale_playout (st, p)")
      case True
      with assms(1) show ?thesis
        unfolding chain_ok_def cur by (simp add: assms(3) trs stale_entries [OF assms(2)] Some p linked_snoc)
    next
      case False
      then have "get_current st d = none_playout"
        by (simp add: p stale_playout_def none_playout_def or_none_def)
      with False assms(1) show ?thesis
        unfolding chain_ok_def cur by (simp add: assms(3) trs stale_entries [OF assms(2)] Some)
    qed
  qed
qed

lemma chain_ok_frames [simp]:
  "chain_ok st (end_open_sessions now d) = chain_ok st d"
  "chain_ok st (host_sources_to_automation d) = chain_ok st d"
  "chain_ok st (tracks_update f d) = chain_ok st d"
  by (simp_all add: chain_ok_def get_current_def end_open_sessions_def host_sources_to_automation_def)

lemma reconcile_all_log_ok:
  assumes "log_conn_ok known c" "reconcile_all_startup fe now c = (Inr counts, c')"
  shows "log_conn_ok known c'"
proof (rule reconcile_all_shape [OF assms(2)])
  let ?d = "transitions_update (\<lambda>ts. ts @
       map (\<lambda>(st, p). log_row st (or_none (fst p), snd p) none_playout ''startup_reconcile'')
         (sort_key fst (filter stale_playout (playout_states (work c))))) (reconcile_rows now (work c))"
  fix rows f
  assume w: "work c' = tracks_update (\<lambda>_. rows) (f (end_open_sessions now ?d))"
    and f: "f = id \<or> f = host_sources_to_automation" and d: "disk c' = work c'"
  have "distinct (map fst (playout_states (work c)))" "stations (work c) = known"
    using assms(1) by (simp_all add: log_conn_ok_def log_ok_def)
  moreover from this have "chain_ok st ?d" if "st \<in> fst ` set known" for st
    using assms(1) that by (intro reconcile_all_chain [OF _ _ refl]) (auto simp: log_conn_ok_def log_ok_def)
  ultimately have "log_ok known ?d"
    by (simp add: log_ok_def reconcile_rows_def comp_def)
  then have "log_ok known (work c')"
    using f by (auto simp: w log_ok_def end_open_sessions_def [of now ?d, THEN arg_cong [of _ _ stations]]
       end_open_sessions_def host_sources_to_automation_def chain_ok_def get_current_def)
  with d show ?thesis by (simp add: log_conn_ok_def)
qed

text \<open>
  A start-up that fails closes its connection, which rolls its open transaction back.
\<close>

datatype playout_command =
  SetCurrent int string "int option" string | ReconcileOne int | ReconcileAll file_env rat

fun run_playout_command :: "playout_command \<Rightarrow> conn \<Rightarrow> conn" where
  "run_playout_command (SetCurrent st source item why) c = snd (set_current st source item why c)"
| "run_playout_command (ReconcileOne st) c = snd (reconcile_startup st c)"
| "run_playout_command (ReconcileAll fe now) c =
     (case reconcile_all_startup fe now c of (Inl _, c') \<Rightarrow> rollback c | (Inr _, c') \<Rightarrow> c')"

text \<open>
  C27: for every known station the recorded transitions form a chain from \<open>none\<close> to the current
  item, after any sequence of calls of \<open>set_current\<close> and start-up reconciliations of one station or
  of all. Writers that go past the service and change the row themselves are not among them:
  \<open>TrackRepository.deactivate\<close> (\<open>deactivate_skips_the_log\<close>) and four statements of \<open>api/legacy.py\<close>.
\<close>

theorem transitions_explain_current:
  assumes "st \<in> fst ` set known"
  shows "linked none_playout
    (filter (\<lambda>t. tr_station t = st)
      (transitions (work (fold run_playout_command cmds (open_conn (empty_db\<lparr>stations := known\<rparr>))))))
    (get_current st (work (fold run_playout_command cmds (open_conn (empty_db\<lparr>stations := known\<rparr>)))))"
proof -
  have step: "log_conn_ok known (run_playout_command cmd c)" if "log_conn_ok known c" for cmd c
  proof (cases cmd)
    case (SetCurrent st source item why)
    with that show ?thesis by (simp add: set_current_publish publish_log_ok)
  next
    case (ReconcileOne st)
    have "log_conn_ok known (dml (queue_items_update (update_where (playing_at st) requeue_row)) c)"
      using that by (simp add: log_conn_ok_def log_ok_rows)
    from publish_log_ok [OF this, of st "''none''" None "''startup_reconcile''"] ReconcileOne
    show ?thesis by (simp add: reconcile_startup_publish none_playout_normal)
  next
    case (ReconcileAll fe now)
    with that show ?thesis
      using reconcile_all_log_ok [OF that]
      by (auto simp: log_conn_ok_def split: prod.split sum.split)
  qed
  have "log_conn_ok known (fold run_playout_command cmds c)" if "log_conn_ok known c" for c
    using that by (induction cmds arbitrary: c) (simp_all add: step)
  moreover have "log_conn_ok known (open_conn (empty_db\<lparr>stations := known\<rparr>))"
    by (simp add: log_conn_ok_def log_ok_def chain_ok_def get_current_def)
  ultimately have "log_conn_ok known (fold run_playout_command cmds
      (open_conn (empty_db\<lparr>stations := known\<rparr>)))" by blast
  then have "chain_ok st (work (fold run_playout_command cmds (open_conn (empty_db\<lparr>stations := known\<rparr>))))"
    using assms unfolding log_conn_ok_def log_ok_def by blast
  then show ?thesis by (simp only: chain_ok_def)
qed

theorem transitions_explain_current_witness:
  "linked none_playout [log_row 1 none_playout (''queue'', Some 7) ''tick'',
      log_row 1 (''queue'', Some 7) none_playout ''startup_reconcile''] none_playout"
  using transitions_explain_current [of 1 "[(1, ''fm'')]"
      "[SetCurrent 1 ''queue'' (Some 7) ''tick'', ReconcileOne 1]"]
  by (simp add: set_current_publish reconcile_startup_publish publish_def Let_def get_current_def
      none_playout_def or_none_def put_playout_def)

section \<open>What start-up leaves on air\<close>

text \<open>
  After a start-up reconciliation that returns, no queue, ad or schedule item is playing,
  no station has a current item, only ended and preparing sessions remain, the interrupted queue
  items are pending again at their positions, nothing else of the queue changed, and the result
  is committed.
\<close>

theorem startup_reconciles:
  assumes "reconcile_all_startup fe now c = (Inr counts, c')"
  shows "(\<forall>r \<in> set (queue_items (work c')). q_status r \<noteq> Playing) \<and>
    (\<forall>r \<in> set (ads (work c')). ad_status r \<noteq> Playing) \<and>
    (\<forall>r \<in> set (schedules (work c')). sc_status r \<noteq> Playing) \<and>
    (\<forall>st. get_current st (work c') = none_playout) \<and>
    (\<forall>r \<in> set (sessions (work c')). ss_status r = Ended \<or> ss_status r = Preparing) \<and>
    queue_items (work c') =
      map (\<lambda>r. if q_status r = Playing then requeue_row r else r) (queue_items (work c)) \<and>
    disk c' = work c' \<and> \<not> in_tx c'"
proof (rule reconcile_all_shape [OF assms])
  fix rows f
  let ?d = "end_open_sessions now (transitions_update (\<lambda>ts. ts @
       map (\<lambda>(st, p). log_row st (or_none (fst p), snd p) none_playout ''startup_reconcile'')
         (sort_key fst (filter stale_playout (playout_states (work c))))) (reconcile_rows now (work c)))"
  assume w: "work c' = tracks_update (\<lambda>_. rows) (f ?d)"
    and f: "f = id \<or> f = host_sources_to_automation" and d: "disk c' = work c'" "\<not> in_tx c'"
  have tables: "queue_items (work c') = queue_items (reconcile_rows now (work c))"
    "ads (work c') = ads (reconcile_rows now (work c))"
    "schedules (work c') = schedules (reconcile_rows now (work c))"
    "playout_states (work c') = playout_states (reconcile_rows now (work c))"
    "sessions (work c') = sessions ?d"
    using f by (auto simp: w end_open_sessions_def host_sources_to_automation_def)
  moreover have "get_current st (work c') = none_playout" for st
    using get_current_frame [OF tables(4)] get_current_reset by simp
  ultimately show ?thesis
    using d by (auto simp: reconcile_rows_def end_open_sessions_def set_update_where
        update_where_def requeue_row_def open_session_def)
qed

section \<open>The lease\<close>

text \<open>Attempts of a trace, each a time and a worker, and whether each one acquired.\<close>

fun lease_trace :: "int \<Rightarrow> int \<Rightarrow> (rat \<times> string) list \<Rightarrow> conn \<Rightarrow> bool list" where
  "lease_trace secs st [] c = []"
| "lease_trace secs st ((now, w) # as) c =
     (case try_acquire secs now st w c of
        (r, c') \<Rightarrow> (r = Inr True) # lease_trace secs st as c')"

lemma lease_trace_Cons:
  "lease_trace secs st (a # as) c = (fst (try_acquire secs (fst a) st (snd a) c) = Inr True) #
     lease_trace secs st as (snd (try_acquire secs (fst a) st (snd a) c))"
  by (cases a) (simp add: case_prod_beta)

declare lease_trace.simps(2) [simp del]

lemma try_acquire_lease:
  "fst (try_acquire secs now st w c) = Inr (case leases (work c) st of
     None \<Rightarrow> True
   | Some (w', e) \<Rightarrow> w' = w \<or> (case e of None \<Rightarrow> True
       | Some t \<Rightarrow> t \<le> now \<or> now + of_int (max 1 secs * 4) < t))"
  "leases (work (snd (try_acquire secs now st w c))) st =
     (if fst (try_acquire secs now st w c) = Inr True then Some (w, Some (now + of_int secs))
      else leases (work c) st)"
  by (simp_all add: try_acquire_def Let_def split: option.split)

text \<open>Once a worker holds the lease, another one gets it only after it expired.\<close>

lemma lease_excludes:
  assumes "0 \<le> secs" "sorted (map fst as)" "\<And>a. a \<in> set as \<Longrightarrow> t0 \<le> fst a"
    and "leases (work c) st = Some (w, Some e)" "limit \<le> e" "e \<le> t0 + of_int secs"
    and "k < length as" "lease_trace secs st as c ! k" "snd (as ! k) \<noteq> w"
  shows "limit \<le> fst (as ! k)"
  using assms(2-)
proof (induction as arbitrary: c k t0 e)
  case (Cons a as)
  obtain now w' where a: "a = (now, w')" by (cases a)
  let ?r = "try_acquire secs now st w' c"
  have now: "t0 \<le> now" "e \<le> now + of_int secs"
    using Cons.prems(2) [of a] Cons.prems(5) by (auto simp: a)
  have later: "now \<le> fst b" if "b \<in> set as" for b using Cons.prems(1) that by (auto simp: a)
  have trace: "lease_trace secs st (a # as) c = (fst ?r = Inr True) # lease_trace secs st as (snd ?r)"
    by (simp add: a lease_trace_Cons)
  consider "w' = w" | "w' \<noteq> w" "fst ?r = Inr True" | "w' \<noteq> w" "fst ?r \<noteq> Inr True" by blast
  then show ?case
  proof cases
    case 1
    then have "fst ?r = Inr True" using Cons.prems(3) by (simp add: try_acquire_lease)
    then have "leases (work (snd ?r)) st = Some (w, Some (now + of_int secs))"
      using 1 by (simp add: try_acquire_lease(2))
    moreover obtain k' where "k = Suc k'" using Cons.prems(8) 1 by (cases k) (simp_all add: a)
    ultimately show ?thesis
      using Cons.IH [of now "snd ?r" "now + of_int secs" k'] Cons.prems later now
      by (simp add: trace)
  next
    case 2
    have "of_int secs \<le> (of_int (max 1 secs * 4) :: rat)"
      using assms(1) by (simp only: of_int_le_iff)
    then have "\<not> now + of_int (max 1 secs * 4) < e" using now(2) by linarith
    then have "e \<le> now" using 2 Cons.prems(3) by (simp add: try_acquire_lease(1))
    moreover have "now \<le> fst ((a # as) ! k)"
      using later Cons.prems(6) by (cases k) (simp_all add: a)
    ultimately show ?thesis using Cons.prems(4) by simp
  next
    case 3
    then have "leases (work (snd ?r)) st = Some (w, Some e)"
      using Cons.prems(3) by (simp add: try_acquire_lease(2))
    moreover obtain k' where "k = Suc k'" using Cons.prems(7) 3 by (cases k) (simp_all add: trace)
    ultimately show ?thesis
      using Cons.IH [of now "snd ?r" e k'] Cons.prems later now
      by (simp add: trace)
  qed
qed simp

text \<open>
  C28: two different workers never hold a station's lease within one lease period: whatever
  attempts come between, when a worker acquired at some time, another one acquires only after
  the lease period from that time has passed.
\<close>

theorem lease_mutual_exclusion:
  assumes "0 \<le> secs" and "sorted (map fst as)" and "i < j" and "j < length as"
    and "lease_trace secs st as c ! i" and "lease_trace secs st as c ! j"
    and "snd (as ! i) \<noteq> snd (as ! j)"
  shows "fst (as ! i) + of_int secs \<le> fst (as ! j)"
  using assms(2-)
proof (induction as arbitrary: c i j)
  case (Cons a as)
  obtain now w where a: "a = (now, w)" by (cases a)
  let ?r = "try_acquire secs now st w c"
  have trace: "lease_trace secs st (a # as) c = (fst ?r = Inr True) # lease_trace secs st as (snd ?r)"
    by (simp add: a lease_trace_Cons)
  obtain j' where j: "j = Suc j'" using Cons.prems(2) by (cases j) simp_all
  show ?case
  proof (cases i)
    case 0
    then have "fst ?r = Inr True" using Cons.prems(4) by (simp add: trace)
    then have "leases (work (snd ?r)) st = Some (w, Some (now + of_int secs))"
      by (simp add: try_acquire_lease(2))
    moreover have "now \<le> fst b" if "b \<in> set as" for b using Cons.prems(1) that by (auto simp: a)
    ultimately show ?thesis
      using lease_excludes [OF assms(1), of as now "snd ?r" st w "now + of_int secs"
          "now + of_int secs" j'] Cons.prems 0 j by (simp add: a trace [unfolded a])
  next
    case (Suc i')
    with Cons.IH [of i' j' "snd ?r"] Cons.prems j show ?thesis by (simp add: trace)
  qed
qed simp

theorem startup_reconciles_witness:
  "\<exists>counts c'. reconcile_all_startup \<lparr>resolve_path = id, file_exists = (\<lambda>_. False),
      probe_seconds = (\<lambda>_ _. 0), elapsed = (\<lambda>_. 0)\<rparr> 5 sample_conn = (Inr counts, c') \<and>
     map q_status (queue_items (work c')) = [Pending, Pending, Pending, Pending]"
proof -
  let ?fe = "\<lparr>resolve_path = id, file_exists = (\<lambda>_. False), probe_seconds = (\<lambda>_ _. 0 :: rat),
      elapsed = (\<lambda>_. 0 :: rat)\<rparr>"
  have bf: "backfill_missing_track_durations ?fe c = (0, c)" if "tracks (work c) = []" for c
    using that by (simp add: backfill_missing_track_durations_def backfill_candidates_def)
  have rows: "tracks (work (dml (end_open_sessions 5) (dml (reconcile_rows 5) sample_conn))) = []"
    by (simp add: end_open_sessions_def reconcile_rows_def)
  have none: "rowcount open_session (sessions (work (dml (reconcile_rows 5) sample_conn))) = 0"
    by (simp add: rowcount_def reconcile_rows_def)
  obtain counts c' where run: "reconcile_all_startup ?fe 5 sample_conn = (Inr counts, c')"
    using none bf [OF rows]
    by (auto simp: reconcile_all_startup_def bindp_def ret_def Let_def)
  from startup_reconciles [OF this] have "queue_items (work c') =
      map (\<lambda>r. if q_status r = Playing then requeue_row r else r) (queue_items (work sample_conn))"
    by blast
  then have "map q_status (queue_items (work c')) = [Pending, Pending, Pending, Pending]"
    by (simp add: sample_rows_def requeue_row_def)
  then show ?thesis by - (intro exI conjI, rule run, assumption)
qed

theorem lease_mutual_exclusion_witness:
  "(0 :: rat) + 30 \<le> 31 \<and> lease_trace 30 1 [(0, ''a''), (10, ''b''), (31, ''b'')] (open_conn empty_db) = [True, False, True]"
  using lease_mutual_exclusion [of 30 "[(0, ''a''), (10, ''b''), (31, ''b'')]" 0 2 1 "open_conn empty_db"]
  by (simp add: try_acquire_def Let_def lease_trace_Cons)

end
