(* ===== verification/Track_Repo.thy ===== *)
theory Track_Repo
  imports Playout_Props
begin

text \<open>
  \<open>TrackRepository\<close> (\<open>repositories/track_repo.py\<close>): the track library, and taking a track out of
  service everywhere it is used.
\<close>

section \<open>Reading and writing tracks\<close>

record track_data =
  td_title :: string
  td_artist :: string
  td_path :: string
  td_mbid :: string
  td_station :: int
  td_type :: string
  td_album :: string
  td_genre :: string
  td_language :: string
  td_duration :: rat
  td_bpm :: rat
  td_active :: "bool option"
  td_exclude :: "bool option"

definition or_music :: "string \<Rightarrow> string" where
  "or_music s = (if s = [] then ''music'' else s)"

definition existing_track :: "track_data \<Rightarrow> db \<Rightarrow> track_row option" where
  "existing_track td d =
     (case (if td_path td = [] then None else find (\<lambda>t. t_path t = td_path td) (tracks d)) of
        Some t \<Rightarrow> Some t
      | None \<Rightarrow> if td_mbid td = [] then None else find (\<lambda>t. t_mbid t = td_mbid td) (tracks d))"

definition write_track :: "track_data \<Rightarrow> track_row \<Rightarrow> track_row" where
  "write_track td t = t\<lparr>t_title := td_title td, t_artist := td_artist td, t_path := td_path td,
     t_mbid := td_mbid td, t_station := td_station td, t_type := or_music (td_type td),
     t_album := td_album td, t_genre := td_genre td, t_language := td_language td,
     t_duration := td_duration td, t_bpm := td_bpm td,
     t_active := (case td_active td of None \<Rightarrow> t_active t | Some b \<Rightarrow> b),
     t_exclude := (case td_exclude td of None \<Rightarrow> t_exclude t | Some b \<Rightarrow> b)\<rparr>"

text \<open>The defaults of the table: active, open to autoplay, never played.\<close>

definition fresh_track :: "int \<Rightarrow> track_row" where
  "fresh_track i = \<lparr>t_id = i, t_station = 1, t_title = [], t_artist = [], t_album = [], t_genre = [],
     t_language = [], t_duration = 0, t_bpm = 0, t_type = ''music'', t_path = [], t_mbid = [],
     t_active = True, t_exclude = False, t_plays = 0, t_last_played = None\<rparr>"

definition track_upsert :: "track_data \<Rightarrow> (conn, int) prog" where
  "track_upsert td c =
     (case existing_track td (work c) of
        Some t \<Rightarrow> (Inr (t_id t),
          commit (dml (tracks_update (update_where (\<lambda>r. t_id r = t_id t) (write_track td))) c))
      | None \<Rightarrow>
          (let i = next_rowid (map t_id (tracks (work c)))
           in (Inr i, commit (dml (tracks_update (\<lambda>rows. rows @ [write_track td (fresh_track i)])) c))))"

definition announcement_data :: "int \<Rightarrow> string \<Rightarrow> string \<Rightarrow> rat \<Rightarrow> string \<Rightarrow> track_data" where
  "announcement_data st title path dur artist =
     \<lparr>td_title = title, td_artist = artist, td_path = path, td_mbid = [], td_station = st,
      td_type = ''announcement'', td_album = [], td_genre = [], td_language = [],
      td_duration = dur, td_bpm = 0, td_active = Some False, td_exclude = Some True\<rparr>"

definition upsert_generated_announcement ::
  "int \<Rightarrow> string \<Rightarrow> string \<Rightarrow> rat \<Rightarrow> string \<Rightarrow> (conn, int) prog" where
  "upsert_generated_announcement st title path dur artist =
     track_upsert (announcement_data st title path dur artist)"

definition track_get :: "int \<Rightarrow> db \<Rightarrow> track_row option" where
  "track_get i d = find (\<lambda>t. t_id t = i) (tracks d)"

definition track_edit ::
  "int \<Rightarrow> string \<Rightarrow> string \<Rightarrow> string \<Rightarrow> string \<Rightarrow> string \<Rightarrow> string \<Rightarrow> bool \<Rightarrow> (conn, bool) prog" where
  "track_edit i title artist album genre language kind exclude c =
     (let hit = (\<lambda>t. t_id t = i)
      in (Inr (rowcount hit (tracks (work c)) > 0),
          commit (dml (tracks_update (update_where hit
            (\<lambda>t. t\<lparr>t_title := title, t_artist := artist, t_album := album, t_genre := genre,
                   t_language := language, t_type := or_music kind, t_exclude := exclude\<rparr>))) c)))"

definition set_played :: "rat \<Rightarrow> int \<Rightarrow> track_row list \<Rightarrow> track_row list" where
  "set_played now i = update_where (\<lambda>t. t_id t = i)
     (\<lambda>t. t\<lparr>t_plays := t_plays t + 1, t_last_played := Some (current_timestamp now)\<rparr>)"

definition mark_played :: "rat \<Rightarrow> int \<Rightarrow> (conn, unit) prog" where
  "mark_played now i = updp (\<lambda>c. commit (dml (tracks_update (set_played now i)) c))"

section \<open>Searching\<close>

text \<open>SQLite's \<open>LIKE\<close>: \<open>%\<close> matches any text, \<open>_\<close> one character, ASCII letters ignore case.\<close>

fun like_match :: "string \<Rightarrow> string \<Rightarrow> bool" where
  "like_match [] [] \<longleftrightarrow> True"
| "like_match [] (x # xs) \<longleftrightarrow> False"
| "like_match (p # ps) [] \<longleftrightarrow> p = CHR ''%'' \<and> like_match ps []"
| "like_match (p # ps) (x # xs) \<longleftrightarrow>
     (if p = CHR ''%'' then like_match ps (x # xs) \<or> like_match (p # ps) xs
      else (p = CHR ''_'' \<or> lower_char p = lower_char x) \<and> like_match ps xs)"

definition track_list :: "string \<Rightarrow> int \<Rightarrow> db \<Rightarrow> track_row list" where
  "track_list q limit d =
     (let text = strip q; like = ''%'' @ text @ ''%'';
          hit = (\<lambda>t. t_active t \<and> (text = [] \<or> like_match like (t_title t) \<or> like_match like (t_artist t) \<or>
                   like_match like (t_path t) \<or> like_match like (t_mbid t)))
      in take (clamp_limit 1 500 limit) (rev (sort_key t_id (filter hit (tracks d)))))"

section \<open>Taking a track out of service\<close>

record deactivation =
  da_found :: bool
  da_deleted :: bool
  da_already :: bool
  da_queue_failed :: nat
  da_schedule_failed :: nat
  da_ad_failed :: nat
  da_playlist_removed :: nat
  da_program_removed :: nat
  da_playout_reset :: nat
  da_affected :: "int list"
  da_stop :: "int list"

definition no_deactivation :: "bool \<Rightarrow> deactivation" where
  "no_deactivation found = \<lparr>da_found = found, da_deleted = False, da_already = found,
     da_queue_failed = 0, da_schedule_failed = 0, da_ad_failed = 0, da_playlist_removed = 0,
     da_program_removed = 0, da_playout_reset = 0, da_affected = [], da_stop = []\<rparr>"

definition on_air :: "item_status \<Rightarrow> bool" where
  "on_air s \<longleftrightarrow> s = Pending \<or> s = Playing"

definition falls_back_to :: "int \<Rightarrow> int \<times> playout \<Rightarrow> bool" where
  "falls_back_to tid p \<longleftrightarrow> snd p = (''library_fallback'', Some tid)"

definition deactivate_rows :: "rat \<Rightarrow> int \<Rightarrow> db \<Rightarrow> db" where
  "deactivate_rows now tid d =
     d\<lparr>tracks := update_where (\<lambda>t. t_id t = tid) (\<lambda>t. t\<lparr>t_active := False\<rparr>) (tracks d),
       queue_items := update_where (\<lambda>r. q_track r = tid \<and> on_air (q_status r))
         (\<lambda>r. r\<lparr>q_status := Failed, q_finished := Some (current_timestamp now)\<rparr>) (queue_items d),
       schedules := update_where (\<lambda>r. sc_track r = tid \<and> on_air (sc_status r))
         (\<lambda>r. r\<lparr>sc_status := Failed\<rparr>) (schedules d),
       ads := update_where (\<lambda>r. ad_track r = tid \<and> on_air (ad_status r))
         (\<lambda>r. r\<lparr>ad_status := Failed\<rparr>) (ads d),
       playlist_items := delete_where (\<lambda>p. snd p = tid) (playlist_items d),
       host_items := delete_where (\<lambda>r. h_track r = tid) (host_items d),
       playout_states := update_where (falls_back_to tid) (\<lambda>p. (fst p, none_playout)) (playout_states d)\<rparr>"

definition deactivate :: "rat \<Rightarrow> int \<Rightarrow> (conn, deactivation) prog" where
  "deactivate now tid c =
     (let d = work c in
      case track_get tid d of
        None \<Rightarrow> (Inr (no_deactivation False), c)
      | Some t \<Rightarrow>
          if \<not> t_active t then (Inr (no_deactivation True), c)
          else
            (let using = map q_station (filter (\<lambda>r. q_track r = tid) (queue_items d)) @
                   map sc_station (filter (\<lambda>r. sc_track r = tid) (schedules d)) @
                   map ad_station (filter (\<lambda>r. ad_track r = tid) (ads d));
                 airing = map q_station (filter (\<lambda>r. q_track r = tid \<and> q_status r = Playing) (queue_items d)) @
                   map sc_station (filter (\<lambda>r. sc_track r = tid \<and> sc_status r = Playing) (schedules d)) @
                   map ad_station (filter (\<lambda>r. ad_track r = tid \<and> ad_status r = Playing) (ads d)) @
                   map fst (filter (falls_back_to tid) (playout_states d))
             in (Inr \<lparr>da_found = True, da_deleted = True, da_already = False,
                   da_queue_failed = rowcount (\<lambda>r. q_track r = tid \<and> on_air (q_status r)) (queue_items d),
                   da_schedule_failed = rowcount (\<lambda>r. sc_track r = tid \<and> on_air (sc_status r)) (schedules d),
                   da_ad_failed = rowcount (\<lambda>r. ad_track r = tid \<and> on_air (ad_status r)) (ads d),
                   da_playlist_removed = rowcount (\<lambda>p. snd p = tid) (playlist_items d),
                   da_program_removed = rowcount (\<lambda>r. h_track r = tid) (host_items d),
                   da_playout_reset = rowcount (falls_back_to tid) (playout_states d),
                   da_affected = sort (remdups using), da_stop = sort (remdups airing)\<rparr>,
                 commit (dml (deactivate_rows now tid) c))))"

section \<open>What deactivation achieves\<close>

text \<open>
  Once a track is deactivated it is inactive, nothing pending or playing in the queue, the
  schedule or the ad breaks refers to it, no playlist, programme queue or library fallback uses
  it, items of other tracks are untouched, and the change is on disk.
\<close>

theorem deactivated_is_unused:
  assumes "deactivate now tid c = (Inr r, c')" and "da_deleted r"
  shows "(\<forall>t \<in> set (tracks (work c')). t_id t = tid \<longrightarrow> \<not> t_active t) \<and>
    (\<forall>q \<in> set (queue_items (work c')). q_track q = tid \<longrightarrow> \<not> on_air (q_status q)) \<and>
    (\<forall>s \<in> set (schedules (work c')). sc_track s = tid \<longrightarrow> \<not> on_air (sc_status s)) \<and>
    (\<forall>a \<in> set (ads (work c')). ad_track a = tid \<longrightarrow> \<not> on_air (ad_status a)) \<and>
    tid \<notin> snd ` set (playlist_items (work c')) \<and> tid \<notin> h_track ` set (host_items (work c')) \<and>
    (\<forall>p \<in> set (playout_states (work c')). \<not> falls_back_to tid p) \<and>
    filter (\<lambda>q. q_track q \<noteq> tid) (queue_items (work c')) =
      filter (\<lambda>q. q_track q \<noteq> tid) (queue_items (work c)) \<and>
    disk c' = work c' \<and> \<not> in_tx c'"
proof -
  have w: "work c' = deactivate_rows now tid (work c)" and dur: "disk c' = work c'" "\<not> in_tx c'"
    using assms by (auto simp: deactivate_def Let_def no_deactivation_def split: option.splits if_splits)
  have others: "filter (\<lambda>q. q_track q \<noteq> tid) (update_where (\<lambda>r. q_track r = tid \<and> on_air (q_status r)) f rows) =
      filter (\<lambda>q. q_track q \<noteq> tid) rows" if "\<And>r. q_track (f r) = q_track r" for f rows
    using that by (induction rows) auto
  show ?thesis
  proof (intro conjI)
    show "\<forall>t \<in> set (tracks (work c')). t_id t = tid \<longrightarrow> \<not> t_active t"
      "\<forall>q \<in> set (queue_items (work c')). q_track q = tid \<longrightarrow> \<not> on_air (q_status q)"
      "\<forall>s \<in> set (schedules (work c')). sc_track s = tid \<longrightarrow> \<not> on_air (sc_status s)"
      "\<forall>a \<in> set (ads (work c')). ad_track a = tid \<longrightarrow> \<not> on_air (ad_status a)"
      "\<forall>p \<in> set (playout_states (work c')). \<not> falls_back_to tid p"
      by (simp_all add: w deactivate_rows_def ball_update_where on_air_def falls_back_to_def none_playout_def)
    show "tid \<notin> snd ` set (playlist_items (work c'))" "tid \<notin> h_track ` set (host_items (work c'))"
      by (auto simp: w deactivate_rows_def)
    show "filter (\<lambda>q. q_track q \<noteq> tid) (queue_items (work c')) =
        filter (\<lambda>q. q_track q \<noteq> tid) (queue_items (work c))"
      unfolding w by (simp add: deactivate_rows_def others)
  qed (rule dur)+
qed

text \<open>
  Deactivation resets the current item of a station that falls back to the track without
  recording a transition, so the transition log no longer explains the current item.
\<close>

theorem deactivate_skips_the_log:
  "\<exists>c :: conn. chain_ok 1 (work c) \<and> \<not> chain_ok 1 (work (snd (deactivate 0 7 c)))"
proof -
  let ?c = "open_conn (empty_db\<lparr>stations := [(1, ''fm'')], tracks := [fresh_track 7],
      playout_states := [(1, (''library_fallback'', Some 7))],
      transitions := [log_row 1 none_playout (''library_fallback'', Some 7) []]\<rparr>)"
  have "chain_ok 1 (work ?c)"
    by (simp add: chain_ok_def get_current_def or_none_def)
  moreover have "transitions (work (snd (deactivate 0 7 ?c))) = transitions (work ?c)"
    "get_current 1 (work (snd (deactivate 0 7 ?c))) = none_playout"
    by (simp_all add: deactivate_def track_get_def fresh_track_def deactivate_rows_def falls_back_to_def
        get_current_def none_playout_def or_none_def Let_def)
  then have "\<not> chain_ok 1 (work (snd (deactivate 0 7 ?c)))"
    by (simp add: chain_ok_def none_playout_def)
  ultimately show ?thesis by blast
qed

theorem deactivated_is_unused_witness:
  "\<exists>r c'. deactivate 0 12 (open_conn (empty_db\<lparr>tracks := [fresh_track 12], queue_items := sample_rows\<rparr>)) = (Inr r, c') \<and>
     q_status (queue_items (work c') ! 1) = Failed \<and> \<not> on_air (q_status (queue_items (work c') ! 1))"
proof -
  let ?c = "open_conn (empty_db\<lparr>tracks := [fresh_track 12], queue_items := sample_rows\<rparr>)"
  obtain r c' where run: "deactivate 0 12 ?c = (Inr r, c')" "da_deleted r"
      "work c' = deactivate_rows 0 12 (work ?c)"
    by (simp add: deactivate_def track_get_def fresh_track_def Let_def)
  have row: "queue_items (work c') ! 1 \<in> set (queue_items (work c'))" "q_track (queue_items (work c') ! 1) = 12"
    "q_status (queue_items (work c') ! 1) = Failed"
    by (simp_all add: run(3) deactivate_rows_def sample_rows_def sample_row_def on_air_def)
  from deactivated_is_unused [OF run(1,2)] row(1,2) have "\<not> on_air (q_status (queue_items (work c') ! 1))"
    by blast
  with run(1) row(3) show ?thesis by blast
qed

end
