(* ===== verification/Py_Time.thy ===== *)
theory Py_Time
  imports Py_Text
begin

text \<open>
  UTC times as texts, for the settings and keys that hold them. A time is a number of seconds
  since the epoch. \<open>parse_iso\<close> reads the extended ISO 8601 format of \<open>datetime.fromisoformat\<close>; its
  basic and week-date formats, which the application never writes, are not read.
\<close>

section \<open>The proleptic Gregorian calendar\<close>

definition civil_date :: "int \<Rightarrow> int \<times> int \<times> int" where
  "civil_date day =
     (let z = day + 719468; era = z div 146097; doe = z mod 146097;
          yoe = (doe - doe div 1460 + doe div 36524 - doe div 146096) div 365;
          doy = doe - (365 * yoe + yoe div 4 - yoe div 100);
          mp = (5 * doy + 2) div 153; d = doy - (153 * mp + 2) div 5 + 1;
          m = (if mp < 10 then mp + 3 else mp - 9)
      in (yoe + era * 400 + (if m \<le> 2 then 1 else 0), m, d))"

definition days_from_civil :: "int \<Rightarrow> int \<Rightarrow> int \<Rightarrow> int" where
  "days_from_civil y m d =
     (let y' = (if m \<le> 2 then y - 1 else y); era = y' div 400; yoe = y' mod 400;
          doy = (153 * (m + (if 2 < m then - 3 else 9)) + 2) div 5 + d - 1;
          doe = yoe * 365 + yoe div 4 - yoe div 100 + doy
      in era * 146097 + doe - 719468)"

definition two_digits :: "int \<Rightarrow> string" where
  "two_digits n = (if n < 10 then CHR ''0'' # int_str n else int_str n)"

definition time_fields :: "rat \<Rightarrow> int \<times> int \<times> int \<times> int \<times> int \<times> int" where
  "time_fields t =
     (let secs = \<lfloor>t\<rfloor>; rest = secs mod 86400; (y, m, d) = civil_date (secs div 86400)
      in (y, m, d, rest div 3600, rest mod 3600 div 60, rest mod 60))"

text \<open>\<open>%Y%m%d%H%M\<close> and \<open>isoformat(timespec='seconds')\<close>.\<close>

definition minute_bucket :: "rat \<Rightarrow> string" where
  "minute_bucket t = (case time_fields t of (y, m, d, hh, mm, ss) \<Rightarrow>
     int_str y @ two_digits m @ two_digits d @ two_digits hh @ two_digits mm)"

definition iso_text :: "rat \<Rightarrow> string" where
  "iso_text t = (case time_fields t of (y, m, d, hh, mm, ss) \<Rightarrow>
     int_str y @ ''-'' @ two_digits m @ ''-'' @ two_digits d @ ''T'' @ two_digits hh @ '':'' @
     two_digits mm @ '':'' @ two_digits ss @ ''+00:00'')"

section \<open>Reading\<close>

text \<open>Exactly \<open>n\<close> digits, and the rest.\<close>

definition take_digits :: "nat \<Rightarrow> string \<Rightarrow> (int \<times> string) option" where
  "take_digits n s =
     (if length s < n \<or> \<not> list_all is_digit (take n s) then None
      else Some (int (digits_val (take n s)), drop n s))"

definition days_in_month :: "int \<Rightarrow> int \<Rightarrow> int" where
  "days_in_month y m =
     (if m = 2 then (if y mod 4 = 0 \<and> (y mod 100 \<noteq> 0 \<or> y mod 400 = 0) then 29 else 28)
      else if m \<in> {4, 6, 9, 11} then 30 else 31)"

definition read_date :: "string \<Rightarrow> (int \<times> string) option" where
  "read_date s = (case take_digits 4 s of
     Some (y, c # s1) \<Rightarrow> if c \<noteq> CHR ''-'' then None else (case take_digits 2 s1 of
       Some (m, c' # s2) \<Rightarrow> if c' \<noteq> CHR ''-'' then None else (case take_digits 2 s2 of
         Some (d, s3) \<Rightarrow>
           if 1 \<le> y \<and> 1 \<le> m \<and> m \<le> 12 \<and> 1 \<le> d \<and> d \<le> days_in_month y m
           then Some (days_from_civil y m d, s3) else None
       | None \<Rightarrow> None)
     | _ \<Rightarrow> None)
   | _ \<Rightarrow> None)"

text \<open>\<open>:dd\<close> when it follows, zero otherwise.\<close>

definition read_part :: "string \<Rightarrow> (int \<times> string) option" where
  "read_part s = (case s of
     [] \<Rightarrow> Some (0, [])
   | c # r \<Rightarrow> if c = CHR '':'' then take_digits 2 r else Some (0, s))"

definition read_clock :: "string \<Rightarrow> (rat \<times> string) option" where
  "read_clock s = (case take_digits 2 s of
     None \<Rightarrow> None
   | Some (hh, s1) \<Rightarrow> (case read_part s1 of
       None \<Rightarrow> None
     | Some (mm, s2) \<Rightarrow> (case read_part s2 of
         None \<Rightarrow> None
       | Some (ss, s3) \<Rightarrow>
           (let (frac, s4) = (case s3 of
                  c # r \<Rightarrow> if c = CHR ''.'' \<or> c = CHR '',''
                          then (takeWhile is_digit r, dropWhile is_digit r) else ([], s3)
                | [] \<Rightarrow> ([], []))
            in if hh \<le> 23 \<and> mm \<le> 59 \<and> ss \<le> 59
               then Some (of_int (hh * 3600 + mm * 60 + ss) +
                          of_nat (digits_val (take 6 frac)) / 10 ^ length (take 6 frac), s4)
               else None))))"

definition read_offset :: "string \<Rightarrow> rat option" where
  "read_offset s = (case s of
     [] \<Rightarrow> Some 0
   | c # r \<Rightarrow>
       if c = CHR ''Z'' \<and> r = [] then Some 0
       else if c = CHR ''+'' \<or> c = CHR ''-'' then (case read_clock r of
         Some (q, []) \<Rightarrow> Some (if c = CHR ''+'' then q else - q)
       | _ \<Rightarrow> None)
       else None)"

text \<open>A text without an offset is UTC, as the callers treat it.\<close>

definition parse_iso :: "string \<Rightarrow> rat option" where
  "parse_iso s = (case read_date s of
     None \<Rightarrow> None
   | Some (day, rest) \<Rightarrow> (case rest of
       [] \<Rightarrow> Some (of_int day * 86400)
     | _ # r \<Rightarrow> (case read_clock r of
         None \<Rightarrow> None
       | Some (q, r') \<Rightarrow> (case read_offset r' of
           None \<Rightarrow> None | Some off \<Rightarrow> Some (of_int day * 86400 + q - off)))))"

lemma parse_iso_sample: "parse_iso (iso_text 1700000000) = Some 1700000000"
  by code_simp

end
