(* ===== verification/Worker_Base.thy ===== *)
theory Worker_Base
  imports Track_Repo Autofill_Props Py_Time
begin

text \<open>
  The station worker (\<open>engine/station_worker.py\<close>), first part: its state and surroundings, the
  runtime's status, starting and completing items. The playout runtime, the file system and the
  AI host are parameters: arbitrary functions of \<open>env\<close>. One clock reading serves a whole tick.
  Broadcasts and log lines, which never change a row and never raise, and display titles are left
  out.
\<close>

section \<open>State and surroundings\<close>

text \<open>What \<open>runtime_registry.status\<close> reports of a station, as far as the worker reads it.\<close>

record rt_status =
  branch_health :: "(string \<times> bool) list option"
  required_outputs :: "(string \<times> bool) list option"
  program_running :: "bool option"
  running :: bool
  active_input_uri :: string

record start_request =
  sr_uri :: string
  sr_type :: string
  sr_crossfade :: "rat option"
  sr_offset :: rat

text \<open>A crossfade of \<open>None\<close> is an infinite one (the setting \<open>inf\<close>).\<close>

record announcement =
  an_path :: string
  an_title :: string
  an_artist :: string
  an_duration :: rat

text \<open>
  \<open>rt_start\<close> answers \<open>None\<close>, or the text of the exception it raises; \<open>ai_ready\<close> is the AI host:
  absent, without a load status, or with its \<open>llm_loaded\<close> flag. \<open>ai_prefetched\<close> looks an announcement up in
  the cache by dedupe key and speech provider, \<open>ai_inline\<close> generates one (\<open>None\<close> when that raises).
\<close>

datatype ai_host = NoHost | NoLoadStatus | LoadStatus bool

record 'r env =
  station :: int
  worker :: string
  wall :: rat
  mono :: rat
  has_registry :: bool
  fallback_uri :: string
  files :: file_env
  rt_start :: "start_request \<Rightarrow> 'r \<Rightarrow> string option \<times> 'r"
  rt_state :: "'r \<Rightarrow> rt_status"
  rt_process_running :: "'r \<Rightarrow> bool"
  rt_outputs_healthy :: "'r \<Rightarrow> bool"
  rt_recover :: "'r \<Rightarrow> string option \<times> 'r"
  ai_ready :: ai_host
  path_exists :: "string \<Rightarrow> bool"
  ai_prefetched :: "string \<Rightarrow> string \<Rightarrow> announcement option"
  ai_inline :: "string \<Rightarrow> announcement option"

text \<open>
  The worker's connection, the runtime, and the two module-level tables: restart suppression by
  source and item, and when a show notification was last sent.
\<close>

record suppression =
  attempts :: nat
  next_allowed :: rat

record 'r wstate =
  wconn :: conn
  rt :: 'r
  suppressed :: "string \<times> int \<Rightarrow> suppression option"
  notified :: "string \<times> int \<Rightarrow> rat option"

type_synonym ('r, 'a) wprog = "('r wstate, 'a) prog"

definition wdb :: "'r wstate \<Rightarrow> db" where
  "wdb s = work (wconn s)"

definition on_conn :: "(conn, 'a) prog \<Rightarrow> ('r, 'a) wprog" where
  "on_conn m s = (case m (wconn s) of (r, c) \<Rightarrow> (r, s\<lparr>wconn := c\<rparr>))"

definition viewp :: "(db \<Rightarrow> 'a) \<Rightarrow> ('r, 'a) wprog" where
  "viewp g = readp (\<lambda>s. g (wdb s))"

record tick_result =
  r_source :: string
  r_reason :: "string option"
  r_uri :: "string option"
  r_item :: "int option"

definition result :: "string \<Rightarrow> string option \<Rightarrow> tick_result" where
  "result source reason = \<lparr>r_source = source, r_reason = reason, r_uri = None, r_item = None\<rparr>"

section \<open>The runtime's status\<close>

definition runtime_playback_alive :: "rt_status \<Rightarrow> bool" where
  "runtime_playback_alive x =
     (let healthy = (case branch_health x of
            None \<Rightarrow> False
          | Some health \<Rightarrow>
              (case required_outputs x of
                 Some outs \<Rightarrow>
                   (\<exists>b \<in> set outs. snd b \<and> (case map_of health (fst b) of None \<Rightarrow> False | Some v \<Rightarrow> v))
               | None \<Rightarrow> \<exists>b \<in> set health. snd b))
      in healthy \<or> (case program_running x of Some b \<Rightarrow> b | None \<Rightarrow> running x))"

text \<open>Percent escapes of ASCII characters; the text model has no others.\<close>

definition hex_value :: "char \<Rightarrow> nat option" where
  "hex_value c =
     (let d = lower_char c; n = (of_char d :: nat) in
      if is_digit c then Some (digit_val c)
      else if 97 \<le> n \<and> n \<le> 102 then Some (n - 87) else None)"

fun unquote :: "string \<Rightarrow> string" where
  "unquote (p # a # b # s) =
     (if p = CHR ''%'' then
        (case (hex_value a, hex_value b) of
           (Some x, Some y) \<Rightarrow> if 16 * x + y < 128 then char_of (16 * x + y) # unquote s
                               else p # unquote (a # b # s)
         | _ \<Rightarrow> p # unquote (a # b # s))
      else p # unquote (a # b # s))"
| "unquote s = s"

definition rstrip_slash :: "string \<Rightarrow> string" where
  "rstrip_slash s = rev (dropWhile (\<lambda>c. c = CHR ''/'') (rev s))"

definition normalized_uri :: "string \<Rightarrow> string" where
  "normalized_uri v =
     (let text = map (\<lambda>c. if c = char_of (92 :: nat) then CHR ''/'' else c) (strip v);
          plain = (if take 8 (lower text) = ''file:///'' then unquote (drop 8 text) else text)
      in lower (rstrip_slash plain))"

definition same_runtime_uri :: "string \<Rightarrow> string \<Rightarrow> bool" where
  "same_runtime_uri l r \<longleftrightarrow> normalized_uri l \<noteq> [] \<and> normalized_uri l = normalized_uri r"

definition runtime_playback_matches :: "rt_status \<Rightarrow> string \<Rightarrow> bool" where
  "runtime_playback_matches x expected \<longleftrightarrow>
     runtime_playback_alive x \<and> program_running x \<noteq> Some False \<and>
     (strip (active_input_uri x) = [] \<or> same_runtime_uri (strip (active_input_uri x)) expected)"

section \<open>Settings the worker reads\<close>

text \<open>\<open>max(0.0, float(raw or 0.0))\<close>, zero for text that is no number and for \<open>nan\<close>.\<close>

definition default_crossfade_seconds :: "db \<Rightarrow> rat option" where
  "default_crossfade_seconds d =
     (case py_float (setting (get_system d) ''default_crossfade_seconds'' []) of
        Some (Finite q) \<Rightarrow> Some (max 0 q)
      | Some PosInf \<Rightarrow> None
      | _ \<Rightarrow> Some 0)"

definition int_setting :: "string \<Rightarrow> int \<Rightarrow> int \<Rightarrow> int \<Rightarrow> exn + int" where
  "int_setting raw dflt lo hi = (case int_float_or raw dflt of
     Inl e \<Rightarrow> Inl e | Inr n \<Rightarrow> Inr (max lo (min hi n)))"

definition ads_enabled :: "int \<Rightarrow> db \<Rightarrow> bool" where
  "ads_enabled st d = station_ads_enabled st d"

section \<open>Tracks and the playout state\<close>

text \<open>The URI and the type of a track; the empty URI when it is unknown or has no file.\<close>

definition track_runtime_fields :: "'r env \<Rightarrow> int \<Rightarrow> db \<Rightarrow> string \<times> string" where
  "track_runtime_fields v tid d = (case track_of tid d of
     None \<Rightarrow> ([], ''music'')
   | Some t \<Rightarrow> (resolve_path (files v) (t_path t),
       (let k = lower (strip (or_music (t_type t))) in or_music k)))"

definition set_playout :: "'r env \<Rightarrow> string \<Rightarrow> int option \<Rightarrow> string \<Rightarrow> ('r, unit) wprog" where
  "set_playout v source item reason = on_conn (set_current (station v) source item reason)"

definition start_station :: "'r env \<Rightarrow> start_request \<Rightarrow> ('r, unit) wprog" where
  "start_station v req s =
     (if \<not> has_registry v then (Inr (), s)
      else (case rt_start v req (rt s) of
          (None, r) \<Rightarrow> (Inr (), s\<lparr>rt := r\<rparr>)
        | (Some text, r) \<Rightarrow> (Inl (RuntimeError text), s\<lparr>rt := r\<rparr>)))"

definition exn_text :: "exn \<Rightarrow> string" where
  "exn_text e = (case e of RuntimeError t \<Rightarrow> t | ValueError t \<Rightarrow> t | AttributeError t \<Rightarrow> t | _ \<Rightarrow> [])"

definition transient_markers :: "string list" where
  "transient_markers = [''error number -10054'', ''error number -10053'', ''remote end closed'',
     ''error submitting a packet to the muxer'', ''error muxing a packet'']"

definition is_transient_output_failure :: "exn \<Rightarrow> bool" where
  "is_transient_output_failure e \<longleftrightarrow>
     (let text = lower (strip (exn_text e)) in
      contains_text ''icecast source failed during startup'' text \<and>
      (\<exists>m \<in> set transient_markers. contains_text m text))"

definition restore_managed_item_pending :: "string \<Rightarrow> int \<Rightarrow> (conn, unit) prog" where
  "restore_managed_item_pending source i =
     (if lower (strip source) = ''manual'' then
        bindp (queue_dml (update_where (\<lambda>r. q_id r = i) requeue_row)) (\<lambda>_. updp commit)
      else if lower (strip source) = ''ads'' then
        updp (\<lambda>c. commit (dml (ads_update (update_where (\<lambda>r. ad_id r = i) (\<lambda>r. r\<lparr>ad_status := Pending\<rparr>))) c))
      else if lower (strip source) = ''schedule'' then
        updp (\<lambda>c. commit (dml (schedules_update (sched_set_status Pending i)) c))
      else ret ())"

section \<open>Playing an item\<close>

text \<open>The kinds of item with their repository's marks.\<close>

datatype kind = Manual | Ads | Schedule

fun kind_text :: "kind \<Rightarrow> string" where
  "kind_text Manual = ''manual''"
| "kind_text Ads = ''ads''"
| "kind_text Schedule = ''schedule''"

fun kind_mark :: "kind \<Rightarrow> item_status \<Rightarrow> rat \<Rightarrow> int \<Rightarrow> (conn, unit) prog" where
  "kind_mark Manual s now i = (if s = Playing then mark_playing now i
     else if s = Done then mark_done now i else mark_failed now i)"
| "kind_mark Ads s now i = ad_mark s now i"
| "kind_mark Schedule s now i = sched_mark s i"

definition play_managed_item :: "'r env \<Rightarrow> kind \<Rightarrow> int \<Rightarrow> int \<Rightarrow> bool \<Rightarrow> ('r, tick_result) wprog" where
  "play_managed_item v k item track auto_done =
     (let src = kind_text k; mark = (\<lambda>s. on_conn (kind_mark k s (wall v) item)) in
      bindp (mark Playing) (\<lambda>_.
      bindp (set_playout v src (Some item) (src @ ''_start'')) (\<lambda>_.
      bindp (viewp (track_runtime_fields v track)) (\<lambda>(uri, kind).
        if uri = [] then
          bindp (mark Failed) (\<lambda>_.
          bindp (set_playout v ''none'' None (src @ ''_track_missing'')) (\<lambda>_.
          ret (result src (Some ''track_missing''))))
        else
          catchp
            (bindp (viewp default_crossfade_seconds) (\<lambda>fade.
             bindp (start_station v \<lparr>sr_uri = uri, sr_type = kind, sr_crossfade = fade, sr_offset = 0\<rparr>) (\<lambda>_.
             bindp (if auto_done
                    then bindp (mark Done) (\<lambda>_. set_playout v ''none'' None (src @ ''_auto_done''))
                    else ret ()) (\<lambda>_.
             ret ((result src None)\<lparr>r_uri := Some uri, r_item := Some item\<rparr>)))))
            (\<lambda>e. if is_transient_output_failure e
                 then bindp (on_conn (restore_managed_item_pending src item)) (\<lambda>_.
                      bindp (set_playout v ''none'' None (src @ ''_output_retry'')) (\<lambda>_. raise_exn e))
                 else bindp (mark Failed) (\<lambda>_.
                      bindp (set_playout v ''none'' None (src @ ''_failed'')) (\<lambda>_. raise_exn e)))))))"

definition complete_queue_item :: "'r env \<Rightarrow> queue_row \<Rightarrow> ('r, unit) wprog" where
  "complete_queue_item v r =
     bindp (on_conn (mark_done (wall v) (q_id r))) (\<lambda>_.
     bindp (set_playout v ''none'' None ''queue_track_complete'') (\<lambda>_.
       if 0 < q_track r then on_conn (mark_played (wall v) (q_track r)) else ret ()))"

definition finish_playing_queue_item :: "'r env \<Rightarrow> ('r, unit) wprog" where
  "finish_playing_queue_item v =
     bindp (viewp (current_playing (station v))) (\<lambda>p.
       case p of None \<Rightarrow> ret () | Some r \<Rightarrow> complete_queue_item v r)"

definition play_host_track :: "'r env \<Rightarrow> int \<Rightarrow> int \<Rightarrow> ('r, tick_result) wprog" where
  "play_host_track v item track =
     bindp (finish_playing_queue_item v) (\<lambda>_.
     bindp (set_playout v ''host'' (Some item) ''host_start'') (\<lambda>_.
     bindp (viewp (track_runtime_fields v track)) (\<lambda>(uri, kind).
       if uri = [] then
         bindp (on_conn (pop_item item)) (\<lambda>_.
         bindp (set_playout v ''none'' None ''host_track_missing'') (\<lambda>_.
         ret (result ''host'' (Some ''track_missing''))))
       else
         bindp (viewp default_crossfade_seconds) (\<lambda>fade.
         bindp (start_station v \<lparr>sr_uri = uri, sr_type = kind, sr_crossfade = fade, sr_offset = 0\<rparr>) (\<lambda>_.
         ret ((result ''host'' None)\<lparr>r_uri := Some uri\<rparr>))))))"

definition runtime_status :: "'r env \<Rightarrow> ('r, rt_status) wprog" where
  "runtime_status v = readp (\<lambda>s. rt_state v (rt s))"

definition advance_host_track :: "'r env \<Rightarrow> ('r, bool) wprog" where
  "advance_host_track v =
     bindp (viewp (get_current (station v))) (\<lambda>(source, item).
       case item of
         None \<Rightarrow> ret False
       | Some i \<Rightarrow>
           if source \<noteq> ''host'' then ret False
           else bindp (runtime_status v) (\<lambda>x.
             if has_registry v \<and> runtime_playback_alive x then ret False
             else bindp (on_conn (pop_item i)) (\<lambda>_.
                  bindp (set_playout v ''none'' None ''host_track_complete'') (\<lambda>_. ret True))))"

section \<open>Restart suppression\<close>

definition max_restart_attempts :: nat where
  "max_restart_attempts = 3"

definition restart_cooldown :: rat where
  "restart_cooldown = 180"

definition restart_attempt_allowed :: "'r env \<Rightarrow> string \<Rightarrow> int \<Rightarrow> ('r, bool \<times> string) wprog" where
  "restart_attempt_allowed v source item s =
     (let now = mono v; key = (source, item);
          grant = (\<lambda>n. s\<lparr>suppressed := (suppressed s)(key := Some \<lparr>attempts = n, next_allowed = now + restart_cooldown\<rparr>)\<rparr>) in
      case suppressed s key of
        None \<Rightarrow> (Inr (True, []), grant 1)
      | Some x \<Rightarrow>
          if max_restart_attempts \<le> attempts x then (Inr (False, ''restart_limit_reached''), s)
          else if now < next_allowed x then (Inr (False, ''restart_cooldown_active''), s)
          else (Inr (True, []), grant (attempts x + 1)))"

end
