(* ===== verification/Worker_Items.thy ===== *)
theory Worker_Items
  imports Worker_Base
begin

text \<open>
  The station worker, second part: the ad pipeline and the advance of the playing queue item.
\<close>

section \<open>Ad policy\<close>

definition fail_ad_policy_violation :: "'r env \<Rightarrow> ad_row \<Rightarrow> ('r, unit) wprog" where
  "fail_ad_policy_violation v r =
     (if ad_id r \<le> 0 then ret ()
      else bindp (on_conn (ad_mark Failed (wall v) (ad_id r))) (\<lambda>_.
        if ad_status r = Playing then set_playout v ''none'' None ''ads_disabled_for_station'' else ret ()))"

fun fail_each_ad :: "'r env \<Rightarrow> ad_row list \<Rightarrow> int list \<Rightarrow> nat \<Rightarrow> ('r, nat) wprog" where
  "fail_each_ad v [] seen n = ret n"
| "fail_each_ad v (r # rs) seen n =
     (if ad_id r \<le> 0 \<or> ad_id r \<in> set seen then fail_each_ad v rs seen n
      else bindp (fail_ad_policy_violation v r) (\<lambda>_. fail_each_ad v rs (ad_id r # seen) (Suc n)))"

definition fail_disabled_active_ads :: "'r env \<Rightarrow> ('r, nat) wprog" where
  "fail_disabled_active_ads v =
     bindp (viewp (\<lambda>d. (ads_enabled (station v) d, ad_list_active (station v) 100 d))) (\<lambda>(on, rows).
       if on then ret 0 else fail_each_ad v rows [] 0)"

definition next_due_ad_if_allowed :: "'r env \<Rightarrow> ('r, ad_row option) wprog" where
  "next_due_ad_if_allowed v =
     bindp (viewp (ads_enabled (station v))) (\<lambda>on.
       if \<not> on then bindp (fail_disabled_active_ads v) (\<lambda>_. ret None)
       else viewp (ad_next_due (station v) (wall v)))"

text \<open>
  The class has no method of this name: calling it raises \<open>AttributeError\<close>.
\<close>

definition start_continuity_fallback :: "('r, 'a) wprog" where
  "start_continuity_fallback = raise_exn (AttributeError ''_start_continuity_fallback'')"

section \<open>The playing ad\<close>

definition ad_duration :: "db \<Rightarrow> ad_row \<Rightarrow> rat" where
  "ad_duration d r = (case track_of (ad_track r) d of None \<Rightarrow> 0 | Some t \<Rightarrow> t_duration t)"

definition restart_playing_ad_item_if_mismatched :: "'r env \<Rightarrow> ad_row \<Rightarrow> ('r, bool) wprog" where
  "restart_playing_ad_item_if_mismatched v r =
     (if \<not> has_registry v then ret False
      else bindp (viewp (\<lambda>d. (ads_enabled (station v) d, track_runtime_fields v (ad_track r) d)))
        (\<lambda>(on, (uri, kind)).
         let fail = (\<lambda>why. bindp (on_conn (ad_mark Failed (wall v) (ad_id r))) (\<lambda>_.
                      bindp (set_playout v ''none'' None why) (\<lambda>_. start_continuity_fallback)))
         in if \<not> on then bindp (fail_ad_policy_violation v r) (\<lambda>_. start_continuity_fallback)
            else bindp (runtime_status v) (\<lambda>x.
              if uri \<noteq> [] \<and> runtime_playback_matches x uri then ret False
              else bindp (restart_attempt_allowed v ''ads'' (ad_id r)) (\<lambda>(allowed, why).
                if \<not> allowed then fail (''ad_'' @ why)
                else if uri = [] then fail ''ad_track_missing''
                else catchp
                  (bindp (start_station v \<lparr>sr_uri = uri, sr_type = kind, sr_crossfade = Some 0, sr_offset = 0\<rparr>) (\<lambda>_.
                   bindp (on_conn (ad_mark Playing (wall v) (ad_id r))) (\<lambda>_.
                   bindp (set_playout v ''ads'' (Some (ad_id r)) ''ad_runtime_recovered'') (\<lambda>_. ret True))))
                  (\<lambda>_. fail ''ad_runtime_recovery_failed'')))))"

definition finish_ad :: "'r env \<Rightarrow> ad_row \<Rightarrow> ('r, bool) wprog" where
  "finish_ad v r =
     bindp (on_conn (ad_mark Done (wall v) (ad_id r))) (\<lambda>_.
     bindp (if 0 < ad_track r then on_conn (mark_played (wall v) (ad_track r)) else ret ()) (\<lambda>_.
     bindp (set_playout v ''none'' None ''ad_complete'') (\<lambda>_. ret True)))"

definition advance_playing_ad_item :: "'r env \<Rightarrow> ('r, bool) wprog" where
  "advance_playing_ad_item v =
     bindp (viewp (\<lambda>d. (ad_current_playing (station v) d, ads_enabled (station v) d))) (\<lambda>(p, on).
       case p of
         None \<Rightarrow> ret False
       | Some r \<Rightarrow>
           if \<not> on then bindp (fail_ad_policy_violation v r) (\<lambda>_. start_continuity_fallback)
           else (case ad_started r of
               NullStamp \<Rightarrow> ret False
             | Garbled \<Rightarrow> ret False
             | At t \<Rightarrow>
                 bindp (viewp (\<lambda>d. ad_duration d r)) (\<lambda>duration.
                 bindp (runtime_status v) (\<lambda>x.
                   let played = wall v - t in
                   if 0 < duration \<and> played < duration then
                     (if 2 \<le> played
                      then bindp (restart_playing_ad_item_if_mismatched v r) (\<lambda>_. ret False)
                      else ret False)
                   else if duration \<le> 0 \<and> played < 90 \<and> has_registry v \<and> runtime_playback_alive x
                   then ret False
                   else finish_ad v r))))"

section \<open>Hourly ad breaks\<close>

fun split_commas :: "string \<Rightarrow> string list" where
  "split_commas [] = [[]]"
| "split_commas (c # cs) =
     (if c = CHR '','' then [] # split_commas cs
      else (case split_commas cs of [] \<Rightarrow> [[c]] | w # ws \<Rightarrow> (c # w) # ws))"

fun collect_ids :: "string list \<Rightarrow> int list \<Rightarrow> int list" where
  "collect_ids [] acc = acc"
| "collect_ids (w # ws) acc = (case py_int w of
     None \<Rightarrow> collect_ids ws acc
   | Some n \<Rightarrow> collect_ids ws (if 0 < n \<and> n \<notin> set acc then acc @ [n] else acc))"

definition parse_id_list :: "string \<Rightarrow> int list" where
  "parse_id_list raw =
     collect_ids (split_commas (map (\<lambda>c. if c = CHR '';'' then CHR '','' else c) raw)) []"

definition get_hourly_ad_settings :: "int \<Rightarrow> db \<Rightarrow> exn + (bool \<times> int \<times> int list)" where
  "get_hourly_ad_settings st d =
     (let s = get_station st d in
      case int_float_or (setting s ''hourly_ad_interval_minutes'' ''60'') 60 of
        Inl e \<Rightarrow> Inl e
      | Inr n \<Rightarrow> Inr (ads_enabled_from_settings s, max 1 n,
                    parse_id_list (setting s ''hourly_ad_track_ids'' [])))"

fun enqueue_ads :: "int \<Rightarrow> rat \<Rightarrow> string \<Rightarrow> int \<Rightarrow> int list \<Rightarrow> (conn, unit) prog" where
  "enqueue_ads st due bucket n [] = ret ()"
| "enqueue_ads st due bucket n (t # ts) =
     bindp (ad_enqueue st t (Some (current_timestamp due)) (- n)
              (Some (''hourly:'' @ int_str st @ '':'' @ bucket @ '':'' @ int_str t)))
       (\<lambda>_. enqueue_ads st due bucket (n + 1) ts)"

definition ensure_hourly_ad_break :: "'r env \<Rightarrow> ('r, nat) wprog" where
  "ensure_hourly_ad_break v =
     bindp (viewp (\<lambda>d. (get_hourly_ad_settings (station v) d, ad_list_active (station v) 1 d))) (\<lambda>(cfg, active).
       case cfg of
         Inl e \<Rightarrow> raise_exn e
       | Inr (enabled, interval, ids) \<Rightarrow>
           if \<not> enabled \<or> active \<noteq> [] \<or> ids = [] then ret 0
           else (let due = wall v + 60 * of_int interval in
                 bindp (on_conn (enqueue_ads (station v) due (minute_bucket due) 0 ids))
                   (\<lambda>_. ret (length ids))))"

section \<open>The playing queue item\<close>

definition restart_playing_queue_item_if_mismatched ::
  "'r env \<Rightarrow> queue_row \<Rightarrow> rat \<Rightarrow> ('r, bool) wprog" where
  "restart_playing_queue_item_if_mismatched v r offset =
     (if \<not> has_registry v then ret False
      else bindp (viewp (track_runtime_fields v (q_track r))) (\<lambda>(uri, kind).
        let fail = (\<lambda>why. bindp (on_conn (mark_failed (wall v) (q_id r))) (\<lambda>_.
                     bindp (set_playout v ''none'' None why) (\<lambda>_. ret True)))
        in if uri = [] then fail ''manual_track_missing''
           else bindp (runtime_status v) (\<lambda>x.
             if runtime_playback_matches x uri then ret False
             else bindp (restart_attempt_allowed v ''manual'' (q_id r)) (\<lambda>(allowed, why).
               if \<not> allowed then fail (''manual_'' @ why)
               else catchp
                 (bindp (start_station v \<lparr>sr_uri = uri, sr_type = kind, sr_crossfade = Some 0,
                           sr_offset = max 0 offset\<rparr>) (\<lambda>_.
                  bindp (set_playout v ''manual'' (Some (q_id r)) ''manual_runtime_recovered'') (\<lambda>_. ret True)))
                 (\<lambda>_. fail ''manual_runtime_recovery_failed'')))))"

definition play_type :: "db \<Rightarrow> queue_row \<Rightarrow> string" where
  "play_type d r = lower (strip (or_music (row_track_type d r)))"

text \<open>The overlap with the next item: only between two music tracks.\<close>

definition next_type :: "int \<Rightarrow> db \<Rightarrow> queue_row \<Rightarrow> string" where
  "next_type st d r =
     (if play_type d r = ''music''
      then (case next_pending st d of None \<Rightarrow> [] | Some p \<Rightarrow> play_type d p)
      else [])"

definition overlap :: "int \<Rightarrow> db \<Rightarrow> queue_row \<Rightarrow> rat option" where
  "overlap st d r = (if next_type st d r = ''music'' then default_crossfade_seconds d else Some 0)"

definition advance_at :: "int \<Rightarrow> db \<Rightarrow> queue_row \<Rightarrow> rat" where
  "advance_at st d r = (case overlap st d r of
     None \<Rightarrow> 0 | Some fade \<Rightarrow> max 0 (row_duration d r - fade))"

definition max_play_seconds :: "db \<Rightarrow> queue_row \<Rightarrow> rat" where
  "max_play_seconds d r =
     (let duration = row_duration d r; guard = duration * (3 / 2) + 60 in
      if 0 < duration then
        (if play_type d r \<in> {''announcement'', ''podcast'', ''spoken_word''} then guard else min guard 1800)
      else 1800)"

definition resume_offset :: "rat \<Rightarrow> rat \<Rightarrow> rat" where
  "resume_offset played duration = min (max 0 played) (max 0 (duration - 1 / 4))"

definition complete_true :: "'r env \<Rightarrow> queue_row \<Rightarrow> ('r, bool) wprog" where
  "complete_true v r = bindp (complete_queue_item v r) (\<lambda>_. ret True)"

text \<open>The branches after the mismatch check, in their order.\<close>

definition advance_by_time :: "'r env \<Rightarrow> queue_row \<Rightarrow> rat \<Rightarrow> ('r, bool) wprog" where
  "advance_by_time v r played =
     bindp (readp (\<lambda>s. (wdb s, rt_state v (rt s)))) (\<lambda>(d, x).
       let duration = row_duration d r; uri = fst (track_runtime_fields v (q_track r) d);
           fade_due = (play_type d r = ''music'' \<and> next_type (station v) d r = ''music'' \<and>
                       overlap (station v) d r \<noteq> Some 0)
       in if max_play_seconds d r \<le> played then complete_true v r
          else if duration \<le> 0 then
            (if has_registry v \<and> \<not> runtime_playback_alive x then complete_true v r else ret False)
          else if advance_at (station v) d r \<le> played then
            (if has_registry v \<and> \<not> fade_due \<and> runtime_playback_alive x \<and> uri \<noteq> [] \<and>
                runtime_playback_matches x uri
             then ret False else complete_true v r)
          else if has_registry v \<and> \<not> runtime_playback_alive x then
            (if play_type d r = ''jingle'' then complete_true v r
             else bindp (restart_playing_queue_item_if_mismatched v r (resume_offset played duration))
                    (\<lambda>_. ret False))
          else ret False)"

definition advance_playing_queue_item :: "'r env \<Rightarrow> ('r, bool) wprog" where
  "advance_playing_queue_item v =
     bindp (viewp (current_playing (station v))) (\<lambda>p.
       case p of
         None \<Rightarrow> ret False
       | Some r \<Rightarrow>
           (case q_started r of
              NullStamp \<Rightarrow> ret False
            | Garbled \<Rightarrow> ret False
            | At t \<Rightarrow>
                (let played = wall v - t in
                 bindp (readp (\<lambda>s. (wdb s, rt_state v (rt s)))) (\<lambda>(d, x).
                   let uri = fst (track_runtime_fields v (q_track r) d) in
                   if has_registry v \<and> played < advance_at (station v) d r \<and> uri \<noteq> [] \<and>
                      runtime_playback_alive x \<and> \<not> runtime_playback_matches x uri
                   then (if play_type d r = ''jingle'' then complete_true v r
                         else restart_playing_queue_item_if_mismatched v r
                                (resume_offset played (row_duration d r)))
                   else advance_by_time v r played))))"

end
