(* ===== verification/Worker_Fill.thy ===== *)
theory Worker_Fill
  imports Worker_Items "HOL-Library.List_Lexorder" "HOL-Library.Char_ord"
begin

text \<open>
  The station worker, third part: what it puts into the queue (start-up sound, sweeper jingles,
  AI announcements, automatic music) and what it takes out of it (rows of other stations' tracks,
  pending jingles, repetitions of the last track).
\<close>

section \<open>Jingles at the front\<close>

definition first_pending_row :: "int \<Rightarrow> db \<Rightarrow> queue_row option" where
  "first_pending_row st d = next_pending st d"

definition next_pending_is_jingle :: "int \<Rightarrow> db \<Rightarrow> bool" where
  "next_pending_is_jingle st d = (case first_pending_row st d of
     None \<Rightarrow> False | Some r \<Rightarrow> play_type d r = ''jingle'')"

definition pick_random_jingle :: "int \<Rightarrow> db \<Rightarrow> int option" where
  "pick_random_jingle st d =
     map_option t_id (first_of (sort_key rotation_key (filter (jingle_at st) (tracks d))))"

text \<open>\<open>MIN(position)\<close> of the pending rows; no row and position zero count as one.\<close>

definition min_pending_position :: "int \<Rightarrow> db \<Rightarrow> int" where
  "min_pending_position st d = (case filter (pending_at st) (queue_items d) of
     [] \<Rightarrow> 1
   | r # rs \<Rightarrow> (let m = fold min (map q_position rs) (q_position r) in if m = 0 then 1 else m))"

definition front_position :: "int \<Rightarrow> db \<Rightarrow> int" where
  "front_position st d = max 1 (min_pending_position st d - 1)"

definition clear_startup_sound_pending :: "'r env \<Rightarrow> ('r, unit) wprog" where
  "clear_startup_sound_pending v =
     on_conn (upsert_station (station v) [(''_startup_sound_pending'', ''false'')])"

record startup_settings =
  su_enabled :: bool
  su_mode :: string
  su_track :: int

definition get_startup_sound_settings :: "int \<Rightarrow> db \<Rightarrow> exn + startup_settings" where
  "get_startup_sound_settings st d =
     (let s = get_station st d in
      case int_float_or (setting s ''startup_sound_track_id'' ''0'') 0 of
        Inl e \<Rightarrow> Inl e
      | Inr n \<Rightarrow> Inr \<lparr>su_enabled = truthy_text (setting s ''startup_sound_enabled'' ''false''),
                     su_mode = setting_or s ''startup_sound_mode'' ''random'', su_track = n\<rparr>)"

definition is_startup_sound_pending :: "int \<Rightarrow> db \<Rightarrow> bool" where
  "is_startup_sound_pending st d =
     truthy_text (setting (get_station st d) ''_startup_sound_pending'' ''false'')"

definition startup_track :: "int \<Rightarrow> startup_settings \<Rightarrow> db \<Rightarrow> int" where
  "startup_track st cfg d =
     (let specific = (if su_mode cfg = ''specific'' \<and> 0 < su_track cfg \<and>
                         (\<exists>t \<in> set (tracks d). t_id t = su_track cfg \<and> t_active t \<and> t_path t \<noteq> [])
                      then su_track cfg else 0)
      in if 0 < specific then specific
         else (case pick_random_jingle st d of None \<Rightarrow> 0 | Some i \<Rightarrow> i))"

definition maybe_insert_startup_sound :: "'r env \<Rightarrow> ('r, bool) wprog" where
  "maybe_insert_startup_sound v =
     (let st = station v; clear = bindp (clear_startup_sound_pending v) (\<lambda>_. ret False) in
      bindp (viewp id) (\<lambda>d.
        if \<not> is_startup_sound_pending st d then ret False
        else if next_pending_is_jingle st d then clear
        else (case get_startup_sound_settings st d of
            Inl e \<Rightarrow> raise_exn e
          | Inr cfg \<Rightarrow>
              if \<not> su_enabled cfg \<or> startup_track st cfg d \<le> 0 then clear
              else
                (let tid = startup_track st cfg d in
                 on_conn (bindp (insert_or_ignore st tid (front_position st d)
                                   (Some (''startup_sound:'' @ int_str tid))) (\<lambda>n.
                   bindp (updp (dml (put_setting st ''_startup_sound_pending'' ''false''))) (\<lambda>_.
                   bindp (updp commit) (\<lambda>_. ret (0 < n)))))))))"

text \<open>The worker's sweeper settings: those of the autofill and a baseline queue id.\<close>

definition sweeper_baseline :: "int \<Rightarrow> db \<Rightarrow> int" where
  "sweeper_baseline st d =
     (case py_int (setting_or (get_station st d) ''sweeper_baseline_queue_id'' ''0'') of
        None \<Rightarrow> 0 | Some n \<Rightarrow> max 0 n)"

definition music_since_last_jingle :: "int \<Rightarrow> db \<Rightarrow> int" where
  "music_since_last_jingle st d = count_music (map (play_type d) (take 50 (aired_recently st d)))"

fun sum_music :: "(string \<times> rat) list \<Rightarrow> rat" where
  "sum_music [] = 0"
| "sum_music ((t, x) # rest) =
     (if t = ''jingle'' then 0 else (if t = ''music'' then max 0 x else 0) + sum_music rest)"

definition music_seconds_since_last_jingle :: "int \<Rightarrow> int \<Rightarrow> db \<Rightarrow> rat" where
  "music_seconds_since_last_jingle st baseline d =
     sum_music (map (\<lambda>r. (play_type d r, row_duration d r))
       (take 500 (filter (\<lambda>r. max 0 baseline < q_id r) (aired_recently st d))))"

definition remove_pending_jingles :: "'r env \<Rightarrow> ('r, nat) wprog" where
  "remove_pending_jingles v = on_conn (\<lambda>c.
     (let ids = map q_id (filter (pending_jingle (station v) (work c)) (queue_items (work c))) in
      if ids = [] then (Inr 0, c)
      else (Inr (rowcount (\<lambda>r. q_id r \<in> set ids) (queue_items (work c))),
            commit (dml (queue_items_update (delete_where (\<lambda>r. q_id r \<in> set ids))) c))))"

definition sweeper_due :: "int \<Rightarrow> sweeper \<Rightarrow> db \<Rightarrow> bool" where
  "sweeper_due st sw d \<longleftrightarrow>
     (if sw_minutes sw
      then of_int (sw_interval sw) * 60 \<le> music_seconds_since_last_jingle st (sweeper_baseline st d) d
      else sw_interval sw \<le> music_since_last_jingle st d)"

definition maybe_insert_sweeper_jingle :: "'r env \<Rightarrow> ('r, bool) wprog" where
  "maybe_insert_sweeper_jingle v =
     (let st = station v in
      bindp (viewp id) (\<lambda>d. case get_sweeper_settings st d of
        Inl e \<Rightarrow> raise_exn e
      | Inr sw \<Rightarrow>
          if \<not> sw_enabled sw \<or> next_pending_is_jingle st d \<or> \<not> sweeper_due st sw d then ret False
          else (case pick_random_jingle st d of
              None \<Rightarrow> ret False
            | Some j \<Rightarrow>
                on_conn (bindp (insert_or_ignore st j (front_position st d)
                   (Some (''jingle:'' @ int_str j @ '':'' @ int_str (front_position st d)))) (\<lambda>_.
                 bindp (updp commit) (\<lambda>_. ret True))))))"

section \<open>The station boundary\<close>

definition cross_station :: "int \<Rightarrow> db \<Rightarrow> queue_row \<Rightarrow> bool" where
  "cross_station st d r \<longleftrightarrow> active_at st r \<and>
     (\<exists>t \<in> set (tracks d). t_id t = q_track r \<and> t_station t \<noteq> st)"

definition fail_cross_station_queue_items :: "'r env \<Rightarrow> ('r, nat) wprog" where
  "fail_cross_station_queue_items v =
     bindp (viewp (\<lambda>d. map q_id (filter (cross_station (station v) d) (queue_items d)))) (\<lambda>ids.
       if ids = [] then ret 0
       else bindp (on_conn (updp (\<lambda>c. commit (dml (queue_items_update (update_where (\<lambda>r. q_id r \<in> set ids)
              (\<lambda>r. r\<lparr>q_status := Failed, q_finished := Some (current_timestamp (wall v))\<rparr>))) c)))) (\<lambda>_.
         bindp (viewp (get_current (station v))) (\<lambda>(source, item).
           bindp (if source = ''manual'' \<and> (case item of None \<Rightarrow> False | Some i \<Rightarrow> i \<in> set ids)
                  then set_playout v ''none'' None ''manual_cross_station_track_quarantined''
                  else ret ()) (\<lambda>_. ret (length ids)))))"

section \<open>Automatic music\<close>

definition autofill_target_seconds :: rat where
  "autofill_target_seconds = 1800"

definition autofill_min_music_tracks :: int where
  "autofill_min_music_tracks = 12"

definition pending_queue_duration :: "int \<Rightarrow> db \<Rightarrow> rat" where
  "pending_queue_duration st d =
     sum_list (map (row_duration d) (filter (pending_at st) (queue_items d)))"

definition pending_music_count :: "int \<Rightarrow> db \<Rightarrow> int" where
  "pending_music_count st d =
     int (length (filter (\<lambda>r. pending_at st r \<and> row_type d r = ''music'') (queue_items d)))"

definition active_track_ids :: "int \<Rightarrow> db \<Rightarrow> int list" where
  "active_track_ids st d =
     remdups (filter (\<lambda>i. 0 < i) (map q_track (filter (active_at st) (queue_items d))))"

definition recent_track_ids :: "int \<Rightarrow> int \<Rightarrow> db \<Rightarrow> int list" where
  "recent_track_ids st limit d =
     remdups (map q_track (take (nat (max 1 limit))
       (rev (sort_key q_id (filter (\<lambda>r. q_station r = st \<and> 0 < q_track r) (queue_items d))))))"

definition pending_music_since_jingle :: "int \<Rightarrow> db \<Rightarrow> int" where
  "pending_music_since_jingle st d =
     count_music (map (play_type d) (rev (sort_key order_key (filter (pending_at st) (queue_items d)))))"

definition shuffle_seed :: "int \<Rightarrow> db \<Rightarrow> string" where
  "shuffle_seed st d =
     setting_or (get_station st d) ''autoplay_shuffle_seed'' (''radiotedu-onair-station-'' @ int_str st)"

text \<open>Digests compare as their lowercase hexadecimal texts do.\<close>

definition shuffle_rank :: "string \<Rightarrow> track_row \<Rightarrow> string" where
  "shuffle_rank seed t = sha256 (seed @ '':'' @ int_str (t_id t))"

definition least_played_tier :: "int \<Rightarrow> int list \<Rightarrow> db \<Rightarrow> track_row list" where
  "least_played_tier st exclude d =
     (let rows = take 512 (sort_key (\<lambda>t. (t_plays t, t_id t))
            (filter (\<lambda>t. music_at st t \<and> t_id t \<notin> set (blocked_ids exclude)) (tracks d)))
      in case rows of [] \<Rightarrow> [] | r # _ \<Rightarrow> filter (\<lambda>t. t_plays t = t_plays r) rows)"

definition probe_and_store_track_duration :: "'r env \<Rightarrow> int \<Rightarrow> ('r, rat) wprog" where
  "probe_and_store_track_duration v tid =
     bindp (viewp (track_of tid)) (\<lambda>found.
       case found of
         None \<Rightarrow> ret 0
       | Some t \<Rightarrow>
           if 0 < t_duration t then ret (t_duration t)
           else
             (let path = resolve_path (files v) (strip (t_path t));
                  x = probe_seconds (files v) path 5
              in if path = [] \<or> contains_text ''://'' path \<or> \<not> file_exists (files v) path \<or> x \<le> 0
                 then ret 0
                 else bindp (on_conn (updp (\<lambda>c. commit (dml (tracks_update (set_duration tid x)) c))))
                        (\<lambda>_. ret x)))"

definition select_random_music_track :: "'r env \<Rightarrow> int list \<Rightarrow> ('r, (int \<times> rat) option) wprog" where
  "select_random_music_track v exclude =
     bindp (viewp (\<lambda>d. first_of (sort_key (shuffle_rank (shuffle_seed (station v) d))
              (least_played_tier (station v) exclude d)))) (\<lambda>found.
       case found of
         None \<Rightarrow> ret None
       | Some t \<Rightarrow>
           bindp (if t_duration t \<le> 0 then probe_and_store_track_duration v (t_id t) else ret (t_duration t))
             (\<lambda>x. ret (Some (t_id t, x))))"

record fill_state =
  fs_duration :: rat
  fs_count :: int
  fs_pos :: int
  fs_since :: int
  fs_active :: "int list"
  fs_recent :: "int list"
  fs_added :: nat

definition fill_wanted :: "fill_state \<Rightarrow> bool" where
  "fill_wanted a \<longleftrightarrow> fs_duration a < autofill_target_seconds \<or> fs_count a < autofill_min_music_tracks"

text \<open>One music track, retried with only the active tracks excluded; \<open>None\<close> when none is left.\<close>

definition fill_music :: "'r env \<Rightarrow> fill_state \<Rightarrow> ('r, fill_state option) wprog" where
  "fill_music v a =
     bindp (select_random_music_track v (fs_recent a)) (\<lambda>first.
     bindp (if first = None \<and> set (fs_recent a) \<noteq> set (fs_active a)
            then bindp (select_random_music_track v (fs_active a)) (\<lambda>found. ret (found, fs_active a))
            else ret (first, fs_recent a)) (\<lambda>(found, recent).
       case found of
         None \<Rightarrow> ret None
       | Some (tid, x) \<Rightarrow>
           bindp (on_conn (queue_dml (insert_queue_row (station v) tid (fs_pos a)
                    (Some (''music:'' @ int_str tid @ '':'' @ int_str (fs_pos a)))))) (\<lambda>_.
           ret (Some (a\<lparr>fs_recent := tid # recent, fs_active := tid # fs_active a,
             fs_pos := fs_pos a + 1, fs_added := Suc (fs_added a), fs_since := fs_since a + 1,
             fs_count := fs_count a + 1, fs_duration := fs_duration a + x\<rparr>)))))"

text \<open>A jingle when one is due; \<open>Inl\<close> when the index refused it, and the round ends.\<close>

definition fill_jingle :: "'r env \<Rightarrow> sweeper \<Rightarrow> fill_state \<Rightarrow> ('r, fill_state + fill_state) wprog" where
  "fill_jingle v sw a =
     (let st = station v in
      bindp (viewp id) (\<lambda>d.
        case (if sw_enabled sw \<and> \<not> sw_minutes sw \<and> sw_interval sw \<le> fs_since a
              then pick_random_jingle st d else None) of
          None \<Rightarrow> ret (Inr a)
        | Some j \<Rightarrow>
            bindp (on_conn (insert_or_ignore st j (fs_pos a)
                     (Some (''jingle:'' @ int_str j @ '':'' @ int_str (fs_pos a))))) (\<lambda>n.
              if n = 0 then
                bindp (viewp (next_position st)) (\<lambda>p. ret (Inl (a\<lparr>fs_pos := p, fs_since := 0\<rparr>)))
              else ret (Inr (a\<lparr>fs_pos := fs_pos a + 1, fs_added := Suc (fs_added a), fs_since := 0,
                fs_duration := fs_duration a +
                  (case track_of j d of None \<Rightarrow> 0 | Some t \<Rightarrow> t_duration t)\<rparr>)))))"

text \<open>The loop stops after \<open>rounds\<close> rounds; the source's safety limit is 100.\<close>

fun autofill_loop :: "'r env \<Rightarrow> sweeper \<Rightarrow> nat \<Rightarrow> fill_state \<Rightarrow> ('r, fill_state) wprog" where
  "autofill_loop v sw 0 a = ret a"
| "autofill_loop v sw (Suc rounds) a =
     (if \<not> fill_wanted a then ret a
      else bindp (fill_jingle v sw a) (\<lambda>r.
        case r of
          Inl a1 \<Rightarrow> autofill_loop v sw rounds a1
        | Inr a1 \<Rightarrow> bindp (fill_music v a1) (\<lambda>found.
            case found of None \<Rightarrow> ret a1 | Some a2 \<Rightarrow> autofill_loop v sw rounds a2)))"

definition autofill_queue :: "'r env \<Rightarrow> ('r, nat) wprog" where
  "autofill_queue v =
     (let st = station v in
      bindp (viewp id) (\<lambda>d.
        if autofill_target_seconds \<le> pending_queue_duration st d \<and>
           autofill_min_music_tracks \<le> pending_music_count st d then ret 0
        else (case get_sweeper_settings st d of
            Inl e \<Rightarrow> raise_exn e
          | Inr sw \<Rightarrow>
              bindp (autofill_loop v sw 100 \<lparr>fs_duration = pending_queue_duration st d,
                fs_count = pending_music_count st d, fs_pos = next_position st d,
                fs_since = pending_music_since_jingle st d, fs_active = active_track_ids st d,
                fs_recent = recent_track_ids st 30 d @ active_track_ids st d, fs_added = 0\<rparr>) (\<lambda>a.
              bindp (if 0 < fs_added a then on_conn (updp commit) else ret ()) (\<lambda>_. ret (fs_added a))))))"

section \<open>Skipping repetitions\<close>

definition last_done_track_id :: "int \<Rightarrow> db \<Rightarrow> int" where
  "last_done_track_id st d =
     (case first_of (rev (sort_key q_id (filter (\<lambda>r. q_station r = st \<and> q_status r = Done \<and>
             row_type d r = ''music'') (queue_items d)))) of
        None \<Rightarrow> 0 | Some r \<Rightarrow> q_track r)"

fun skip_loop :: "'r env \<Rightarrow> int \<Rightarrow> nat \<Rightarrow> queue_row option \<Rightarrow> ('r, queue_row option) wprog" where
  "skip_loop v last_tid 0 p = ret p"
| "skip_loop v last_tid (Suc n) None = ret None"
| "skip_loop v last_tid (Suc n) (Some r) =
     bindp (viewp (\<lambda>d. play_type d r)) (\<lambda>k.
       if k \<noteq> ''music'' \<or> q_track r \<noteq> last_tid then ret (Some r)
       else bindp (on_conn (mark_done (wall v) (q_id r))) (\<lambda>_.
            bindp (viewp (next_pending (station v))) (skip_loop v last_tid n)))"

definition skip_duplicate_pending :: "'r env \<Rightarrow> queue_row option \<Rightarrow> ('r, queue_row option) wprog" where
  "skip_duplicate_pending v p =
     (if p = None then ret p
      else bindp (viewp (last_done_track_id (station v))) (\<lambda>last_tid.
        if last_tid \<le> 0 then ret p else skip_loop v last_tid 20 p))"

section \<open>AI announcements\<close>

definition queue_has_dedupe_key :: "int \<Rightarrow> string \<Rightarrow> db \<Rightarrow> bool" where
  "queue_has_dedupe_key st key d = (find_by_dedupe_key st (Some key) [Pending, Playing, Done] d \<noteq> None)"

definition current_playing_remaining_seconds :: "'r env \<Rightarrow> db \<Rightarrow> rat" where
  "current_playing_remaining_seconds v d = (case current_playing (station v) d of
     None \<Rightarrow> 0
   | Some r \<Rightarrow> if row_duration d r \<le> 0 then 0
       else (case q_started r of At t \<Rightarrow> max 0 (row_duration d r - (wall v - t)) | _ \<Rightarrow> 0))"

definition local_tts_providers :: "string list" where
  "local_tts_providers = [''local'', ''local-qwen-tts'', ''omnivoice'', ''omni'',
     ''omnivoice-experimental'', ''qwen-tts'']"

definition allow_inline_ai_generation :: "'r env \<Rightarrow> db \<Rightarrow> bool" where
  "allow_inline_ai_generation v d \<longleftrightarrow>
     ai_ready v \<noteq> NoHost \<and>
     lower (strip (setting_or (get_station (station v) d) ''ai_tts_provider'' ''edge-tts''))
       \<notin> set local_tts_providers \<and>
     (case ai_ready v of
        LoadStatus loaded \<Rightarrow> loaded \<and> 20 \<le> current_playing_remaining_seconds v d
      | _ \<Rightarrow> True)"

definition configured_tts_provider :: "(string \<Rightarrow> string option) \<Rightarrow> string" where
  "configured_tts_provider s =
     (let p = lower (strip (setting_or s ''ai_tts_provider'' (setting_or s ''tts_provider'' ''local-qwen-tts'')))
      in if p \<in> {''local-qwen-tts'', ''edge-tts'', ''omnivoice''} then p else ''local-qwen-tts'')"

fun ai_target :: "db \<Rightarrow> queue_row option \<Rightarrow> queue_row list \<Rightarrow> queue_row option" where
  "ai_target d prev [] = None"
| "ai_target d prev (r # rs) =
     (if q_status r \<noteq> Pending \<or> (let k = play_type d r in k \<noteq> ''music'' \<and> k \<noteq> [])
         \<or> (case prev of None \<Rightarrow> False | Some p \<Rightarrow> q_active p \<and> play_type d p = ''announcement'')
      then ai_target d (Some r) rs else Some r)"

definition next_pending_ai_target :: "int \<Rightarrow> db \<Rightarrow> queue_row option" where
  "next_pending_ai_target st d = ai_target d None (list_active_ordered st d)"

definition enqueue_ai_announcement ::
  "'r env \<Rightarrow> announcement \<Rightarrow> int \<Rightarrow> string \<Rightarrow> ('r, bool) wprog" where
  "enqueue_ai_announcement v an before key =
     (let path = strip (an_path an) in
      if path = [] \<or> \<not> path_exists v path then ret False
      else on_conn
        (bindp (upsert_generated_announcement (station v)
                  (if an_title an = [] then ''AI Announcement'' else an_title an) path (an_duration an)
                  (if an_artist an = [] then ''AI Host'' else an_artist an)) (\<lambda>tid.
         bindp (insert_before_item_or_get_existing (station v) before tid (Some key)
                  [Pending, Playing, Done]) (\<lambda>(_, created). ret created))))"

definition find_announcement :: "'r env \<Rightarrow> string \<Rightarrow> db \<Rightarrow> announcement option" where
  "find_announcement v key d =
     (case ai_prefetched v key (configured_tts_provider (get_station (station v) d)) of
        Some an \<Rightarrow> Some an
      | None \<Rightarrow> if allow_inline_ai_generation v d then ai_inline v key else None)"

text \<open>One attempt for a key: nothing when the queue has it, or no announcement comes.\<close>

definition announce_once :: "'r env \<Rightarrow> string \<Rightarrow> int \<Rightarrow> ('r, bool) wprog" where
  "announce_once v key before =
     bindp (viewp (\<lambda>d. if queue_has_dedupe_key (station v) key d then None else find_announcement v key d))
       (\<lambda>found. case found of None \<Rightarrow> ret False | Some an \<Rightarrow> enqueue_ai_announcement v an before key)"

definition station_id_due :: "'r env \<Rightarrow> int \<Rightarrow> db \<Rightarrow> bool" where
  "station_id_due v interval d \<longleftrightarrow> 0 < interval \<and>
     (case parse_iso (strip (setting (get_station (station v) d) ''_ai_last_station_id_at'' [])) of
        None \<Rightarrow> True | Some t \<Rightarrow> of_int interval \<le> wall v - t)"

definition maybe_prepare_ai_queue :: "'r env \<Rightarrow> ('r, bool) wprog" where
  "maybe_prepare_ai_queue v =
     (let st = station v in
      bindp (viewp id) (\<lambda>d.
        if \<not> truthy_text (setting (get_station st d) ''ai_host_enabled'' ''false'') then ret False
        else (case next_pending_ai_target st d of
            None \<Rightarrow> ret False
          | Some r \<Rightarrow>
              bindp (if strip (row_title d r) \<noteq> []
                     then announce_once v (''ai-track-intro:'' @ int_str (q_id r)) (q_id r)
                     else ret False) (\<lambda>done.
                if done then ret True
                else (case int_setting (setting (get_station st d) ''ai_station_id_interval'' ''1800'') 1800 0 86400 of
                    Inl e \<Rightarrow> raise_exn e
                  | Inr interval \<Rightarrow>
                      if \<not> station_id_due v interval d then ret False
                      else bindp (announce_once v (''ai-station-id:'' @ int_str (q_id r)) (q_id r)) (\<lambda>created.
                        if \<not> created then ret False
                        else bindp (on_conn (upsert_station st [(''_ai_last_station_id_at'', iso_text (wall v))]))
                               (\<lambda>_. ret True)))))))"

end
