(* ===== verification/Worker_Tick.thy ===== *)
theory Worker_Tick
  imports Worker_Fill
begin

text \<open>
  The station worker, fourth part: the life cycle of a live show, the choice of the next source
  (\<open>engine/priority.py\<close>) and one tick, \<open>process_once\<close>. What a show notification contains is left
  out; when one is sent is kept in \<open>notified\<close>. The due texts of ads are taken to be in the format
  the application writes, whose text order is the order in time, and the minutes of the settings
  to stay inside the range of \<open>timedelta\<close>.
\<close>

section \<open>Show audio and session status\<close>

definition show_get :: "int \<Rightarrow> db \<Rightarrow> show_row option" where
  "show_get i d = find (\<lambda>r. sh_id r = i) (show_rows d)"

definition play_show_audio :: "'r env \<Rightarrow> string \<Rightarrow> string \<Rightarrow> ('r, bool) wprog" where
  "play_show_audio v path source =
     (let uri = resolve_path (files v) path in
      if uri = [] \<or> \<not> file_exists (files v) uri then ret False
      else catchp
        (bindp (start_station v \<lparr>sr_uri = uri, sr_type = ''jingle'', sr_crossfade = Some 0, sr_offset = 0\<rparr>) (\<lambda>_.
         bindp (set_playout v source None ''show_audio_start'') (\<lambda>_. ret True)))
        (\<lambda>_. ret False))"

definition update_show_session_status :: "'r env \<Rightarrow> int \<Rightarrow> show_status \<Rightarrow> ('r, unit) wprog" where
  "update_show_session_status v i s = bindp (on_conn (update_status (wall v) i s)) (\<lambda>_. ret ())"

definition end_show_session :: "'r env \<Rightarrow> session_row \<Rightarrow> ('r, unit) wprog" where
  "end_show_session v ss =
     bindp (on_conn (end_session (wall v) (ss_id ss))) (\<lambda>_.
     bindp (on_conn (set_source (station v) ''automation'')) (\<lambda>_.
     set_playout v ''none'' None ''show_session_end''))"

text \<open>Play the clip of the show if it has one and it starts; tells whether it did.\<close>

definition try_show_clip ::
  "'r env \<Rightarrow> session_row \<Rightarrow> (show_row \<Rightarrow> string option) \<Rightarrow> string \<Rightarrow> ('r, bool) wprog" where
  "try_show_clip v ss clip source =
     bindp (viewp (show_get (ss_show ss))) (\<lambda>sh.
       case (case sh of None \<Rightarrow> None | Some x \<Rightarrow> clip x) of
         None \<Rightarrow> ret False
       | Some path \<Rightarrow> if path = [] then ret False else play_show_audio v path source)"

type_synonym 'r stage = "('r, tick_result option) wprog"

definition handle_going_live :: "'r env \<Rightarrow> session_row \<Rightarrow> 'r stage" where
  "handle_going_live v ss =
     bindp (viewp (current_playing (station v))) (\<lambda>p.
       if p \<noteq> None then ret (Some (result ''show_hold'' (Some ''waiting_for_track'')))
       else bindp (try_show_clip v ss sh_intro ''show_intro'') (\<lambda>started.
         if started
         then bindp (update_show_session_status v (ss_id ss) IntroPlaying)
                (\<lambda>_. ret (Some (result ''show_intro'' (Some ''intro_started''))))
         else bindp (update_show_session_status v (ss_id ss) Live) (\<lambda>_. ret None)))"

fun show_status_text :: "show_status \<Rightarrow> string" where
  "show_status_text Preparing = ''preparing''"
| "show_status_text GoingLive = ''going_live''"
| "show_status_text IntroPlaying = ''intro_playing''"
| "show_status_text Live = ''live''"
| "show_status_text BreakOutro = ''break_outro''"
| "show_status_text OnBreak = ''on_break''"
| "show_status_text BreakIntro = ''break_intro''"
| "show_status_text OutroPlaying = ''outro_playing''"
| "show_status_text Ended = ''ended''"

definition handle_show_audio_state :: "'r env \<Rightarrow> session_row \<Rightarrow> 'r stage" where
  "handle_show_audio_state v ss =
     bindp (runtime_status v) (\<lambda>x.
       if has_registry v \<and> runtime_playback_alive x
       then ret (Some (result (''show_'' @ show_status_text (ss_status ss)) (Some ''audio_in_progress'')))
       else (case ss_status ss of
           IntroPlaying \<Rightarrow> bindp (update_show_session_status v (ss_id ss) Live) (\<lambda>_. ret None)
         | BreakOutro \<Rightarrow> bindp (update_show_session_status v (ss_id ss) OnBreak) (\<lambda>_. ret None)
         | BreakIntro \<Rightarrow> bindp (update_show_session_status v (ss_id ss) Live) (\<lambda>_. ret None)
         | OutroPlaying \<Rightarrow> bindp (end_show_session v ss)
             (\<lambda>_. ret (Some (result ''show_ended'' (Some ''outro_finished''))))
         | _ \<Rightarrow> ret None))"

definition handle_on_break :: "'r env \<Rightarrow> session_row \<Rightarrow> 'r stage" where
  "handle_on_break v ss =
     bindp (next_due_ad_if_allowed v) (\<lambda>due.
       if due \<noteq> None then ret None
       else bindp (try_show_clip v ss sh_break_intro ''show_break_intro'') (\<lambda>started.
         if started
         then bindp (update_show_session_status v (ss_id ss) BreakIntro)
                (\<lambda>_. ret (Some (result ''show_break_intro'' (Some ''break_intro_started''))))
         else bindp (update_show_session_status v (ss_id ss) Live) (\<lambda>_. ret None)))"

section \<open>Notifications during a show\<close>

definition debounce_seconds :: rat where
  "debounce_seconds = 60"

definition forget_notice :: "string \<times> int \<Rightarrow> ('r, unit) wprog" where
  "forget_notice key = updp (\<lambda>s. s\<lparr>notified := (notified s)(key := None)\<rparr>)"

definition notify_debounced :: "string \<times> int \<Rightarrow> rat \<Rightarrow> ('r, unit) wprog" where
  "notify_debounced key now = updp (\<lambda>s.
     if now - (case notified s key of None \<Rightarrow> 0 | Some t \<Rightarrow> t) < debounce_seconds then s
     else s\<lparr>notified := (notified s)(key := Some now)\<rparr>)"

definition check_show_queue_low :: "'r env \<Rightarrow> session_row \<Rightarrow> ('r, unit) wprog" where
  "check_show_queue_low v ss =
     (let key = (''queue_low'', ss_id ss) in
      bindp (viewp id) (\<lambda>d.
        case py_int (setting_or (get_station (station v) d) ''show_min_queue_tracks'' ''3'') of
          None \<Rightarrow> ret ()
        | Some least \<Rightarrow>
            if least \<le> int (rowcount (pending_at (station v)) (queue_items d)) then forget_notice key
            else notify_debounced key (mono v)))"

text \<open>The first pending ad: missed once its tolerance is over, announced inside the notice window.\<close>

definition first_pending_ad :: "int \<Rightarrow> db \<Rightarrow> ad_row option" where
  "first_pending_ad st d =
     first_of (sort_key (\<lambda>r. (due_key (ad_due r), ad_id r))
       (filter (\<lambda>r. ad_station r = st \<and> ad_status r = Pending) (ads d)))"

definition mark_missed :: "int \<Rightarrow> (conn, unit) prog" where
  "mark_missed i = updp (\<lambda>c.
     commit (dml (ads_update (update_where (\<lambda>r. ad_id r = i) (\<lambda>r. r\<lparr>ad_status := Missed\<rparr>))) c))"

definition check_ad_break_timing :: "'r env \<Rightarrow> session_row \<Rightarrow> ('r, unit) wprog" where
  "check_ad_break_timing v ss =
     bindp (viewp id) (\<lambda>d.
       let s = get_station (station v) d in
       case (py_int (setting_or s ''ad_break_advance_notice'' ''5''),
             py_int (setting_or s ''ad_break_tolerance_minutes'' ''10''),
             first_pending_ad (station v) d) of
         (Some advance, Some tolerance, Some r) \<Rightarrow>
           (case ad_due r of
              None \<Rightarrow> ret ()
            | Some due \<Rightarrow>
                if due + 60 * of_int tolerance < wall v
                then bindp (on_conn (mark_missed (ad_id r))) (\<lambda>_. forget_notice (''ad_upcoming'', ad_id r))
                else if due - 60 * of_int advance \<le> wall v
                then notify_debounced (''ad_upcoming'', ad_id r) (wall v)
                else ret ())
       | _ \<Rightarrow> ret ())"

definition process_show_lifecycle :: "'r env \<Rightarrow> session_row option \<Rightarrow> 'r stage" where
  "process_show_lifecycle v sso = (case sso of
     None \<Rightarrow> ret None
   | Some ss \<Rightarrow> (case ss_status ss of
       GoingLive \<Rightarrow> handle_going_live v ss
     | IntroPlaying \<Rightarrow> handle_show_audio_state v ss
     | BreakOutro \<Rightarrow> handle_show_audio_state v ss
     | BreakIntro \<Rightarrow> handle_show_audio_state v ss
     | OutroPlaying \<Rightarrow> handle_show_audio_state v ss
     | OnBreak \<Rightarrow> handle_on_break v ss
     | Live \<Rightarrow> bindp (check_show_queue_low v ss) (\<lambda>_.
               bindp (check_ad_break_timing v ss) (\<lambda>_. ret None))
     | _ \<Rightarrow> ret None))"

section \<open>The next source\<close>

definition choose_source :: "int \<Rightarrow> bool \<Rightarrow> bool \<Rightarrow> bool \<Rightarrow> int \<Rightarrow> string" where
  "choose_source manual_count due_now schedule_ready fallback_ready host_count =
     (if 0 < host_count then ''host''
      else if 0 < manual_count then ''manual''
      else if due_now then ''ads''
      else if schedule_ready then ''schedule''
      else if fallback_ready then ''fallback''
      else ''none'')"

definition ad_suppressed :: "session_row option \<Rightarrow> bool" where
  "ad_suppressed sso \<longleftrightarrow> (case sso of
     None \<Rightarrow> False | Some ss \<Rightarrow> ss_status ss \<noteq> Preparing \<and> ss_status ss \<noteq> OnBreak)"

definition on_ad_break :: "session_row option \<Rightarrow> bool" where
  "on_ad_break sso \<longleftrightarrow> (case sso of None \<Rightarrow> False | Some ss \<Rightarrow> ss_status ss = OnBreak)"

record choice =
  ch_playing :: bool
  ch_pending :: "queue_row option"
  ch_ad :: "ad_row option"
  ch_sched :: "sched_row option"
  ch_host :: "host_row option"
  ch_source :: string

definition choose_next :: "'r env \<Rightarrow> session_row option \<Rightarrow> ('r, choice) wprog" where
  "choose_next v sso =
     (let st = station v in
      bindp (viewp (\<lambda>d. (current_playing st d \<noteq> None, next_pending st d))) (\<lambda>(playing, first).
      bindp (if playing then ret first else skip_duplicate_pending v first) (\<lambda>pending.
      bindp (next_due_ad_if_allowed v) (\<lambda>ad.
      bindp (viewp (\<lambda>d. (sched_next_ready st (wall v) d,
               if get_source st d = ''host'' then host_next_pending st d else None))) (\<lambda>(sched, host).
      ret \<lparr>ch_playing = playing, ch_pending = pending, ch_ad = ad, ch_sched = sched, ch_host = host,
           ch_source = choose_source (if pending \<noteq> None \<and> \<not> playing \<and> \<not> on_ad_break sso then 1 else 0)
             (\<not> ad_suppressed sso \<and> ad \<noteq> None) (sched \<noteq> None) (fallback_uri v \<noteq> [] \<and> \<not> playing)
             (if host \<noteq> None then 1 else 0)\<rparr>)))))"

definition play_fallback :: "'r env \<Rightarrow> ('r, tick_result) wprog" where
  "play_fallback v =
     bindp (start_station v \<lparr>sr_uri = fallback_uri v, sr_type = ''announcement'', sr_crossfade = Some 0,
              sr_offset = 0\<rparr>) (\<lambda>_.
     ret ((result ''fallback'' None)\<lparr>r_uri := Some (fallback_uri v)\<rparr>))"

definition play_choice :: "'r env \<Rightarrow> choice \<Rightarrow> ('r, tick_result) wprog" where
  "play_choice v ch =
     (let idle = ret (if ch_playing ch then result ''playing'' (Some ''track_in_progress'')
                      else result (ch_source ch) None) in
      if ch_source ch = ''host'' then (case ch_host ch of
          None \<Rightarrow> idle | Some h \<Rightarrow> play_host_track v (h_id h) (h_track h))
      else if ch_source ch = ''manual'' then (case ch_pending ch of
          None \<Rightarrow> idle | Some r \<Rightarrow> play_managed_item v Manual (q_id r) (q_track r) False)
      else if ch_source ch = ''ads'' then (case ch_ad ch of
          None \<Rightarrow> idle
        | Some r \<Rightarrow> bindp (finish_playing_queue_item v) (\<lambda>_.
            play_managed_item v Ads (ad_id r) (ad_track r) False))
      else if ch_source ch = ''schedule'' then (case ch_sched ch of
          None \<Rightarrow> idle
        | Some r \<Rightarrow> bindp (finish_playing_queue_item v) (\<lambda>_.
            play_managed_item v Schedule (sc_id r) (sc_track r) True))
      else if ch_source ch = ''fallback'' \<and> has_registry v \<and> fallback_uri v \<noteq> [] then play_fallback v
      else idle)"

section \<open>One tick\<close>

definition recover_outputs :: "'r env \<Rightarrow> ('r, unit) wprog" where
  "recover_outputs v s =
     (if has_registry v \<and> rt_process_running v (rt s) \<and> \<not> rt_outputs_healthy v (rt s)
      then (case rt_recover v (rt s) of
          (None, r) \<Rightarrow> (Inr (), s\<lparr>rt := r\<rparr>)
        | (Some text, r) \<Rightarrow> (Inl (RuntimeError text), s\<lparr>rt := r\<rparr>))
      else (Inr (), s))"

definition update_sweepers :: "'r env \<Rightarrow> ('r, unit) wprog" where
  "update_sweepers v =
     bindp (viewp (get_sweeper_settings (station v))) (\<lambda>cfg. case cfg of
       Inl e \<Rightarrow> raise_exn e
     | Inr sw \<Rightarrow>
         if sw_enabled sw then bindp (maybe_insert_sweeper_jingle v) (\<lambda>_. ret ())
         else bindp (remove_pending_jingles v) (\<lambda>_. ret ()))"

text \<open>The upkeep between the show life cycle and the choice of the next item, in its order.\<close>

definition upkeep :: "'r env \<Rightarrow> ('r, unit) wprog" where
  "upkeep v =
     bindp (maybe_insert_startup_sound v) (\<lambda>_.
     bindp (fail_cross_station_queue_items v) (\<lambda>_.
     bindp (autofill_queue v) (\<lambda>_.
     bindp (update_sweepers v) (\<lambda>_.
     bindp (maybe_prepare_ai_queue v) (\<lambda>_.
     bindp (advance_playing_queue_item v) (\<lambda>_.
     bindp (advance_playing_ad_item v) (\<lambda>_.
     bindp (fail_disabled_active_ads v) (\<lambda>_.
     bindp (ensure_hourly_ad_break v) (\<lambda>_.
     bindp (advance_host_track v) (\<lambda>_. ret ()))))))))))"

text \<open>From the show life cycle on, for the session found at the start of the tick.\<close>

definition rest_of_tick :: "'r env \<Rightarrow> session_row option \<Rightarrow> ('r, tick_result) wprog" where
  "rest_of_tick v sso =
     bindp (process_show_lifecycle v sso) (\<lambda>shown.
       case shown of
         Some r \<Rightarrow> ret r
       | None \<Rightarrow>
           bindp (upkeep v) (\<lambda>_.
           bindp (viewp (get_current (station v))) (\<lambda>(source, item).
             if source = ''host'' then ret (result ''playing'' (Some ''host_track_in_progress''))
             else bindp (choose_next v sso) (play_choice v))))"

definition process_leased :: "'r env \<Rightarrow> ('r, tick_result) wprog" where
  "process_leased v =
     bindp (recover_outputs v) (\<lambda>_.
     bindp (viewp (get_active_for_station (station v))) (rest_of_tick v))"

text \<open>The worker takes the default of \<open>LeaseService\<close>: a lease holds for 30 seconds.\<close>

definition lease_seconds :: int where
  "lease_seconds = 30"

definition process_once :: "'r env \<Rightarrow> ('r, tick_result) wprog" where
  "process_once v =
     bindp (on_conn (try_acquire lease_seconds (wall v) (station v) (worker v))) (\<lambda>granted.
       if granted then process_leased v else ret (result ''none'' (Some ''lease_denied'')))"

end
