(* ===== verification/Worker_Writes.thy ===== *)
theory Worker_Writes
  imports Worker_Tick Media_Props Playout_Props
begin

text \<open>
  What a tick may write: the abstract specification of the station worker. \<open>upkeep_write\<close> lists the
  statements of the upkeep, \<open>playout_write\<close> adds those of the lease and the start of an item,
  \<open>station_write\<close> those of the show sessions. Every rule that names a row by its id asks for the row to be the station's own.
  The invariants below are proved over these relations; the refinement is in \<open>Worker_Frame\<close> and
  \<open>Worker_Props\<close>.
\<close>

section \<open>The permitted writes\<close>

definition own_queue :: "int \<Rightarrow> int \<Rightarrow> db \<Rightarrow> bool" where
  "own_queue st i d \<longleftrightarrow> (\<forall>r \<in> set (queue_items d). q_id r = i \<longrightarrow> q_station r = st)"

definition own_ad :: "int \<Rightarrow> int \<Rightarrow> db \<Rightarrow> bool" where
  "own_ad st i d \<longleftrightarrow> (\<forall>r \<in> set (ads d). ad_id r = i \<longrightarrow> ad_station r = st)"

definition own_sched :: "int \<Rightarrow> int \<Rightarrow> db \<Rightarrow> bool" where
  "own_sched st i d \<longleftrightarrow> (\<forall>r \<in> set (schedules d). sc_id r = i \<longrightarrow> sc_station r = st)"

definition own_session :: "int \<Rightarrow> int \<Rightarrow> db \<Rightarrow> bool" where
  "own_session st i d \<longleftrightarrow> (\<forall>r \<in> set (sessions d). ss_id r = i \<longrightarrow> ss_station r = st)"

text \<open>The station settings a tick writes; the ad switches are not among them.\<close>

definition worker_keys :: "string list" where
  "worker_keys = [''_startup_sound_pending'', ''_ai_last_station_id_at'', seq_key, source_key]"

text \<open>\<open>air\<close> holds the ids of the ads that may be set playing.\<close>

inductive upkeep_write :: "int \<Rightarrow> int set \<Rightarrow> db \<Rightarrow> db \<Rightarrow> bool" for st :: int and air :: "int set" where
  Insert: "queue_index_ok (insert_queue_row st t p k (queue_items d)) \<Longrightarrow>
    upkeep_write st air d (queue_items_update (insert_queue_row st t p k) d)"
| Shift: "upkeep_write st air d (queue_items_update (shift_from st p) d)"
| Finish: "own_queue st i d \<Longrightarrow> s = Done \<or> s = Failed \<Longrightarrow>
    upkeep_write st air d (queue_items_update (set_finished s now i) d)"
| Quarantine: "\<forall>i \<in> set ids. own_queue st i d \<Longrightarrow>
    upkeep_write st air d (queue_items_update (update_where (\<lambda>r. q_id r \<in> set ids)
      (\<lambda>r. r\<lparr>q_status := Failed, q_finished := Some now\<rparr>)) d)"
| Remove: "\<forall>i \<in> set ids. own_queue st i d \<Longrightarrow>
    upkeep_write st air d (queue_items_update (delete_where (\<lambda>r. q_id r \<in> set ids)) d)"
| Ad_End: "own_ad st i d \<Longrightarrow> s = Done \<or> s = Failed \<Longrightarrow>
    upkeep_write st air d (ads_update (ad_set_status now s i) d)"
| Ad_Air: "own_ad st i d \<Longrightarrow> i \<in> air \<Longrightarrow>
    upkeep_write st air d (ads_update (ad_set_status now Playing i) d)"
| Ad_New: "ad_id r \<notin> ad_id ` set (ads d) \<Longrightarrow> ad_station r = st \<Longrightarrow> ad_status r = Pending \<Longrightarrow>
    upkeep_write st air d (ads_update (\<lambda>rows. rows @ [r]) d)"
| Pop: "upkeep_write st air d (host_items_update (delete_where (\<lambda>r. h_id r = i)) d)"
| Current: "upkeep_write st air d (put_playout st p d)"
| Log: "tr_station t = st \<Longrightarrow> upkeep_write st air d (transitions_update (\<lambda>ts. ts @ [t]) d)"
| Track: "upkeep_write st air d (tracks_update f d)"
| Setting: "k \<in> set worker_keys \<Longrightarrow> upkeep_write st air d (put_setting st k val d)"
| Nothing: "upkeep_write st air d d"

text \<open>Starting items, giving them back, missing an ad and taking the lease.\<close>

inductive playout_write :: "int \<Rightarrow> int set \<Rightarrow> db \<Rightarrow> db \<Rightarrow> bool" for st :: int and air :: "int set" where
  Upkeep: "upkeep_write st air d d' \<Longrightarrow> playout_write st air d d'"
| Play: "own_queue st i d \<Longrightarrow> current_playing st d = None \<Longrightarrow>
    queue_index_ok (set_playing now i (queue_items d)) \<Longrightarrow>
    playout_write st air d (queue_items_update (set_playing now i) d)"
| Requeue: "own_queue st i d \<Longrightarrow>
    queue_index_ok (update_where (\<lambda>r. q_id r = i) requeue_row (queue_items d)) \<Longrightarrow>
    playout_write st air d (queue_items_update (update_where (\<lambda>r. q_id r = i) requeue_row) d)"
| Ad_Back: "own_ad st i d \<Longrightarrow> s = Pending \<or> s = Missed \<Longrightarrow>
    playout_write st air d (ads_update (update_where (\<lambda>r. ad_id r = i) (\<lambda>r. r\<lparr>ad_status := s\<rparr>)) d)"
| Sched: "own_sched st i d \<Longrightarrow> playout_write st air d (schedules_update (sched_set_status s i) d)"
| Lease: "playout_write st air d (d\<lparr>leases := (leases d)(st := l)\<rparr>)"

text \<open>And the show sessions.\<close>

inductive station_write :: "int \<Rightarrow> int set \<Rightarrow> db \<Rightarrow> db \<Rightarrow> bool" for st :: int and air :: "int set" where
  Playout: "playout_write st air d d' \<Longrightarrow> station_write st air d d'"
| Session: "own_session st i d \<Longrightarrow> session_index_ok (session_set_status now i s (sessions d)) \<Longrightarrow>
    station_write st air d (sessions_update (session_set_status now i s) d)"
| Session_End: "own_session st i d \<Longrightarrow>
    station_write st air d (sessions_update (update_where (\<lambda>r. ss_id r = i)
      (\<lambda>r. r\<lparr>ss_status := Ended, ss_ended := Some now\<rparr>)) d)"

section \<open>Station isolation\<close>

text \<open>
  Everything of other stations is as it was, row for row. Two tables are left out: tracks belong to
  no one station's playout, and programme queue rows are popped by an id that may meanwhile be
  another station's (\<open>pop_crosses_stations\<close> in \<open>Worker_Props\<close>).
\<close>

definition same_elsewhere :: "int \<Rightarrow> db \<Rightarrow> db \<Rightarrow> bool" where
  "same_elsewhere st d d' \<longleftrightarrow>
     filter (\<lambda>r. q_station r \<noteq> st) (queue_items d') = filter (\<lambda>r. q_station r \<noteq> st) (queue_items d) \<and>
     filter (\<lambda>r. ad_station r \<noteq> st) (ads d') = filter (\<lambda>r. ad_station r \<noteq> st) (ads d) \<and>
     filter (\<lambda>r. sc_station r \<noteq> st) (schedules d') = filter (\<lambda>r. sc_station r \<noteq> st) (schedules d) \<and>
     filter (\<lambda>r. ss_station r \<noteq> st) (sessions d') = filter (\<lambda>r. ss_station r \<noteq> st) (sessions d) \<and>
     filter (\<lambda>r. tr_station r \<noteq> st) (transitions d') = filter (\<lambda>r. tr_station r \<noteq> st) (transitions d) \<and>
     (\<forall>st'. st' \<noteq> st \<longrightarrow> get_current st' d' = get_current st' d \<and>
        station_settings d' st' = station_settings d st' \<and> leases d' st' = leases d st') \<and>
     system_settings d' = system_settings d \<and> stations d' = stations d \<and>
     show_rows d' = show_rows d \<and> playlist_items d' = playlist_items d"

lemma same_elsewhere_refl [simp]: "same_elsewhere st d d"
  by (simp add: same_elsewhere_def)

lemma same_elsewhere_trans: "same_elsewhere st d d' \<Longrightarrow> same_elsewhere st d' d'' \<Longrightarrow> same_elsewhere st d d''"
  by (simp add: same_elsewhere_def)

lemma filter_update_own:
  assumes "\<And>r. r \<in> set rows \<Longrightarrow> P r \<Longrightarrow> \<not> Q r" "\<And>r. Q (f r) = Q r"
  shows "filter Q (update_where P f rows) = filter Q rows"
  using assms(1) by (induction rows) (simp_all add: assms(2))

lemma filter_delete_own:
  "(\<And>r. r \<in> set rows \<Longrightarrow> P r \<Longrightarrow> \<not> Q r) \<Longrightarrow> filter Q (delete_where P rows) = filter Q rows"
  by (induction rows) (auto simp: delete_where_def)

lemma upkeep_elsewhere: "upkeep_write st air d d' \<Longrightarrow> same_elsewhere st d d'"
proof (induction rule: upkeep_write.induct)
  case (Insert t p k d) show ?case
    by (simp add: same_elsewhere_def get_current_def insert_queue_row_def)
next
  case (Shift d p) show ?case
    using filter_update_own [of "queue_items d" "\<lambda>r. active_at st r \<and> p \<le> q_position r"
        "\<lambda>r. q_station r \<noteq> st" "\<lambda>r. r\<lparr>q_position := q_position r + 1\<rparr>"]
    by (simp add: same_elsewhere_def get_current_def shift_from_def active_at_def)
next
  case (Finish i d s now) then show ?case
    by (simp add: same_elsewhere_def get_current_def set_finished_def filter_update_own own_queue_def)
next
  case (Quarantine ids d now) then show ?case
    by (simp add: same_elsewhere_def get_current_def filter_update_own own_queue_def)
next
  case (Remove ids d) then show ?case
    by (simp add: same_elsewhere_def get_current_def filter_delete_own own_queue_def)
next
  case (Ad_End i d s now) then show ?case
    by (auto simp add: same_elsewhere_def get_current_def ad_set_status_def filter_update_own own_ad_def)
next
  case (Ad_Air i d now) then show ?case
    by (simp add: same_elsewhere_def get_current_def ad_set_status_def filter_update_own own_ad_def)
next
  case (Ad_New r d) then show ?case by (simp add: same_elsewhere_def get_current_def)
next
  case (Current d p) show ?case by (simp add: same_elsewhere_def)
next
  case (Setting k d val) then show ?case by (simp add: same_elsewhere_def get_current_def put_setting_def)
qed (simp_all add: same_elsewhere_def get_current_def)

lemma playout_elsewhere: "playout_write st air d d' \<Longrightarrow> same_elsewhere st d d'"
proof (induction rule: playout_write.induct)
  case (Upkeep d d') then show ?case by (rule upkeep_elsewhere)
next
  case (Play i d now) then show ?case
    by (simp add: same_elsewhere_def get_current_def set_playing_def filter_update_own own_queue_def)
next
  case (Requeue i d) then show ?case
    by (simp add: same_elsewhere_def get_current_def requeue_row_def filter_update_own own_queue_def)
next
  case (Ad_Back i d s) then show ?case
    by (simp add: same_elsewhere_def get_current_def filter_update_own own_ad_def)
next
  case (Sched i d s) then show ?case
    by (simp add: same_elsewhere_def get_current_def sched_set_status_def filter_update_own own_sched_def)
qed (simp add: same_elsewhere_def get_current_def)

lemma station_elsewhere: "station_write st air d d' \<Longrightarrow> same_elsewhere st d d'"
proof (induction rule: station_write.induct)
  case (Playout d d') then show ?case by (rule playout_elsewhere)
next
  case (Session i d now s) then show ?case
    by (simp add: same_elsewhere_def get_current_def session_set_status_def filter_update_own own_session_def)
next
  case (Session_End i d now) then show ?case
    by (simp add: same_elsewhere_def get_current_def filter_update_own own_session_def)
qed

section \<open>Unique rows and at most one playing item\<close>

definition ids_ok :: "db \<Rightarrow> bool" where
  "ids_ok d \<longleftrightarrow> queue_ok (queue_items d) \<and> distinct (map ad_id (ads d)) \<and>
     distinct (map sc_id (schedules d)) \<and> distinct (map ss_id (sessions d)) \<and>
     session_index_ok (sessions d)"

definition playing_rows :: "int \<Rightarrow> db \<Rightarrow> queue_row list" where
  "playing_rows st d = filter (playing_at st) (queue_items d)"

lemma upkeep_ids: "upkeep_write st air d d' \<Longrightarrow> ids_ok d \<Longrightarrow> ids_ok d'"
proof (induction rule: upkeep_write.induct)
  case (Insert t p k d) then show ?case by (simp add: ids_ok_def queue_ok_insert)
next
  case (Finish i d s now) then show ?case
    by (auto simp: ids_ok_def set_finished_def queue_ok_finished)
next
  case (Quarantine ids d now) then show ?case by (simp add: ids_ok_def queue_ok_finished)
next
  case (Ad_New r d) then show ?case by (simp add: ids_ok_def)
qed (auto simp: ids_ok_def ad_set_status_def)

lemma playout_ids: "playout_write st air d d' \<Longrightarrow> ids_ok d \<Longrightarrow> ids_ok d'"
proof (induction rule: playout_write.induct)
  case (Upkeep d d') then show ?case using upkeep_ids by blast
next
  case (Play i d now) then show ?case
    by (simp add: ids_ok_def queue_ok_def set_playing_def)
next
  case (Requeue i d) then show ?case
    by (simp add: ids_ok_def queue_ok_def requeue_row_def)
next
  case (Sched i d s) then show ?case by (simp add: ids_ok_def sched_set_status_def)
qed (simp_all add: ids_ok_def)

lemma station_ids: "station_write st air d d' \<Longrightarrow> ids_ok d \<Longrightarrow> ids_ok d'"
proof (induction rule: station_write.induct)
  case (Playout d d') then show ?case using playout_ids by blast
next
  case (Session i d now s) then show ?case by (simp add: ids_ok_def session_set_status_def)
next
  case (Session_End i d now) then show ?case by (simp add: ids_ok_def session_index_ended)
qed

text \<open>No upkeep write sets a queue row playing.\<close>

lemma length_filter_update_le:
  "(\<And>r. r \<in> set rows \<Longrightarrow> Q (f r) \<Longrightarrow> Q r) \<Longrightarrow>
   length (filter Q (update_where P f rows)) \<le> length (filter Q rows)"
  by (induction rows) (auto simp: le_SucI)

lemma length_filter_delete_le: "length (filter Q (delete_where P rows)) \<le> length (filter Q rows)"
  by (induction rows) (auto simp: delete_where_def)

lemma upkeep_playing:
  "upkeep_write st air d d' \<Longrightarrow> length (playing_rows st d') \<le> length (playing_rows st d)"
proof (induction rule: upkeep_write.induct)
  case (Insert t p k d) show ?case
    by (simp add: playing_rows_def insert_queue_row_def playing_at_def)
next
  case (Shift d p) show ?case
    unfolding playing_rows_def shift_from_def
    by (simp, rule length_filter_update_le) (simp add: playing_at_def)
next
  case (Finish i d s now) then show ?case
    unfolding playing_rows_def set_finished_def
    by (simp, intro length_filter_update_le) (auto simp: playing_at_def)
next
  case (Quarantine ids d now) then show ?case
    unfolding playing_rows_def
    by (simp, intro length_filter_update_le) (simp add: playing_at_def)
next
  case (Remove ids d) show ?case
    by (simp add: playing_rows_def length_filter_delete_le)
qed (simp_all add: playing_rows_def)

lemma first_of_sort_None [simp]: "first_of (sort_key f xs) = None \<longleftrightarrow> xs = []"
proof
  assume "first_of (sort_key f xs) = None"
  then have "sort_key f xs = []" by (cases "sort_key f xs") simp_all
  then show "xs = []" by (metis length_0_conv length_sort)
qed simp

lemma current_playing_None: "current_playing st d = None \<longleftrightarrow> playing_rows st d = []"
  by (simp only: current_playing_def playing_rows_def first_of_sort_None)

lemma playing_after_start:
  assumes "distinct (map q_id rows)" "filter (playing_at st) rows = []"
  shows "length (filter (playing_at st) (set_playing now i rows)) \<le> 1"
  using assms
proof (induction rows)
  case (Cons r rows)
  have "\<not> playing_at st r" "filter (playing_at st) rows = []"
    using Cons.prems(2) by (auto split: if_splits)
  show ?case
  proof (cases "q_id r = i")
    case True
    have "set_playing now i rows = rows"
      unfolding set_playing_def
    proof (rule update_where_none)
      fix r' assume "r' \<in> set rows"
      then show "q_id r' \<noteq> i" using Cons.prems(1) True by (simp, metis image_eqI)
    qed
    then show ?thesis using \<open>filter (playing_at st) rows = []\<close> by (simp add: set_playing_def)
  next
    case False
    then show ?thesis
      using Cons \<open>\<not> playing_at st r\<close> \<open>filter (playing_at st) rows = []\<close> by (simp add: set_playing_def)
  qed
qed (simp add: set_playing_def)

lemma playout_playing:
  assumes "playout_write st air d d'" "ids_ok d" "length (playing_rows st d) \<le> 1"
  shows "length (playing_rows st d') \<le> 1"
  using assms
proof (induction rule: playout_write.induct)
  case (Upkeep d d') then show ?case using upkeep_playing by fastforce
next
  case (Play i d now) then show ?case
    using playing_after_start [of "queue_items d" st now i]
    by (simp add: ids_ok_def queue_ok_def current_playing_None playing_rows_def)
next
  case (Requeue i d) then show ?case
    using length_filter_update_le [of "queue_items d" "playing_at st" requeue_row "\<lambda>r. q_id r = i"]
    by (simp add: playing_rows_def requeue_row_def playing_at_def)
qed (simp_all add: playing_rows_def)

lemma station_playing:
  assumes "station_write st air d d'" "ids_ok d" "length (playing_rows st d) \<le> 1"
  shows "length (playing_rows st d') \<le> 1"
  using assms
proof (induction rule: station_write.induct)
  case (Playout d d') then show ?case by (rule playout_playing)
qed (simp_all add: playing_rows_def)

section \<open>Sequences of writes\<close>

abbreviation station_writes :: "int \<Rightarrow> db \<Rightarrow> db \<Rightarrow> bool" where
  "station_writes st \<equiv> (station_write st UNIV)\<^sup>*\<^sup>*"

lemma writes_elsewhere: "station_writes st d d' \<Longrightarrow> same_elsewhere st d d'"
  by (induction rule: rtranclp_induct) (auto intro: same_elsewhere_trans station_elsewhere)

lemma writes_ids: "station_writes st d d' \<Longrightarrow> ids_ok d \<Longrightarrow> ids_ok d'"
  by (induction rule: rtranclp_induct) (auto intro: station_ids)

lemma writes_playing:
  assumes "station_writes st d d'" "ids_ok d" "length (playing_rows st d) \<le> 1"
  shows "length (playing_rows st d') \<le> 1"
  using assms by (induction rule: rtranclp_induct) (blast intro: station_playing writes_ids)+

lemma playout_sessions: "playout_write st air d d' \<Longrightarrow> sessions d' = sessions d"
proof (induction rule: playout_write.induct)
  case (Upkeep d d') then show ?case by (induction rule: upkeep_write.induct) simp_all
qed simp_all

end
