(* ===== verification/Worker_Frame.thy ===== *)
theory Worker_Frame
  imports Worker_Writes
begin

text \<open>
  The upkeep of a tick performs permitted writes only. \<open>upkeep_frame\<close> is the interface: any property
  of databases that fixes what belongs to other stations and that no permitted write breaks is kept
  by every function of the upkeep, whether it returns or raises, on disk and in memory.
\<close>

section \<open>Properties of both views of a connection\<close>

definition both :: "(db \<Rightarrow> bool) \<Rightarrow> conn \<Rightarrow> bool" where
  "both J c \<longleftrightarrow> J (work c) \<and> J (disk c)"

definition bothw :: "(db \<Rightarrow> bool) \<Rightarrow> 'r wstate \<Rightarrow> bool" where
  "bothw J s \<longleftrightarrow> both J (wconn s)"

abbreviation conn_safe :: "(db \<Rightarrow> bool) \<Rightarrow> (conn, 'a) prog \<Rightarrow> bool" where
  "conn_safe J m \<equiv> keeps (inv_rel (both J)) m"

abbreviation safe :: "(db \<Rightarrow> bool) \<Rightarrow> ('r, 'a) wprog \<Rightarrow> bool" where
  "safe J m \<equiv> keeps (inv_rel (bothw J)) m"

lemma both_simps [simp]:
  "both J c \<Longrightarrow> both J (commit c)" "both J c \<Longrightarrow> both J (rollback c)" "both J c \<Longrightarrow> both J (dml id c)"
  "both J c \<Longrightarrow> both J (c\<lparr>in_tx := b\<rparr>)"
  by (simp_all add: both_def)

lemma both_dml: "both J c \<Longrightarrow> (J (work c) \<Longrightarrow> J (g (work c))) \<Longrightarrow> both J (dml g c)"
  by (simp add: both_def)

lemma conn_safeI: "(\<And>c. both J c \<Longrightarrow> both J (snd (m c))) \<Longrightarrow> conn_safe J m"
  by (simp add: keeps_def inv_rel_def)

lemma conn_safeD: "conn_safe J m \<Longrightarrow> both J c \<Longrightarrow> both J (snd (m c))"
  by (simp add: keeps_def inv_rel_def)

lemma safeI: "(\<And>s. bothw J s \<Longrightarrow> bothw J (snd (m s))) \<Longrightarrow> safe J m"
  by (simp add: keeps_def inv_rel_def)

lemma safeD: "safe J m \<Longrightarrow> bothw J s \<Longrightarrow> bothw J (snd (m s))"
  by (simp add: keeps_def inv_rel_def)

lemma on_conn_state: "snd (on_conn m s) = s\<lparr>wconn := snd (m (wconn s))\<rparr>"
  by (simp add: on_conn_def split_beta)

lemma safe_on_conn: "conn_safe J m \<Longrightarrow> safe J (on_conn m)"
  by (rule safeI) (simp add: on_conn_state bothw_def conn_safeD)

text \<open>A program that reads may rely on the property of what it read.\<close>

lemma bothw_wdb: "bothw J s \<Longrightarrow> J (wdb s)"
  by (simp add: bothw_def both_def wdb_def)

lemma safe_read: "(\<And>s. J (wdb s) \<Longrightarrow> safe J (f (g s))) \<Longrightarrow> safe J (bindp (readp g) f)"
  by (rule safeI) (simp add: bothw_wdb safeD)

lemma safe_view: "(\<And>d. J d \<Longrightarrow> safe J (f (g d))) \<Longrightarrow> safe J (bindp (viewp g) f)"
  unfolding viewp_def by (rule safe_read) simp

lemma safe_viewp: "safe J (viewp g)"
  by (simp add: viewp_def invariant_frame.keeps_readp)


lemma safe_start: "safe J (start_station v req)"
  by (rule safeI) (auto simp: start_station_def bothw_def split: option.split prod.split)

lemma safe_status: "safe J (runtime_status v)"
  by (simp add: runtime_status_def invariant_frame.keeps_readp)

lemma safe_restart_allowed: "safe J (restart_attempt_allowed v source item)"
  by (rule safeI) (auto simp: restart_attempt_allowed_def Let_def bothw_def split: option.split)

lemma safe_recover: "safe J (recover_outputs v)"
  by (rule safeI) (auto simp: recover_outputs_def bothw_def split: option.split prod.split)

lemma safe_fallback: "safe J start_continuity_fallback"
  by (simp add: start_continuity_fallback_def invariant_frame.keeps_raise)

text \<open>
  The rules that drive the proofs below: \<open>read_rules\<close> go first, so that a read hands its facts on.
\<close>

lemmas read_rules = safe_view safe_read
lemmas step_rules = invariant_frame.keeps_ret invariant_frame.keeps_raise invariant_frame.keeps_bindp
  invariant_frame.keeps_catchp invariant_frame.keeps_if invariant_frame.keeps_option
  invariant_frame.keeps_sum invariant_frame.keeps_prod
  safe_viewp safe_start safe_status safe_restart_allowed safe_fallback safe_on_conn

section \<open>The interface\<close>

text \<open>What the property must fix: unique ids, the other stations' rows and which ads are on air.\<close>

definition upkeep_core :: "int \<Rightarrow> int set \<Rightarrow> db \<Rightarrow> db \<Rightarrow> bool" where
  "upkeep_core st air d0 d \<longleftrightarrow> ids_ok d \<and> same_elsewhere st d0 d \<and>
     (\<forall>r \<in> set (ads d). ad_station r = st \<and> ad_status r = Playing \<longrightarrow> ad_id r \<in> air)"

text \<open>Ids that no row of another station has.\<close>

definition free_queue :: "int \<Rightarrow> db \<Rightarrow> int \<Rightarrow> bool" where
  "free_queue st d0 i \<longleftrightarrow> (\<forall>r \<in> set (queue_items d0). q_station r \<noteq> st \<longrightarrow> q_id r \<noteq> i)"

definition free_ad :: "int \<Rightarrow> db \<Rightarrow> int \<Rightarrow> bool" where
  "free_ad st d0 i \<longleftrightarrow> (\<forall>r \<in> set (ads d0). ad_station r \<noteq> st \<longrightarrow> ad_id r \<noteq> i)"

definition free_sched :: "int \<Rightarrow> db \<Rightarrow> int \<Rightarrow> bool" where
  "free_sched st d0 i \<longleftrightarrow> (\<forall>r \<in> set (schedules d0). sc_station r \<noteq> st \<longrightarrow> sc_id r \<noteq> i)"

definition free_session :: "int \<Rightarrow> db \<Rightarrow> int \<Rightarrow> bool" where
  "free_session st d0 i \<longleftrightarrow> (\<forall>r \<in> set (sessions d0). ss_station r \<noteq> st \<longrightarrow> ss_id r \<noteq> i)"

lemma filter_eq_member: "filter P xs = filter P ys \<Longrightarrow> x \<in> set xs \<Longrightarrow> P x \<Longrightarrow> x \<in> set ys"
  by (metis (mono_tags, lifting) filter_set filter_id_conv mem_Collect_eq set_filter)

lemma filter_eq_other_ids:
  assumes "filter P rows = filter P rows0" "distinct (map f rows)" "x \<in> set rows" "\<not> P x"
  shows "\<forall>y \<in> set rows0. P y \<longrightarrow> f y \<noteq> f x"
proof (intro ballI impI notI)
  fix y assume "y \<in> set rows0" "P y" "f y = f x"
  moreover from this have "y \<in> set rows" using filter_eq_member [OF assms(1) [symmetric]] by blast
  ultimately have "y = x" using assms(2,3) by (simp add: distinct_map inj_on_def)
  then show False using assms(4) \<open>P y\<close> by simp
qed

lemma core_own:
  assumes "upkeep_core st air d0 d"
  shows "free_queue st d0 i \<Longrightarrow> own_queue st i d" "free_ad st d0 j \<Longrightarrow> own_ad st j d"
    "free_sched st d0 k \<Longrightarrow> own_sched st k d" "free_session st d0 l \<Longrightarrow> own_session st l d"
  using assms
  by (auto simp: upkeep_core_def same_elsewhere_def free_queue_def own_queue_def free_ad_def own_ad_def
      free_sched_def own_sched_def free_session_def own_session_def dest: filter_eq_member)

lemma core_free:
  assumes "upkeep_core st air d0 d"
  shows "r \<in> set (queue_items d) \<Longrightarrow> q_station r = st \<Longrightarrow> free_queue st d0 (q_id r)"
    and "a \<in> set (ads d) \<Longrightarrow> ad_station a = st \<Longrightarrow> free_ad st d0 (ad_id a)"
    and "s \<in> set (schedules d) \<Longrightarrow> sc_station s = st \<Longrightarrow> free_sched st d0 (sc_id s)"
    and "z \<in> set (sessions d) \<Longrightarrow> ss_station z = st \<Longrightarrow> free_session st d0 (ss_id z)"
  using assms
    filter_eq_other_ids [of "\<lambda>r. q_station r \<noteq> st" "queue_items d" "queue_items d0" q_id r]
    filter_eq_other_ids [of "\<lambda>r. ad_station r \<noteq> st" "ads d" "ads d0" ad_id a]
    filter_eq_other_ids [of "\<lambda>r. sc_station r \<noteq> st" "schedules d" "schedules d0" sc_id s]
    filter_eq_other_ids [of "\<lambda>r. ss_station r \<noteq> st" "sessions d" "sessions d0" ss_id z]
  by (simp_all add: upkeep_core_def same_elsewhere_def ids_ok_def queue_ok_def free_queue_def
      free_ad_def free_sched_def free_session_def)

end
