(* ===== verification/Worker_Upkeep.thy ===== *)
theory Worker_Upkeep
  imports Worker_Frame
begin

text \<open>
  The functions of the upkeep, one lemma each, inside the interface of \<open>Worker_Frame\<close>; the properties
  that interpret it are in \<open>Worker_Props\<close>.
\<close>

lemma first_of_sort_memD: "first_of (sort_key f (filter P xs)) = Some x \<Longrightarrow> x \<in> set xs \<and> P x"
  using first_of_sort_in [of f "filter P xs" x] by simp

lemma current_playing_mem: "current_playing st d = Some r \<Longrightarrow> r \<in> set (queue_items d) \<and> q_station r = st"
  unfolding current_playing_def by (drule first_of_sort_memD) (simp add: playing_at_def)

lemma next_pending_mem: "next_pending st d = Some r \<Longrightarrow> r \<in> set (queue_items d) \<and> q_station r = st"
  unfolding next_pending_def by (drule first_of_sort_memD) (simp add: pending_at_def)

lemma ad_playing_mem:
  "ad_current_playing st d = Some r \<Longrightarrow> r \<in> set (ads d) \<and> ad_station r = st \<and> ad_status r = Playing"
  unfolding ad_current_playing_def by (drule first_of_sort_memD) simp

lemma ad_due_mem:
  "ad_next_due st now d = Some r \<Longrightarrow> r \<in> set (ads d) \<and> ad_station r = st \<and> ad_status r = Pending"
  unfolding ad_next_due_def by (drule first_of_sort_memD) (simp add: ad_due_at_def)

lemma ad_active_mem: "r \<in> set (ad_list_active st n d) \<Longrightarrow> r \<in> set (ads d) \<and> ad_station r = st"
  by (auto simp: ad_list_active_def dest: in_set_takeD)

locale upkeep_frame =
  fixes v :: "'r env" and air :: "int set" and d0 :: db and J :: "db \<Rightarrow> bool"
  assumes J_core: "J d \<Longrightarrow> upkeep_core (station v) air d0 d"
    and J_write: "J d \<Longrightarrow> upkeep_write (station v) air d d' \<Longrightarrow> J d'"
begin

lemma dml_safe:
  "both J c \<Longrightarrow> (J (work c) \<Longrightarrow> upkeep_write (station v) air (work c) (g (work c))) \<Longrightarrow> both J (dml g c)"
  by (rule both_dml) (auto intro: J_write)

lemma own [intro]:
  "J d \<Longrightarrow> free_queue (station v) d0 i \<Longrightarrow> own_queue (station v) i d" "J d \<Longrightarrow> free_ad (station v) d0 i \<Longrightarrow> own_ad (station v) i d"
  using core_own(1) [OF J_core, of d i] core_own(2) [OF J_core, of d i] by simp_all

lemma free_playing [intro]: "J d \<Longrightarrow> current_playing (station v) d = Some r \<Longrightarrow> free_queue (station v) d0 (q_id r)"
  using core_free(1) J_core current_playing_mem by blast

lemma free_pending [intro]: "J d \<Longrightarrow> next_pending (station v) d = Some r \<Longrightarrow> free_queue (station v) d0 (q_id r)"
  using core_free(1) J_core next_pending_mem by blast

lemma free_row: "J d \<Longrightarrow> r \<in> set (queue_items d) \<Longrightarrow> q_station r = (station v) \<Longrightarrow> free_queue (station v) d0 (q_id r)"
  using core_free(1) J_core by blast

lemma free_playing_ad [intro]:
  "J d \<Longrightarrow> ad_current_playing (station v) d = Some r \<Longrightarrow> free_ad (station v) d0 (ad_id r)"
  "J d \<Longrightarrow> ad_current_playing (station v) d = Some r \<Longrightarrow> ad_id r \<in> air"
  using core_free(2) J_core [of d] ad_playing_mem [of "station v" d r] by (auto simp: upkeep_core_def)

lemma free_active_ad: "J d \<Longrightarrow> r \<in> set (ad_list_active (station v) n d) \<Longrightarrow> free_ad (station v) d0 (ad_id r)"
  using core_free(2) J_core ad_active_mem by blast

lemma free_due_ad [intro]: "J d \<Longrightarrow> ad_next_due (station v) now d = Some r \<Longrightarrow> free_ad (station v) d0 (ad_id r)"
  using core_free(2) J_core ad_due_mem by blast

section \<open>Statements\<close>

lemma safe_finish:
  "free_queue (station v) d0 i \<Longrightarrow> conn_safe J (mark_done now i)"
  "free_queue (station v) d0 i \<Longrightarrow> conn_safe J (mark_failed now i)"
  unfolding mark_done_def mark_failed_def
  by (rule conn_safeI; simp; intro both_simps(1) dml_safe; auto intro: upkeep_write.Finish)+

lemma safe_ad_end:
  "free_ad (station v) d0 i \<Longrightarrow> s = Done \<or> s = Failed \<Longrightarrow> conn_safe J (ad_mark s now i)"
  unfolding ad_mark_def
  by (rule conn_safeI; simp; intro both_simps(1) dml_safe; auto intro: upkeep_write.Ad_End)

lemma safe_ad_air: "free_ad (station v) d0 i \<Longrightarrow> i \<in> air \<Longrightarrow> conn_safe J (ad_mark Playing now i)"
  unfolding ad_mark_def
  by (rule conn_safeI; simp; intro both_simps(1) dml_safe; auto intro: upkeep_write.Ad_Air)

lemma safe_pop: "conn_safe J (pop_item i)"
  unfolding pop_item_def
  by (rule conn_safeI; simp; intro both_simps(1) dml_safe; auto intro: upkeep_write.Pop)

lemma safe_played: "conn_safe J (mark_played now i)"
  unfolding mark_played_def
  by (rule conn_safeI; simp; intro both_simps(1) dml_safe; auto intro: upkeep_write.Track)

lemma safe_track_write: "conn_safe J (updp (\<lambda>c. commit (dml (tracks_update f) c)))"
  by (rule conn_safeI; simp; intro both_simps(1) dml_safe; auto intro: upkeep_write.Track)

lemma safe_announcement: "conn_safe J (upsert_generated_announcement (station v) title path dur artist)"
  unfolding upsert_generated_announcement_def track_upsert_def
  by (rule conn_safeI; simp add: Let_def split: option.split;
      intro conjI allI impI both_simps(1) dml_safe; auto intro: upkeep_write.Track)

lemma safe_set_current: "conn_safe J (set_current (station v) source item why)"
proof (rule conn_safeI)
  fix c assume "both J c"
  then have put: "both J (dml (put_playout (station v) p) c)" for p
    by (intro dml_safe) (auto intro: upkeep_write.Current)
  have "both J (dml (transitions_update (\<lambda>ts. ts @ [t])) (dml (put_playout (station v) p) c))"
    if "tr_station t = (station v)" for t p
    using put [of p] by (rule both_dml) (erule J_write, rule upkeep_write.Log, rule that)
  with put show "both J (snd (set_current (station v) source item why c))"
    unfolding set_current_publish publish_def by (simp add: Let_def)
qed

lemma safe_upsert_station:
  "k \<in> set worker_keys \<Longrightarrow> conn_safe J (upsert_station (station v) [(k, x)])"
  unfolding upsert_station_def
  by (intro conn_safeI) (simp, intro both_simps(1) dml_safe upkeep_write.Setting)

lemma safe_insert_or_ignore: "conn_safe J (insert_or_ignore (station v) t p k)"
  unfolding insert_or_ignore_def
  by (rule conn_safeI; simp; intro conjI impI both_simps(3) dml_safe; auto intro: upkeep_write.Insert)

lemma safe_insert: "conn_safe J (queue_dml (insert_queue_row (station v) t p k))"
  unfolding queue_dml_def
  by (rule conn_safeI; simp; intro conjI impI both_simps(3) dml_safe; auto intro: upkeep_write.Insert)

lemma safe_commit: "conn_safe J (updp commit)"
  by (rule conn_safeI) simp

lemma J_bump: "J d \<Longrightarrow> J (bump_change_sequence (station v) d)"
  unfolding bump_change_sequence_def
  by (erule J_write) (rule upkeep_write.Setting, simp add: worker_keys_def)

lemma safe_enqueue: "conn_safe J (enqueue_or_get_existing (station v) t k m)"
proof (rule conn_safeI)
  fix c assume c: "both J c"
  let ?c1 = "if m \<and> \<not> in_tx c then c\<lparr>in_tx := True\<rparr> else c"
  have c1: "both J ?c1" "both J (commit (c\<lparr>in_tx := True\<rparr>))" using c by simp_all
  obtain e c2 where q: "queue_dml (insert_queue_row (station v) t (next_position (station v) (work ?c1)) k) ?c1 = (e, c2)"
    by force
  have "both J c2" using conn_safeD [OF safe_insert c1(1)] q by (metis snd_conv)
  then have "both J (dml (bump_change_sequence (station v)) c2)" by (rule both_dml) (rule J_bump)
  then show "both J (snd (enqueue_or_get_existing (station v) t k m c))"
    using c c1 q \<open>both J c2\<close>
    by (cases "find_by_dedupe_key (station v) k [Pending, Playing] (work ?c1)"; cases e)
      (simp_all add: enqueue_or_get_existing_def Let_def del: bindp_readp)
qed

lemma safe_shift: "both J c \<Longrightarrow> both J (dml (queue_items_update (shift_from (station v) p)) c)"
  by (erule dml_safe) (rule upkeep_write.Shift)

lemma safe_insert_before: "conn_safe J (insert_before_item_or_get_existing (station v) b t k ss)"
proof (rule conn_safeI)
  fix c assume c: "both J c"
  show "both J (snd (insert_before_item_or_get_existing (station v) b t k ss c))"
  proof (cases "find_by_dedupe_key (station v) k ss (work c)")
    case None
    show ?thesis
    proof (cases "find (\<lambda>r. active_at (station v) r \<and> q_id r = b) (queue_items (work c))")
      case (Some r)
      let ?p = "if q_position r = 0 then 1 else q_position r"
      let ?c2 = "dml (queue_items_update (shift_from (station v) ?p)) (c\<lparr>in_tx := True\<rparr>)"
      have "both J (snd (queue_dml (insert_queue_row (station v) t ?p k) ?c2))"
        using c by (intro conn_safeD [OF safe_insert] safe_shift) simp
      then show ?thesis
        using None Some c
        by (cases "queue_dml (insert_queue_row (station v) t ?p k) ?c2"; cases "fst (queue_dml (insert_queue_row (station v) t ?p k) ?c2)")
          (simp_all add: insert_before_item_or_get_existing_def begin_immediate_def Let_def)
    qed (use None c conn_safeD [OF safe_enqueue] in
        \<open>simp add: insert_before_item_or_get_existing_def\<close>)
  qed (use c in \<open>simp add: insert_before_item_or_get_existing_def\<close>)
qed

lemma safe_ad_enqueue: "conn_safe J (ad_enqueue (station v) t due prio key)"
proof (rule conn_safeI)
  fix c assume "both J c"
  then have "both J (dml (ads_update (\<lambda>rows. rows @ [r])) c)"
    if "ad_id r = next_rowid (map ad_id (ads (work c)))" "ad_station r = (station v)" "ad_status r = Pending" for r
    by (rule both_dml) (erule J_write, rule upkeep_write.Ad_New,
        use that next_rowid_fresh [of "map ad_id (ads (work c))"] in auto)
  then show "both J (snd (ad_enqueue (station v) t due prio key c))"
    using \<open>both J c\<close> by (simp add: ad_enqueue_def Let_def split: option.split)
qed

section \<open>Starting and completing items\<close>

lemma safe_set_playout: "safe J (set_playout v source item why)"
  by (simp add: set_playout_def safe_on_conn safe_set_current)

lemmas write_rules = safe_finish safe_ad_end safe_ad_air safe_pop safe_played safe_track_write
  safe_announcement safe_upsert_station safe_insert_or_ignore safe_insert safe_commit safe_enqueue
  safe_insert_before safe_ad_enqueue safe_set_playout

lemma safe_complete:
  "free_queue (station v) d0 (q_id r) \<Longrightarrow> safe J (complete_queue_item v r)"
  unfolding complete_queue_item_def by (intro step_rules write_rules) 

lemma safe_finish_playing: "safe J (finish_playing_queue_item v)"
  unfolding finish_playing_queue_item_def
  by (intro read_rules step_rules) (auto intro: safe_complete)

lemma safe_advance_host: "safe J (advance_host_track v)"
  unfolding advance_host_track_def by (intro read_rules step_rules write_rules)

section \<open>The ad pipeline\<close>

lemma safe_violation:
  "free_ad (station v) d0 (ad_id r) \<Longrightarrow> safe J (fail_ad_policy_violation v r)"
  unfolding fail_ad_policy_violation_def by (intro step_rules write_rules) auto

lemma safe_fail_each:
  "\<forall>r \<in> set rs. free_ad (station v) d0 (ad_id r) \<Longrightarrow> safe J (fail_each_ad v rs seen n)"
proof (induction rs arbitrary: seen n)
  case (Cons r rs)
  then show ?case by (simp, intro conjI impI step_rules safe_violation) auto
qed (simp add: invariant_frame.keeps_ret)

lemma safe_fail_disabled: "safe J (fail_disabled_active_ads v)"
  unfolding fail_disabled_active_ads_def
  by (intro read_rules, simp, intro conjI impI step_rules safe_fail_each) (auto intro: free_active_ad)

lemma safe_next_due: "safe J (next_due_ad_if_allowed v)"
  unfolding next_due_ad_if_allowed_def
  by (intro read_rules step_rules safe_fail_disabled)

lemma safe_restart_ad:
  assumes "free_ad (station v) d0 (ad_id r)" "ad_id r \<in> air"
  shows "safe J (restart_playing_ad_item_if_mismatched v r)"
  unfolding restart_playing_ad_item_if_mismatched_def Let_def
  by (intro step_rules read_rules write_rules safe_violation assms) auto

lemma safe_finish_ad: "free_ad (station v) d0 (ad_id r) \<Longrightarrow> safe J (finish_ad v r)"
  unfolding finish_ad_def by (intro step_rules write_rules) auto

lemma safe_advance_ad: "safe J (advance_playing_ad_item v)"
  unfolding advance_playing_ad_item_def Let_def
  by (intro read_rules, simp split: option.split stamp.split,
      intro conjI impI allI step_rules safe_violation safe_restart_ad safe_finish_ad)
    auto

lemma safe_enqueue_ads: "conn_safe J (enqueue_ads (station v) due bucket n ts)"
  by (induction ts arbitrary: n) (simp_all, intro step_rules safe_ad_enqueue, auto intro: step_rules safe_ad_enqueue)

lemma safe_hourly: "safe J (ensure_hourly_ad_break v)"
  unfolding ensure_hourly_ad_break_def Let_def
  by (intro read_rules, simp split: sum.split, intro conjI impI allI step_rules safe_enqueue_ads)

section \<open>The playing queue item\<close>

lemma safe_restart_queue:
  assumes "free_queue (station v) d0 (q_id r)"
  shows "safe J (restart_playing_queue_item_if_mismatched v r off)"
  unfolding restart_playing_queue_item_if_mismatched_def Let_def
  by (intro step_rules read_rules write_rules assms)

lemma safe_complete_true:
  "free_queue (station v) d0 (q_id r) \<Longrightarrow> safe J (complete_true v r)"
  unfolding complete_true_def by (intro step_rules safe_complete)

lemma safe_advance_by_time:
  assumes "free_queue (station v) d0 (q_id r)"
  shows "safe J (advance_by_time v r played)"
  unfolding advance_by_time_def Let_def
  by (intro read_rules step_rules safe_complete_true safe_restart_queue assms)

lemma safe_stamp:
  "safe J m \<Longrightarrow> (\<And>t. safe J (f t)) \<Longrightarrow> safe J n \<Longrightarrow>
   safe J (case x of NullStamp \<Rightarrow> m | At t \<Rightarrow> f t | Garbled \<Rightarrow> n)"
  by (cases x) auto

lemma safe_advance_queue: "safe J (advance_playing_queue_item v)"
  unfolding advance_playing_queue_item_def Let_def
  by (intro read_rules step_rules safe_stamp safe_complete_true safe_restart_queue safe_advance_by_time)
    auto

section \<open>Filling the queue\<close>

lemma safe_clear_startup: "safe J (clear_startup_sound_pending v)"
  unfolding clear_startup_sound_pending_def by (intro step_rules write_rules) (simp add: worker_keys_def)

lemma safe_put_setting:
  "k \<in> set worker_keys \<Longrightarrow> conn_safe J (updp (dml (put_setting (station v) k x)))"
  by (rule conn_safeI) (simp add: dml_safe upkeep_write.Setting)

lemma safe_startup: "safe J (maybe_insert_startup_sound v)"
  unfolding maybe_insert_startup_sound_def Let_def
  by (intro read_rules step_rules write_rules safe_clear_startup safe_put_setting)
    (simp add: worker_keys_def)

lemma safe_sweeper_jingle: "safe J (maybe_insert_sweeper_jingle v)"
  unfolding maybe_insert_sweeper_jingle_def Let_def
  by (intro read_rules step_rules write_rules)

lemma safe_remove_jingles: "safe J (remove_pending_jingles v)"
  unfolding remove_pending_jingles_def
proof (intro safe_on_conn conn_safeI)
  fix c assume c: "both J c"
  let ?ids = "map q_id (filter (pending_jingle (station v) (work c)) (queue_items (work c)))"
  have "\<forall>i \<in> set ?ids. own_queue (station v) i (work c)"
    using c free_row [of "work c"] by (auto simp: both_def pending_jingle_def pending_at_def intro!: own)
  then have "both J (dml (queue_items_update (delete_where (\<lambda>r. q_id r \<in> set ?ids))) c)"
    using c by (intro dml_safe upkeep_write.Remove)
  with c show "both J (snd (let ids = ?ids in
      if ids = [] then (Inr 0, c)
      else (Inr (rowcount (\<lambda>r. q_id r \<in> set ids) (queue_items (work c))),
            commit (dml (queue_items_update (delete_where (\<lambda>r. q_id r \<in> set ids))) c))))"
    by (simp add: Let_def)
qed

lemma safe_fail_rows:
  assumes "\<forall>i \<in> set ids. free_queue (station v) d0 i"
  shows "conn_safe J (updp (\<lambda>c. commit (dml (queue_items_update (update_where (\<lambda>r. q_id r \<in> set ids)
      (\<lambda>r. r\<lparr>q_status := Failed, q_finished := Some now\<rparr>))) c)))"
  using assms by (intro conn_safeI) (simp, intro both_simps(1) dml_safe upkeep_write.Quarantine, auto)

lemma safe_quarantine: "safe J (fail_cross_station_queue_items v)"
  unfolding fail_cross_station_queue_items_def
  by (intro read_rules step_rules safe_fail_rows safe_set_playout)
    (auto simp: cross_station_def active_at_def intro: free_row)

lemma safe_probe: "safe J (probe_and_store_track_duration v tid)"
  unfolding probe_and_store_track_duration_def Let_def
  by (intro read_rules step_rules write_rules)

lemma safe_select: "safe J (select_random_music_track v ex)"
  unfolding select_random_music_track_def
  by (intro read_rules step_rules safe_probe)

lemma safe_fill_music: "safe J (fill_music v a)"
  unfolding fill_music_def by (intro step_rules safe_select write_rules)

lemma safe_fill_jingle: "safe J (fill_jingle v sw a)"
  unfolding fill_jingle_def Let_def by (intro read_rules step_rules write_rules)

lemma safe_autofill_loop: "safe J (autofill_loop v sw n a)"
proof (induction n arbitrary: a)
  case (Suc n)
  show ?case
    unfolding autofill_loop.simps by (intro step_rules safe_fill_jingle safe_fill_music Suc)
qed (simp add: invariant_frame.keeps_ret)

lemma safe_autofill: "safe J (autofill_queue v)"
  unfolding autofill_queue_def Let_def
  by (intro read_rules step_rules write_rules safe_autofill_loop)

lemma safe_enqueue_announcement: "safe J (enqueue_ai_announcement v an before key)"
  unfolding enqueue_ai_announcement_def Let_def
  by (intro step_rules write_rules)

lemma safe_announce: "safe J (announce_once v key before)"
  unfolding announce_once_def by (intro read_rules step_rules safe_enqueue_announcement)

lemma safe_prepare_ai: "safe J (maybe_prepare_ai_queue v)"
  unfolding maybe_prepare_ai_queue_def Let_def
  by (intro read_rules step_rules write_rules safe_announce) (simp add: worker_keys_def)

lemma safe_update_sweepers: "safe J (update_sweepers v)"
  unfolding update_sweepers_def
  by (intro read_rules step_rules safe_sweeper_jingle safe_remove_jingles)

lemma safe_skip_loop: "(case p of None \<Rightarrow> True | Some r \<Rightarrow> free_queue (station v) d0 (q_id r)) \<Longrightarrow>
  safe J (skip_loop v tid n p)"
proof (induction n arbitrary: p)
  case (Suc n)
  show ?case
  proof (cases p)
    case (Some r)
    have "safe J (skip_loop v tid n (next_pending (station v) d))" if "J d" for d
      using that by (intro Suc.IH) (auto split: option.split)
    then show ?thesis
      using Suc.prems Some by (simp, intro read_rules step_rules write_rules) auto
  qed (simp add: invariant_frame.keeps_ret)
qed (simp add: invariant_frame.keeps_ret)

lemma safe_skip_duplicates:
  "(case p of None \<Rightarrow> True | Some r \<Rightarrow> free_queue (station v) d0 (q_id r)) \<Longrightarrow>
   safe J (skip_duplicate_pending v p)"
  unfolding skip_duplicate_pending_def by (intro step_rules read_rules safe_skip_loop)

section \<open>The whole upkeep and the choice\<close>

lemma safe_upkeep: "safe J (upkeep v)"
  unfolding upkeep_def
  by (intro step_rules safe_startup safe_quarantine safe_autofill safe_update_sweepers safe_prepare_ai
      safe_advance_queue safe_advance_ad safe_fail_disabled safe_hourly safe_advance_host)

lemma safe_choose: "safe J (choose_next v sso)"
  unfolding choose_next_def Let_def
  by (intro read_rules, simp,
      intro conjI impI read_rules step_rules safe_skip_duplicates safe_next_due) (auto split: option.split)

end

end
