(* ===== verification/Tick_Frame.thy ===== *)
theory Tick_Frame
  imports Worker_Upkeep
begin

text \<open>
  The rest of a tick: the lease, the show life cycle and the start of the chosen item, in an
  interface that extends the one of the upkeep by the remaining writes.
\<close>

section \<open>What a program returns\<close>

definition yields :: "(db \<Rightarrow> bool) \<Rightarrow> ('r, 'a) wprog \<Rightarrow> ('a \<Rightarrow> bool) \<Rightarrow> bool" where
  "yields J m Q \<longleftrightarrow> (\<forall>s x t. bothw J s \<and> m s = (Inr x, t) \<longrightarrow> Q x)"

lemma yieldsD: "yields J m Q \<Longrightarrow> bothw J s \<Longrightarrow> m s = (Inr x, t) \<Longrightarrow> Q x"
  by (auto simp: yields_def)

lemma yields_ret: "Q x \<Longrightarrow> yields J (ret x) Q"
  by (simp add: yields_def prog_defs)

lemma yields_raise: "yields J (raise_exn e) Q"
  by (simp add: yields_def prog_defs)

lemma yields_view: "(\<And>d. J d \<Longrightarrow> Q (g d)) \<Longrightarrow> yields J (viewp g) Q"
  by (auto simp: yields_def viewp_def readp_def dest: bothw_wdb)

lemma yields_bind:
  assumes "safe J m" "yields J m P" "\<And>x. P x \<Longrightarrow> yields J (f x) Q"
  shows "yields J (bindp m f) Q"
  unfolding yields_def
proof (intro allI impI, elim conjE)
  fix s y t
  assume "bothw J s" "bindp m f s = (Inr y, t)"
  then obtain x s1 where "m s = (Inr x, s1)" "f x s1 = (Inr y, t)"
    by (auto simp: bindp_def split: prod.splits sum.splits)
  moreover from this have "bothw J s1" using safeD [OF assms(1) \<open>bothw J s\<close>] by simp
  ultimately show "Q y" using assms(2,3) \<open>bothw J s\<close> yieldsD by metis
qed

lemma yields_bind_any:
  "safe J m \<Longrightarrow> (\<And>x. yields J (f x) Q) \<Longrightarrow> yields J (bindp m f) Q"
  by (rule yields_bind [where P = "\<lambda>_. True"]) (simp_all add: yields_def)

lemma yields_bind_view: "(\<And>d. J d \<Longrightarrow> yields J (f (g d)) Q) \<Longrightarrow> yields J (bindp (viewp g) f) Q"
  by (rule yields_bind [where P = "\<lambda>x. \<exists>d. J d \<and> x = g d"])
     (auto intro: safe_viewp yields_view)

lemma yields_if: "(b \<Longrightarrow> yields J m Q) \<Longrightarrow> (\<not> b \<Longrightarrow> yields J n Q) \<Longrightarrow> yields J (if b then m else n) Q"
  by simp

lemma yields_mono: "yields J m P \<Longrightarrow> (\<And>x. P x \<Longrightarrow> Q x) \<Longrightarrow> yields J m Q"
  by (auto simp: yields_def)

lemma safe_bind_yields:
  fixes m :: "('r, 'a) wprog"
  assumes "safe J m" "yields J m Q" "\<And>x. Q x \<Longrightarrow> safe J (f x)"
  shows "safe J (bindp m f)"
proof (rule safeI)
  fix s :: "'r wstate" assume s: "bothw J s"
  show "bothw J (snd (bindp m f s))"
  proof (cases "m s")
    case (Pair r t)
    then have "bothw J t" using safeD [OF assms(1) s] by simp
    then show ?thesis
      using Pair assms(2,3) s by (cases r) (auto simp: bindp_def dest: yieldsD safeD)
  qed
qed

lemma safe_after: "bothw J (snd (m s)) \<Longrightarrow> (\<And>x. safe J (f x)) \<Longrightarrow> bothw J (snd (bindp m f s))"
  by (cases "m s"; cases "fst (m s)") (auto simp: bindp_def dest: safeD)

section \<open>The number of playing rows\<close>

text \<open>Between the choice and the start nothing sets a queue row playing.\<close>

definition fewer_playing :: "int \<Rightarrow> 'r wstate \<Rightarrow> 'r wstate \<Rightarrow> bool" where
  "fewer_playing st s t \<longleftrightarrow> length (playing_rows st (wdb t)) \<le> length (playing_rows st (wdb s))"

interpretation playing_frame: step_frame "fewer_playing st" for st
  by unfold_locales (auto simp: fewer_playing_def)

lemma fewer_on_conn:
  "(\<And>c. length (playing_rows st (work (snd (m c)))) \<le> length (playing_rows st (work c))) \<Longrightarrow>
   keeps (fewer_playing st) (on_conn m)"
  by (simp add: keeps_def fewer_playing_def on_conn_state wdb_def)

lemma fewer_viewp: "keeps (fewer_playing st) (viewp g)"
  by (simp add: viewp_def playing_frame.keeps_readp)

lemma fewer_mark_done: "keeps (fewer_playing st) (on_conn (mark_done now i))"
proof (rule fewer_on_conn)
  fix c
  show "length (playing_rows st (work (snd (mark_done now i c)))) \<le> length (playing_rows st (work c))"
    unfolding mark_done_def playing_rows_def set_finished_def
    by (simp, intro length_filter_update_le) (simp add: playing_at_def)
qed

lemma fewer_ad_mark: "keeps (fewer_playing st) (on_conn (ad_mark s now i))"
  by (rule fewer_on_conn) (simp add: ad_mark_def playing_rows_def)

lemma set_current_queue [simp]: "queue_items (work (snd (set_current st source item why c))) = queue_items (work c)"
  by (simp add: set_current_publish publish_def Let_def)

lemma fewer_set_playout: "keeps (fewer_playing st) (set_playout v source item why)"
  unfolding set_playout_def by (rule fewer_on_conn) (simp add: playing_rows_def)

lemmas fewer_rules = playing_frame.keeps_rules fewer_viewp fewer_mark_done fewer_ad_mark fewer_set_playout

lemma fewer_fail_each: "keeps (fewer_playing st) (fail_each_ad v rs seen n)"
proof (induction rs arbitrary: seen n)
  case (Cons r rs)
  show ?case
    unfolding fail_each_ad.simps fail_ad_policy_violation_def by (intro fewer_rules Cons)
qed (simp add: playing_frame.keeps_ret)

lemma fewer_next_due: "keeps (fewer_playing st) (next_due_ad_if_allowed v)"
  unfolding next_due_ad_if_allowed_def fail_disabled_active_ads_def
  by (intro fewer_rules fewer_fail_each)

lemma fewer_skip_loop: "keeps (fewer_playing st) (skip_loop v tid n p)"
proof (induction n arbitrary: p)
  case (Suc n)
  show ?case
  proof (cases p)
    case (Some r)
    show ?thesis unfolding Some skip_loop.simps by (intro fewer_rules Suc)
  qed (simp add: playing_frame.keeps_ret)
qed (simp add: playing_frame.keeps_ret)

lemma fewer_choose: "keeps (fewer_playing st) (choose_next v sso)"
  unfolding choose_next_def skip_duplicate_pending_def Let_def
  by (intro fewer_rules fewer_skip_loop fewer_next_due)

section \<open>The interface of a tick\<close>

locale playout_frame = upkeep_frame v air d0 J
    for v :: "'r env" and air :: "int set" and d0 :: db and J :: "db \<Rightarrow> bool" +
  assumes J_playout: "J d \<Longrightarrow> playout_write (station v) air d d' \<Longrightarrow> J d'"
begin

lemma dml_tick:
  "both J c \<Longrightarrow> (J (work c) \<Longrightarrow> playout_write (station v) air (work c) (g (work c))) \<Longrightarrow> both J (dml g c)"
  by (rule both_dml) (auto intro: J_playout)

lemma own_more [intro]:
  "J d \<Longrightarrow> free_sched (station v) d0 i \<Longrightarrow> own_sched (station v) i d"
  "J d \<Longrightarrow> free_session (station v) d0 i \<Longrightarrow> own_session (station v) i d"
  using core_own(3) [OF J_core, of d i] core_own(4) [OF J_core, of d i] by simp_all

lemma safe_sched_mark: "free_sched (station v) d0 i \<Longrightarrow> conn_safe J (sched_mark s i)"
  unfolding sched_mark_def
  by (rule conn_safeI; simp; intro both_simps(1) dml_tick playout_write.Sched; blast)

lemma mark_playing_both:
  assumes "both J c" "free_queue (station v) d0 i" "current_playing (station v) (work c) = None"
  shows "both J (snd (mark_playing now i c))"
proof (cases "queue_index_ok (set_playing now i (queue_items (work c)))")
  case True
  then have "both J (dml (queue_items_update (set_playing now i)) c)"
    using assms by (intro dml_tick playout_write.Play) auto
  then show ?thesis using True by (simp add: mark_playing_def queue_dml_def bindp_def updp_def)
next
  case False
  then show ?thesis using assms by (simp add: mark_playing_def queue_dml_def bindp_def)
qed

text \<open>The id of a started item is the station's, and an ad may go on air.\<close>

definition startable :: "kind \<Rightarrow> int \<Rightarrow> bool" where
  "startable k i \<longleftrightarrow> (case k of
     Manual \<Rightarrow> free_queue (station v) d0 i
   | Ads \<Rightarrow> free_ad (station v) d0 i \<and> i \<in> air
   | Schedule \<Rightarrow> free_sched (station v) d0 i)"

lemma safe_mark_end: "startable k i \<Longrightarrow> s = Done \<or> s = Failed \<Longrightarrow> conn_safe J (kind_mark k s now i)"
  by (cases k) (auto simp: startable_def intro: safe_finish safe_ad_end safe_sched_mark)

lemma mark_start_both:
  assumes "both J c" "startable k i" "k = Manual \<Longrightarrow> current_playing (station v) (work c) = None"
  shows "both J (snd (kind_mark k Playing now i c))"
  using assms mark_playing_both conn_safeD [OF safe_ad_air] conn_safeD [OF safe_sched_mark]
  by (cases k) (auto simp: startable_def)

lemma safe_restore: "startable k i \<Longrightarrow> conn_safe J (restore_managed_item_pending (kind_text k) i)"
proof (rule conn_safeI)
  fix c assume k: "startable k i" and c: "both J c"
  have lows: "lower (strip (kind_text k)) = kind_text k" by (cases k) (simp_all, code_simp+)
  show "both J (snd (restore_managed_item_pending (kind_text k) i c))"
  proof (cases k)
    case Manual
    show ?thesis
    proof (cases "queue_index_ok (update_where (\<lambda>r. q_id r = i) requeue_row (queue_items (work c)))")
      case True
      then have "both J (dml (queue_items_update (update_where (\<lambda>r. q_id r = i) requeue_row)) c)"
        using c k Manual by (intro dml_tick playout_write.Requeue) (auto simp: startable_def)
      then show ?thesis
        using True lows Manual by (simp add: restore_managed_item_pending_def queue_dml_def bindp_def updp_def)
    next
      case False
      then show ?thesis
        using c lows Manual by (simp add: restore_managed_item_pending_def queue_dml_def bindp_def)
    qed
  next
    case Ads
    then have "both J (dml (ads_update (update_where (\<lambda>r. ad_id r = i) (\<lambda>r. r\<lparr>ad_status := Pending\<rparr>))) c)"
      using c k by (intro dml_tick playout_write.Ad_Back) (auto simp: startable_def)
    then show ?thesis using lows Ads by (simp add: restore_managed_item_pending_def updp_def)
  next
    case Schedule
    then have "both J (dml (schedules_update (sched_set_status Pending i)) c)"
      using c k by (intro dml_tick playout_write.Sched) (auto simp: startable_def)
    then show ?thesis using lows Schedule by (simp add: restore_managed_item_pending_def updp_def)
  qed
qed

lemma play_managed_both:
  assumes "bothw J s" "startable k i" "k = Manual \<Longrightarrow> current_playing (station v) (wdb s) = None"
  shows "bothw J (snd (play_managed_item v k i track auto s))"
  unfolding play_managed_item_def Let_def
proof (rule safe_after)
  show "bothw J (snd (on_conn (kind_mark k Playing (wall v) i) s))"
    using mark_start_both [of "wconn s" k i "wall v"] assms by (simp add: bothw_def wdb_def on_conn_state)
qed (intro step_rules write_rules safe_mark_end safe_restore read_rules assms(2); simp)

lemma safe_play_host: "safe J (play_host_track v i track)"
  unfolding play_host_track_def
  by (intro step_rules read_rules write_rules safe_finish_playing)

section \<open>Clips and notifications of a show\<close>

lemma safe_show_audio: "safe J (play_show_audio v path source)"
  unfolding play_show_audio_def Let_def by (intro step_rules write_rules)

lemma safe_try_clip: "safe J (try_show_clip v ss clip source)"
  unfolding try_show_clip_def by (intro read_rules step_rules safe_show_audio)

lemma safe_notices: "safe J (forget_notice key)" "safe J (notify_debounced key now)"
  by (auto simp: forget_notice_def notify_debounced_def bothw_def split: option.split intro!: safeI)

lemma free_first_pending_ad:
  "J d \<Longrightarrow> first_pending_ad (station v) d = Some r \<Longrightarrow> free_ad (station v) d0 (ad_id r)"
  unfolding first_pending_ad_def
  by (drule first_of_sort_memD) (use core_free(2) J_core in blast)

lemma safe_missed: "free_ad (station v) d0 i \<Longrightarrow> conn_safe J (mark_missed i)"
  unfolding mark_missed_def
  by (rule conn_safeI; simp; intro both_simps(1) dml_tick playout_write.Ad_Back) auto

lemma safe_ad_timing: "safe J (check_ad_break_timing v ss)"
  unfolding check_ad_break_timing_def Let_def
proof (rule safe_view)
  fix d assume d: "J d"
  show "safe J (case (py_int (setting_or (get_station (station v) (id d)) ''ad_break_advance_notice'' ''5''),
             py_int (setting_or (get_station (station v) (id d)) ''ad_break_tolerance_minutes'' ''10''),
             first_pending_ad (station v) (id d)) of
         (Some advance, Some tolerance, Some r) \<Rightarrow>
           (case ad_due r of
              None \<Rightarrow> ret ()
            | Some due \<Rightarrow>
                if due + 60 * of_int tolerance < wall v
                then bindp (on_conn (mark_missed (ad_id r))) (\<lambda>_. forget_notice (''ad_upcoming'', ad_id r))
                else if due - 60 * of_int advance \<le> wall v
                then notify_debounced (''ad_upcoming'', ad_id r) (wall v)
                else ret ())
       | _ \<Rightarrow> ret ())"
    using free_first_pending_ad [OF d]
    by (auto split: option.split intro!: step_rules safe_notices safe_missed)
qed

lemma safe_queue_low: "safe J (check_show_queue_low v ss)"
  unfolding check_show_queue_low_def Let_def by (intro read_rules step_rules safe_notices)

section \<open>The choice and the start\<close>

definition choice_ok :: "session_row option \<Rightarrow> choice \<Rightarrow> bool" where
  "choice_ok sso ch \<longleftrightarrow>
     (\<forall>r. ch_pending ch = Some r \<longrightarrow> free_queue (station v) d0 (q_id r)) \<and>
     (\<forall>r. ch_sched ch = Some r \<longrightarrow> free_sched (station v) d0 (sc_id r)) \<and>
     (\<forall>r. ch_ad ch = Some r \<longrightarrow> free_ad (station v) d0 (ad_id r) \<and> (\<exists>d. J d \<and> ads_enabled (station v) d)) \<and>
     (ch_source ch = ''ads'' \<longrightarrow> \<not> ad_suppressed sso)"

abbreviation free_row_opt :: "queue_row option \<Rightarrow> bool" where
  "free_row_opt p \<equiv> (\<forall>r. p = Some r \<longrightarrow> free_queue (station v) d0 (q_id r))"

lemma yields_skip_loop: "free_row_opt p \<Longrightarrow> yields J (skip_loop v tid n p) free_row_opt"
proof (induction n arbitrary: p)
  case (Suc n)
  show ?case
  proof (cases p)
    case (Some r)
    then have r: "free_queue (station v) d0 (q_id r)" using Suc.prems by simp
    have "yields J (skip_loop v tid n (next_pending (station v) d)) free_row_opt" if "J d" for d
      using that by (intro Suc.IH) auto
    then show ?thesis
      unfolding Some skip_loop.simps
      by (intro yields_bind_view yields_if yields_bind_any yields_ret safe_on_conn safe_finish r) (simp_all add: r)
  qed (simp add: yields_ret)
qed (simp add: yields_ret)

lemma yields_skip: "free_row_opt p \<Longrightarrow> yields J (skip_duplicate_pending v p) free_row_opt"
  unfolding skip_duplicate_pending_def
  by (intro yields_if yields_ret yields_bind_view yields_skip_loop) simp_all

lemma yields_next_due: "yields J (next_due_ad_if_allowed v)
  (\<lambda>x. \<forall>r. x = Some r \<longrightarrow> free_ad (station v) d0 (ad_id r) \<and> (\<exists>d. J d \<and> ads_enabled (station v) d))"
  unfolding next_due_ad_if_allowed_def
proof (intro yields_bind_view yields_if yields_bind_any safe_fail_disabled yields_ret)
  fix d assume "J d" "\<not> \<not> ads_enabled (station v) d"
  then show "yields J (viewp (ad_next_due (station v) (wall v)))
    (\<lambda>x. \<forall>r. x = Some r \<longrightarrow> free_ad (station v) d0 (ad_id r) \<and> (\<exists>d. J d \<and> ads_enabled (station v) d))"
    by (intro yields_view) auto
qed simp

lemma choose_source_ads: "choose_source m a sc f h = ''ads'' \<Longrightarrow> a"
  by (simp add: choose_source_def split: if_splits)

lemma yields_choose: "yields J (choose_next v sso) (choice_ok sso)"
proof -
  let ?skip = "\<lambda>playing first. if playing then ret first else skip_duplicate_pending v first"
  have skip: "safe J (?skip b p)" "yields J (?skip b p) free_row_opt" if "free_row_opt p" for b p
    using that by (auto intro!: safe_skip_duplicates yields_skip yields_ret invariant_frame.keeps_ret
        split: option.split)
  have sched: "sched_next_ready (station v) (wall v) d = Some r \<Longrightarrow> free_sched (station v) d0 (sc_id r)"
    if "J d" for d r
    unfolding sched_next_ready_def
    by (drule first_of_sort_memD)
      (use core_free(3) [OF J_core [OF that], of r] in \<open>simp add: sched_ready_def\<close>)
  show ?thesis
    unfolding choose_next_def Let_def
    by (rule yields_bind_view, simp only: prod.case, rule yields_bind [OF skip], blast, blast,
        rule yields_bind [OF safe_next_due yields_next_due], rule yields_bind_view,
        simp only: prod.case, rule yields_ret)
      (auto simp: choice_ok_def dest: sched choose_source_ads)
qed

lemma choose_manual:
  assumes "choose_next v sso s = (Inr ch, t)" "ch_source ch = ''manual''"
  shows "current_playing (station v) (wdb t) = None"
proof -
  have "current_playing (station v) (wdb s) = None"
    using assms
    by (auto simp: choose_next_def viewp_def bindp_def readp_def ret_def Let_def choose_source_def
        split: prod.splits sum.splits if_splits)
  moreover have "fewer_playing (station v) s t" using keeps_result [OF fewer_choose assms(1)] .
  ultimately show ?thesis by (simp add: current_playing_None fewer_playing_def)
qed

lemma safe_play_other: "k \<noteq> Manual \<Longrightarrow> startable k i \<Longrightarrow> safe J (play_managed_item v k i track auto)"
  by (intro safeI play_managed_both) simp_all

lemma play_choice_both:
  assumes "bothw J t" "choice_ok sso ch"
    and "ch_source ch = ''manual'' \<Longrightarrow> current_playing (station v) (wdb t) = None"
    and air: "\<And>d. J d \<Longrightarrow> ads_enabled (station v) d \<Longrightarrow> \<not> ad_suppressed sso \<Longrightarrow> air = UNIV"
  shows "bothw J (snd (play_choice v ch t))"
proof (cases "ch_source ch = ''manual''")
  case True
  then show ?thesis
    using assms play_managed_both [OF assms(1), of Manual]
    by (cases "ch_pending ch") (simp_all add: play_choice_def choice_ok_def startable_def)
next
  case False
  have ads: "startable Ads (ad_id r)" if "ch_ad ch = Some r" "ch_source ch = ''ads''" for r
    using assms(2) air that by (auto simp: choice_ok_def startable_def)
  have sched: "startable Schedule (sc_id r)" if "ch_sched ch = Some r" for r
    using assms(2) that by (auto simp: choice_ok_def startable_def)
  have "safe J (play_choice v ch)"
    unfolding play_choice_def play_fallback_def Let_def
    by (intro step_rules safe_play_host safe_play_other safe_finish_playing)
      (use False in \<open>simp_all add: ads sched\<close>)
  then show ?thesis using assms(1) by (rule safeD)
qed

lemma safe_choose_and_play:
  assumes "\<And>d. J d \<Longrightarrow> ads_enabled (station v) d \<Longrightarrow> \<not> ad_suppressed sso \<Longrightarrow> air = UNIV"
  shows "safe J (bindp (choose_next v sso) (play_choice v))"
proof (rule safeI)
  fix s :: "'r wstate" assume s: "bothw J s"
  show "bothw J (snd (bindp (choose_next v sso) (play_choice v) s))"
  proof (cases "choose_next v sso s")
    case (Pair r t)
    then have t: "bothw J t" using safeD [OF safe_choose [of sso] s] by simp
    show ?thesis
    proof (cases r)
      case (Inr ch)
      have ok: "choice_ok sso ch" using yieldsD [OF yields_choose s] Pair Inr by blast
      have "ch_source ch = ''manual'' \<Longrightarrow> current_playing (station v) (wdb t) = None"
        using choose_manual Pair Inr by blast
      from play_choice_both [OF t ok this assms] show ?thesis
        using Pair Inr by (simp add: bindp_def)
    qed (use Pair t in \<open>simp add: bindp_def\<close>)
  qed
qed

lemma safe_lease: "safe J (on_conn (try_acquire secs now (station v) w))"
  unfolding try_acquire_def Let_def
proof (intro safe_on_conn conn_safeI)
  fix c assume c: "both J c"
  have "both J (dml (\<lambda>d. if takes then d\<lparr>leases := (leases d)(station v := l)\<rparr> else d) c)" for takes l
    using c by (rule both_dml) (auto intro: J_playout playout_write.Lease)
  then show "both J (snd (Inr takes, commit (dml (\<lambda>d. if takes then d\<lparr>leases := (leases d)(station v := l)\<rparr> else d) c)))"
    for takes l by simp
qed

lemma active_session_free:
  "J d \<Longrightarrow> get_active_for_station (station v) d = Some ss \<Longrightarrow> free_session (station v) d0 (ss_id ss)"
proof -
  assume d: "J d" and "get_active_for_station (station v) d = Some ss"
  then have "ss \<in> set (sessions d)" "ss_station ss = station v"
    by (auto simp: get_active_for_station_def first_of_def split: list.splits dest!: arg_cong [where f = set])
  then show ?thesis using core_free(4) J_core [OF d] by blast
qed

end

section \<open>The show life cycle\<close>

locale tick_frame = playout_frame v air d0 J
    for v :: "'r env" and air :: "int set" and d0 :: db and J :: "db \<Rightarrow> bool" +
  assumes J_tick: "J d \<Longrightarrow> station_write (station v) air d d' \<Longrightarrow> J d'"
begin

lemma safe_update_session:
  assumes "free_session (station v) d0 i"
  shows "safe J (update_show_session_status v i s)"
  unfolding update_show_session_status_def
proof (intro step_rules conn_safeI)
  fix c assume c: "both J c"
  let ?rows = "session_set_status (wall v) i s (sessions (work c))"
  have "J (sessions_update (\<lambda>_. ?rows) (work c))" if "session_index_ok ?rows"
  proof -
    have "J (sessions_update (session_set_status (wall v) i s) (work c))"
      using c that assms by (intro J_tick [OF _ station_write.Session]) (auto simp: both_def)
    moreover have "sessions_update (session_set_status (wall v) i s) (work c)
        = sessions_update (\<lambda>_. ?rows) (work c)" by (cases "work c") simp
    ultimately show ?thesis by simp
  qed
  then show "both J (snd (update_status (wall v) i s c))"
    using c by (simp add: update_status_def Let_def both_def)
qed

lemma safe_end_show:
  assumes "free_session (station v) d0 (ss_id ss)"
  shows "safe J (end_show_session v ss)"
proof -
  have "conn_safe J (end_session (wall v) (ss_id ss))"
    unfolding end_session_def Let_def
    by (rule conn_safeI; simp; intro both_simps(1) both_dml; simp?; erule J_tick [OF _ station_write.Session_End [OF own_more(2)]])
      (use assms in \<open>auto simp: both_def\<close>)
  moreover have "conn_safe J (set_source (station v) x)" for x
    unfolding set_source_def
    by (rule conn_safeI; simp; intro conjI impI both_simps(1) dml_safe upkeep_write.Setting)
      (simp_all add: worker_keys_def)
  ultimately show ?thesis
    unfolding end_show_session_def by (intro step_rules write_rules)
qed

lemma safe_lifecycle:
  assumes "\<And>ss. sso = Some ss \<Longrightarrow> free_session (station v) d0 (ss_id ss)"
  shows "safe J (process_show_lifecycle v sso)"
proof (cases sso)
  case (Some ss)
  have free: "free_session (station v) d0 (ss_id ss)" using assms Some by simp
  have "safe J (handle_going_live v ss)" "safe J (handle_on_break v ss)"
    unfolding handle_going_live_def handle_on_break_def
    by (intro read_rules step_rules safe_try_clip safe_update_session safe_next_due free)+
  moreover have "safe J (handle_show_audio_state v ss)"
    unfolding handle_show_audio_state_def
    by (intro step_rules)
      (cases "ss_status ss"; simp; intro step_rules safe_update_session safe_end_show free)
  ultimately show ?thesis
    using Some by (cases "ss_status ss")
      (auto simp: process_show_lifecycle_def intro!: step_rules safe_queue_low safe_ad_timing)
qed (simp add: process_show_lifecycle_def invariant_frame.keeps_ret)

section \<open>The whole tick\<close>

lemma safe_rest:
  assumes "\<And>d. J d \<Longrightarrow> ads_enabled (station v) d \<Longrightarrow> \<not> ad_suppressed sso \<Longrightarrow> air = UNIV"
    and "\<And>ss. sso = Some ss \<Longrightarrow> free_session (station v) d0 (ss_id ss)"
  shows "safe J (rest_of_tick v sso)"
  unfolding rest_of_tick_def
  by (intro step_rules read_rules safe_lifecycle safe_upkeep safe_choose_and_play assms)

lemma safe_process:
  assumes "air = UNIV"
  shows "safe J (process_once v)"
proof -
  have "safe J (process_leased v)"
    unfolding process_leased_def
    by (intro step_rules safe_recover safe_view safe_rest) (auto simp: assms intro: active_session_free)
  then show ?thesis
    unfolding process_once_def by (intro step_rules safe_lease) (auto intro: safe_lease)
qed

end

end
