(* ===== verification/Worker_Props.thy ===== *)
theory Worker_Props
  imports Tick_Frame
begin

text \<open>
  What the station worker guarantees: a tick only performs permitted writes, leaves other stations
  alone, keeps at most one queue item on air, starts no ad during a show and moves shows along
  their life cycle.
\<close>

section \<open>Ticks\<close>

text \<open>Any number of ticks of one station, each with its own clock readings and surroundings.\<close>

fun ticks :: "'r env list \<Rightarrow> 'r wstate \<Rightarrow> 'r wstate" where
  "ticks [] s = s"
| "ticks (v # vs) s = ticks vs (snd (process_once v s))"

definition reached :: "int \<Rightarrow> db \<Rightarrow> db \<Rightarrow> bool" where
  "reached st d0 d \<longleftrightarrow> ids_ok d0 \<and> station_writes st d0 d"

lemma reached_core: "reached st d0 d \<Longrightarrow> upkeep_core st UNIV d0 d"
  by (auto simp: reached_def upkeep_core_def intro: writes_ids writes_elsewhere)

lemma reached_step: "reached st d0 d \<Longrightarrow> station_write st UNIV d d' \<Longrightarrow> reached st d0 d'"
  by (auto simp: reached_def intro: rtranclp.rtrancl_into_rtrancl)

interpretation tick_writes: tick_frame v UNIV d0 "reached (station v) d0" for v :: "'r env" and d0
proof unfold_locales
  fix d assume "reached (station v) d0 d"
  then show "upkeep_core (station v) UNIV d0 d" by (rule reached_core)
next
  fix d d' assume "reached (station v) d0 d" "upkeep_write (station v) UNIV d d'"
  then show "reached (station v) d0 d'"
    by (auto intro: reached_step station_write.Playout playout_write.Upkeep)
next
  fix d d' assume "reached (station v) d0 d" "playout_write (station v) UNIV d d'"
  then show "reached (station v) d0 d'" by (auto intro: reached_step station_write.Playout)
next
  fix d d' assume "reached (station v) d0 d" "station_write (station v) UNIV d d'"
  then show "reached (station v) d0 d'" by (rule reached_step)
qed

lemma ticks_reached:
  "\<forall>v \<in> set vs. station v = st \<Longrightarrow> bothw (reached st d0) s \<Longrightarrow> bothw (reached st d0) (ticks vs s)"
proof (induction vs arbitrary: s)
  case (Cons v vs)
  have "bothw (reached (station v) d0) (snd (process_once v s))"
    using Cons.prems by (intro safeD [OF tick_writes.safe_process]) simp_all
  then show ?case using Cons by simp
qed simp

definition clean :: "'r wstate \<Rightarrow> bool" where
  "clean s \<longleftrightarrow> disk (wconn s) = work (wconn s)"

lemma clean_reached: "clean s \<Longrightarrow> ids_ok (wdb s) \<Longrightarrow> bothw (reached st (wdb s)) s"
  by (simp add: clean_def bothw_def both_def reached_def wdb_def)

text \<open>
  C3: a tick implements the abstract specification: from a database with unique ids, what any
  number of ticks of a station leaves in memory and on disk is reached by permitted writes of that
  station, also when a tick raises.
\<close>

theorem ticks_refine_writes:
  assumes "\<forall>v \<in> set vs. station v = st" "clean s" "ids_ok (wdb s)"
  shows "station_writes st (wdb s) (wdb (ticks vs s)) \<and>
    station_writes st (wdb s) (disk (wconn (ticks vs s)))"
  using ticks_reached [OF assms(1) clean_reached [OF assms(2,3)]]
  by (simp add: bothw_def both_def reached_def wdb_def)

text \<open>
  C1: stations are isolated: ticks of one station leave every queue row, ad, scheduled item, show
  session, playout state, transition, setting and lease of every other station as it is, in
  memory and on disk, also when a tick raises.
\<close>

theorem ticks_isolated:
  assumes "\<forall>v \<in> set vs. station v = st" "clean s" "ids_ok (wdb s)"
  shows "same_elsewhere st (wdb s) (wdb (ticks vs s)) \<and>
    same_elsewhere st (wdb s) (disk (wconn (ticks vs s)))"
  using ticks_reached [OF assms(1) clean_reached [OF assms(2,3)]]
  by (auto simp: bothw_def both_def reached_def wdb_def intro: writes_elsewhere)

text \<open>
  C2: whatever the runtime, the clock and the AI host do, ticks keep row ids and the unique
  indexes, and a station with at most one playing queue item never gets a second one.
\<close>

theorem one_item_on_air:
  assumes "\<forall>v \<in> set vs. station v = st" "clean s" "ids_ok (wdb s)"
    and "length (playing_rows st (wdb s)) \<le> 1"
  shows "ids_ok (wdb (ticks vs s)) \<and> length (playing_rows st (wdb (ticks vs s))) \<le> 1"
  using ticks_reached [OF assms(1) clean_reached [OF assms(2,3)]] assms(4)
  using writes_ids writes_playing by (fastforce simp: bothw_def both_def reached_def wdb_def)

section \<open>Ads and shows\<close>

definition playing_ads :: "int \<Rightarrow> db \<Rightarrow> int set" where
  "playing_ads st d = {ad_id r |r. r \<in> set (ads d) \<and> ad_station r = st \<and> ad_status r = Playing}"

definition ads_held :: "int \<Rightarrow> db \<Rightarrow> db \<Rightarrow> bool" where
  "ads_held st d0 d \<longleftrightarrow> upkeep_core st (playing_ads st d0) d0 d \<and> ads_enabled st d = ads_enabled st d0"

definition on_air_in :: "int \<Rightarrow> int set \<Rightarrow> ad_row \<Rightarrow> bool" where
  "on_air_in st air r \<longleftrightarrow> (ad_station r = st \<longrightarrow> ad_status r = Playing \<longrightarrow> ad_id r \<in> air)"

lemma upkeep_ads:
  "upkeep_write st air d d' \<Longrightarrow> \<forall>r \<in> set (ads d). on_air_in st air r \<Longrightarrow> \<forall>r \<in> set (ads d'). on_air_in st air r"
proof (induction rule: upkeep_write.induct)
  case (Ad_End i d s now)
  then show ?case by (auto simp: ad_set_status_def ball_update_where on_air_in_def)
next
  case (Ad_Air i d now)
  then show ?case by (auto simp: ad_set_status_def ball_update_where on_air_in_def)
next
  case (Ad_New r d)
  then show ?case by (simp add: on_air_in_def)
qed simp_all

lemma playout_ads:
  "playout_write st air d d' \<Longrightarrow> \<forall>r \<in> set (ads d). on_air_in st air r \<Longrightarrow> \<forall>r \<in> set (ads d'). on_air_in st air r"
proof (induction rule: playout_write.induct)
  case (Upkeep d d')
  then show ?case using upkeep_ads by blast
next
  case (Ad_Back i d s)
  then show ?case by (auto simp: ball_update_where on_air_in_def)
qed simp_all

lemma station_ads:
  "station_write st air d d' \<Longrightarrow> \<forall>r \<in> set (ads d). on_air_in st air r \<Longrightarrow> \<forall>r \<in> set (ads d'). on_air_in st air r"
  by (induction rule: station_write.induct) (simp_all add: playout_ads)

lemma upkeep_settings:
  "upkeep_write st air d d' \<Longrightarrow> k \<notin> set worker_keys \<Longrightarrow> station_settings d' st k = station_settings d st k"
proof (induction rule: upkeep_write.induct)
  case (Setting k' d val)
  then have "k \<noteq> k'" by auto
  then show ?case by simp
qed simp_all

lemma station_switches:
  assumes "station_write st air d d'"
  shows "ads_enabled st d' = ads_enabled st d"
proof -
  have "station_settings d' st k = station_settings d st k" if "k \<notin> set worker_keys" for k
    using assms that
  proof (induction rule: station_write.induct)
    case (Playout d d')
    then show ?case
      by (induction rule: playout_write.induct) (simp_all add: upkeep_settings)
  qed simp_all
  then have "station_settings d' st ''hourly_ad_v2_enabled'' = station_settings d st ''hourly_ad_v2_enabled''"
    "station_settings d' st ''hourly_ad_enabled'' = station_settings d st ''hourly_ad_enabled''"
    by (simp_all add: worker_keys_def seq_key_def source_key_def)
  then show ?thesis
    by (simp add: ads_enabled_def station_ads_enabled_def ads_enabled_from_settings_def get_station_def)
qed

lemma core_on_air: "upkeep_core st air d0 d \<longleftrightarrow>
    ids_ok d \<and> same_elsewhere st d0 d \<and> (\<forall>r \<in> set (ads d). on_air_in st air r)"
  by (auto simp: upkeep_core_def on_air_in_def)

lemma station_held:
  assumes "ads_held st d0 d" "station_write st (playing_ads st d0) d d'"
  shows "ads_held st d0 d'"
  using assms(1) station_ids [OF assms(2)] station_elsewhere [OF assms(2)] station_ads [OF assms(2)]
    station_switches [OF assms(2)] same_elsewhere_trans
  unfolding ads_held_def core_on_air by blast

interpretation ads_frame: tick_frame v "playing_ads (station v) d0" d0 "ads_held (station v) d0"
  for v :: "'r env" and d0
proof unfold_locales
  fix d d' assume "ads_held (station v) d0 d" "upkeep_write (station v) (playing_ads (station v) d0) d d'"
  then show "ads_held (station v) d0 d'" using station_held station_write.Playout playout_write.Upkeep by blast
next
  fix d d' assume "ads_held (station v) d0 d" "playout_write (station v) (playing_ads (station v) d0) d d'"
  then show "ads_held (station v) d0 d'" using station_held station_write.Playout by blast
next
  fix d d' assume "ads_held (station v) d0 d" "station_write (station v) (playing_ads (station v) d0) d d'"
  then show "ads_held (station v) d0 d'" by (rule station_held)
qed (simp add: ads_held_def)

lemma held_start: "ids_ok d \<Longrightarrow> ads_held st d d"
  by (auto simp: ads_held_def core_on_air on_air_in_def playing_ads_def)

text \<open>Neither the lease nor the recovery of outputs changes what the session query sees.\<close>

lemma get_active_lease [simp]:
  "get_active_for_station st (d\<lparr>leases := l\<rparr>) = get_active_for_station st d"
  by (simp add: get_active_for_station_def)

lemma process_once_shape:
  fixes v :: "'r env" and s :: "'r wstate"
  defines "leased \<equiv> snd (on_conn (try_acquire lease_seconds (wall v) (station v) (worker v)) s)"
  shows "(\<exists>r. snd (process_once v s) = leased\<lparr>rt := r\<rparr>) \<or>
    (\<exists>r. snd (process_once v s) =
       snd (rest_of_tick v (get_active_for_station (station v) (wdb s)) (leased\<lparr>rt := r\<rparr>)))"
proof -
  obtain g where lease: "on_conn (try_acquire lease_seconds (wall v) (station v) (worker v)) s = (Inr g, leased)"
    by (simp add: leased_def on_conn_def try_acquire_def Let_def)
  have act: "get_active_for_station (station v) (wdb (leased\<lparr>rt := r\<rparr>)) = get_active_for_station (station v) (wdb s)" for r
    by (auto simp: leased_def on_conn_def try_acquire_def Let_def wdb_def)
  obtain r where rec: "snd (recover_outputs v leased) = leased\<lparr>rt := r\<rparr>"
  proof (cases "rt_recover v (rt leased)")
    case (Pair e r)
    have "snd (recover_outputs v leased) = leased\<lparr>rt := r\<rparr> \<or>
        snd (recover_outputs v leased) = leased\<lparr>rt := rt leased\<rparr>"
      using Pair by (cases e) (auto simp: recover_outputs_def)
    then show ?thesis using that by blast
  qed
  show ?thesis
  proof (cases g)
    case False
    then have "snd (process_once v s) = leased\<lparr>rt := rt leased\<rparr>"
      using lease by (simp add: process_once_def bindp_def ret_def)
    then show ?thesis by blast
  next
    case True
    then show ?thesis
      using lease rec act
      by (cases "fst (recover_outputs v leased)"; cases "recover_outputs v leased")
        (auto simp: process_once_def process_leased_def bindp_def viewp_def readp_def)
  qed
qed

lemma process_once_safe:
  fixes v :: "'r env"
  assumes "bothw J (snd (on_conn (try_acquire lease_seconds (wall v) (station v) (worker v)) s))"
    and "safe J (rest_of_tick v (get_active_for_station (station v) (wdb s)))"
  shows "bothw J (snd (process_once v s))"
proof -
  have "bothw J ((snd (on_conn (try_acquire lease_seconds (wall v) (station v) (worker v)) s))\<lparr>rt := r\<rparr>)" for r
    using assms(1) by (simp add: bothw_def)
  then show ?thesis using process_once_shape [of v s] safeD [OF assms(2)] by metis
qed

text \<open>
  C4: no ad goes on air while the ads of the station are switched off, nor during a show, except
  while it is being prepared or is on a break: the ads playing after such a tick were playing
  before it.
\<close>

theorem no_ads_when_off_or_in_show:
  assumes "clean s" "ids_ok (wdb s)"
    and "\<not> ads_enabled (station v) (wdb s) \<or> ad_suppressed (get_active_for_station (station v) (wdb s))"
  shows "playing_ads (station v) (wdb (snd (process_once v s))) \<subseteq> playing_ads (station v) (wdb s)"
proof -
  let ?d = "wdb s"
  let ?sso = "get_active_for_station (station v) ?d"
  have s: "bothw (ads_held (station v) ?d) s"
    using held_start [OF assms(2)] assms(1) by (simp add: bothw_def both_def clean_def wdb_def)
  have "safe (ads_held (station v) ?d) (rest_of_tick v ?sso)"
  proof (rule ads_frame.safe_rest)
    show "free_session (station v) ?d (ss_id ss)" if "?sso = Some ss" for ss
      using that held_start [OF assms(2)] by (rule ads_frame.active_session_free [rotated])
  qed (use assms(3) in \<open>simp add: ads_held_def\<close>)
  from process_once_safe [OF safeD [OF ads_frame.safe_lease s] this] show ?thesis
    by (auto simp: bothw_def both_def wdb_def ads_held_def core_on_air on_air_in_def playing_ads_def)
qed

section \<open>The show life cycle\<close>

text \<open>How the worker moves a show; the other moves are a presenter's.\<close>

inductive show_edge :: "show_status \<Rightarrow> show_status \<Rightarrow> bool" where
  "show_edge GoingLive IntroPlaying"
| "show_edge GoingLive Live"
| "show_edge IntroPlaying Live"
| "show_edge BreakOutro OnBreak"
| "show_edge OnBreak BreakIntro"
| "show_edge OnBreak Live"
| "show_edge BreakIntro Live"

declare show_edge.intros [intro]

definition session_move :: "'r env \<Rightarrow> session_row \<Rightarrow> session_row list \<Rightarrow> session_row list \<Rightarrow> bool" where
  "session_move v ss rows rows' \<longleftrightarrow> rows' = rows \<or>
     (\<exists>to. show_edge (ss_status ss) to \<and> rows' = session_set_status (wall v) (ss_id ss) to rows) \<or>
     ss_status ss = OutroPlaying \<and> rows' = update_where (\<lambda>r. ss_id r = ss_id ss)
       (\<lambda>r. r\<lparr>ss_status := Ended, ss_ended := Some (current_timestamp (wall v))\<rparr>) rows"

definition shows_fixed :: "int \<Rightarrow> db \<Rightarrow> session_row list \<Rightarrow> db \<Rightarrow> bool" where
  "shows_fixed st d0 rows d \<longleftrightarrow> reached st d0 d \<and> sessions d = rows"

interpretation fixed: playout_frame v UNIV d0 "shows_fixed (station v) d0 rows" for v :: "'r env" and d0 rows
proof unfold_locales
  fix d d' assume d: "shows_fixed (station v) d0 rows d" "playout_write (station v) UNIV d d'"
  then show "shows_fixed (station v) d0 rows d'"
    by (auto simp: shows_fixed_def playout_sessions intro: reached_step station_write.Playout)
next
  fix d d' assume d: "shows_fixed (station v) d0 rows d" "upkeep_write (station v) UNIV d d'"
  then have "playout_write (station v) UNIV d d'" by (intro playout_write.Upkeep)
  with d show "shows_fixed (station v) d0 rows d'"
    by (auto simp: shows_fixed_def playout_sessions intro: reached_step station_write.Playout)
qed (auto simp: shows_fixed_def reached_core)

definition moves :: "'r env \<Rightarrow> db \<Rightarrow> session_row \<Rightarrow> ('r, 'a) wprog \<Rightarrow> bool" where
  "moves v d0 ss m \<longleftrightarrow> (\<forall>rows s. bothw (shows_fixed (station v) d0 rows) s \<longrightarrow>
     (\<exists>rows'. session_move v ss rows rows' \<and> bothw (shows_fixed (station v) d0 rows') (snd (m s))))"

lemma moves_safe: "(\<And>rows. safe (shows_fixed (station v) d0 rows) m) \<Longrightarrow> moves v d0 ss m"
  unfolding moves_def session_move_def using safeD by blast

lemma moves_bind_pre:
  fixes v :: "'r env" and m :: "('r, 'a) wprog"
  assumes "\<And>rows. safe (shows_fixed (station v) d0 rows) m" "\<And>x. moves v d0 ss (f x)"
  shows "moves v d0 ss (bindp m f)"
  unfolding moves_def
proof (intro allI impI)
  fix rows and s :: "'r wstate" assume s: "bothw (shows_fixed (station v) d0 rows) s"
  obtain r t where run: "m s = (r, t)" by force
  then have t: "bothw (shows_fixed (station v) d0 rows) t" using safeD [OF assms(1) s] by simp
  show "\<exists>rows'. session_move v ss rows rows' \<and> bothw (shows_fixed (station v) d0 rows') (snd (bindp m f s))"
  proof (cases r)
    case (Inl e)
    then show ?thesis using run t by (auto simp: bindp_def session_move_def)
  next
    case (Inr x)
    then show ?thesis using run t assms(2) [of x] unfolding moves_def bindp_def by auto
  qed
qed

lemma moves_bind_post:
  fixes v :: "'r env" and m :: "('r, 'a) wprog"
  assumes "moves v d0 ss m" "\<And>rows x. safe (shows_fixed (station v) d0 rows) (f x)"
  shows "moves v d0 ss (bindp m f)"
  unfolding moves_def
proof (intro allI impI)
  fix rows and s :: "'r wstate" assume "bothw (shows_fixed (station v) d0 rows) s"
  then obtain rows' where "session_move v ss rows rows'" "bothw (shows_fixed (station v) d0 rows') (snd (m s))"
    using assms(1) unfolding moves_def by blast
  then show "\<exists>rows'. session_move v ss rows rows' \<and> bothw (shows_fixed (station v) d0 rows') (snd (bindp m f s))"
    using safe_after [of "shows_fixed (station v) d0 rows'" m s f] assms(2) by blast
qed

lemma moves_if: "(b \<Longrightarrow> moves v d0 ss m) \<Longrightarrow> (\<not> b \<Longrightarrow> moves v d0 ss n) \<Longrightarrow> moves v d0 ss (if b then m else n)"
  by simp

lemma snd_bind_ret: "snd (bindp m (\<lambda>_. ret x) s) = snd (m s)"
  by (cases "m s"; cases "fst (m s)") (auto simp: bindp_def ret_def)

lemma fixed_after_update:
  assumes s: "bothw (shows_fixed (station v) d0 rows) s" and "free_session (station v) d0 i"
  shows "\<exists>rows' \<in> {rows, session_set_status (wall v) i to rows}.
    bothw (shows_fixed (station v) d0 rows') (snd (update_show_session_status v i to s))"
proof -
  let ?rows = "session_set_status (wall v) i to rows"
  have rows: "sessions (work (wconn s)) = rows" "sessions (disk (wconn s)) = rows"
    and r: "bothw (reached (station v) d0) s"
    using s by (simp_all add: bothw_def both_def shows_fixed_def)
  have after: "bothw (reached (station v) d0) (snd (update_show_session_status v i to s))"
    by (rule safeD [OF tick_writes.safe_update_session [OF assms(2)] r])
  have state: "snd (update_show_session_status v i to s) = s\<lparr>wconn := snd (update_status (wall v) i to (wconn s))\<rparr>"
    by (simp add: update_show_session_status_def snd_bind_ret on_conn_state)
  show ?thesis
  proof (cases "session_index_ok ?rows")
    case True
    then have "bothw (shows_fixed (station v) d0 ?rows) (snd (update_show_session_status v i to s))"
      using after unfolding state by (simp add: update_status_def Let_def rows bothw_def both_def shows_fixed_def)
    then show ?thesis by blast
  next
    case False
    then have "bothw (shows_fixed (station v) d0 rows) (snd (update_show_session_status v i to s))"
      using after unfolding state by (simp add: update_status_def Let_def rows bothw_def both_def shows_fixed_def)
    then show ?thesis by blast
  qed
qed

lemma moves_update:
  "show_edge (ss_status ss) to \<Longrightarrow> free_session (station v) d0 (ss_id ss) \<Longrightarrow>
   moves v d0 ss (update_show_session_status v (ss_id ss) to)"
  unfolding moves_def
  by (intro allI impI) (drule fixed_after_update [where i = "ss_id ss" and to = to], assumption,
    auto simp: session_move_def)

lemma fixed_after_end:
  assumes s: "bothw (shows_fixed (station v) d0 rows) s" and free: "free_session (station v) d0 i"
  shows "bothw (shows_fixed (station v) d0 (update_where (\<lambda>r. ss_id r = i)
    (\<lambda>r. r\<lparr>ss_status := Ended, ss_ended := Some (current_timestamp (wall v))\<rparr>) rows))
    (snd (on_conn (end_session (wall v) i) s))"
proof -
  let ?f = "update_where (\<lambda>r. ss_id r = i)
       (\<lambda>r. r\<lparr>ss_status := Ended, ss_ended := Some (current_timestamp (wall v))\<rparr>)"
  have d: "reached (station v) d0 (work (wconn s))" "sessions (work (wconn s)) = rows"
    using s by (simp_all add: bothw_def both_def shows_fixed_def)
  have "own_session (station v) i (work (wconn s))"
    using core_own(4) [OF reached_core [OF d(1)] free] .
  then have "reached (station v) d0 (sessions_update ?f (work (wconn s)))"
    by (intro reached_step [OF d(1)] station_write.Session_End)
  then show ?thesis
    by (simp add: on_conn_state end_session_def Let_def bothw_def both_def shows_fixed_def d(2))
qed

lemma moves_end:
  fixes v :: "'r env"
  assumes "ss_status ss = OutroPlaying" "free_session (station v) d0 (ss_id ss)"
  shows "moves v d0 ss (end_show_session v ss)"
proof -
  have "moves v d0 ss (on_conn (end_session (wall v) (ss_id ss)))"
    unfolding moves_def session_move_def using fixed_after_end [OF _ assms(2)] assms(1) by blast
  moreover have "conn_safe (shows_fixed (station v) d0 rows) (set_source (station v) x)" for rows x
    unfolding set_source_def
    by (rule conn_safeI; simp; intro conjI impI both_simps(1) fixed.dml_safe upkeep_write.Setting)
      (simp_all add: worker_keys_def)
  ultimately show ?thesis
    unfolding end_show_session_def by (intro moves_bind_post step_rules fixed.safe_set_playout)
qed

lemma moves_audio:
  fixes v :: "'r env"
  assumes "show_edge (ss_status ss) to" "free_session (station v) d0 (ss_id ss)"
  shows "moves v d0 ss (bindp (runtime_status v) (\<lambda>x. if P x then ret (a x)
    else bindp (update_show_session_status v (ss_id ss) to) (\<lambda>_. ret b)))"
  by (rule moves_bind_pre, rule safe_status, rule moves_if, rule moves_safe, rule step_rules,
      rule moves_bind_post, rule moves_update, rule assms, rule assms, rule step_rules)

lemma moves_lifecycle:
  fixes v :: "'r env"
  assumes free: "free_session (station v) d0 (ss_id ss)"
  shows "moves v d0 ss (process_show_lifecycle v (Some ss))"
proof -
  note frozen = step_rules fixed.safe_try_clip fixed.safe_next_due fixed.safe_queue_low fixed.safe_ad_timing
  note upd = moves_bind_post [OF moves_update [OF _ free]]
  show ?thesis
  proof (cases "ss_status ss")
    case GoingLive
    then show ?thesis
      unfolding process_show_lifecycle_def handle_going_live_def
      by (simp, intro moves_bind_pre moves_if upd frozen moves_safe) auto
  next
    case OnBreak
    then show ?thesis
      unfolding process_show_lifecycle_def handle_on_break_def
      by (simp, intro moves_bind_pre moves_if upd frozen moves_safe) auto
  next
    case Live
    then show ?thesis
      unfolding process_show_lifecycle_def by (simp, intro moves_safe frozen)
  next
    case OutroPlaying
    then show ?thesis
      unfolding process_show_lifecycle_def handle_show_audio_state_def OutroPlaying option.case show_status.case
      by (intro moves_bind_pre moves_if moves_bind_post moves_end free OutroPlaying) (intro frozen moves_safe)+
  next
    case IntroPlaying
    then show ?thesis
      unfolding process_show_lifecycle_def handle_show_audio_state_def IntroPlaying option.case show_status.case
      by (intro moves_audio free) (simp add: IntroPlaying show_edge.intros)
  next
    case BreakOutro
    then show ?thesis
      unfolding process_show_lifecycle_def handle_show_audio_state_def BreakOutro option.case show_status.case
      by (intro moves_audio free) (simp add: BreakOutro show_edge.intros)
  next
    case BreakIntro
    then show ?thesis
      unfolding process_show_lifecycle_def handle_show_audio_state_def BreakIntro option.case show_status.case
      by (intro moves_audio free) (simp add: BreakIntro show_edge.intros)
  qed (simp_all add: process_show_lifecycle_def, (intro moves_safe frozen)+)
qed

lemma moves_rest:
  fixes v :: "'r env"
  assumes "free_session (station v) d0 (ss_id ss)"
  shows "moves v d0 ss (rest_of_tick v (Some ss))"
  unfolding rest_of_tick_def
  by (intro moves_bind_post moves_lifecycle assms step_rules read_rules fixed.safe_upkeep
      fixed.safe_choose_and_play) simp

text \<open>
  C5: a tick moves the station's open show along its life cycle or not at all: going live leads to
  the intro or live, the intro and a break's intro to live, a break's outro to the break, a break
  to its intro or live, a finished outro ends the session; every other session stays as it is, and
  without an open show no session changes.
\<close>

theorem show_follows_life_cycle:
  fixes v :: "'r env"
  assumes "clean s" "ids_ok (wdb s)"
  shows "case get_active_for_station (station v) (wdb s) of
      None \<Rightarrow> sessions (wdb (snd (process_once v s))) = sessions (wdb s)
    | Some ss \<Rightarrow> session_move v ss (sessions (wdb s)) (sessions (wdb (snd (process_once v s))))"
proof -
  let ?d = "wdb s"
  let ?J = "shows_fixed (station v) ?d (sessions ?d)"
  let ?leased = "snd (on_conn (try_acquire lease_seconds (wall v) (station v) (worker v)) s)"
  have d: "reached (station v) ?d ?d" using assms(2) by (simp add: reached_def)
  have s: "bothw ?J s"
    using d assms(1) by (simp add: bothw_def both_def clean_def wdb_def shows_fixed_def)
  have leased: "bothw ?J (?leased\<lparr>rt := r\<rparr>)" for r
    using safeD [OF fixed.safe_lease s] by (simp add: bothw_def)
  show ?thesis
  proof (cases "get_active_for_station (station v) ?d")
    case None
    have "safe ?J (rest_of_tick v None)"
      unfolding rest_of_tick_def process_show_lifecycle_def option.case
      by (intro step_rules read_rules fixed.safe_upkeep fixed.safe_choose_and_play) simp
    then have "bothw ?J (snd (process_once v s))"
      using None by (intro process_once_safe safeD [OF fixed.safe_lease s]) simp
    then show ?thesis using None by (simp add: bothw_def both_def shows_fixed_def wdb_def)
  next
    case (Some ss)
    have "free_session (station v) ?d (ss_id ss)"
      using Some d by (rule tick_writes.active_session_free [rotated])
    then have "moves v ?d ss (rest_of_tick v (Some ss))" by (rule moves_rest)
    then have "\<exists>rows'. session_move v ss (sessions ?d) rows' \<and>
        bothw (shows_fixed (station v) ?d rows') (snd (rest_of_tick v (Some ss) (?leased\<lparr>rt := r\<rparr>)))" for r
      using leased unfolding moves_def by blast
    then have "\<exists>rows'. session_move v ss (sessions ?d) rows' \<and>
        bothw (shows_fixed (station v) ?d rows') (snd (process_once v s))"
      using process_once_shape [of v s] leased Some by (metis session_move_def)
    then show ?thesis using Some by (auto simp: bothw_def both_def shows_fixed_def wdb_def)
  qed
qed

section \<open>Concrete states\<close>

text \<open>A tick of station 1 without a runtime, and a database where its show is going live.\<close>

definition sample_env :: "unit env" where
  "sample_env = \<lparr>station = 1, worker = ''w1'', wall = 1000, mono = 1000, has_registry = False,
     fallback_uri = [], files = \<lparr>resolve_path = (\<lambda>p. p), file_exists = (\<lambda>_. False),
       probe_seconds = (\<lambda>_ _. 0), elapsed = (\<lambda>_. 0)\<rparr>,
     rt_start = (\<lambda>_ r. (None, r)),
     rt_state = (\<lambda>_. \<lparr>branch_health = None, required_outputs = None, program_running = None,
       running = False, active_input_uri = []\<rparr>),
     rt_process_running = (\<lambda>_. False), rt_outputs_healthy = (\<lambda>_. True), rt_recover = (\<lambda>r. (None, r)),
     ai_ready = NoHost, path_exists = (\<lambda>_. False), ai_prefetched = (\<lambda>_ _. None),
     ai_inline = (\<lambda>_. None)\<rparr>"

definition sample_session :: session_row where
  "sample_session = \<lparr>ss_id = 1, ss_show = 1, ss_station = 1, ss_user = 1, ss_status = GoingLive,
     ss_started = None, ss_ended = None\<rparr>"

definition sample_db :: db where
  "sample_db = empty_db\<lparr>stations := [(1, ''am''), (2, ''fm'')],
     queue_items := [\<lparr>q_id = 1, q_station = 1, q_track = 1, q_position = 1, q_status = Playing,
         q_started = At 900, q_finished = None, q_dedupe = None\<rparr>,
       \<lparr>q_id = 2, q_station = 2, q_track = 1, q_position = 1, q_status = Playing, q_started = At 900,
         q_finished = None, q_dedupe = None\<rparr>],
     ads := [\<lparr>ad_id = 1, ad_station = 1, ad_track = 1, ad_due = Some 900, ad_status = Pending,
         ad_priority = 0, ad_started = NullStamp, ad_finished = None, ad_dedupe = None\<rparr>],
     sessions := [sample_session, sample_session\<lparr>ss_id := 2, ss_station := 2, ss_status := Live\<rparr>]\<rparr>"

definition sample_state :: "unit wstate" where
  "sample_state = \<lparr>wconn = open_conn sample_db, rt = (), suppressed = (\<lambda>_. None), notified = (\<lambda>_. None)\<rparr>"

lemma sample_facts:
  "station sample_env = 1" "wdb sample_state = sample_db" "clean sample_state" "ids_ok sample_db"
  "length (playing_rows 1 sample_db) = 1" "get_active_for_station 1 sample_db = Some sample_session"
  by (simp_all add: sample_env_def sample_state_def wdb_def clean_def sample_db_def sample_session_def
      ids_ok_def queue_ok_def queue_index_ok_def index_key_def session_index_ok_def playing_rows_def
      playing_at_def get_active_for_station_def)

theorem ticks_refine_writes_witness:
  "station_writes 1 sample_db (wdb (ticks [sample_env, sample_env] sample_state)) \<and>
   station_writes 1 sample_db (disk (wconn (ticks [sample_env, sample_env] sample_state)))"
  using ticks_refine_writes [of "[sample_env, sample_env]" 1 sample_state] by (simp add: sample_facts del: ticks.simps)

theorem ticks_isolated_witness:
  "same_elsewhere 1 sample_db (wdb (ticks [sample_env] sample_state)) \<and>
   same_elsewhere 1 sample_db (disk (wconn (ticks [sample_env] sample_state)))"
  using ticks_isolated [of "[sample_env]" 1 sample_state] by (simp add: sample_facts del: ticks.simps)

theorem one_item_on_air_witness:
  "ids_ok (wdb (ticks [sample_env] sample_state)) \<and>
   length (playing_rows 1 (wdb (ticks [sample_env] sample_state))) \<le> 1"
  using one_item_on_air [of "[sample_env]" 1 sample_state] by (simp add: sample_facts del: ticks.simps)

theorem no_ads_when_off_or_in_show_witness:
  "playing_ads 1 (wdb (snd (process_once sample_env sample_state))) \<subseteq> playing_ads 1 sample_db"
  using no_ads_when_off_or_in_show [of sample_state sample_env]
  by (simp add: sample_facts ad_suppressed_def sample_session_def)

theorem show_follows_life_cycle_witness:
  "session_move sample_env sample_session (sessions sample_db)
     (sessions (wdb (snd (process_once sample_env sample_state))))"
  using show_follows_life_cycle [of sample_state sample_env] by (simp add: sample_facts)

end
