(* ===== verification/Worker_Limits.thy ===== *)
theory Worker_Limits
  imports Worker_Props
begin

text \<open>
  Bounds of the station worker (restart attempts, automatic filling, the lease) and three places
  where it does not do what it means to: the missing continuity fallback, an ad cut off by the
  next queue item and a programme queue row popped by a stale id.
\<close>

section \<open>The lease fences the worker\<close>

text \<open>
  A worker that another worker's unexpired lease fences out does nothing: the runtime and the
  whole database stay as they were.
\<close>

theorem fenced_worker_is_inert:
  assumes "leases (wdb s) (station v) = Some (w, Some e)" "w \<noteq> worker v"
    and "wall v < e" "e \<le> wall v + 120"
  shows "process_once v s =
    (Inr (result ''none'' (Some ''lease_denied'')), s\<lparr>wconn := commit (dml id (wconn s))\<rparr>)"
proof -
  have "try_acquire lease_seconds (wall v) (station v) (worker v) (wconn s) = (Inr False, commit (dml id (wconn s)))"
    using assms by (auto simp: try_acquire_def lease_seconds_def Let_def wdb_def dml_def)
  then show ?thesis by (simp add: process_once_def bindp_def on_conn_def ret_def)
qed

section \<open>Restart attempts\<close>

text \<open>The times at which restarts of one item are granted over a run of attempts.\<close>

fun granted :: "string \<Rightarrow> int \<Rightarrow> 'r env list \<Rightarrow> 'r wstate \<Rightarrow> rat list" where
  "granted source item [] s = []"
| "granted source item (v # vs) s = (case restart_attempt_allowed v source item s of
     (Inr (True, why), t) \<Rightarrow> mono v # granted source item vs t
   | (r, t) \<Rightarrow> granted source item vs t)"

lemma granted_bound:
  "(case suppressed s (source, item) of
      None \<Rightarrow> length (granted source item vs s) \<le> 3
    | Some x \<Rightarrow> length (granted source item vs s) \<le> 3 - attempts x \<and>
        (\<forall>t \<in> set (granted source item vs s). next_allowed x \<le> t)) \<and>
   sorted_wrt (\<lambda>a b. a + 180 \<le> b) (granted source item vs s)"
proof (induction vs arbitrary: s)
  case (Cons v vs)
  let ?grant = "\<lambda>n. s\<lparr>suppressed := (suppressed s)((source, item) :=
      Some \<lparr>attempts = n, next_allowed = mono v + restart_cooldown\<rparr>)\<rparr>"
  show ?case
  proof (cases "suppressed s (source, item)")
    case None
    then have "granted source item (v # vs) s = mono v # granted source item vs (?grant 1)"
      by (simp add: restart_attempt_allowed_def Let_def)
    then show ?thesis
      using Cons [of "?grant 1"] None by (simp add: restart_cooldown_def)
  next
    case (Some x)
    show ?thesis
    proof (cases "max_restart_attempts \<le> attempts x \<or> mono v < next_allowed x")
      case True
      then have "granted source item (v # vs) s = granted source item vs s"
        using Some by (auto simp: restart_attempt_allowed_def Let_def)
      then show ?thesis using Cons [of s] by (simp only:)
    next
      case False
      then have "granted source item (v # vs) s = mono v # granted source item vs (?grant (attempts x + 1))"
        using Some by (simp add: restart_attempt_allowed_def Let_def)
      then show ?thesis
        using Cons [of "?grant (attempts x + 1)"] Some False
        by (force simp: restart_cooldown_def max_restart_attempts_def)
    qed
  qed
qed (simp split: option.split)

text \<open>
  C29: however often and whenever the worker tries to restart an item, it grants at most three
  attempts, any two of them at least 180 seconds apart, also when the clock jumps.
\<close>

theorem restarts_are_bounded:
  assumes "suppressed s (source, item) = None"
  shows "length (granted source item vs s) \<le> 3 \<and>
    sorted_wrt (\<lambda>a b. a + 180 \<le> b) (granted source item vs s)"
  using granted_bound [where s = s and source = source and item = item and vs = vs] assms by simp

section \<open>Automatic filling is bounded\<close>

definition queue_size :: "'r wstate \<Rightarrow> nat" where
  "queue_size s = length (queue_items (wdb s))"

definition grows :: "nat \<Rightarrow> ('r, 'a) wprog \<Rightarrow> bool" where
  "grows k m \<longleftrightarrow> (\<forall>s. queue_size (snd (m s)) \<le> queue_size s + k)"

lemma grows_ret: "grows k (ret x)"
  by (simp add: grows_def)

lemma grows_raise: "grows k (raise_exn e)"
  by (simp add: grows_def)

lemma grows_bind:
  assumes "grows j m" "\<And>x. grows k (f x)"
  shows "grows (j + k) (bindp m f)"
  unfolding grows_def
proof
  fix s
  obtain r t where run: "m s = (r, t)" by force
  have "queue_size t \<le> queue_size s + j" using assms(1) run unfolding grows_def by (metis snd_conv)
  moreover have "queue_size (snd (f x t)) \<le> queue_size t + k" for x
    using assms(2) by (simp add: grows_def)
  ultimately show "queue_size (snd (bindp m f s)) \<le> queue_size s + (j + k)"
    using run by (cases r) (simp_all add: bindp_def, metis add.assoc add_le_cancel_right le_trans)
qed

lemma grows_mono: "grows j m \<Longrightarrow> j \<le> k \<Longrightarrow> grows k m"
  by (meson grows_def add_le_cancel_left le_trans)

lemma grows_view: "grows k (viewp g)"
  by (simp add: grows_def viewp_def)

lemma grows_bind_view: "(\<And>d. grows k (f (g d))) \<Longrightarrow> grows k (bindp (viewp g) f)"
  using grows_bind [of 0 "viewp g" k f] grows_view by (simp add: grows_def viewp_def)

lemma grows_bind_same: "grows 0 m \<Longrightarrow> (\<And>x. grows k (f x)) \<Longrightarrow> grows k (bindp m f)"
  using grows_bind [of 0 m k f] by simp

lemma grows_if: "grows k m \<Longrightarrow> grows k n \<Longrightarrow> grows k (if b then m else n)"
  by simp

lemma grows_conn:
  "(\<And>c. length (queue_items (work (snd (m c)))) \<le> length (queue_items (work c)) + k) \<Longrightarrow> grows k (on_conn m)"
  by (simp add: grows_def queue_size_def on_conn_state wdb_def)

lemma grows_insert:
  "grows 1 (on_conn (queue_dml (insert_queue_row st t p k)))" "grows 1 (on_conn (insert_or_ignore st t p k))"
  by (rule grows_conn; simp add: queue_dml_def insert_or_ignore_def insert_queue_row_def)+

lemma grows_commit: "grows 0 (on_conn (updp commit))"
  by (rule grows_conn) simp

lemma grows_select: "grows 0 (select_random_music_track v ex)"
proof -
  have "grows 0 (probe_and_store_track_duration v i)" for i
    unfolding probe_and_store_track_duration_def Let_def
    by (intro grows_bind_view, simp split: option.split, intro allI impI conjI grows_bind_same grows_ret)
       (rule grows_conn, simp)
  then show ?thesis
    unfolding select_random_music_track_def
    by (intro grows_bind_view, simp split: option.split, intro allI impI conjI grows_bind_same grows_ret grows_if)
qed

lemma grows_music: "grows 1 (fill_music v a)"
proof -
  have "grows 1 (case p of None \<Rightarrow> ret None | Some (tid, x) \<Rightarrow>
      bindp (on_conn (queue_dml (insert_queue_row st tid pos (k tid)))) (\<lambda>_. ret (g tid x)))"
    for p :: "(int \<times> rat) option" and st pos k and g :: "int \<Rightarrow> rat \<Rightarrow> fill_state option"
    using grows_bind [OF grows_insert(1) grows_ret, of 0] by (auto split: option.split prod.split intro: grows_ret)
  then show ?thesis
    unfolding fill_music_def
    by (intro grows_bind_same grows_if grows_select grows_ret) (auto split: prod.split)
qed

lemma grows_jingle:
  fixes v :: "'r env"
  shows "grows 1 (fill_jingle v sw a)"
proof -
  have ins: "grows 1 (bindp (on_conn (insert_or_ignore st j p k)) f)" if "\<And>n. grows 0 (f n)"
    for st j p k and f :: "nat \<Rightarrow> ('r, fill_state + fill_state) wprog"
    using grows_bind [OF grows_insert(2) that] by simp
  show ?thesis
    unfolding fill_jingle_def Let_def
    by (intro grows_bind_view, simp split: option.split,
        intro conjI impI allI ins [simplified] grows_ret grows_if grows_bind_view)
qed

lemma grows_loop: "grows (2 * n) (autofill_loop v sw n a)"
proof (induction n arbitrary: a)
  case (Suc n)
  have "grows (1 + 2 * n) (bindp (fill_music v a1)
      (\<lambda>found. case found of None \<Rightarrow> ret a1 | Some a2 \<Rightarrow> autofill_loop v sw n a2))" for a1
    using Suc by (intro grows_bind grows_music) (auto split: option.split intro: grows_ret)
  moreover have "grows (1 + 2 * n) (autofill_loop v sw n a1)" for a1
    using Suc by (rule grows_mono) simp
  ultimately have "grows (1 + (1 + 2 * n)) (bindp (fill_jingle v sw a) (\<lambda>r.
        case r of
          Inl a1 \<Rightarrow> autofill_loop v sw n a1
        | Inr a1 \<Rightarrow> bindp (fill_music v a1) (\<lambda>found.
            case found of None \<Rightarrow> ret a1 | Some a2 \<Rightarrow> autofill_loop v sw n a2)))"
    by (intro grows_bind grows_jingle) (auto split: sum.split)
  then show ?case by (simp add: grows_ret)
qed (simp add: grows_ret)

text \<open>
  One run of the automatic filling ends and adds at most 200 rows, also when no track has a
  duration and the target of 30 minutes stays out of reach.
\<close>

theorem autofill_is_bounded:
  "length (queue_items (wdb (snd (autofill_queue v s)))) \<le> length (queue_items (wdb s)) + 200"
proof -
  have "grows 200 (autofill_queue v)"
    unfolding autofill_queue_def Let_def
  proof (intro grows_bind_view grows_if grows_ret)
    fix d
    have "grows (2 * 100 + 0) (bindp (autofill_loop v sw 100 a) (\<lambda>a.
        bindp (if 0 < fs_added a then on_conn (updp commit) else ret ()) (\<lambda>_. ret (fs_added a))))" for sw a
      by (intro grows_bind grows_loop grows_bind_same grows_if grows_commit grows_ret)
    then show "grows 200 (case get_sweeper_settings (station v) (id d) of
            Inl e \<Rightarrow> raise_exn e
          | Inr sw \<Rightarrow>
              bindp (autofill_loop v sw 100 \<lparr>fs_duration = pending_queue_duration (station v) (id d),
                fs_count = pending_music_count (station v) (id d), fs_pos = next_position (station v) (id d),
                fs_since = pending_music_since_jingle (station v) (id d), fs_active = active_track_ids (station v) (id d),
                fs_recent = recent_track_ids (station v) 30 (id d) @ active_track_ids (station v) (id d), fs_added = 0\<rparr>) (\<lambda>a.
              bindp (if 0 < fs_added a then on_conn (updp commit) else ret ()) (\<lambda>_. ret (fs_added a))))"
      by (auto split: sum.split intro: grows_raise)
  qed
  then show ?thesis by (simp add: grows_def queue_size_def)
qed

section \<open>An ad that is playing\<close>

lemma set_current_returns:
  "st \<in> fst ` set (stations (work c)) \<Longrightarrow> fst (set_current st source item why c) = Inr ()"
  by (simp add: set_current_def Let_def add_transition_def bindp_def updp_def)

text \<open>
  When the ads of a station are switched off while one of its ads is playing, the step that
  advances the ad fails it and then raises \<open>AttributeError\<close>, as \<open>_start_continuity_fallback\<close> is
  defined nowhere: the tick ends there and continuity audio never starts.
\<close>

theorem switching_ads_off_raises:
  assumes "ad_current_playing (station v) (wdb s) = Some r" "\<not> ads_enabled (station v) (wdb s)"
    and "0 < ad_id r" "station v \<in> fst ` set (stations (wdb s))"
  shows "fst (advance_playing_ad_item v s) = Inl (AttributeError ''_start_continuity_fallback'')"
proof -
  have st: "ad_status r = Playing" using ad_playing_mem [OF assms(1)] by simp
  let ?c = "snd (ad_mark Failed (wall v) (ad_id r) (wconn s))"
  have "fst (set_current (station v) ''none'' None ''ads_disabled_for_station'' ?c) = Inr ()"
    using assms(4) by (intro set_current_returns) (simp add: ad_mark_def wdb_def)
  then have "\<exists>t. fail_ad_policy_violation v r s = (Inr (), t)"
    using assms(3) st
    by (cases "set_current (station v) ''none'' None ''ads_disabled_for_station'' ?c")
      (simp add: fail_ad_policy_violation_def set_playout_def on_conn_def bindp_def ad_mark_def updp_def)
  then show ?thesis
    using assms(1,2)
    by (auto simp: advance_playing_ad_item_def viewp_def bindp_def readp_def start_continuity_fallback_def
        raise_exn_def)
qed

text \<open>Nothing in the start of a queue item touches the ads.\<close>

lemma ads_on_conn:
  "(\<And>c. ads (work (snd (m c))) = ads (work c)) \<Longrightarrow> keeps (same_rel (\<lambda>s. ads (wdb s))) (on_conn m)"
  by (simp add: keeps_def same_rel_def on_conn_state wdb_def)

lemma ads_set_current [simp]: "ads (work (snd (set_current st source item why c))) = ads (work c)"
  by (simp add: set_current_publish publish_def Let_def)

lemma ads_marks [simp]:
  "ads (work (snd (mark_playing now i c))) = ads (work c)"
  "ads (work (snd (mark_done now i c))) = ads (work c)"
  "ads (work (snd (mark_failed now i c))) = ads (work c)"
  by (simp_all add: mark_playing_def mark_done_def mark_failed_def queue_dml_def bindp_def updp_def)

lemma ads_start: "keeps (same_rel (\<lambda>s. ads (wdb s))) (start_station v req)"
  by (rule keepsI) (auto simp: start_station_def same_rel_def wdb_def split: option.split prod.split)

lemma ads_play_manual: "keeps (same_rel (\<lambda>s. ads (wdb s))) (play_managed_item v Manual i tr auto)"
proof -
  have "lower (strip ''manual'') = ''manual''" by code_simp
  then have restore: "ads (work (snd (restore_managed_item_pending ''manual'' i c))) = ads (work c)" for c
    by (simp add: restore_managed_item_pending_def queue_dml_def bindp_def updp_def)
  show ?thesis
    unfolding play_managed_item_def Let_def viewp_def set_playout_def
    by (intro projection_frame.keeps_rules ads_on_conn ads_start) (simp_all add: restore)
qed

lemma choose_pending:
  assumes "current_playing (station v) (wdb s) = None" "next_pending (station v) (wdb s) = Some r"
    and "q_track r \<noteq> last_done_track_id (station v) (wdb s)"
    and "ads_enabled (station v) (wdb s)" "get_source (station v) (wdb s) \<noteq> ''host''"
  shows "\<exists>ch. choose_next v None s = (Inr ch, s) \<and> ch_source ch = ''manual'' \<and> ch_pending ch = Some r"
proof -
  have "skip_loop v (last_done_track_id (station v) (wdb s)) 20 (Some r) s = (Inr (Some r), s)"
    using assms(3) unfolding numeral_nat(7) [symmetric]
    by (simp add: eval_nat_numeral viewp_def bindp_def readp_def ret_def)
  then have "skip_duplicate_pending v (Some r) s = (Inr (Some r), s)"
    by (simp add: skip_duplicate_pending_def viewp_def bindp_def readp_def ret_def)
  moreover have "next_due_ad_if_allowed v s = (Inr (ad_next_due (station v) (wall v) (wdb s)), s)"
    using assms(4) by (simp add: next_due_ad_if_allowed_def viewp_def bindp_def readp_def)
  ultimately show ?thesis
    using assms(1,2,5)
    by (simp add: choose_next_def Let_def viewp_def bindp_def readp_def ret_def choose_source_def on_ad_break_def)
qed

text \<open>
  Nothing holds the queue back while an ad is playing: with a queue item pending and none
  playing (an ad has ended the one before it), the next tick starts that item over the ad, and
  the ad's row stays playing.
\<close>

theorem queue_item_cuts_ad_off:
  assumes "current_playing (station v) (wdb s) = None" "next_pending (station v) (wdb s) = Some r"
    and "q_track r \<noteq> last_done_track_id (station v) (wdb s)"
    and "ads_enabled (station v) (wdb s)" "get_source (station v) (wdb s) \<noteq> ''host''"
  shows "bindp (choose_next v None) (play_choice v) s = play_managed_item v Manual (q_id r) (q_track r) False s \<and>
    playing_ads (station v) (wdb (snd (bindp (choose_next v None) (play_choice v) s))) =
    playing_ads (station v) (wdb s)"
proof -
  obtain ch where "choose_next v None s = (Inr ch, s)" "ch_source ch = ''manual''" "ch_pending ch = Some r"
    using choose_pending [OF assms] by blast
  then have run: "bindp (choose_next v None) (play_choice v) s =
      play_managed_item v Manual (q_id r) (q_track r) False s"
    by (simp add: bindp_def play_choice_def)
  have "ads (wdb (snd (play_managed_item v Manual (q_id r) (q_track r) False s))) = ads (wdb s)"
    using keepsD [OF ads_play_manual, of s v "q_id r" "q_track r" False] by (simp add: same_rel_def)
  then show ?thesis by (simp add: run playing_ads_def)
qed

section \<open>A stale programme queue id\<close>

text \<open>
  A presenter's track of station 1 is on air, its programme queue is cleared and station 2 adds a
  track: the new row gets the freed id.
\<close>

definition reused_id :: conn where
  "reused_id = snd (add_item 2 8 (snd (host_clear 1 (snd (set_current 1 ''host'' (Some 1) ''host_start''
     (snd (add_item 1 7 (open_conn (empty_db\<lparr>stations := [(1, ''am''), (2, ''fm'')]\<rparr>)))))))))"

text \<open>
  When the runtime of station 1 then stops, its worker pops the row by the id it remembers and
  takes station 2's track out of the programme queue of station 2.
\<close>

theorem pop_crosses_stations:
  assumes "station v = 1" "\<not> has_registry v" "wconn s = reused_id"
  shows "map h_track (list_items 2 (wdb s)) = [8] \<and>
    list_items 2 (wdb (snd (advance_host_track v s))) = []"
proof -
  have d: "work reused_id = (empty_db\<lparr>stations := [(1, ''am''), (2, ''fm'')]\<rparr>)
      \<lparr>host_items := [\<lparr>h_id = 1, h_station = 2, h_track = 8, h_position = 1\<rparr>],
       playout_states := [(1, (''host'', Some 1))],
       transitions := [\<lparr>tr_station = 1, tr_from = (''none'', None), tr_to = (''host'', Some 1), tr_reason = ''host_start''\<rparr>]\<rparr>"
    by (simp add: reused_id_def add_item_def host_clear_def set_current_def get_current_def put_playout_def
        none_playout_def or_none_def add_transition_def bindp_def updp_def Let_def next_rowid_def
        delete_where_def empty_db_def)
  have "get_current 1 (wdb s) = (''host'', Some 1)"
    by (simp add: assms(3) wdb_def d get_current_def or_none_def)
  then have "snd (advance_host_track v s) =
      snd (set_playout v ''none'' None ''host_track_complete'' (snd (on_conn (pop_item 1) s)))"
    using assms(1,2)
    by (simp add: advance_host_track_def viewp_def bindp_def readp_def runtime_status_def on_conn_def
        pop_item_def updp_def ret_def split: prod.split sum.split)
  then show ?thesis
    by (simp add: assms(3) d wdb_def list_items_def on_conn_state set_playout_def pop_item_def
        set_current_publish publish_def Let_def delete_where_def)
qed

section \<open>Concrete inputs\<close>

definition fenced_state :: "unit wstate" where
  "fenced_state = sample_state\<lparr>wconn := open_conn (sample_db\<lparr>leases := (\<lambda>_. Some (''w2'', Some 1010))\<rparr>)\<rparr>"

theorem fenced_worker_is_inert_witness:
  "process_once sample_env fenced_state =
     (Inr (result ''none'' (Some ''lease_denied'')), fenced_state\<lparr>wconn := commit (dml id (wconn fenced_state))\<rparr>)"
  by (rule fenced_worker_is_inert [where w = "''w2''" and e = 1010])
     (simp_all add: fenced_state_def sample_env_def wdb_def)

theorem restarts_are_bounded_witness:
  "length (granted ''manual'' 1 [sample_env, sample_env] sample_state) \<le> 3 \<and>
   sorted_wrt (\<lambda>a b. a + 180 \<le> b) (granted ''manual'' 1 [sample_env, sample_env] sample_state)"
  by (rule restarts_are_bounded) (simp add: sample_state_def)

definition airing_ad :: ad_row where
  "airing_ad = \<lparr>ad_id = 1, ad_station = 1, ad_track = 1, ad_due = Some 900, ad_status = Playing,
     ad_priority = 0, ad_started = At 990, ad_finished = None, ad_dedupe = None\<rparr>"

definition ads_off_state :: "unit wstate" where
  "ads_off_state = sample_state\<lparr>wconn := open_conn (sample_db\<lparr>ads := [airing_ad]\<rparr>)\<rparr>"

theorem switching_ads_off_raises_witness:
  "fst (advance_playing_ad_item sample_env ads_off_state) =
     Inl (AttributeError ''_start_continuity_fallback'')"
proof (rule switching_ads_off_raises)
  show "ad_current_playing (station sample_env) (wdb ads_off_state) = Some airing_ad"
    by (simp add: ads_off_state_def sample_env_def wdb_def ad_current_playing_def airing_ad_def)
  show "\<not> ads_enabled (station sample_env) (wdb ads_off_state)"
    by (simp add: ads_off_state_def sample_env_def sample_db_def wdb_def ads_enabled_def
        station_ads_enabled_def get_station_def ads_enabled_from_settings_def is_truthy_def)
qed (simp_all add: airing_ad_def ads_off_state_def sample_env_def wdb_def sample_db_def)

text \<open>An ad is playing, a track is pending and the ads are on.\<close>

definition cut_row :: queue_row where
  "cut_row = \<lparr>q_id = 1, q_station = 1, q_track = 5, q_position = 1, q_status = Pending,
     q_started = NullStamp, q_finished = None, q_dedupe = None\<rparr>"

definition cut_state :: "unit wstate" where
  "cut_state = sample_state\<lparr>wconn := open_conn (put_setting 1 ''hourly_ad_enabled'' ''true''
     (empty_db\<lparr>ads := [airing_ad], queue_items := [cut_row]\<rparr>))\<rparr>"

theorem queue_item_cuts_ad_off_witness:
  "bindp (choose_next sample_env None) (play_choice sample_env) cut_state =
     play_managed_item sample_env Manual 1 5 False cut_state \<and>
   playing_ads 1 (wdb (snd (bindp (choose_next sample_env None) (play_choice sample_env) cut_state))) =
     playing_ads 1 (wdb cut_state)"
proof -
  have d: "wdb cut_state = put_setting 1 ''hourly_ad_enabled'' ''true'' (empty_db\<lparr>ads := [airing_ad], queue_items := [cut_row]\<rparr>)"
    by (simp add: cut_state_def wdb_def)
  have "truthy_text ''true''" by code_simp
  then have "ads_enabled (station sample_env) (wdb cut_state)"
    by (simp add: d sample_facts ads_enabled_def station_ads_enabled_def get_station_def
        ads_enabled_from_settings_def put_setting_def is_truthy_def)
  moreover have "current_playing (station sample_env) (wdb cut_state) = None"
    "next_pending (station sample_env) (wdb cut_state) = Some cut_row"
    "q_track cut_row \<noteq> last_done_track_id (station sample_env) (wdb cut_state)"
    by (simp_all add: d sample_facts current_playing_def playing_at_def next_pending_def pending_at_def
        last_done_track_id_def cut_row_def)
  moreover have "get_source (station sample_env) (wdb cut_state) \<noteq> ''host''"
    by (simp add: d sample_facts get_source_def source_key_def put_setting_def)
  ultimately have "bindp (choose_next sample_env None) (play_choice sample_env) cut_state =
      play_managed_item sample_env Manual (q_id cut_row) (q_track cut_row) False cut_state \<and>
    playing_ads (station sample_env) (wdb (snd (bindp (choose_next sample_env None) (play_choice sample_env) cut_state))) =
    playing_ads (station sample_env) (wdb cut_state)"
    using queue_item_cuts_ad_off [of sample_env cut_state cut_row] by blast
  from this [unfolded sample_facts] show ?thesis unfolding cut_row_def queue_row.simps .
qed

theorem pop_crosses_stations_witness:
  "map h_track (list_items 2 (work reused_id)) = [8] \<and>
   list_items 2 (wdb (snd (advance_host_track sample_env (sample_state\<lparr>wconn := reused_id\<rparr>)))) = []"
  using pop_crosses_stations [of sample_env "sample_state\<lparr>wconn := reused_id\<rparr>"]
  by (simp add: sample_env_def wdb_def)

end
