(* ===== verification/HA.thy ===== *)
theory HA
  imports Database
begin

text \<open>
  The high-availability coordinator (\<open>services/ha_coordinator.py\<close>): a node's volatile state and its
  \<open>ha_state\<close> row, the votes, heartbeats, elections and the watchdog, with high availability enabled.
  \<open>now\<close> is the wall clock, \<open>tick\<close> the monotonic one. A call to a peer is its reply. Role callbacks,
  the floating address, audit records and the text of the last error are left out.
\<close>

section \<open>State\<close>

record ha_config =
  node_id :: string
  lease_secs :: rat

text \<open>The row of \<open>ha_state\<close>.\<close>

record ha_row =
  current_term :: int
  voted_for :: string
  row_leader :: string
  row_lease :: rat

datatype ha_role = Follower | Leader

record ha_node =
  role :: ha_role
  node_term :: int
  leader_id :: string
  lease_expires_at :: rat
  deadline :: rat
  quorum :: bool
  peer_acks :: nat
  row :: ha_row

definition first_row :: ha_row where
  "first_row = \<lparr>current_term = 0, voted_for = [], row_leader = [], row_lease = 0\<rparr>"

text \<open>A coordinator as it is constructed, over a row.\<close>

definition fresh_node :: "ha_row \<Rightarrow> ha_node" where
  "fresh_node r = \<lparr>role = Follower, node_term = 0, leader_id = [], lease_expires_at = 0, deadline = 0,
     quorum = False, peer_acks = 0, row = r\<rparr>"

definition load_persistent :: "ha_node \<Rightarrow> ha_node" where
  "load_persistent n = n\<lparr>node_term := current_term (row n), leader_id := row_leader (row n),
     lease_expires_at := row_lease (row n)\<rparr>"

definition persist :: "string option \<Rightarrow> ha_node \<Rightarrow> ha_node" where
  "persist vote n = n\<lparr>row := \<lparr>current_term = node_term n,
     voted_for = (case vote of None \<Rightarrow> voted_for (row n) | Some x \<Rightarrow> x),
     row_leader = leader_id n, row_lease = lease_expires_at n\<rparr>\<rparr>"

definition set_role :: "ha_role \<Rightarrow> bool \<Rightarrow> string \<Rightarrow> ha_node \<Rightarrow> ha_node" where
  "set_role r q l n = n\<lparr>role := r, quorum := q, leader_id := l,
     deadline := (if r = Leader then deadline n else 0)\<rparr>"

section \<open>Operations\<close>

definition grant_vote :: "rat \<Rightarrow> int \<Rightarrow> string \<Rightarrow> ha_node \<Rightarrow> bool \<times> ha_node" where
  "grant_vote now t candidate n =
     (if t < current_term (row n) \<or> now < row_lease (row n) then (False, n)
      else if t = current_term (row n) \<and> voted_for (row n) \<noteq> [] \<and> voted_for (row n) \<noteq> candidate
      then (False, n)
      else (True, n\<lparr>row := \<lparr>current_term = t, voted_for = candidate, row_leader = [], row_lease = 0\<rparr>,
                    node_term := max (node_term n) t\<rparr>))"

definition receive_heartbeat ::
  "ha_config \<Rightarrow> rat \<Rightarrow> rat \<Rightarrow> int \<Rightarrow> string \<Rightarrow> rat \<Rightarrow> ha_node \<Rightarrow> bool \<times> ha_node" where
  "receive_heartbeat cfg now tick t leader expires n =
     (if t < node_term n \<or> expires \<le> now then (False, n)
      else (let lease = min expires (now + lease_secs cfg * (3 / 2));
                n1 = n\<lparr>node_term := t, lease_expires_at := lease, deadline := tick + max 0 (lease - now)\<rparr>
            in (True, persist (Some []) (set_role Follower True leader n1))))"

definition watchdog :: "rat \<Rightarrow> ha_node \<Rightarrow> ha_node" where
  "watchdog tick n =
     (if role n = Leader \<and> 0 < deadline n \<and> deadline n \<le> tick
      then persist (Some []) (set_role Follower False [] (n\<lparr>lease_expires_at := 0\<rparr>))
      else n)"

text \<open>
  \<open>_post_all\<close> calls the peers one after the other: each call comes back, at a time of the monotonic clock,
  with an answer that accepts or refuses, or with an exception. The result counts the acceptances.
\<close>

datatype reply = Accepted | Refused | Unreachable

type_synonym replies = "(rat \<times> reply) list"

definition post_all :: "replies \<Rightarrow> nat" where
  "post_all rs = length (filter (\<lambda>(t, r). r = Accepted) rs)"

text \<open>
  One round of the coordinator thread, in two steps around its calls to the peers: between them the
  watchdog and the handlers above may run. \<open>now\<close> is the time before the calls, \<open>tick\<close> the time
  after the last of them, from which the node's own deadline runs.
\<close>

definition heartbeat_done :: "ha_config \<Rightarrow> rat \<Rightarrow> rat \<Rightarrow> nat \<Rightarrow> ha_node \<Rightarrow> ha_node" where
  "heartbeat_done cfg now tick acks n =
     (let n1 = n\<lparr>peer_acks := acks\<rparr> in
      if role n1 \<noteq> Leader then n1
      else if 1 \<le> acks then
        persist None (n1\<lparr>lease_expires_at := now + lease_secs cfg, deadline := tick + lease_secs cfg,
                         quorum := True, leader_id := node_id cfg\<rparr>)
      else if lease_expires_at n1 \<le> now then set_role Follower False [] n1
      else n1)"

definition election_begin :: "ha_config \<Rightarrow> ha_node \<Rightarrow> ha_node" where
  "election_begin cfg n =
     persist (Some (node_id cfg)) (n\<lparr>node_term := node_term n + 1, leader_id := [], lease_expires_at := 0\<rparr>)"

definition election_done :: "ha_config \<Rightarrow> rat \<Rightarrow> rat \<Rightarrow> nat \<Rightarrow> ha_node \<Rightarrow> ha_node" where
  "election_done cfg now tick granted n =
     (let n1 = n\<lparr>peer_acks := granted\<rparr> in
      if 2 \<le> 1 + granted then
        persist (Some (node_id cfg)) (set_role Leader True (node_id cfg)
          (n1\<lparr>lease_expires_at := now + lease_secs cfg, deadline := tick + lease_secs cfg\<rparr>))
      else set_role Follower False [] n1)"

text \<open>Whether the round is an election: the lease is over and the random timer has run out.\<close>

definition may_elect :: "rat \<Rightarrow> rat \<Rightarrow> rat \<Rightarrow> ha_node \<Rightarrow> bool" where
  "may_elect now tick next_election n \<longleftrightarrow>
     role n \<noteq> Leader \<and> lease_expires_at n \<le> now \<and> next_election \<le> tick"

definition stop_node :: "ha_node \<Rightarrow> ha_node" where
  "stop_node n = set_role Follower False [] n"

text \<open>\<open>snapshot()['safe_to_broadcast']\<close>.\<close>

definition safe_to_broadcast :: "rat \<Rightarrow> ha_node \<Rightarrow> bool" where
  "safe_to_broadcast tick n \<longleftrightarrow> role n = Leader \<and> quorum n \<and> 0 < deadline n - tick"

text \<open>\<open>require_safe_mutation\<close>: a mutation needs a leader with a quorum, or an override reason.\<close>

definition require_safe_mutation :: "string \<Rightarrow> ha_node \<Rightarrow> exn + unit" where
  "require_safe_mutation reason n =
     (if (quorum n \<and> role n = Leader) \<or> strip reason \<noteq> [] then Inr ()
      else Inl (RuntimeError ''ha_replication_not_ready''))"

section \<open>Runs of a node\<close>

datatype ha_event =
    Vote rat int string
  | Heartbeat rat rat int string rat
  | Watchdog rat
  | Beat_Done rat replies rat
  | Elect_Begin
  | Elect_Done rat replies rat
  | Stop
  | Restart

fun ha_step :: "ha_config \<Rightarrow> ha_event \<Rightarrow> ha_node \<Rightarrow> ha_node" where
  "ha_step cfg (Vote now t x) n = snd (grant_vote now t x n)"
| "ha_step cfg (Heartbeat now tick t l e) n = snd (receive_heartbeat cfg now tick t l e n)"
| "ha_step cfg (Watchdog tick) n = watchdog tick n"
| "ha_step cfg (Beat_Done now rs tick) n = heartbeat_done cfg now tick (post_all rs) n"
| "ha_step cfg Elect_Begin n = election_begin cfg n"
| "ha_step cfg (Elect_Done now rs tick) n = election_done cfg now tick (post_all rs) n"
| "ha_step cfg Stop n = stop_node n"
| "ha_step cfg Restart n = load_persistent (fresh_node (row n))"

text \<open>The first start finds the row the schema inserts.\<close>

definition started :: ha_node where
  "started = load_persistent (fresh_node first_row)"

definition ha_run :: "ha_config \<Rightarrow> ha_event list \<Rightarrow> ha_node \<Rightarrow> ha_node" where
  "ha_run cfg es n = fold (ha_step cfg) es n"

lemmas ha_defs = persist_def set_role_def grant_vote_def receive_heartbeat_def watchdog_def
  heartbeat_done_def election_begin_def election_done_def stop_node_def load_persistent_def
  fresh_node_def Let_def

section \<open>Terms\<close>

definition term_ok :: "ha_node \<Rightarrow> bool" where
  "term_ok n \<longleftrightarrow> node_term n = current_term (row n)"

lemma ha_step_terms:
  "term_ok n \<Longrightarrow> term_ok (ha_step cfg e n) \<and> current_term (row n) \<le> current_term (row (ha_step cfg e n))"
  by (cases e) (auto simp: term_ok_def ha_defs)

lemma ha_run_terms:
  "term_ok n \<Longrightarrow> term_ok (ha_run cfg es n) \<and> current_term (row n) \<le> current_term (row (ha_run cfg es n))"
proof (induction es arbitrary: n)
  case (Cons e es)
  have step: "term_ok (ha_step cfg e n)" "current_term (row n) \<le> current_term (row (ha_step cfg e n))"
    using ha_step_terms [OF Cons.prems] by blast+
  show ?case
    using Cons.IH [OF step(1)] order_trans [OF step(2)] by (simp add: ha_run_def)
qed (simp add: ha_run_def)

text \<open>
  A started coordinator's term equals the one in its row, and neither ever decreases, through
  votes, heartbeats, elections, fencing, stops and restarts in any order.
\<close>

theorem terms_never_go_back:
  "node_term (ha_run cfg es started) = current_term (row (ha_run cfg es started)) \<and>
   node_term (ha_run cfg es started) \<le> node_term (ha_run cfg (es @ es') started)"
proof -
  have s: "term_ok started" by (simp add: term_ok_def started_def ha_defs first_row_def)
  have split: "ha_run cfg (es @ es') started = ha_run cfg es' (ha_run cfg es started)"
    by (simp add: ha_run_def)
  show ?thesis
    using ha_run_terms [OF s, of cfg es] ha_run_terms [of "ha_run cfg es started" cfg es']
    by (simp add: split term_ok_def)
qed

section \<open>Fencing\<close>

text \<open>The times at which a peer accepted (a heartbeat or a vote), each with the time its round of calls ended.\<close>

fun accepted :: "ha_event \<Rightarrow> (rat \<times> rat) set" where
  "accepted (Beat_Done now rs tick) = {(t, tick) | t. (t, Accepted) \<in> set rs}"
| "accepted (Elect_Done now rs tick) = {(t, tick) | t. (t, Accepted) \<in> set rs}"
| "accepted _ = {}"

definition answers :: "ha_event list \<Rightarrow> (rat \<times> rat) set" where
  "answers es = (\<Union>e \<in> set es. accepted e)"

lemma post_all_accepted: "1 \<le> post_all rs \<longleftrightarrow> (\<exists>t. (t, Accepted) \<in> set rs)"
  by (auto simp: post_all_def Suc_le_eq filter_empty_conv)

lemma deadline_from_answer:
  assumes "role n = Leader \<Longrightarrow> deadline n \<in> insert 0 ((\<lambda>(t, e). e + lease_secs cfg) ` T)"
    and "role (ha_step cfg e n) = Leader"
  shows "deadline (ha_step cfg e n) \<in> insert 0 ((\<lambda>(t, e). e + lease_secs cfg) ` (T \<union> accepted e))"
proof (cases e)
  case (Beat_Done now rs tick)
  have "(\<lambda>(t, e). e + lease_secs cfg) (t, tick) \<in> (\<lambda>(t, e). e + lease_secs cfg) ` (T \<union> accepted e)"
    if "(t, Accepted) \<in> set rs" for t using that Beat_Done by (intro imageI) simp
  then show ?thesis using assms Beat_Done post_all_accepted [of rs] by (auto simp: ha_defs split: if_splits)
next
  case (Elect_Done now rs tick)
  have "(\<lambda>(t, e). e + lease_secs cfg) (t, tick) \<in> (\<lambda>(t, e). e + lease_secs cfg) ` (T \<union> accepted e)"
    if "(t, Accepted) \<in> set rs" for t using that Elect_Done by (intro imageI) simp
  then show ?thesis using assms Elect_Done post_all_accepted [of rs] by (auto simp: ha_defs split: if_splits)
qed (use assms in \<open>auto simp: ha_defs split: if_splits\<close>)

lemma leader_deadline:
  "role (ha_run cfg es started) = Leader \<Longrightarrow>
   deadline (ha_run cfg es started) \<in> insert 0 ((\<lambda>(t, e). e + lease_secs cfg) ` answers es)"
proof (induction es rule: rev_induct)
  case (snoc e es)
  let ?n = "ha_run cfg es started"
  have "ha_run cfg (es @ [e]) started = ha_step cfg e ?n" by (simp add: ha_run_def)
  moreover have "answers (es @ [e]) = answers es \<union> accepted e" by (auto simp: answers_def)
  ultimately show ?case
    using deadline_from_answer [of ?n cfg "answers es" e] snoc by simp
qed (simp add: ha_run_def started_def ha_defs)

text \<open>
  C6: the coordinator is fail-silent: whatever happened before, a node that may broadcast at a time that is
  not negative got an acceptance from a peer (of a heartbeat or a vote) in a round of calls that ended
  less than one lease before. If no round went on for more than \<open>d\<close> after an acceptance, that acceptance
  came less than one lease and \<open>d\<close> before.
\<close>

theorem broadcasting_needs_recent_quorum:
  assumes "safe_to_broadcast tick (ha_run cfg es started)" "0 \<le> tick"
    and "\<forall>(t, e) \<in> answers es. e \<le> t + d"
  shows "\<exists>(t, e) \<in> answers es. tick < e + lease_secs cfg \<and> tick < t + d + lease_secs cfg"
proof -
  have "role (ha_run cfg es started) = Leader" "tick < deadline (ha_run cfg es started)"
    using assms(1) by (simp_all add: safe_to_broadcast_def)
  then obtain t e where te: "(t, e) \<in> answers es" "tick < e + lease_secs cfg"
    using leader_deadline [of cfg es] assms(2) by auto
  then have "tick < t + d + lease_secs cfg" using assms(3) by fastforce
  with te show ?thesis by blast
qed

text \<open>
  The deadline runs from the end of the round: when a peer accepts and the call to the next one hangs, the
  node goes on broadcasting although the lease it asked that peer for is over.
\<close>

theorem slow_peer_outlives_lease:
  fixes cfg :: ha_config
  assumes "0 < lease_secs cfg" "0 < now" "0 < h"
  defines "n \<equiv> ha_run cfg [Elect_Begin, Elect_Done now [(now, Accepted), (now + h, Unreachable)] (now + h)] started"
  shows "lease_expires_at n = now + lease_secs cfg \<and> safe_to_broadcast (now + lease_secs cfg + h / 2) n"
  using assms(1-3) by (simp add: n_def ha_run_def post_all_def started_def first_row_def safe_to_broadcast_def ha_defs)

section \<open>Votes\<close>

text \<open>The events that leave the recorded vote of a term alone.\<close>

fun keeps_vote :: "ha_event \<Rightarrow> bool" where
  "keeps_vote (Vote now t x) = True"
| "keeps_vote Restart = True"
| "keeps_vote Stop = True"
| "keeps_vote (Beat_Done now rs tick) = True"
| "keeps_vote _ = False"

text \<open>After a vote in term \<open>t\<close> for \<open>x\<close>: still recorded, or the row is past that term.\<close>

definition vote_recorded :: "int \<Rightarrow> string \<Rightarrow> ha_node \<Rightarrow> bool" where
  "vote_recorded t x n \<longleftrightarrow> term_ok n \<and>
     (t < current_term (row n) \<or> current_term (row n) = t \<and> voted_for (row n) = x)"

lemma vote_recorded_step:
  "vote_recorded t x n \<Longrightarrow> x \<noteq> [] \<Longrightarrow> keeps_vote e \<Longrightarrow> vote_recorded t x (ha_step cfg e n)"
  using ha_step_terms [of n cfg e] by (cases e) (auto simp: vote_recorded_def ha_defs)

text \<open>
  C30: a node does not vote twice in a term: after a granted vote, as long as no heartbeat, fencing
  or own election comes between, it refuses every other candidate of that term, also after
  restarts.
\<close>

theorem one_vote_per_term:
  assumes "fst (grant_vote now t x n)" "term_ok n" "x \<noteq> []" "\<forall>e \<in> set es. keeps_vote e" "y \<noteq> x"
  shows "\<not> fst (grant_vote later t y (ha_run cfg es (snd (grant_vote now t x n))))"
proof -
  have refused: "vote_recorded t x m \<Longrightarrow> \<not> fst (grant_vote later t y m)" for m
    using assms(3,5) by (auto simp: vote_recorded_def grant_vote_def)
  have keep: "vote_recorded t x (ha_run cfg es m)" if "vote_recorded t x m" for m
    using that assms(3,4)
    by (induction es rule: rev_induct) (auto simp: ha_run_def intro: vote_recorded_step)
  have "vote_recorded t x (snd (grant_vote now t x n))"
    using assms(1,2) by (auto simp: vote_recorded_def term_ok_def grant_vote_def split: if_splits)
  then show ?thesis by (intro refused keep)
qed

section \<open>Several nodes\<close>

text \<open>An election among nodes: the candidate asks the peers it reaches, one after the other.\<close>

fun poll_votes :: "rat \<Rightarrow> int \<Rightarrow> string \<Rightarrow> string list \<Rightarrow> (string \<Rightarrow> ha_node) \<Rightarrow> nat \<times> (string \<Rightarrow> ha_node)" where
  "poll_votes now t candidate [] net = (0, net)"
| "poll_votes now t candidate (p # ps) net =
     (let (granted, n) = grant_vote now t candidate (net p);
          (votes, net') = poll_votes now t candidate ps (net(p := n))
      in ((if granted then 1 else 0) + votes, net'))"

definition net_elect :: "ha_config \<Rightarrow> rat \<Rightarrow> rat \<Rightarrow> string list \<Rightarrow> (string \<Rightarrow> ha_node) \<Rightarrow> string \<Rightarrow> ha_node" where
  "net_elect cfg now tick reached net =
     (let me = node_id cfg; net1 = net(me := election_begin cfg (net me));
          (votes, net2) = poll_votes now (node_term (net1 me)) me reached net1
      in net2(me := election_done cfg now tick votes (net2 me)))"

text \<open>
  Two broadcasting nodes and a witness with the default lease. Node \<open>b\<close> fails an election while it
  reaches nobody; ten seconds later \<open>a\<close> wins the vote of the witness, and half a second after that,
  before the first heartbeat of \<open>a\<close>, node \<open>b\<close> wins it in the next term.
\<close>

definition config_of :: "string \<Rightarrow> ha_config" where
  "config_of name = \<lparr>node_id = name, lease_secs = 6\<rparr>"

definition net_0 :: "string \<Rightarrow> ha_node" where
  "net_0 = (\<lambda>_. started)"

definition net_1 :: "string \<Rightarrow> ha_node" where
  "net_1 = net_elect (config_of ''b'') 100 100 [] net_0"

definition net_2 :: "string \<Rightarrow> ha_node" where
  "net_2 = net_elect (config_of ''a'') 110 110 [''w''] net_1"

definition net_3 :: "string \<Rightarrow> ha_node" where
  "net_3 = net_elect (config_of ''b'') (221 / 2) (221 / 2) [''w''] net_2"

text \<open>
  The coordinator does not exclude two leaders: a vote does not carry a lease, so a voter may
  elect a second node in the next term while the first one's lease runs. In the run above every
  election is allowed by its timer, and at its end both nodes may broadcast.
\<close>

theorem two_nodes_may_broadcast:
  "may_elect 100 100 100 (net_0 ''b'') \<and> may_elect 110 110 110 (net_1 ''a'') \<and>
   may_elect (221 / 2) (221 / 2) (100 + 9) (net_2 ''b'') \<and>
   safe_to_broadcast (221 / 2) (net_3 ''a'') \<and> safe_to_broadcast (221 / 2) (net_3 ''b'')"
  by (simp add: net_3_def net_2_def net_1_def net_0_def net_elect_def config_of_def started_def
      first_row_def may_elect_def safe_to_broadcast_def ha_defs)

text \<open>
  An accepted heartbeat clears the recorded vote, so a voter may then vote for another
  candidate in the same term, once the lease is over.
\<close>

theorem heartbeat_allows_second_vote:
  assumes "fst (grant_vote now t x n)" "term_ok n" "now < sent" "sent < e" "e + 1 < later" "x \<noteq> y" "x \<noteq> []"
  shows "fst (grant_vote later t y (ha_run cfg [Heartbeat sent tick t x e] (snd (grant_vote now t x n))))"
  using assms by (auto simp: ha_run_def ha_defs term_ok_def split: if_splits)

section \<open>Concrete inputs\<close>

text \<open>One peer votes at 110, the call to the other fails at 113; at 115 the node may broadcast.\<close>

theorem broadcasting_needs_recent_quorum_witness:
  "\<exists>(t, e) \<in> answers [Elect_Begin, Elect_Done 110 [(110, Accepted), (113, Unreachable)] 113].
     115 < e + lease_secs (config_of ''a'') \<and> 115 < t + 3 + lease_secs (config_of ''a'')"
proof (rule broadcasting_needs_recent_quorum)
  show "safe_to_broadcast 115
      (ha_run (config_of ''a'') [Elect_Begin, Elect_Done 110 [(110, Accepted), (113, Unreachable)] 113] started)"
    by (simp add: ha_run_def post_all_def safe_to_broadcast_def started_def first_row_def config_of_def ha_defs)
qed (simp_all add: answers_def)

theorem one_vote_per_term_witness:
  "\<not> fst (grant_vote 12 1 ''b'' (ha_run (config_of ''w'') [Restart, Vote 11 1 ''a'']
      (snd (grant_vote 10 1 ''a'' started))))"
  by (rule one_vote_per_term)
     (simp_all add: started_def first_row_def term_ok_def ha_defs)

theorem heartbeat_allows_second_vote_witness:
  "fst (grant_vote 30 1 ''b'' (ha_run (config_of ''w'') [Heartbeat 11 11 1 ''a'' 17]
      (snd (grant_vote 10 1 ''a'' started))))"
  by (rule heartbeat_allows_second_vote)
     (simp_all add: started_def first_row_def term_ok_def ha_defs)

end
