(* ===== verification/Guards.thy ===== *)
theory Guards
  imports Database
begin

text \<open>
  The two counters in front of the login: the sliding-window rate limiter
  (\<open>middleware/rate_limit.py\<close>) and the brute-force protection (\<open>auth/brute_force.py\<close>). Both are
  dictionaries from a key to the times of its recent events; a key that is absent and one with no
  events read the same. A clock reading is an argument.
\<close>

type_synonym events = "string \<Rightarrow> rat list"

section \<open>Sliding window\<close>

definition limiter_reset :: "events \<Rightarrow> events" where
  "limiter_reset ev = (\<lambda>_. [])"

definition allow :: "rat \<Rightarrow> string \<Rightarrow> int \<Rightarrow> int \<Rightarrow> events \<Rightarrow> bool \<times> events" where
  "allow now key limit window_sec ev =
     (let safe_limit = max 1 limit; safe_window = max 1 window_sec;
          cutoff = now - of_int safe_window;
          bucket = dropWhile (\<lambda>t. t \<le> cutoff) (ev key)
      in if safe_limit \<le> int (length bucket) then (False, ev(key := bucket))
         else (True, ev(key := bucket @ [now])))"

text \<open>A run of requests, each a time and a key: the decisions in order.\<close>

fun allow_all :: "int \<Rightarrow> int \<Rightarrow> (rat \<times> string) list \<Rightarrow> events \<Rightarrow> bool list" where
  "allow_all limit w [] ev = []"
| "allow_all limit w ((now, key) # rs) ev =
     (let (ok, ev') = allow now key limit w ev in ok # allow_all limit w rs ev')"

text \<open>
  What the limiter promises, with the whole history at hand: a request is granted when fewer than
  \<open>limit\<close> requests of its key were granted in the window before it.
\<close>

fun window_spec :: "int \<Rightarrow> int \<Rightarrow> (rat \<times> string) list \<Rightarrow> (rat \<times> string) list \<Rightarrow> bool list" where
  "window_spec limit w [] granted = []"
| "window_spec limit w ((now, key) # rs) granted =
     (let ok = int (length (filter (\<lambda>(t, k). k = key \<and> now - of_int w < t) granted)) < limit
      in ok # window_spec limit w rs (if ok then granted @ [(now, key)] else granted))"

definition times_of :: "string \<Rightarrow> (rat \<times> string) list \<Rightarrow> rat list" where
  "times_of key granted = map fst (filter (\<lambda>(t, k). k = key) granted)"

text \<open>The buckets hold what of the granted times can still count at or after \<open>now\<close>.\<close>

definition tracks_window :: "int \<Rightarrow> rat \<Rightarrow> events \<Rightarrow> (rat \<times> string) list \<Rightarrow> bool" where
  "tracks_window w now ev granted \<longleftrightarrow>
     (\<forall>key. \<exists>old. times_of key granted = old @ ev key \<and> (\<forall>t \<in> set old. t \<le> now - of_int w)) \<and>
     sorted (map fst granted) \<and> (\<forall>t \<in> fst ` set granted. t \<le> now)"

lemma sorted_dropWhile_filter: "sorted xs \<Longrightarrow> dropWhile (\<lambda>t. t \<le> c) xs = filter (\<lambda>t. c < t) xs" for c :: rat
  by (induction xs) (auto intro!: filter_True [symmetric])

lemma sorted_times_of: "sorted (map fst granted) \<Longrightarrow> sorted (times_of key granted)"
  by (simp add: times_of_def sorted_map_filter)

lemma bucket_is_window:
  assumes "tracks_window w since ev granted" "since \<le> now"
  shows "dropWhile (\<lambda>t. t \<le> now - of_int w) (ev key) =
    filter (\<lambda>t. now - of_int w < t) (times_of key granted)"
proof -
  obtain old where old: "times_of key granted = old @ ev key" "\<forall>t \<in> set old. t \<le> since - of_int w"
    using assms(1) unfolding tracks_window_def by blast
  have "sorted (times_of key granted)" using assms(1) sorted_times_of by (auto simp: tracks_window_def)
  then have "sorted (ev key)" by (simp add: old(1) sorted_append)
  moreover have "filter (\<lambda>t. now - of_int w < t) old = []"
    using old(2) assms(2) by (fastforce simp: filter_empty_conv)
  ultimately show ?thesis by (simp add: old(1) sorted_dropWhile_filter)
qed

lemma length_times_of:
  "length (filter (\<lambda>t. c < t) (times_of key granted)) = length (filter (\<lambda>(t, k). k = key \<and> c < t) granted)"
  by (induction granted) (auto simp: times_of_def)

lemma tracks_window_prune:
  assumes "tracks_window w since ev granted" "since \<le> now"
  shows "tracks_window w now (ev(key := dropWhile (\<lambda>t. t \<le> now - of_int w) (ev key))) granted"
proof -
  have keep: "\<exists>old. times_of k granted = old @ (ev(key := dropWhile (\<lambda>t. t \<le> now - of_int w) (ev key))) k \<and>
      (\<forall>t \<in> set old. t \<le> now - of_int w)" for k
  proof -
    obtain old where old: "times_of k granted = old @ ev k" "\<forall>t \<in> set old. t \<le> since - of_int w"
      using assms(1) unfolding tracks_window_def by blast
    have early: "\<forall>t \<in> set old. t \<le> now - of_int w" using old(2) assms(2) by force
    show ?thesis
    proof (cases "k = key")
      case True
      let ?d = "takeWhile (\<lambda>t. t \<le> now - of_int w) (ev key)"
      show ?thesis
        using old(1) early True
        by (intro exI [of _ "old @ ?d"]) (auto dest: set_takeWhileD)
    next
      case False
      then show ?thesis using old(1) early by (intro exI [of _ old]) simp
    qed
  qed
  show ?thesis
    using assms keep by (auto simp: tracks_window_def simp del: fun_upd_apply)
qed

lemma tracks_window_grant:
  assumes "tracks_window w now ev granted"
  shows "tracks_window w now (ev(key := ev key @ [now])) (granted @ [(now, key)])"
  using assms by (auto simp: tracks_window_def times_of_def sorted_append)

lemma allow_all_spec:
  assumes "tracks_window w since ev granted" "sorted (since # map fst rs)" "1 \<le> limit" "1 \<le> w"
  shows "allow_all limit w rs ev = window_spec limit w rs granted"
  using assms
proof (induction rs arbitrary: since ev granted)
  case (Cons r rs)
  obtain now key where r: "r = (now, key)" by (cases r)
  have le: "since \<le> now" and rest: "sorted (now # map fst rs)" using Cons.prems(2) by (auto simp: r)
  let ?b = "dropWhile (\<lambda>t. t \<le> now - of_int w) (ev key)"
  have len: "length ?b = length (filter (\<lambda>(t, k). k = key \<and> now - of_int w < t) granted)"
    by (simp add: bucket_is_window [OF Cons.prems(1) le] length_times_of)
  have kept: "tracks_window w now (ev(key := ?b)) granted"
    by (rule tracks_window_prune [OF Cons.prems(1) le])
  have grown: "tracks_window w now (ev(key := ?b @ [now])) (granted @ [(now, key)])"
    using tracks_window_grant [OF kept, of key] by simp
  show ?case
    using Cons.prems(3,4) len Cons.IH [OF kept rest] Cons.IH [OF grown rest]
    by (simp add: r allow_def Let_def max_def del: fun_upd_apply)
qed simp

text \<open>
  C32: with a clock that does not go back, the limiter, which only keeps a pruned queue per key,
  decides exactly as the sliding-window specification over the whole history.
\<close>

theorem limiter_meets_window:
  assumes "sorted (map fst rs)"
  shows "allow_all limit w rs (limiter_reset ev) = window_spec (max 1 limit) (max 1 w) rs []"
proof -
  have clamp: "allow_all limit w qs ev = allow_all (max 1 limit) (max 1 w) qs ev" for qs ev
    by (induction qs arbitrary: ev) (auto simp: allow_def Let_def)
  show ?thesis
  proof (cases rs)
    case (Cons r rs')
    have "sorted (fst r # map fst rs)" using assms by (auto simp: Cons)
    moreover have "tracks_window (max 1 w) (fst r) (limiter_reset ev) []"
      by (simp add: tracks_window_def times_of_def limiter_reset_def)
    ultimately show ?thesis unfolding clamp [of rs] by (intro allow_all_spec) auto
  qed simp
qed

theorem limiter_meets_window_witness:
  "allow_all 2 10 [(0, ''a''), (1, ''a''), (1, ''b''), (9, ''a''), (10, ''a'')] (limiter_reset (\<lambda>_. [])) =
     window_spec (max 1 2) (max 1 10) [(0, ''a''), (1, ''a''), (1, ''b''), (9, ''a''), (10, ''a'')] [] \<and>
   window_spec 2 10 [(0, ''a''), (1, ''a''), (1, ''b''), (9, ''a''), (10, ''a'')] [] =
     [True, True, True, False, True]"
  using limiter_meets_window [of "[(0, ''a''), (1, ''a''), (1, ''b''), (9, ''a''), (10, ''a'')]" 2 10 "\<lambda>_. []"]
  by simp

section \<open>Failed logins\<close>

text \<open>The time window of five minutes.\<close>

definition brute_prune :: "rat \<Rightarrow> string \<Rightarrow> events \<Rightarrow> events" where
  "brute_prune now identifier fa = fa(identifier := filter (\<lambda>t. now - 300 \<le> t) (fa identifier))"

definition check_allowed :: "rat \<Rightarrow> string \<Rightarrow> events \<Rightarrow> bool \<times> events" where
  "check_allowed now identifier fa =
     (let fa' = brute_prune now identifier fa in (length (fa' identifier) < 5, fa'))"

definition record_failure :: "rat \<Rightarrow> string \<Rightarrow> events \<Rightarrow> events" where
  "record_failure now identifier fa =
     (let fa' = brute_prune now identifier fa in fa'(identifier := fa' identifier @ [now]))"

definition record_success :: "string \<Rightarrow> events \<Rightarrow> events" where
  "record_success identifier fa = fa(identifier := [])"

lemmas brute_defs = brute_prune_def check_allowed_def record_failure_def record_success_def Let_def

lemma brute_other [simp]:
  "identifier \<noteq> x \<Longrightarrow> snd (check_allowed now identifier fa) x = fa x"
  "identifier \<noteq> x \<Longrightarrow> record_failure now identifier fa x = fa x"
  "identifier \<noteq> x \<Longrightarrow> record_success identifier fa x = fa x"
  by (auto simp: brute_defs)

end
