(* ===== verification/Rbac.thy ===== *)
theory Rbac
  imports Database
begin

text \<open>
  Users and role-based access control: the tables of \<open>db.py\<close>, the repositories
  \<open>repositories/user_repo.py\<close> and \<open>repositories/rbac_repo.py\<close>, the assignments of
  \<open>repositories/show_repo.py\<close>, and the synchronisation of the legacy roles that \<open>init_db\<close> runs.
  A write is a function to the new tables, or the exception SQLite raises, which leaves the tables
  as they were. Foreign keys are on. Columns that only display code reads are left out.
\<close>

section \<open>Tables\<close>

record user_row =
  u_id :: int
  u_name :: string
  u_display :: string
  u_password :: string
  u_role :: string
  u_active :: bool
  u_last_login :: "rat option"

record role_template =
  rt_id :: int
  rt_name :: string
  rt_description :: string
  rt_system :: bool
  rt_active :: bool

record assignment_row =
  sa_show :: int
  sa_user :: int
  sa_role :: string
  sa_keys_json :: string

text \<open>\<open>user_sessions\<close>; \<open>refresh_token\<close> holds the digest of the token.\<close>

record login_session =
  us_id :: int
  us_user :: int
  us_token :: string
  us_expires :: int
  us_revoked :: bool

text \<open>\<open>_seq\<close> fields: the largest id ever given, which \<open>AUTOINCREMENT\<close> remembers.\<close>

record acc =
  users :: "user_row list"
  user_seq :: int
  role_templates :: "role_template list"
  template_seq :: int
  template_permissions :: "(int \<times> string) list"
  user_roles :: "(int \<times> int) list"
  show_ids :: "int list"
  assignments :: "assignment_row list"
  assignment_permissions :: "(int \<times> int \<times> string) list"
  login_sessions :: "login_session list"
  session_seq :: int
  migration_marked :: bool

definition empty_acc :: acc where
  "empty_acc = \<lparr>users = [], user_seq = 0, role_templates = [], template_seq = 0,
     template_permissions = [], user_roles = [], show_ids = [], assignments = [],
     assignment_permissions = [], login_sessions = [], session_seq = 0, migration_marked = False\<rparr>"

section \<open>Permission keys\<close>

definition GLOBAL_PERMISSION_GROUPS :: "(string \<times> string list) list" where
  "GLOBAL_PERMISSION_GROUPS =
     [(''stations'', [''stations.view'', ''stations.create'', ''stations.edit'', ''stations.delete'']),
      (''library'', [''library.view'', ''library.edit'']),
      (''playlists'', [''playlists.view'', ''playlists.edit'']),
      (''ads'', [''ads.view'', ''ads.edit'']),
      (''downloads'', [''downloads.use'']),
      (''schedule'', [''schedule.view'', ''schedule.edit'']),
      (''logs'', [''logs.view'']),
      (''queue'', [''queue.view'', ''queue.edit'']),
      (''soundboard'', [''soundboard.view'', ''soundboard.play'', ''soundboard.manage'']),
      (''program'', [''program.panel.open'']),
      (''shows'', [''shows.view'', ''shows.manage'', ''show.assign.manage'']),
      (''stream'', [''stream.configure_basic'', ''stream.configure_advanced'', ''stream.failover'']),
      (''users'', [''users.manage'', ''users.reset_password'']),
      (''roles'', [''roles.manage''])]"

definition GLOBAL_PERMISSION_KEYS :: "string list" where
  "GLOBAL_PERMISSION_KEYS = concat (map snd GLOBAL_PERMISSION_GROUPS)"

definition SHOW_PERMISSION_KEYS :: "string list" where
  "SHOW_PERMISSION_KEYS =
     [''show.broadcast'', ''show.queue_edit'', ''show.jingle_manage'', ''show.break_control'',
      ''show.end'', ''show.guest_manage'', ''show.guest_record'']"

definition LEGACY_ROLE_TEMPLATE_PERMISSIONS :: "(string \<times> string list) list" where
  "LEGACY_ROLE_TEMPLATE_PERMISSIONS =
     [(''Legacy Admin'', GLOBAL_PERMISSION_KEYS),
      (''Legacy DJ'',
        [''stations.view'', ''library.view'', ''library.edit'', ''playlists.view'', ''playlists.edit'',
         ''schedule.view'', ''schedule.edit'', ''queue.view'', ''queue.edit'', ''soundboard.view'',
         ''soundboard.play'', ''program.panel.open'', ''shows.view'', ''logs.view'',
         ''stream.configure_basic'']),
      (''Legacy Producer'',
        [''library.view'', ''library.edit'', ''playlists.view'', ''playlists.edit'', ''ads.view'',
         ''ads.edit'', ''schedule.view'', ''schedule.edit'', ''queue.view'', ''queue.edit'',
         ''program.panel.open'', ''shows.view'', ''logs.view'']),
      (''Legacy Viewer'',
        [''stations.view'', ''library.view'', ''playlists.view'', ''ads.view'', ''schedule.view'',
         ''queue.view'', ''shows.view'', ''logs.view''])]"

definition LEGACY_ROLE_TO_TEMPLATE :: "(string \<times> string) list" where
  "LEGACY_ROLE_TO_TEMPLATE =
     [(''admin'', ''Legacy Admin''), (''dj'', ''Legacy DJ''), (''producer'', ''Legacy Producer''),
      (''viewer'', ''Legacy Viewer'')]"

definition LEGACY_SHOW_ROLE_PERMISSIONS :: "(string \<times> string list) list" where
  "LEGACY_SHOW_ROLE_PERMISSIONS =
     [(''dj'', [''show.broadcast'', ''show.queue_edit'', ''show.jingle_manage'',
                ''show.break_control'', ''show.end'']),
      (''producer'', [''show.queue_edit'', ''show.jingle_manage'', ''show.break_control''])]"

section \<open>User repository\<close>

definition get_user_by_id :: "int \<Rightarrow> acc \<Rightarrow> user_row option" where
  "get_user_by_id i a = find (\<lambda>u. u_id u = i) (users a)"

definition get_user_by_username :: "string \<Rightarrow> acc \<Rightarrow> user_row option" where
  "get_user_by_username name a = find (\<lambda>u. u_name u = name) (users a)"

definition list_users :: "bool \<Rightarrow> acc \<Rightarrow> user_row list" where
  "list_users include_inactive a =
     sort_key u_id (filter (\<lambda>u. include_inactive \<or> u_active u) (users a))"

definition create_user_row ::
  "string \<Rightarrow> string \<Rightarrow> string \<Rightarrow> string \<Rightarrow> acc \<Rightarrow> exn + (int \<times> acc)" where
  "create_user_row name display password role a =
     (if name \<in> set (map u_name (users a)) then Inl IntegrityError
      else let i = user_seq a + 1 in
        Inr (i, a\<lparr>users := users a @ [\<lparr>u_id = i, u_name = name, u_display = display,
                    u_password = password, u_role = role, u_active = True, u_last_login = None\<rparr>],
                  user_seq := i\<rparr>))"

text \<open>The keyword arguments of \<open>update_user\<close>; a missing one is \<open>None\<close>, as the source treats it.\<close>

record user_fields =
  f_display :: "string option"
  f_role :: "string option"
  f_active :: "bool option"
  f_password :: "string option"

definition no_fields :: user_fields where
  "no_fields = \<lparr>f_display = None, f_role = None, f_active = None, f_password = None\<rparr>"

definition set_or :: "'a option \<Rightarrow> 'a \<Rightarrow> 'a" where
  "set_or x old = (case x of None \<Rightarrow> old | Some y \<Rightarrow> y)"

definition update_user :: "int \<Rightarrow> user_fields \<Rightarrow> acc \<Rightarrow> bool \<times> acc" where
  "update_user i f a =
     (if f = no_fields then (False, a)
      else (rowcount (\<lambda>u. u_id u = i) (users a) > 0,
        a\<lparr>users := update_where (\<lambda>u. u_id u = i)
          (\<lambda>u. u\<lparr>u_display := set_or (f_display f) (u_display u), u_role := set_or (f_role f) (u_role u),
                 u_active := set_or (f_active f) (u_active u),
                 u_password := set_or (f_password f) (u_password u)\<rparr>) (users a)\<rparr>))"

definition deactivate_user :: "int \<Rightarrow> acc \<Rightarrow> bool \<times> acc" where
  "deactivate_user i a = update_user i (no_fields\<lparr>f_active := Some False\<rparr>) a"

definition update_last_login :: "rat \<Rightarrow> int \<Rightarrow> acc \<Rightarrow> acc" where
  "update_last_login now i a = a\<lparr>users := update_where (\<lambda>u. u_id u = i)
     (\<lambda>u. u\<lparr>u_last_login := Some (current_timestamp now)\<rparr>) (users a)\<rparr>"

section \<open>Role repository\<close>

definition create_role_template ::
  "string \<Rightarrow> string \<Rightarrow> bool \<Rightarrow> acc \<Rightarrow> exn + (int \<times> acc)" where
  "create_role_template name description is_system a =
     (if name \<in> set (map rt_name (role_templates a)) then Inl IntegrityError
      else let i = template_seq a + 1 in
        Inr (i, a\<lparr>role_templates := role_templates a @ [\<lparr>rt_id = i, rt_name = name,
                    rt_description = description, rt_system = is_system, rt_active = True\<rparr>],
                  template_seq := i\<rparr>))"

record template_fields =
  f_name :: "string option"
  f_description :: "string option"
  f_is_system :: "bool option"
  f_is_active :: "bool option"

definition no_template_fields :: template_fields where
  "no_template_fields = \<lparr>f_name = None, f_description = None, f_is_system = None, f_is_active = None\<rparr>"

definition update_role_template :: "int \<Rightarrow> template_fields \<Rightarrow> acc \<Rightarrow> exn + (bool \<times> acc)" where
  "update_role_template i f a =
     (if f = no_template_fields then Inr (False, a)
      else if f_name f \<noteq> None \<and> i \<in> set (map rt_id (role_templates a)) \<and>
        the (f_name f) \<in> set (map rt_name (delete_where (\<lambda>t. rt_id t = i) (role_templates a)))
      then Inl IntegrityError
      else Inr (rowcount (\<lambda>t. rt_id t = i) (role_templates a) > 0,
        a\<lparr>role_templates := update_where (\<lambda>t. rt_id t = i)
          (\<lambda>t. t\<lparr>rt_name := set_or (f_name f) (rt_name t),
                 rt_description := set_or (f_description f) (rt_description t),
                 rt_system := set_or (f_is_system f) (rt_system t),
                 rt_active := set_or (f_is_active f) (rt_active t)\<rparr>) (role_templates a)\<rparr>))"

definition get_role_template :: "int \<Rightarrow> acc \<Rightarrow> role_template option" where
  "get_role_template i a = find (\<lambda>t. rt_id t = i) (role_templates a)"

text \<open>The order by name is left out: the callers look rows up in it or display it.\<close>

definition list_role_templates :: "bool \<Rightarrow> acc \<Rightarrow> role_template list" where
  "list_role_templates include_inactive a =
     filter (\<lambda>t. include_inactive \<or> rt_active t) (role_templates a)"

definition replace_role_permissions :: "int \<Rightarrow> string list \<Rightarrow> acc \<Rightarrow> exn + acc" where
  "replace_role_permissions i keys a =
     (if keys \<noteq> [] \<and> i \<notin> set (map rt_id (role_templates a)) then Inl IntegrityError
      else Inr (a\<lparr>template_permissions := delete_where (\<lambda>r. fst r = i) (template_permissions a) @
             map (\<lambda>k. (i, k)) (remdups keys)\<rparr>))"

definition list_role_permissions :: "int \<Rightarrow> acc \<Rightarrow> string set" where
  "list_role_permissions i a = set (map snd (filter (\<lambda>r. fst r = i) (template_permissions a)))"

definition replace_user_roles :: "int \<Rightarrow> int list \<Rightarrow> acc \<Rightarrow> exn + acc" where
  "replace_user_roles i templates a =
     (if templates \<noteq> [] \<and> (i \<notin> set (map u_id (users a)) \<or>
         \<not> set templates \<subseteq> set (map rt_id (role_templates a))) then Inl IntegrityError
      else Inr (a\<lparr>user_roles := delete_where (\<lambda>r. fst r = i) (user_roles a) @
             map (\<lambda>t. (i, t)) (remdups templates)\<rparr>))"

definition list_user_role_ids :: "int \<Rightarrow> acc \<Rightarrow> int list" where
  "list_user_role_ids i a = map snd (filter (\<lambda>r. fst r = i) (user_roles a))"

definition list_effective_global_permissions :: "int \<Rightarrow> acc \<Rightarrow> string set" where
  "list_effective_global_permissions i a =
     set [k. (u, t) \<leftarrow> user_roles a, u = i, rt \<leftarrow> role_templates a, rt_id rt = t, rt_active rt,
             (t', k) \<leftarrow> template_permissions a, t' = t]"

definition replace_show_permissions :: "int \<Rightarrow> int \<Rightarrow> string list \<Rightarrow> acc \<Rightarrow> exn + acc" where
  "replace_show_permissions show_id i keys a =
     (if keys \<noteq> [] \<and> (show_id, i) \<notin> set (map (\<lambda>r. (sa_show r, sa_user r)) (assignments a))
      then Inl IntegrityError
      else Inr (a\<lparr>assignment_permissions :=
             delete_where (\<lambda>(s, u, k). s = show_id \<and> u = i) (assignment_permissions a) @
             map (\<lambda>k. (show_id, i, k)) (remdups keys)\<rparr>))"

definition list_show_permissions :: "int \<Rightarrow> int \<Rightarrow> acc \<Rightarrow> string set" where
  "list_show_permissions show_id i a =
     set [k. (s, u, k) \<leftarrow> assignment_permissions a, s = show_id, u = i]"

text \<open>The dictionary from a user's shows to the permissions, as its items.\<close>

definition list_user_show_permissions :: "int \<Rightarrow> acc \<Rightarrow> (int \<times> string set) list" where
  "list_user_show_permissions i a =
     map (\<lambda>r. (sa_show r, list_show_permissions (sa_show r) i a))
       (sort_key sa_show (filter (\<lambda>r. sa_user r = i) (assignments a)))"

section \<open>Show assignments\<close>

text \<open>\<open>keys\<close>: the JSON text of the permission keys, when they are given.\<close>

definition assign_show :: "int \<Rightarrow> int \<Rightarrow> string \<Rightarrow> string option \<Rightarrow> acc \<Rightarrow> exn + acc" where
  "assign_show show_id i role keys a =
     (if show_id \<notin> set (show_ids a) \<or> i \<notin> set (map u_id (users a)) then Inl IntegrityError
      else if (show_id, i) \<in> set (map (\<lambda>r. (sa_show r, sa_user r)) (assignments a)) then
        Inr (a\<lparr>assignments := update_where (\<lambda>r. sa_show r = show_id \<and> sa_user r = i)
          (\<lambda>r. r\<lparr>sa_role := role, sa_keys_json := set_or keys (sa_keys_json r)\<rparr>) (assignments a)\<rparr>)
      else Inr (a\<lparr>assignments := assignments a @ [\<lparr>sa_show = show_id, sa_user = i, sa_role = role,
          sa_keys_json = set_or keys []\<rparr>]\<rparr>))"

text \<open>Deleting an assignment cascades to its permissions.\<close>

definition unassign_show :: "int \<Rightarrow> int \<Rightarrow> acc \<Rightarrow> bool \<times> acc" where
  "unassign_show show_id i a =
     (rowcount (\<lambda>r. sa_show r = show_id \<and> sa_user r = i) (assignments a) > 0,
      a\<lparr>assignments := delete_where (\<lambda>r. sa_show r = show_id \<and> sa_user r = i) (assignments a),
        assignment_permissions :=
          delete_where (\<lambda>(s, u, k). s = show_id \<and> u = i) (assignment_permissions a)\<rparr>)"

definition is_assigned :: "int \<Rightarrow> int \<Rightarrow> acc \<Rightarrow> bool" where
  "is_assigned show_id i a \<longleftrightarrow> (show_id, i) \<in> set (map (\<lambda>r. (sa_show r, sa_user r)) (assignments a))"

end
