(* ===== verification/Rbac_Sync.thy ===== *)
theory Rbac_Sync
  imports Rbac
begin

text \<open>
  What \<open>init_db\<close> does to users and roles each time it is called on a bootstrapped database
  (\<open>db.py\<close>): the checks that the legacy role templates, the templates of users with a legacy role
  and the permissions of show assignments are in place, and the synchronisation otherwise.
\<close>

section \<open>Checks\<close>

definition legacy_role_template_ids :: "acc \<Rightarrow> (string \<times> int) list" where
  "legacy_role_template_ids a =
     [(rt_name t, rt_id t). t \<leftarrow> role_templates a, rt_name t \<in> set (map fst LEGACY_ROLE_TEMPLATE_PERMISSIONS)]"

definition legacy_description :: "string \<Rightarrow> string" where
  "legacy_description name = name @ '' compatibility template''"

definition legacy_role_templates_need_sync :: "acc \<Rightarrow> bool" where
  "legacy_role_templates_need_sync a \<longleftrightarrow>
     (let ids = legacy_role_template_ids a in
      set (map fst ids) \<noteq> set (map fst LEGACY_ROLE_TEMPLATE_PERMISSIONS) \<or>
      (\<exists>t \<in> set (role_templates a). rt_name t \<in> set (map fst LEGACY_ROLE_TEMPLATE_PERMISSIONS) \<and>
         (rt_description t \<noteq> legacy_description (rt_name t) \<or> \<not> rt_system t \<or> \<not> rt_active t)) \<or>
      (\<exists>(name, keys) \<in> set LEGACY_ROLE_TEMPLATE_PERMISSIONS.
         list_role_permissions (the (map_of ids name)) a \<noteq> set keys))"

definition legacy_user_role_assignments_need_sync :: "acc \<Rightarrow> bool" where
  "legacy_user_role_assignments_need_sync a \<longleftrightarrow>
     (let ids = legacy_role_template_ids a in
      length ids \<noteq> length LEGACY_ROLE_TO_TEMPLATE \<or>
      (\<exists>u \<in> set (users a).
         case map_of LEGACY_ROLE_TO_TEMPLATE (u_role u) of
           None \<Rightarrow> False
         | Some name \<Rightarrow>
             (case map_of ids name of None \<Rightarrow> True | Some i \<Rightarrow> (u_id u, i) \<notin> set (user_roles a))))"

definition legacy_show_assignment_permissions_need_sync :: "acc \<Rightarrow> bool" where
  "legacy_show_assignment_permissions_need_sync a \<longleftrightarrow>
     (\<exists>r \<in> set (assignments a). sa_keys_json r = [] \<and>
        (case map_of LEGACY_SHOW_ROLE_PERMISSIONS (sa_role r) of
           None \<Rightarrow> False
         | Some keys \<Rightarrow> \<not> set keys \<subseteq> list_show_permissions (sa_show r) (sa_user r) a))"

definition legacy_rbac_needs_sync :: "acc \<Rightarrow> bool" where
  "legacy_rbac_needs_sync a \<longleftrightarrow> \<not> migration_marked a \<or> legacy_role_templates_need_sync a \<or>
     legacy_user_role_assignments_need_sync a \<or> legacy_show_assignment_permissions_need_sync a"

section \<open>Synchronisation\<close>

definition template_id :: "string \<Rightarrow> acc \<Rightarrow> int option" where
  "template_id name a = map_option rt_id (find (\<lambda>t. rt_name t = name) (role_templates a))"

definition seed_template :: "string \<times> string list \<Rightarrow> acc \<Rightarrow> acc" where
  "seed_template nk a =
     (let name = fst nk; keys = snd nk;
          a1 = (if name \<in> set (map rt_name (role_templates a)) then a
                else a\<lparr>role_templates := role_templates a @ [\<lparr>rt_id = template_seq a + 1, rt_name = name,
                         rt_description = legacy_description name, rt_system = True, rt_active = True\<rparr>],
                       template_seq := template_seq a + 1\<rparr>);
          a2 = a1\<lparr>role_templates := update_where (\<lambda>t. rt_name t = name)
                 (\<lambda>t. t\<lparr>rt_description := legacy_description name, rt_system := True, rt_active := True\<rparr>)
                 (role_templates a1)\<rparr>
      in case template_id name a2 of
           None \<Rightarrow> a2
         | Some i \<Rightarrow> a2\<lparr>template_permissions := delete_where (\<lambda>r. fst r = i) (template_permissions a2) @
                         map (\<lambda>k. (i, k)) keys\<rparr>)"

definition seed_legacy_role_templates :: "acc \<Rightarrow> acc" where
  "seed_legacy_role_templates a = fold seed_template LEGACY_ROLE_TEMPLATE_PERMISSIONS a"

definition insert_new :: "'a \<Rightarrow> 'a list \<Rightarrow> 'a list" where
  "insert_new x xs = (if x \<in> set xs then xs else xs @ [x])"

definition backfill_user_role_assignments :: "acc \<Rightarrow> acc" where
  "backfill_user_role_assignments a = a\<lparr>user_roles :=
     fold (\<lambda>u rows. case map_of LEGACY_ROLE_TO_TEMPLATE (u_role u) of
              None \<Rightarrow> rows
            | Some name \<Rightarrow>
                (case template_id name a of
                   None \<Rightarrow> rows
                 | Some i \<Rightarrow> insert_new (u_id u, i) rows)) (users a) (user_roles a)\<rparr>"

definition backfill_show_assignment_permissions :: "acc \<Rightarrow> acc" where
  "backfill_show_assignment_permissions a = a\<lparr>assignment_permissions :=
     fold (\<lambda>r rows. if sa_keys_json r \<noteq> [] then rows
            else (case map_of LEGACY_SHOW_ROLE_PERMISSIONS (sa_role r) of
                    None \<Rightarrow> rows
                  | Some keys \<Rightarrow> fold (\<lambda>k. insert_new (sa_show r, sa_user r, k))
                      (filter (\<lambda>k. k \<in> set SHOW_PERMISSION_KEYS) keys) rows))
       (assignments a) (assignment_permissions a)\<rparr>"

definition sync_legacy_rbac :: "acc \<Rightarrow> acc" where
  "sync_legacy_rbac a =
     (backfill_show_assignment_permissions (backfill_user_role_assignments
       (seed_legacy_role_templates a)))\<lparr>migration_marked := True\<rparr>"

text \<open>\<open>admin_hash\<close>: the hash of the initial password.\<close>

definition ensure_default_admin :: "string \<Rightarrow> acc \<Rightarrow> acc" where
  "ensure_default_admin admin_hash a =
     (case create_user_row ''admin'' ''Administrator'' admin_hash ''admin'' a of
        Inl _ \<Rightarrow> a | Inr (i, b) \<Rightarrow> b)"

definition init_accounts :: "string \<Rightarrow> acc \<Rightarrow> acc" where
  "init_accounts admin_hash a =
     (if \<not> legacy_rbac_needs_sync a then a
      else (let b = ensure_default_admin admin_hash a in
            if legacy_rbac_needs_sync b then sync_legacy_rbac b else b))"

section \<open>Constraints of the tables\<close>

definition acc_ok :: "acc \<Rightarrow> bool" where
  "acc_ok a \<longleftrightarrow>
     distinct (map u_id (users a)) \<and> distinct (map u_name (users a)) \<and>
     (\<forall>u \<in> set (users a). u_id u \<le> user_seq a) \<and>
     distinct (map rt_id (role_templates a)) \<and> distinct (map rt_name (role_templates a)) \<and>
     (\<forall>t \<in> set (role_templates a). rt_id t \<le> template_seq a) \<and>
     distinct (map us_id (login_sessions a)) \<and> distinct (map us_token (login_sessions a)) \<and>
     (\<forall>s \<in> set (login_sessions a). us_id s \<le> session_seq a)"

lemma acc_ok_empty: "acc_ok empty_acc"
  by (simp add: acc_ok_def empty_acc_def)

lemma find_unique:
  "distinct (map f xs) \<Longrightarrow> x \<in> set xs \<Longrightarrow> find (\<lambda>y. f y = f x) xs = Some x"
  by (induction xs) (auto simp: rev_image_eqI)

lemma template_id_iff:
  assumes "acc_ok a"
  shows "template_id name a = Some i \<longleftrightarrow> (\<exists>t \<in> set (role_templates a). rt_name t = name \<and> rt_id t = i)"
proof
  assume "template_id name a = Some i"
  then show "\<exists>t \<in> set (role_templates a). rt_name t = name \<and> rt_id t = i"
    by (auto simp: template_id_def find_Some_iff)
next
  assume "\<exists>t \<in> set (role_templates a). rt_name t = name \<and> rt_id t = i"
  then obtain t where t: "t \<in> set (role_templates a)" "rt_name t = name" "rt_id t = i" by auto
  have "distinct (map rt_name (role_templates a))" using assms by (simp add: acc_ok_def)
  from find_unique [OF this t(1)] show "template_id name a = Some i"
    using t by (simp add: template_id_def)
qed

text \<open>A legacy template as the checks want it.\<close>

definition template_good :: "acc \<Rightarrow> string \<times> string list \<Rightarrow> bool" where
  "template_good a nk \<longleftrightarrow>
     (\<exists>t \<in> set (role_templates a). rt_name t = fst nk \<and> rt_description t = legacy_description (fst nk) \<and>
        rt_system t \<and> rt_active t \<and> list_role_permissions (rt_id t) a = set (snd nk))"


lemma legacy_ids_iff:
  assumes "acc_ok a" "name \<in> set (map fst LEGACY_ROLE_TEMPLATE_PERMISSIONS)"
  shows "map_of (legacy_role_template_ids a) name = template_id name a"
proof -
  have "map_of [(rt_name t, rt_id t). t \<leftarrow> ts, rt_name t \<in> A] name =
      map_option rt_id (find (\<lambda>t. rt_name t = name) ts)" if "name \<in> A" for ts A
    using that by (induction ts) auto
  with assms(2) show ?thesis by (simp add: legacy_role_template_ids_def template_id_def)
qed

lemma templates_synced_iff:
  assumes "acc_ok a"
  shows "\<not> legacy_role_templates_need_sync a \<longleftrightarrow>
    (\<forall>nk \<in> set LEGACY_ROLE_TEMPLATE_PERMISSIONS. template_good a nk)"
proof -
  let ?L = LEGACY_ROLE_TEMPLATE_PERMISSIONS
  have names: "set (map fst (legacy_role_template_ids a)) =
      rt_name ` set (role_templates a) \<inter> set (map fst ?L)"
    by (force simp: legacy_role_template_ids_def)
  have same: "t = t'" if "t \<in> set (role_templates a)" "t' \<in> set (role_templates a)" "rt_name t = rt_name t'" for t t'
    using that assms by (auto simp: acc_ok_def distinct_map dest: inj_onD)
  have ident: "map_of (legacy_role_template_ids a) (fst nk) = Some (rt_id t)"
    if "t \<in> set (role_templates a)" "rt_name t = fst nk" "nk \<in> set ?L" for t nk
    using legacy_ids_iff [OF assms, of "fst nk"] template_id_iff [OF assms, of "fst nk" "rt_id t"] that by auto
  show ?thesis
  proof
    assume ok: "\<not> legacy_role_templates_need_sync a"
    show "\<forall>nk \<in> set ?L. template_good a nk"
    proof
      fix nk
      assume nk: "nk \<in> set ?L"
      then have "fst nk \<in> set (map fst (legacy_role_template_ids a))"
        using ok by (auto simp: legacy_role_templates_need_sync_def Let_def)
      then obtain t where t: "t \<in> set (role_templates a)" "rt_name t = fst nk" unfolding names by auto
      have "list_role_permissions (rt_id t) a = set (snd nk)"
        using ok nk ident [OF t nk] by (force simp: legacy_role_templates_need_sync_def Let_def)
      moreover have "rt_description t = legacy_description (fst nk) \<and> rt_system t \<and> rt_active t"
        using ok t nk by (force simp: legacy_role_templates_need_sync_def Let_def)
      ultimately show "template_good a nk" using t by (auto simp: template_good_def)
    qed
  next
    assume good: "\<forall>nk \<in> set ?L. template_good a nk"
    have "set (map fst (legacy_role_template_ids a)) = set (map fst ?L)"
      using good unfolding names template_good_def by (force simp: image_iff)
    moreover have "rt_description t = legacy_description (rt_name t) \<and> rt_system t \<and> rt_active t"
      if "t \<in> set (role_templates a)" "rt_name t \<in> set (map fst ?L)" for t
    proof -
      obtain nk where nk: "nk \<in> set ?L" "rt_name t = fst nk" using \<open>rt_name t \<in> _\<close> by auto
      then show ?thesis using good same [OF that(1)] unfolding template_good_def by metis
    qed
    moreover have "list_role_permissions (the (map_of (legacy_role_template_ids a) (fst nk))) a = set (snd nk)"
      if "nk \<in> set ?L" for nk
      using good that ident [OF _ _ that] unfolding template_good_def by fastforce
    ultimately show "\<not> legacy_role_templates_need_sync a"
      unfolding legacy_role_templates_need_sync_def Let_def by fastforce
  qed
qed

section \<open>Seeding\<close>

lemma seed_template_frame [simp]:
  "users (seed_template nk a) = users a" "user_roles (seed_template nk a) = user_roles a"
  "user_seq (seed_template nk a) = user_seq a" "assignments (seed_template nk a) = assignments a"
  "assignment_permissions (seed_template nk a) = assignment_permissions a"
  "login_sessions (seed_template nk a) = login_sessions a"
  "session_seq (seed_template nk a) = session_seq a"
  by (simp_all add: seed_template_def Let_def split: option.split)

definition seeded_templates :: "string \<Rightarrow> acc \<Rightarrow> role_template list" where
  "seeded_templates name a =
     update_where (\<lambda>t. rt_name t = name)
       (\<lambda>t. t\<lparr>rt_description := legacy_description name, rt_system := True, rt_active := True\<rparr>)
       (if name \<in> set (map rt_name (role_templates a)) then role_templates a
        else role_templates a @ [\<lparr>rt_id = template_seq a + 1, rt_name = name,
          rt_description = legacy_description name, rt_system = True, rt_active = True\<rparr>])"

lemma seed_template_templates:
  "role_templates (seed_template nk a) = seeded_templates (fst nk) a"
  by (simp add: seed_template_def seeded_templates_def Let_def split: option.split)

lemma acc_ok_seed:
  assumes "acc_ok a"
  shows "acc_ok (seed_template nk a)"
proof -
  let ?ts = "seeded_templates (fst nk) a"
  have "map rt_id ?ts = (if fst nk \<in> set (map rt_name (role_templates a)) then map rt_id (role_templates a)
      else map rt_id (role_templates a) @ [template_seq a + 1])"
    "map rt_name ?ts = (if fst nk \<in> set (map rt_name (role_templates a)) then map rt_name (role_templates a)
      else map rt_name (role_templates a) @ [fst nk])"
    by (simp_all add: seeded_templates_def)
  moreover have "template_seq (seed_template nk a) =
      (if fst nk \<in> set (map rt_name (role_templates a)) then template_seq a else template_seq a + 1)"
    by (simp add: seed_template_def Let_def split: option.split)
  moreover have "\<forall>i \<in> set (map rt_id (role_templates a)). i \<le> template_seq a"
    using assms by (simp add: acc_ok_def)
  ultimately have "distinct (map rt_id ?ts)" "distinct (map rt_name ?ts)"
    "\<forall>i \<in> set (map rt_id ?ts). i \<le> template_seq (seed_template nk a)"
    using assms by (auto simp: acc_ok_def)
  with assms show ?thesis by (simp add: acc_ok_def seed_template_templates)
qed


lemma template_permissions_seed:
  assumes "acc_ok a"
  obtains i where "template_id (fst nk) (seed_template nk a) = Some i"
    "template_permissions (seed_template nk a) =
       delete_where (\<lambda>r. fst r = i) (template_permissions a) @ map (\<lambda>k. (i, k)) (snd nk)"
proof -
  let ?find = "find (\<lambda>t. rt_name t = fst nk) (seeded_templates (fst nk) a)"
  have "fst nk \<in> set (map rt_name (seeded_templates (fst nk) a))"
    by (simp add: seeded_templates_def image_iff)
  then obtain t where t: "?find = Some t" by (cases ?find) (auto simp: find_None_iff)
  show ?thesis
  proof
    show "template_id (fst nk) (seed_template nk a) = Some (rt_id t)"
      by (simp add: template_id_def seed_template_templates t)
    show "template_permissions (seed_template nk a) =
       delete_where (\<lambda>r. fst r = rt_id t) (template_permissions a) @ map (\<lambda>k. (rt_id t, k)) (snd nk)"
      using t by (auto simp: seed_template_def seeded_templates_def Let_def template_id_def split: if_splits)
  qed
qed

lemma list_role_permissions_replaced:
  "template_permissions b = delete_where (\<lambda>r. fst r = i) (template_permissions a) @ map (\<lambda>k. (i, k)) keys \<Longrightarrow>
   list_role_permissions j b = (if j = i then set keys else list_role_permissions j a)"
  by (auto simp: list_role_permissions_def delete_where_def image_iff)

lemma seeded_rows:
  "t \<in> set (seeded_templates name a) \<Longrightarrow> rt_name t = name \<Longrightarrow>
   rt_description t = legacy_description name \<and> rt_system t \<and> rt_active t"
proof -
  assume t: "t \<in> set (seeded_templates name a)" "rt_name t = name"
  obtain x where "t = (if rt_name x = name then x\<lparr>rt_description := legacy_description name,
      rt_system := True, rt_active := True\<rparr> else x)"
    using t(1) unfolding seeded_templates_def set_update_where by blast
  then show ?thesis using t(2) by (cases "rt_name x = name") simp_all
qed

lemma seed_template_good:
  assumes "acc_ok a"
  shows "template_good (seed_template nk a) nk"
proof -
  obtain i where i: "template_id (fst nk) (seed_template nk a) = Some i"
    "template_permissions (seed_template nk a) =
       delete_where (\<lambda>r. fst r = i) (template_permissions a) @ map (\<lambda>k. (i, k)) (snd nk)"
    using template_permissions_seed [OF assms] .
  obtain t where t: "t \<in> set (role_templates (seed_template nk a))" "rt_name t = fst nk" "rt_id t = i"
    using i(1) template_id_iff [OF acc_ok_seed [OF assms]] by auto
  then show ?thesis
    using seeded_rows [of t "fst nk" a] list_role_permissions_replaced [OF i(2), of i]
    by (auto simp: template_good_def seed_template_templates)
qed

lemma seed_template_keeps_good:
  assumes "acc_ok a" "template_good a mk" "fst mk \<noteq> fst nk"
  shows "template_good (seed_template nk a) mk"
proof -
  obtain i where i: "template_id (fst nk) (seed_template nk a) = Some i"
    "template_permissions (seed_template nk a) =
       delete_where (\<lambda>r. fst r = i) (template_permissions a) @ map (\<lambda>k. (i, k)) (snd nk)"
    using template_permissions_seed [OF assms(1)] .
  obtain t where t: "t \<in> set (role_templates a)" "rt_name t = fst mk"
      "rt_description t = legacy_description (fst mk)" "rt_system t" "rt_active t"
      "list_role_permissions (rt_id t) a = set (snd mk)"
    using assms(2) by (auto simp: template_good_def)
  have kept: "t \<in> set (role_templates (seed_template nk a))"
    using t(1,2) assms(3) by (auto simp: seed_template_templates seeded_templates_def set_update_where image_iff)
  obtain t' where t': "t' \<in> set (role_templates (seed_template nk a))" "rt_name t' = fst nk" "rt_id t' = i"
    using i(1) template_id_iff [OF acc_ok_seed [OF assms(1)]] by auto
  have "rt_id t \<noteq> i"
    using kept t' t(2) assms(3) acc_ok_seed [OF assms(1), of nk]
    by (auto simp: acc_ok_def distinct_map dest: inj_onD)
  then show ?thesis
    using kept t list_role_permissions_replaced [OF i(2), of "rt_id t"] by (auto simp: template_good_def)
qed

lemma seed_all:
  assumes "acc_ok a" "distinct (map fst nks)"
  shows "acc_ok (fold seed_template nks a) \<and> (\<forall>nk \<in> set nks. template_good (fold seed_template nks a) nk) \<and>
    (\<forall>mk. template_good a mk \<longrightarrow> fst mk \<notin> set (map fst nks) \<longrightarrow> template_good (fold seed_template nks a) mk)"
  using assms
proof (induction nks arbitrary: a)
  case (Cons nk nks)
  have ok: "acc_ok (seed_template nk a)" by (rule acc_ok_seed [OF Cons.prems(1)])
  have d: "distinct (map fst nks)" "fst nk \<notin> set (map fst nks)" using Cons.prems(2) by auto
  note IH = Cons.IH [OF ok d(1)]
  have good: "template_good (fold seed_template nks (seed_template nk a)) nk"
    using IH seed_template_good [OF Cons.prems(1)] d(2) by blast
  have keep: "template_good (fold seed_template nks (seed_template nk a)) mk"
    if "template_good a mk" "fst mk \<notin> set (map fst (nk # nks))" for mk
  proof -
    have "fst mk \<noteq> fst nk" "fst mk \<notin> set (map fst nks)" using that(2) by simp_all
    then show ?thesis using IH seed_template_keeps_good [OF Cons.prems(1) that(1)] by blast
  qed
  show ?case
  proof (intro conjI ballI allI impI)
    fix mk
    assume "mk \<in> set (nk # nks)"
    then show "template_good (fold seed_template (nk # nks) a) mk" using IH good by auto
  qed (use IH keep in auto)
qed simp

lemma fold_seed_frame [simp]:
  "users (fold seed_template nks a) = users a" "user_roles (fold seed_template nks a) = user_roles a"
  "assignments (fold seed_template nks a) = assignments a"
  "login_sessions (fold seed_template nks a) = login_sessions a"
  by (induction nks arbitrary: a) simp_all

lemma legacy_names_distinct: "distinct (map fst LEGACY_ROLE_TEMPLATE_PERMISSIONS)"
  by (simp add: LEGACY_ROLE_TEMPLATE_PERMISSIONS_def)

lemmas seeded = seed_all [OF _ legacy_names_distinct, folded seed_legacy_role_templates_def]

section \<open>Backfills\<close>

lemma set_insert_new [simp]: "set (insert_new x xs) = insert x (set xs)"
  by (auto simp: insert_new_def)

lemma fold_inserts:
  "set (fold (\<lambda>x rows. case f x of None \<Rightarrow> rows | Some y \<Rightarrow> insert_new y rows) xs rows) =
   set rows \<union> {y. \<exists>x \<in> set xs. f x = Some y}"
  by (induction xs arbitrary: rows) (auto split: option.splits)

lemma fold_insert_lists:
  "set (fold (\<lambda>x rows. fold insert_new (g x) rows) xs rows) = set rows \<union> \<Union> (set ` g ` set xs)"
proof -
  have one: "set (fold insert_new ys rows) = set rows \<union> set ys" for ys :: "'a list" and rows
    by (induction ys arbitrary: rows) auto
  show ?thesis by (induction xs arbitrary: rows) (auto simp: one)
qed

definition missing_role :: "acc \<Rightarrow> user_row \<Rightarrow> (int \<times> int) option" where
  "missing_role a u = (case map_of LEGACY_ROLE_TO_TEMPLATE (u_role u) of
     None \<Rightarrow> None | Some name \<Rightarrow> map_option (\<lambda>i. (u_id u, i)) (template_id name a))"

lemma backfilled_roles:
  "set (user_roles (backfill_user_role_assignments a)) =
   set (user_roles a) \<union> {y. \<exists>u \<in> set (users a). missing_role a u = Some y}"
proof -
  have "(\<lambda>u rows. case map_of LEGACY_ROLE_TO_TEMPLATE (u_role u) of None \<Rightarrow> rows
        | Some name \<Rightarrow> (case template_id name a of None \<Rightarrow> rows | Some i \<Rightarrow> insert_new (u_id u, i) rows)) =
      (\<lambda>u rows. case missing_role a u of None \<Rightarrow> rows | Some y \<Rightarrow> insert_new y rows)"
    by (auto simp: fun_eq_iff missing_role_def split: option.splits)
  then show ?thesis by (simp add: backfill_user_role_assignments_def fold_inserts)
qed

definition missing_permissions :: "assignment_row \<Rightarrow> (int \<times> int \<times> string) list" where
  "missing_permissions r =
     (if sa_keys_json r \<noteq> [] then []
      else map (\<lambda>k. (sa_show r, sa_user r, k))
        (case map_of LEGACY_SHOW_ROLE_PERMISSIONS (sa_role r) of None \<Rightarrow> []
         | Some keys \<Rightarrow> filter (\<lambda>k. k \<in> set SHOW_PERMISSION_KEYS) keys))"

lemma backfilled_permissions:
  "set (assignment_permissions (backfill_show_assignment_permissions a)) =
   set (assignment_permissions a) \<union> \<Union> (set ` missing_permissions ` set (assignments a))"
proof -
  have inner: "fold (\<lambda>k. insert_new (f k)) ks rows = fold insert_new (map f ks) rows" for f ks rows
    by (induction ks arbitrary: rows) auto
  have "(\<lambda>r rows. if sa_keys_json r \<noteq> [] then rows
          else (case map_of LEGACY_SHOW_ROLE_PERMISSIONS (sa_role r) of None \<Rightarrow> rows
                | Some keys \<Rightarrow> fold (\<lambda>k. insert_new (sa_show r, sa_user r, k))
                    (filter (\<lambda>k. k \<in> set SHOW_PERMISSION_KEYS) keys) rows)) =
      (\<lambda>r rows. fold insert_new (missing_permissions r) rows)" (is "?lhs = _")
  proof (intro ext)
    fix r rows
    show "?lhs r rows = fold insert_new (missing_permissions r) rows"
      by (cases "map_of LEGACY_SHOW_ROLE_PERMISSIONS (sa_role r)")
         (simp_all add: missing_permissions_def inner [of "\<lambda>k. (sa_show r, sa_user r, k)"])
  qed
  then show ?thesis by (simp add: backfill_show_assignment_permissions_def fold_insert_lists)
qed


section \<open>The synchronisation settles\<close>

lemma sync_frame [simp]:
  "users (sync_legacy_rbac a) = users a" "assignments (sync_legacy_rbac a) = assignments a"
  "login_sessions (sync_legacy_rbac a) = login_sessions a"
  "role_templates (sync_legacy_rbac a) = role_templates (seed_legacy_role_templates a)"
  "template_permissions (sync_legacy_rbac a) = template_permissions (seed_legacy_role_templates a)"
  "migration_marked (sync_legacy_rbac a)"
  by (simp_all add: sync_legacy_rbac_def backfill_user_role_assignments_def
      backfill_show_assignment_permissions_def seed_legacy_role_templates_def)

lemma acc_ok_sync: "acc_ok a \<Longrightarrow> acc_ok (sync_legacy_rbac a)"
  using seeded [of a] by (simp add: acc_ok_def sync_legacy_rbac_def backfill_user_role_assignments_def
      backfill_show_assignment_permissions_def)

lemma template_good_cong:
  "role_templates b = role_templates a \<Longrightarrow> template_permissions b = template_permissions a \<Longrightarrow>
   template_good b = template_good a"
  by (simp add: template_good_def list_role_permissions_def fun_eq_iff)

lemma user_role_ids_sync:
  "set (user_roles (sync_legacy_rbac a)) = set (user_roles a) \<union>
     {y. \<exists>u \<in> set (users a). missing_role (seed_legacy_role_templates a) u = Some y}"
proof -
  have "user_roles (sync_legacy_rbac a) =
      user_roles (backfill_user_role_assignments (seed_legacy_role_templates a))"
    by (simp add: sync_legacy_rbac_def backfill_show_assignment_permissions_def)
  then show ?thesis by (simp add: backfilled_roles seed_legacy_role_templates_def)
qed

lemma legacy_ids_length:
  assumes "acc_ok a" "\<not> legacy_role_templates_need_sync a"
  shows "length (legacy_role_template_ids a) = length LEGACY_ROLE_TO_TEMPLATE"
proof -
  let ?ns = "map fst (legacy_role_template_ids a)"
  have eq: "?ns = filter (\<lambda>n. n \<in> set (map fst LEGACY_ROLE_TEMPLATE_PERMISSIONS)) (map rt_name (role_templates a))"
  proof -
    have "map fst [(rt_name t, rt_id t). t \<leftarrow> ts, rt_name t \<in> A] = filter (\<lambda>n. n \<in> A) (map rt_name ts)" for ts A
      by (induction ts) auto
    then show ?thesis by (simp only: legacy_role_template_ids_def)
  qed
  have "distinct ?ns" unfolding eq using assms(1) by (simp only: acc_ok_def distinct_filter)
  moreover have "set ?ns = set (map fst LEGACY_ROLE_TEMPLATE_PERMISSIONS)"
    using assms(2) by (simp add: legacy_role_templates_need_sync_def Let_def)
  ultimately have "length ?ns = length (map fst LEGACY_ROLE_TEMPLATE_PERMISSIONS)"
    using legacy_names_distinct by (metis distinct_card)
  then show ?thesis by (simp add: LEGACY_ROLE_TO_TEMPLATE_def LEGACY_ROLE_TEMPLATE_PERMISSIONS_def)
qed

lemma role_template_names: "map_of LEGACY_ROLE_TO_TEMPLATE r = Some name \<Longrightarrow>
   name \<in> set (map fst LEGACY_ROLE_TEMPLATE_PERMISSIONS)"
  by (auto simp: LEGACY_ROLE_TO_TEMPLATE_def LEGACY_ROLE_TEMPLATE_PERMISSIONS_def split: if_splits)

lemma show_role_keys: "map_of LEGACY_SHOW_ROLE_PERMISSIONS r = Some keys \<Longrightarrow> set keys \<subseteq> set SHOW_PERMISSION_KEYS"
  by (auto simp: LEGACY_SHOW_ROLE_PERMISSIONS_def SHOW_PERMISSION_KEYS_def split: if_splits)

lemma sync_settles:
  assumes "acc_ok a"
  shows "\<not> legacy_rbac_needs_sync (sync_legacy_rbac a)"
proof -
  let ?s = "seed_legacy_role_templates a" and ?b = "sync_legacy_rbac a"
  have okb: "acc_ok ?b" by (rule acc_ok_sync [OF assms])
  have "template_good ?b = template_good ?s" by (rule template_good_cong) simp_all
  then have templates: "\<not> legacy_role_templates_need_sync ?b"
    using templates_synced_iff [OF okb] seeded [OF assms] by simp
  have same: "template_id name ?b = template_id name ?s" for name by (simp add: template_id_def)
  have users: "\<not> legacy_user_role_assignments_need_sync ?b"
  proof -
    have "case map_of (legacy_role_template_ids ?b) name of None \<Rightarrow> False | Some i \<Rightarrow> (u_id u, i) \<in> set (user_roles ?b)"
      if u: "u \<in> set (users a)" and name: "map_of LEGACY_ROLE_TO_TEMPLATE (u_role u) = Some name" for u name
    proof -
      have n: "name \<in> set (map fst LEGACY_ROLE_TEMPLATE_PERMISSIONS)" by (rule role_template_names [OF name])
      then obtain t where "t \<in> set (role_templates ?b)" "rt_name t = name"
        using templates templates_synced_iff [OF okb] by (auto simp: template_good_def)
      then obtain i where i: "template_id name ?b = Some i" using template_id_iff [OF okb] by blast
      then have "missing_role ?s u = Some (u_id u, i)" by (simp add: missing_role_def name same)
      then show ?thesis
        using legacy_ids_iff [OF okb n] i u by (auto simp: user_role_ids_sync)
    qed
    then show ?thesis
      using legacy_ids_length [OF okb templates]
      by (fastforce simp: legacy_user_role_assignments_need_sync_def Let_def split: option.splits)
  qed
  have "set keys \<subseteq> list_show_permissions (sa_show r) (sa_user r) ?b"
    if r: "r \<in> set (assignments a)" "sa_keys_json r = []" "map_of LEGACY_SHOW_ROLE_PERMISSIONS (sa_role r) = Some keys"
    for r keys
  proof
    fix k
    assume "k \<in> set keys"
    then have "(sa_show r, sa_user r, k) \<in> set (missing_permissions r)"
      using r show_role_keys [OF r(3)] by (auto simp: missing_permissions_def)
    then have "(sa_show r, sa_user r, k) \<in> set (assignment_permissions ?b)"
      using r(1) by (auto simp: sync_legacy_rbac_def backfilled_permissions seed_legacy_role_templates_def
          backfill_user_role_assignments_def)
    then show "k \<in> list_show_permissions (sa_show r) (sa_user r) ?b"
      by (force simp: list_show_permissions_def)
  qed
  then have "\<not> legacy_show_assignment_permissions_need_sync ?b"
    by (auto simp: legacy_show_assignment_permissions_need_sync_def split: option.splits)
  with templates users show ?thesis by (simp add: legacy_rbac_needs_sync_def)
qed

lemma acc_ok_default_admin: "acc_ok a \<Longrightarrow> acc_ok (ensure_default_admin h a)"
  by (auto simp: ensure_default_admin_def create_user_row_def acc_ok_def image_iff Let_def split: sum.splits)

lemma init_settles:
  assumes "acc_ok a"
  shows "acc_ok (init_accounts h a) \<and> \<not> legacy_rbac_needs_sync (init_accounts h a)"
  using sync_settles [OF acc_ok_default_admin [OF assms]] acc_ok_sync [OF acc_ok_default_admin [OF assms]]
    acc_ok_default_admin [OF assms] assms
  by (simp add: init_accounts_def Let_def)

end
