(* ===== verification/Accounts.thy ===== *)
theory Accounts
  imports Guards Rbac_Sync Sha256
begin

text \<open>
  Sessions, tokens and the account end points (\<open>repositories/user_repo.py\<close>,
  \<open>auth/jwt_handler.py\<close>, \<open>api/auth.py\<close>, \<open>api/users.py\<close>, \<open>api/roles.py\<close>). The JSON web tokens
  (\<open>jose\<close>) and the password hashes (\<open>passlib\<close>) come from libraries: they are the fields of
  \<open>crypto\<close>. Token ids and salts are arguments. \<open>init_db\<close>, which every end point calls first, is
  \<open>init_accounts\<close>; it is composed with the end points where a property needs it.
\<close>

section \<open>Tokens\<close>

datatype token_type = Access | Refresh

record claims =
  c_sub :: int
  c_role :: string
  c_type :: token_type
  c_jti :: string
  c_iat :: int
  c_exp :: int

text \<open>
  \<open>jwt_encode\<close> signs with the node's key; \<open>jwt_decode now\<close> gives the claims of a token with a
  valid signature that has not expired; \<open>bcrypt_verify plain hashed\<close>.
\<close>

record crypto =
  jwt_encode :: "claims \<Rightarrow> string"
  jwt_decode :: "rat \<Rightarrow> string \<Rightarrow> claims option"
  bcrypt_hash :: "string \<Rightarrow> string \<Rightarrow> string"
  bcrypt_verify :: "string \<Rightarrow> string \<Rightarrow> bool"

definition create_access_token :: "crypto \<Rightarrow> rat \<Rightarrow> string \<Rightarrow> int \<Rightarrow> string \<Rightarrow> string" where
  "create_access_token cr now jti i role = jwt_encode cr \<lparr>c_sub = i, c_role = role, c_type = Access,
     c_jti = jti, c_iat = \<lfloor>now\<rfloor>, c_exp = \<lfloor>now\<rfloor> + 30 * 60\<rparr>"

definition create_refresh_token :: "crypto \<Rightarrow> rat \<Rightarrow> string \<Rightarrow> int \<Rightarrow> string" where
  "create_refresh_token cr now jti i = jwt_encode cr \<lparr>c_sub = i, c_role = [], c_type = Refresh,
     c_jti = jti, c_iat = \<lfloor>now\<rfloor>, c_exp = \<lfloor>now\<rfloor> + 30 * 86400\<rparr>"

section \<open>Session repository\<close>

definition create_session :: "int \<Rightarrow> string \<Rightarrow> int \<Rightarrow> acc \<Rightarrow> exn + (int \<times> acc)" where
  "create_session user refresh_token expires a =
     (let h = sha256 refresh_token; i = session_seq a + 1 in
      if h \<in> set (map us_token (login_sessions a)) then Inl IntegrityError
      else Inr (i, a\<lparr>login_sessions := login_sessions a @ [\<lparr>us_id = i, us_user = user, us_token = h,
                    us_expires = expires, us_revoked = False\<rparr>], session_seq := i\<rparr>))"

text \<open>The fallback reads legacy rows that hold the token itself, and rewrites them.\<close>

definition get_session_by_token :: "string \<Rightarrow> acc \<Rightarrow> login_session option \<times> acc" where
  "get_session_by_token token a =
     (case find (\<lambda>s. us_token s = sha256 token) (login_sessions a) of
        Some s \<Rightarrow> (Some s, a)
      | None \<Rightarrow>
          (case find (\<lambda>s. us_token s = token) (login_sessions a) of
             None \<Rightarrow> (None, a)
           | Some s \<Rightarrow> (Some s, a\<lparr>login_sessions := update_where (\<lambda>r. us_id r = us_id s)
                          (\<lambda>r. r\<lparr>us_token := sha256 token\<rparr>) (login_sessions a)\<rparr>)))"

definition revoke_session :: "int \<Rightarrow> acc \<Rightarrow> acc" where
  "revoke_session i a =
     a\<lparr>login_sessions := update_where (\<lambda>s. us_id s = i) (us_revoked_update (\<lambda>_. True)) (login_sessions a)\<rparr>"

definition revoke_all_user_sessions :: "int \<Rightarrow> acc \<Rightarrow> acc" where
  "revoke_all_user_sessions user a =
     a\<lparr>login_sessions := update_where (\<lambda>s. us_user s = user) (us_revoked_update (\<lambda>_. True)) (login_sessions a)\<rparr>"

definition cleanup_expired :: "rat \<Rightarrow> acc \<Rightarrow> acc" where
  "cleanup_expired now a =
     a\<lparr>login_sessions := delete_where (\<lambda>s. us_expires s \<le> \<lfloor>now\<rfloor>) (login_sessions a)\<rparr>"

section \<open>The user of a request\<close>

text \<open>What \<open>build_auth_user_payload\<close> adds to a user row.\<close>

record auth_user =
  au_id :: int
  au_role :: string
  au_templates :: "int list"
  au_permissions :: "string set"
  au_show_permissions :: "(int \<times> string set) list"

definition build_auth_user_payload :: "acc \<Rightarrow> user_row \<Rightarrow> auth_user" where
  "build_auth_user_payload a u = \<lparr>au_id = u_id u, au_role = u_role u,
     au_templates = list_user_role_ids (u_id u) a,
     au_permissions = list_effective_global_permissions (u_id u) a,
     au_show_permissions = list_user_show_permissions (u_id u) a\<rparr>"

datatype api_error = Http nat string | Crash exn

definition extract_bearer_token :: "string \<Rightarrow> api_error + string" where
  "extract_bearer_token authorization =
     (let header = strip authorization; token = strip (drop 7 header) in
      if take 7 (lower header) \<noteq> ''bearer '' \<or> token = [] then Inl (Http 401 ''Missing bearer token'')
      else Inr token)"

definition load_user_from_access_token :: "crypto \<Rightarrow> rat \<Rightarrow> acc \<Rightarrow> string \<Rightarrow> api_error + (user_row \<times> auth_user)" where
  "load_user_from_access_token cr now a token =
     (case jwt_decode cr now token of
        None \<Rightarrow> Inl (Http 401 ''Invalid token'')
      | Some c \<Rightarrow>
          if c_type c \<noteq> Access then Inl (Http 401 ''Invalid token'')
          else (case get_user_by_id (c_sub c) a of
              None \<Rightarrow> Inl (Http 401 ''Invalid token'')
            | Some u \<Rightarrow> if u_active u then Inr (u, build_auth_user_payload a u)
                        else Inl (Http 401 ''Invalid token'')))"

text \<open>\<open>get_current_user\<close> on a request that has not been authenticated before.\<close>

definition get_current_user :: "crypto \<Rightarrow> rat \<Rightarrow> string \<Rightarrow> acc \<Rightarrow> api_error + (user_row \<times> auth_user)" where
  "get_current_user cr now authorization a =
     (if strip authorization = [] then Inl (Http 401 ''Missing bearer token'')
      else (case extract_bearer_token authorization of
          Inl e \<Rightarrow> Inl e | Inr token \<Rightarrow> load_user_from_access_token cr now a token))"

section \<open>Login, refresh, logout\<close>

text \<open>The tables together with the counters of failed logins.\<close>

record server =
  tables :: acc
  failed :: events

text \<open>\<open>jtis\<close>: the token ids drawn for the access and the refresh token.\<close>

definition login ::
  "crypto \<Rightarrow> rat \<Rightarrow> string \<times> string \<Rightarrow> string \<Rightarrow> string \<Rightarrow> server \<Rightarrow> (api_error + string \<times> string) \<times> server" where
  "login cr now jtis name0 password s =
     (let name = strip name0; denied = Inl (Http 401 ''Invalid credentials'');
          (allowed, fa) = check_allowed now name (failed s); s1 = s\<lparr>failed := fa\<rparr> in
      if \<not> allowed then (denied, s1)
      else (let s2 = s1\<lparr>tables := cleanup_expired now (tables s1)\<rparr>;
                refused = (denied, s2\<lparr>failed := record_failure now name (failed s2)\<rparr>) in
        case get_user_by_username name (tables s2) of
          None \<Rightarrow> refused
        | Some u \<Rightarrow>
            if \<not> u_active u \<or> \<not> bcrypt_verify cr password (u_password u) then refused
            else (let access = create_access_token cr now (fst jtis) (u_id u) (u_role u);
                      refresh = create_refresh_token cr now (snd jtis) (u_id u) in
              case create_session (u_id u) refresh (\<lfloor>now\<rfloor> + 30 * 86400) (tables s2) of
                Inl e \<Rightarrow> (Inl (Crash e), s2)
              | Inr (i, a) \<Rightarrow> (Inr (access, refresh),
                  s2\<lparr>tables := update_last_login now (u_id u) a, failed := record_success name (failed s2)\<rparr>))))"

definition refresh ::
  "crypto \<Rightarrow> rat \<Rightarrow> string \<times> string \<Rightarrow> string \<Rightarrow> acc \<Rightarrow> (api_error + string \<times> string) \<times> acc" where
  "refresh cr now jtis token a =
     (let denied = Inl (Http 401 ''Invalid refresh token'') in
      case jwt_decode cr now token of
        None \<Rightarrow> (denied, a)
      | Some c \<Rightarrow>
          if c_type c \<noteq> Refresh then (denied, a)
          else (case get_session_by_token token a of
              (None, a1) \<Rightarrow> (denied, a1)
            | (Some se, a1) \<Rightarrow>
                if us_revoked se then (denied, a1)
                else (case get_user_by_id (us_user se) a1 of
                    None \<Rightarrow> (denied, a1)
                  | Some u \<Rightarrow>
                      if \<not> u_active u then (denied, a1)
                      else (let next = create_refresh_token cr now (snd jtis) (u_id u);
                                a2 = revoke_session (us_id se) a1 in
                        case create_session (u_id u) next (\<lfloor>now\<rfloor> + 30 * 86400) a2 of
                          Inl e \<Rightarrow> (Inl (Crash e), a2)
                        | Inr (i, a3) \<Rightarrow>
                            (Inr (create_access_token cr now (fst jtis) (u_id u) (u_role u), next), a3)))))"

definition logout :: "crypto \<Rightarrow> rat \<Rightarrow> string \<Rightarrow> acc \<Rightarrow> (api_error + unit) \<times> acc" where
  "logout cr now authorization a =
     (case extract_bearer_token authorization of
        Inl e \<Rightarrow> (Inl e, a)
      | Inr token \<Rightarrow> (case load_user_from_access_token cr now a token of
            Inl e \<Rightarrow> (Inl e, a)
          | Inr (u, p) \<Rightarrow> (Inr (), revoke_all_user_sessions (u_id u) a)))"

definition update_password ::
  "crypto \<Rightarrow> rat \<Rightarrow> string \<Rightarrow> string \<Rightarrow> string \<Rightarrow> string \<Rightarrow> acc \<Rightarrow> (api_error + unit) \<times> acc" where
  "update_password cr now salt authorization current new a =
     (case extract_bearer_token authorization of
        Inl e \<Rightarrow> (Inl e, a)
      | Inr token \<Rightarrow> (case load_user_from_access_token cr now a token of
            Inl e \<Rightarrow> (Inl e, a)
          | Inr (u, p) \<Rightarrow>
              if length new < 5 then (Inl (Http 400 ''Password too short''), a)
              else if \<not> bcrypt_verify cr current (u_password u) then (Inl (Http 401 ''Invalid credentials''), a)
              else (let (ok, a') = update_user (u_id u) (no_fields\<lparr>f_password := Some (bcrypt_hash cr salt new)\<rparr>) a
                    in if ok then (Inr (), a') else (Inl (Http 404 ''User not found''), a'))))"

section \<open>User management\<close>

definition legacy_template_ids_of_role :: "acc \<Rightarrow> string \<Rightarrow> int list" where
  "legacy_template_ids_of_role a r = (case map_of LEGACY_ROLE_TO_TEMPLATE r of
     None \<Rightarrow> []
   | Some name \<Rightarrow> (case find (\<lambda>t. rt_name t = name) (list_role_templates True a) of
       None \<Rightarrow> [] | Some t \<Rightarrow> [rt_id t]))"

definition resolve_role_template_ids ::
  "acc \<Rightarrow> int list option \<Rightarrow> string option \<Rightarrow> int option \<Rightarrow> api_error + int list" where
  "resolve_role_template_ids a explicit r current =
     (let resolved = remdups (case explicit of
            Some ids \<Rightarrow> ids
          | None \<Rightarrow> (case r of
              Some name \<Rightarrow> legacy_template_ids_of_role a name
            | None \<Rightarrow> (case current of Some i \<Rightarrow> list_user_role_ids i a | None \<Rightarrow> [])))
      in case find (\<lambda>i. get_role_template i a = None) (sort resolved) of
           Some i \<Rightarrow> Inl (Http 400 (''Unknown role template id: '' @ int_str i))
         | None \<Rightarrow> Inr resolved)"

definition api_create_user ::
  "crypto \<Rightarrow> string \<Rightarrow> string \<Rightarrow> string \<Rightarrow> string \<Rightarrow> string \<Rightarrow> int list option \<Rightarrow> acc \<Rightarrow> (api_error + int) \<times> acc" where
  "api_create_user cr salt name display password r explicit a =
     (let conflict = Inl (Http 409 ''Username already exists'') in
      if length password < 8 then (Inl (Http 400 ''Password too short''), a)
      else if get_user_by_username name a \<noteq> None then (conflict, a)
      else (case resolve_role_template_ids a explicit (Some r) None of
          Inl e \<Rightarrow> (Inl e, a)
        | Inr ids \<Rightarrow> (case create_user_row name display (bcrypt_hash cr salt password) r a of
              Inl e \<Rightarrow> (conflict, a)
            | Inr (i, a1) \<Rightarrow> (case replace_user_roles i ids a1 of
                  Inl e \<Rightarrow> (conflict, a) | Inr a2 \<Rightarrow> (Inr i, a2)))))"

definition api_update_user ::
  "int \<Rightarrow> user_fields \<Rightarrow> int list option \<Rightarrow> acc \<Rightarrow> (api_error + unit) \<times> acc" where
  "api_update_user i f explicit a =
     (if get_user_by_id i a = None then (Inl (Http 404 ''User not found''), a)
      else (case resolve_role_template_ids a explicit (f_role f) (Some i) of
          Inl e \<Rightarrow> (Inl e, a)
        | Inr ids \<Rightarrow>
            (let f' = f\<lparr>f_password := None\<rparr>; (ok, a1) = update_user i f' a in
             if f' \<noteq> no_fields \<and> \<not> ok then (Inl (Http 404 ''User not found''), a)
             else (case replace_user_roles i ids a1 of
                 Inl e \<Rightarrow> (Inl (Crash e), a) | Inr a2 \<Rightarrow> (Inr (), a2)))))"

definition api_deactivate_user :: "int \<Rightarrow> acc \<Rightarrow> (api_error + unit) \<times> acc" where
  "api_deactivate_user i a =
     (let (ok, a') = deactivate_user i a in
      if ok then (Inr (), a') else (Inl (Http 404 ''User not found''), a'))"

definition api_reset_password :: "crypto \<Rightarrow> string \<Rightarrow> int \<Rightarrow> string \<Rightarrow> acc \<Rightarrow> (api_error + unit) \<times> acc" where
  "api_reset_password cr salt i new a =
     (if length new < 8 then (Inl (Http 400 ''Password too short''), a)
      else (let (ok, a') = update_user i (no_fields\<lparr>f_password := Some (bcrypt_hash cr salt new)\<rparr>) a in
            if ok then (Inr (), a') else (Inl (Http 404 ''User not found''), a')))"

section \<open>Role management\<close>

definition normalize_keys :: "string list \<Rightarrow> string list \<Rightarrow> api_error + string list" where
  "normalize_keys known keys =
     (let normalized = remdups (filter (\<lambda>k. k \<noteq> []) (map strip keys));
          invalid = filter (\<lambda>k. k \<notin> set known) normalized in
      if invalid = [] then Inr normalized
      else Inl (Http 400 ''Invalid permission key''))"

definition api_create_role :: "string \<Rightarrow> string \<Rightarrow> string list \<Rightarrow> acc \<Rightarrow> (api_error + int) \<times> acc" where
  "api_create_role name description keys a =
     (case normalize_keys GLOBAL_PERMISSION_KEYS keys of
        Inl e \<Rightarrow> (Inl e, a)
      | Inr ks \<Rightarrow>
          (let conflict = (Inl (Http 409 ''Role template name already exists''), a) in
           case create_role_template name description False a of
             Inl e \<Rightarrow> conflict
           | Inr (i, a1) \<Rightarrow> (case replace_role_permissions i ks a1 of
               Inl e \<Rightarrow> conflict | Inr a2 \<Rightarrow> (Inr i, a2))))"

definition api_update_role ::
  "int \<Rightarrow> string option \<Rightarrow> string option \<Rightarrow> string list option \<Rightarrow> acc \<Rightarrow> (api_error + unit) \<times> acc" where
  "api_update_role i name description keys a =
     (let conflict = (Inl (Http 409 ''Role template name already exists''), a) in
      case get_role_template i a of
        None \<Rightarrow> (Inl (Http 404 ''Role template not found''), a)
      | Some t \<Rightarrow>
          if rt_system t then (Inl (Http 400 ''System role templates cannot be updated''), a)
          else (case (case keys of None \<Rightarrow> Inr None
                      | Some ks \<Rightarrow> map_sum id Some (normalize_keys GLOBAL_PERMISSION_KEYS ks)) of
              Inl e \<Rightarrow> (Inl e, a)
            | Inr ks \<Rightarrow>
                (case update_role_template i (no_template_fields\<lparr>f_name := name, f_description := description\<rparr>) a of
                   Inl e \<Rightarrow> conflict
                 | Inr (ok, a1) \<Rightarrow> (case ks of
                       None \<Rightarrow> (Inr (), a1)
                     | Some k \<Rightarrow> (case replace_role_permissions i k a1 of
                         Inl e \<Rightarrow> conflict | Inr a2 \<Rightarrow> (Inr (), a2))))))"

definition api_deactivate_role :: "int \<Rightarrow> acc \<Rightarrow> (api_error + unit) \<times> acc" where
  "api_deactivate_role i a =
     (case get_role_template i a of
        None \<Rightarrow> (Inl (Http 404 ''Role template not found''), a)
      | Some t \<Rightarrow>
          if rt_system t then (Inl (Http 400 ''System role templates cannot be deactivated''), a)
          else (case update_role_template i (no_template_fields\<lparr>f_is_active := Some False\<rparr>) a of
              Inl e \<Rightarrow> (Inl (Crash e), a)
            | Inr (ok, a') \<Rightarrow> if ok then (Inr (), a') else (Inl (Http 404 ''Role template not found''), a')))"

section \<open>Show assignments\<close>

text \<open>\<open>keys_json\<close>: the JSON text of the normalized keys (\<open>json.dumps\<close>), never empty.\<close>

definition api_assign_user ::
  "(string list \<Rightarrow> string) \<Rightarrow> int \<Rightarrow> int \<Rightarrow> string \<Rightarrow> string list option \<Rightarrow> acc \<Rightarrow> (api_error + unit) \<times> acc" where
  "api_assign_user keys_json show_id i r keys a =
     (if r \<notin> {''dj'', ''producer''} then (Inl (Http 400 ''role must be dj or producer''), a)
      else (case (case keys of None \<Rightarrow> Inr None
                  | Some ks \<Rightarrow> map_sum id Some (normalize_keys SHOW_PERMISSION_KEYS ks)) of
          Inl e \<Rightarrow> (Inl e, a)
        | Inr ks \<Rightarrow>
            if show_id \<notin> set (show_ids a) then (Inl (Http 404 ''Show not found''), a)
            else (case assign_show show_id i r (map_option keys_json ks) a of
                Inl e \<Rightarrow> (Inl (Crash e), a)
              | Inr a1 \<Rightarrow> (case ks of
                    None \<Rightarrow> (Inr (), a1)
                  | Some k \<Rightarrow> (case replace_show_permissions show_id i k a1 of
                      Inl e \<Rightarrow> (Inl (Crash e), a) | Inr a2 \<Rightarrow> (Inr (), a2))))))"

definition api_unassign_user :: "int \<Rightarrow> int \<Rightarrow> acc \<Rightarrow> (api_error + unit) \<times> acc" where
  "api_unassign_user show_id i a =
     (let (ok, a') = unassign_show show_id i a in
      if ok then (Inr (), a') else (Inl (Http 404 ''Assignment not found''), a'))"

end
