(* ===== verification/Access.thy ===== *)
theory Access
  imports Accounts
begin

text \<open>
  Which request a user may make (\<open>auth/dependencies.py\<close>) and the middleware of \<open>main.py\<close> that asks
  (\<open>auth_guard_middleware\<close>, \<open>auth_rate_limit_middleware\<close>).
\<close>

section \<open>Tables\<close>

definition READ_ONLY_METHODS :: "string list" where
  "READ_ONLY_METHODS = [''GET'', ''HEAD'', ''OPTIONS'']"

definition ALL_ROLES :: "string list" where
  "ALL_ROLES = [''admin'', ''dj'', ''producer'', ''viewer'']"

definition PUBLIC_API_PATHS :: "string list" where
  "PUBLIC_API_PATHS =
     [''/api/health'', ''/api/health-wall'', ''/api/monitor/snapshot'', ''/api/public/stations'',
      ''/api/auth/login'', ''/api/auth/refresh'', ''/api/ai/model-status'', ''/api/ai/system-info'',
      ''/api/ai/fast/tts-test'', ''/api/ai/fast/status'', ''/api/ai/fast/warmup'', ''/api/ai/benchmark'',
      ''/api/guest/redeem'', ''/api/guest/session'', ''/api/guest/mute'', ''/api/guest/consent'',
      ''/api/ha/internal/heartbeat'', ''/api/ha/internal/vote'', ''/api/ha/internal/audit-anchor'',
      ''/api/ha/internal/replicate'', ''/api/ha/internal/checkpoint'']"

text \<open>A rule: a path, the roles that may read below it and those that may write.\<close>

definition ROUTE_ROLE_RULES :: "(string \<times> string list \<times> string list) list" where
  "ROUTE_ROLE_RULES =
     (let admin = [''admin'']; operators = [''admin'', ''dj'']; staff = [''admin'', ''dj'', ''producer'']
      in [(''/api/auth/'', ALL_ROLES, ALL_ROLES),
          (''/api/users'', admin, admin),
          (''/api/roles'', ALL_ROLES, ALL_ROLES),
          (''/api/runtime/'', operators, operators),
          (''/api/liquidsoap/'', operators, operators),
          (''/api/audio/'', operators, operators),
          (''/api/queue/'', ALL_ROLES, staff),
          (''/api/playout/'', ALL_ROLES, staff),
          (''/api/program/'', ALL_ROLES, staff),
          (''/api/schedule/'', ALL_ROLES, staff),
          (''/api/ads/'', [''admin'', ''producer'', ''viewer''], [''admin'', ''producer'']),
          (''/api/ad-break-sets'', [''admin'', ''producer'', ''viewer''], [''admin'', ''producer'']),
          (''/api/ad-campaigns'', [''admin'', ''producer'', ''viewer''], [''admin'', ''producer'']),
          (''/api/tracks/'', ALL_ROLES, staff),
          (''/api/library/'', ALL_ROLES, staff),
          (''/api/media/'', ALL_ROLES, staff),
          (''/api/scanner/'', staff, staff),
          (''/api/playlists/'', ALL_ROLES, staff),
          (''/api/studios'', ALL_ROLES, staff),
          (''/api/guest-recordings'', staff, staff),
          (''/api/stations/'', [''admin'', ''dj'', ''viewer''], operators),
          (''/api/speaker/'', [''admin'', ''dj'', ''viewer''], operators),
          (''/api/settings/'', admin, admin),
          (''/api/sweeper/'', admin, admin),
          (''/api/startup-sound/'', admin, admin),
          (''/api/outbox/'', operators, operators),
          (''/api/webrtc/'', operators, operators),
          (''/api/soundboard/'', operators, operators),
          (''/api/setup/'', operators, operators),
          (''/api/shows/'', staff, staff),
          (''/api/logs'', ALL_ROLES, staff),
          (''/api/events'', ALL_ROLES, staff)])"

section \<open>Paths and roles\<close>

definition starts_with :: "string \<Rightarrow> string \<Rightarrow> bool" where
  "starts_with p s \<longleftrightarrow> take (length p) s = p"

definition ends_with :: "string \<Rightarrow> string \<Rightarrow> bool" where
  "ends_with s suffix \<longleftrightarrow> starts_with (rev suffix) (rev s)"

fun contains :: "string \<Rightarrow> string \<Rightarrow> bool" where
  "contains [] part = (part = [])"
| "contains (c # s) part = (starts_with part (c # s) \<or> contains s part)"

text \<open>\<open>str.upper\<close> on the letters an HTTP method has.\<close>

definition upper_char :: "char \<Rightarrow> char" where
  "upper_char c = (case map_of (map (\<lambda>(u, l). (l, u)) lower_table) c of None \<Rightarrow> c | Some u \<Rightarrow> u)"

definition normalize_api_path :: "string \<Rightarrow> string" where
  "normalize_api_path path =
     (let p = strip path in
      if ends_with p ''/'' \<and> p \<noteq> ''/'' then rev (dropWhile (\<lambda>c. c = CHR ''/'') (rev p)) else p)"

definition normalize_legacy_role :: "string \<Rightarrow> string" where
  "normalize_legacy_role r = (let n = lower (strip r) in if n = ''superadmin'' then ''admin'' else n)"

definition is_public_api_path :: "string \<Rightarrow> bool" where
  "is_public_api_path path \<longleftrightarrow> normalize_api_path path \<in> set PUBLIC_API_PATHS"

definition path_matches :: "string \<Rightarrow> string \<Rightarrow> bool" where
  "path_matches rule actual \<longleftrightarrow> actual = rule \<or>
     (if ends_with rule ''/'' then starts_with rule actual else starts_with (rule @ ''/'') actual)"

definition normalize_method :: "string \<Rightarrow> string" where
  "normalize_method m = (if m = [] then ''GET'' else map upper_char m)"

text \<open>The first rule that matches; without one, everybody reads and admins write.\<close>

definition allowed_roles :: "string \<Rightarrow> string \<Rightarrow> string list" where
  "allowed_roles path m =
     (let reading = normalize_method m \<in> set READ_ONLY_METHODS in
      case find (\<lambda>(rule, _). path_matches rule path) ROUTE_ROLE_RULES of
        Some (_, readers, writers) \<Rightarrow> if reading then readers else writers
      | None \<Rightarrow> if reading then ALL_ROLES else [''admin''])"

definition role_is_allowed_for_request :: "string \<Rightarrow> string \<Rightarrow> string \<Rightarrow> bool" where
  "role_is_allowed_for_request r path m \<longleftrightarrow> normalize_legacy_role r \<in> set (allowed_roles path m)"

section \<open>Permissions\<close>

definition normalize_permissions :: "string set \<Rightarrow> string set" where
  "normalize_permissions ps = {p \<in> strip ` ps. p \<noteq> []}"

definition user_has_any_show_permission :: "auth_user \<Rightarrow> string list \<Rightarrow> bool" where
  "user_has_any_show_permission u keys \<longleftrightarrow>
     (\<exists>(show_id, ps) \<in> set (au_show_permissions u).
        normalize_permissions ps \<inter> {k \<in> strip ` set keys. k \<noteq> []} \<noteq> {})"

definition user_has_permission :: "auth_user \<Rightarrow> string \<Rightarrow> bool" where
  "user_has_permission u key \<longleftrightarrow> key \<in> au_permissions u"

definition user_has_show_permission :: "auth_user \<Rightarrow> int \<Rightarrow> string \<Rightarrow> bool" where
  "user_has_show_permission u show_id key \<longleftrightarrow>
     (case map_of (au_show_permissions u) show_id of
        None \<Rightarrow> False | Some ps \<Rightarrow> key \<in> normalize_permissions ps)"

definition any_show_key :: "string list" where
  "any_show_key = [''show.broadcast'', ''show.queue_edit'', ''show.jingle_manage'',
     ''show.break_control'', ''show.end'']"

definition user_is_allowed_for_request :: "auth_user \<Rightarrow> string \<Rightarrow> string \<Rightarrow> bool" where
  "user_is_allowed_for_request u path m =
     (let reading = normalize_method m \<in> set READ_ONLY_METHODS;
          has = (\<lambda>keys. normalize_permissions (au_permissions u) \<inter> set keys \<noteq> {});
          show = user_has_any_show_permission u;
          admin = normalize_legacy_role (au_role u) = ''admin'';
          ends = ends_with path;
          by_role = role_is_allowed_for_request (au_role u) path m;
          by_permission =
            (if path_matches ''/api/users'' path then
               if reading \<or> ends ''/reset-password'' then has [''users.manage'', ''users.reset_password'']
               else has [''users.manage'']
             else if path = ''/api/stations'' \<or> path_matches ''/api/stations/'' path then
               if ends ''/output'' then
                 if reading then has [''stations.view'', ''stations.edit''] else has [''stations.edit'']
               else if reading then has [''stations.view'', ''stations.create'', ''stations.edit'', ''stations.delete'']
               else if normalize_method m = ''DELETE'' then has [''stations.delete'']
               else if ends ''/active'' then has [''stations.edit'']
               else has [''stations.create'']
             else if path_matches ''/api/speaker/'' path then
               if reading then has [''stations.view'', ''stations.edit''] else has [''stations.edit'']
             else if path_matches ''/api/library/import/ytdlp'' path then has [''downloads.use'']
             else if path_matches ''/api/logs'' path \<or> path_matches ''/api/events'' path then has [''logs.view'']
             else if path_matches ''/api/soundboard/'' path then
               if reading then has [''soundboard.view'', ''soundboard.play'', ''soundboard.manage'']
               else if ends ''/play'' \<or> ends ''/stop'' then has [''soundboard.play'', ''soundboard.manage'']
               else has [''soundboard.manage'']
             else if path = ''/api/program'' \<or> path_matches ''/api/program/'' path then
               if reading then has [''program.panel.open''] \<or> show any_show_key
               else if ends ''/queue/source'' then show [''show.broadcast'']
               else if contains path ''/queue'' then show [''show.queue_edit'']
               else has [''program.panel.open'']
             else if path = ''/api/shows'' \<or> path_matches ''/api/shows/'' path then
               if reading then
                 has [''shows.view'', ''shows.manage'', ''show.assign.manage'', ''program.panel.open''] \<or>
                 show any_show_key
               else if ends ''/assign'' \<or> contains path ''/assign/'' then has [''show.assign.manage'']
               else if ends ''/upload-audio'' then has [''shows.manage''] \<or> show [''show.jingle_manage'']
               else if ends ''/go-live'' then show [''show.broadcast'']
               else if ends ''/go-break'' then show [''show.break_control'']
               else if ends ''/end'' then show [''show.end'']
               else has [''shows.manage'']
             else False)
      in if path_matches ''/api/stream-config/'' path then
           admin \<or>
           (if reading then has [''stream.configure_basic'', ''stream.configure_advanced'']
            else if ends ''/rollback'' then has [''stream.configure_advanced'']
            else has [''stream.configure_basic''])
         else if path_matches ''/api/liquidsoap/'' path \<and> admin then True
         else if path_matches ''/api/liquidsoap/'' path \<and> ends ''/status'' then
           has [''stations.view'', ''stations.edit''] \<or> show any_show_key
         else if path_matches ''/api/liquidsoap/'' path \<and>
              (ends ''/program/music'' \<or> ends ''/duck'' \<or> ends ''/push'' \<or> ends ''/skip'' \<or> ends ''/cart'')
         then show [''show.broadcast'']
         else by_role \<or> by_permission)"

section \<open>Station rows\<close>

text \<open>
  A user payload built from a row has none of the \<open>station_ids\<close> entries, so a user without a station
  permission sees no station.
\<close>

definition user_has_unrestricted_station_access :: "auth_user \<Rightarrow> bool" where
  "user_has_unrestricted_station_access u \<longleftrightarrow> normalize_legacy_role (au_role u) = ''admin'' \<or>
     normalize_permissions (au_permissions u) \<inter>
       {''stations.view'', ''stations.edit'', ''stations.create'', ''stations.delete''} \<noteq> {}"

definition filter_station_rows_for_user :: "auth_user \<Rightarrow> 'r list \<Rightarrow> 'r list" where
  "filter_station_rows_for_user u rows = (if user_has_unrestricted_station_access u then rows else [])"

section \<open>Dependencies of the end points\<close>

definition require_permission :: "string list \<Rightarrow> auth_user \<Rightarrow> api_error + unit" where
  "require_permission keys u =
     (if \<forall>k \<in> set (filter (\<lambda>k. k \<noteq> []) (map strip keys)). user_has_permission u k then Inr ()
      else Inl (Http 403 ''Forbidden''))"

definition require_any_permission :: "string list \<Rightarrow> auth_user \<Rightarrow> api_error + unit" where
  "require_any_permission keys u =
     (if \<exists>k \<in> set (filter (\<lambda>k. k \<noteq> []) (map strip keys)). user_has_permission u k then Inr ()
      else Inl (Http 403 ''Forbidden''))"

definition require_show_permission :: "string \<Rightarrow> int \<Rightarrow> auth_user \<Rightarrow> api_error + unit" where
  "require_show_permission key show_id u =
     (if au_role u = ''admin'' \<or> user_has_show_permission u show_id (strip key) then Inr ()
      else Inl (Http 403 ''Forbidden''))"

definition require_role :: "string list \<Rightarrow> auth_user \<Rightarrow> api_error + unit" where
  "require_role rs u =
     (if normalize_legacy_role (au_role u) \<in> normalize_legacy_role ` set (filter (\<lambda>r. strip r \<noteq> []) rs)
      then Inr () else Inl (Http 403 ''Forbidden''))"

section \<open>Middleware\<close>

text \<open>What reaches the handlers: no user for a path outside the guard, or the user.\<close>

definition auth_guard ::
  "crypto \<Rightarrow> rat \<Rightarrow> string \<Rightarrow> string \<Rightarrow> string \<Rightarrow> acc \<Rightarrow> api_error + auth_user option" where
  "auth_guard cr now path m authorization a =
     (if \<not> starts_with ''/api/'' path \<or> is_public_api_path path then Inr None
      else (case get_current_user cr now authorization a of
          Inl e \<Rightarrow> Inl e
        | Inr (row, u) \<Rightarrow>
            if user_is_allowed_for_request u path m then Inr (Some u) else Inl (Http 403 ''Forbidden'')))"

text \<open>The login behind the rate limiter; \<open>limit\<close> and \<open>w\<close> come from the environment.\<close>

definition limited_login ::
  "int \<Rightarrow> int \<Rightarrow> crypto \<Rightarrow> rat \<Rightarrow> string \<Rightarrow> string \<times> string \<Rightarrow> string \<Rightarrow> string \<Rightarrow> server \<times> events \<Rightarrow>
   (api_error + string \<times> string) \<times> server \<times> events" where
  "limited_login limit w cr now client jtis name password s =
     (let key = (if client = [] then ''unknown'' else client) @ '':/api/auth/login'';
          (ok, ev) = allow now key limit w (snd s) in
      if \<not> ok then (Inl (Http 429 ''Too many login attempts''), fst s, ev)
      else (let (r, s') = login cr now jtis name password (fst s) in (r, s', ev)))"

end
