(* ===== verification/Account_Runs.thy ===== *)
theory Account_Runs
  imports Access
begin

text \<open>
  Runs of the account end points from the empty schema, and what every one of them keeps: the
  constraints of the tables, the digests in \<open>user_sessions\<close>, and that a spent refresh token stays
  spent.
\<close>

section \<open>Events\<close>

text \<open>
  One request, with the claims and permissions of its caller already checked by the guard, or one
  call of \<open>init_db\<close>. \<open>rat\<close> arguments are clock readings, the pairs of texts are token ids.
\<close>

datatype acc_event =
    Login rat "string \<times> string" string string
  | Refreshing rat "string \<times> string" string
  | Logout rat string
  | Password rat string string string string
  | Create_User string string string string string "int list option"
  | Update_User int user_fields "int list option"
  | Deactivate_User int
  | Reset_Password string int string
  | Create_Role string string "string list"
  | Update_Role int "string option" "string option" "string list option"
  | Deactivate_Role int
  | Assign int int string "string list option"
  | Unassign int int
  | Init_Db string

definition on_tables :: "(acc \<Rightarrow> acc) \<Rightarrow> server \<Rightarrow> server" where
  "on_tables f s = s\<lparr>tables := f (tables s)\<rparr>"

fun acc_step :: "crypto \<Rightarrow> (string list \<Rightarrow> string) \<Rightarrow> acc_event \<Rightarrow> server \<Rightarrow> server" where
  "acc_step cr js (Login now jtis name pw) s = snd (login cr now jtis name pw s)"
| "acc_step cr js (Refreshing now jtis token) s = on_tables (\<lambda>a. snd (refresh cr now jtis token a)) s"
| "acc_step cr js (Logout now header) s = on_tables (\<lambda>a. snd (logout cr now header a)) s"
| "acc_step cr js (Password now salt header old new) s =
     on_tables (\<lambda>a. snd (update_password cr now salt header old new a)) s"
| "acc_step cr js (Create_User salt name display pw r ids) s =
     on_tables (\<lambda>a. snd (api_create_user cr salt name display pw r ids a)) s"
| "acc_step cr js (Update_User i f ids) s = on_tables (\<lambda>a. snd (api_update_user i f ids a)) s"
| "acc_step cr js (Deactivate_User i) s = on_tables (\<lambda>a. snd (api_deactivate_user i a)) s"
| "acc_step cr js (Reset_Password salt i new) s = on_tables (\<lambda>a. snd (api_reset_password cr salt i new a)) s"
| "acc_step cr js (Create_Role name d keys) s = on_tables (\<lambda>a. snd (api_create_role name d keys a)) s"
| "acc_step cr js (Update_Role i name d keys) s = on_tables (\<lambda>a. snd (api_update_role i name d keys a)) s"
| "acc_step cr js (Deactivate_Role i) s = on_tables (\<lambda>a. snd (api_deactivate_role i a)) s"
| "acc_step cr js (Assign sh i r keys) s = on_tables (\<lambda>a. snd (api_assign_user js sh i r keys a)) s"
| "acc_step cr js (Unassign sh i) s = on_tables (\<lambda>a. snd (api_unassign_user sh i a)) s"
| "acc_step cr js (Init_Db h) s = on_tables (init_accounts h) s"

definition acc_run :: "crypto \<Rightarrow> (string list \<Rightarrow> string) \<Rightarrow> acc_event list \<Rightarrow> server \<Rightarrow> server" where
  "acc_run cr js es s = fold (acc_step cr js) es s"

definition start :: server where
  "start = \<lparr>tables = empty_acc, failed = (\<lambda>_. [])\<rparr>"

lemma on_tables_simps [simp]: "tables (on_tables f s) = f (tables s)" "failed (on_tables f s) = failed s"
  by (simp_all add: on_tables_def)

lemma acc_run_simps [simp]:
  "acc_run cr js [] s = s" "acc_run cr js (es @ es') s = acc_run cr js es' (acc_run cr js es s)"
  "acc_run cr js (e # es) s = acc_run cr js es (acc_step cr js e s)"
  by (simp_all add: acc_run_def)

section \<open>Constraints of the tables\<close>

lemma above_seq:
  fixes f :: "'a \<Rightarrow> int"
  assumes "\<forall>x \<in> set xs. f x \<le> n"
  shows "n + 1 \<notin> f ` set xs \<and> (\<forall>x \<in> set xs. f x \<le> n + 1)"
proof
  show "n + 1 \<notin> f ` set xs"
  proof
    assume "n + 1 \<in> f ` set xs"
    then obtain x where "x \<in> set xs" "f x = n + 1" by auto
    then show False using assms by auto
  qed
  show "\<forall>x \<in> set xs. f x \<le> n + 1" using assms by auto
qed

lemma session_rows_ok:
  assumes "acc_ok a" "map us_id (login_sessions b) = map us_id (login_sessions a)"
    "map us_token (login_sessions b) = map us_token (login_sessions a)" "session_seq b = session_seq a"
    "users b = users a" "user_seq b = user_seq a" "role_templates b = role_templates a"
    "template_seq b = template_seq a"
  shows "acc_ok b"
proof -
  have "\<forall>i \<in> set (map us_id (login_sessions a)). i \<le> session_seq a" using assms(1) by (simp add: acc_ok_def)
  then have "\<forall>i \<in> set (map us_id (login_sessions b)). i \<le> session_seq a" by (simp only: assms(2))
  then have "\<forall>s \<in> set (login_sessions b). us_id s \<le> session_seq b" by (simp add: assms(4))
  then show ?thesis using assms by (simp add: acc_ok_def)
qed

lemma acc_ok_revoke [intro]: "acc_ok a \<Longrightarrow> acc_ok (revoke_session i a)" "acc_ok a \<Longrightarrow> acc_ok (revoke_all_user_sessions i a)"
  by (rule session_rows_ok [of a], auto simp: revoke_session_def revoke_all_user_sessions_def)+

lemma acc_ok_cleanup [intro]: "acc_ok a \<Longrightarrow> acc_ok (cleanup_expired now a)"
  by (auto simp: acc_ok_def cleanup_expired_def delete_where_def distinct_map_filter)

lemma acc_ok_create_session:
  "acc_ok a \<Longrightarrow> create_session u t e a = Inr (i, b) \<Longrightarrow> acc_ok b"
  using above_seq [of "login_sessions a" us_id "session_seq a"]
  by (auto simp: create_session_def acc_ok_def Let_def split: if_splits)

lemma get_session_cases:
  assumes "get_session_by_token t a = (r, b)"
  obtains "b = a" "r = None \<or> (\<exists>s \<in> set (login_sessions a). r = Some s \<and> (us_token s = sha256 t))"
  | s where "s \<in> set (login_sessions a)" "r = Some s" "us_token s = t" "sha256 t \<notin> set (map us_token (login_sessions a))"
      "b = a\<lparr>login_sessions := update_where (\<lambda>x. us_id x = us_id s) (\<lambda>x. x\<lparr>us_token := sha256 t\<rparr>) (login_sessions a)\<rparr>"
proof (cases "find (\<lambda>s. us_token s = sha256 t) (login_sessions a)")
  case (Some s)
  then have "s \<in> set (login_sessions a)" "us_token s = sha256 t" by (auto simp: find_Some_iff)
  moreover have "b = a" "r = Some s" using assms Some by (auto simp: get_session_by_token_def)
  ultimately show ?thesis using that(1) by blast
next
  case None
  then have fresh: "sha256 t \<notin> set (map us_token (login_sessions a))" by (auto simp: find_None_iff)
  show ?thesis
  proof (cases "find (\<lambda>s. us_token s = t) (login_sessions a)")
    case (Some s)
    then have "s \<in> set (login_sessions a)" "us_token s = t" by (auto simp: find_Some_iff)
    then show ?thesis using that(2) [of s] assms None Some fresh by (simp add: get_session_by_token_def)
  qed (use that(1) assms None in \<open>auto simp: get_session_by_token_def\<close>)
qed

lemma distinct_update_one:
  assumes "distinct (map f xs)" "distinct (map g xs)" "v \<notin> set (map g xs)" "\<And>x. g (h x) = v"
  shows "distinct (map g (update_where (\<lambda>x. f x = k) h xs))"
  using assms(1-3)
proof (induction xs)
  case (Cons x xs)
  have other: "update_where (\<lambda>x. f x = k) h xs = xs" if "f x = k"
    using Cons.prems(1) that by (intro update_where_none) (metis distinct.simps(2) image_eqI list.set_map list.simps(9))
  have sub: "set (map g (update_where (\<lambda>x. f x = k) h xs)) \<subseteq> insert v (set (map g xs))"
    by (auto simp: set_update_where assms(4))
  show ?case
  proof (cases "f x = k")
    case True
    then show ?thesis using Cons.prems other by (simp add: assms(4))
  next
    case False
    have "g x \<notin> set (map g (update_where (\<lambda>x. f x = k) h xs))" using sub Cons.prems by auto
    then show ?thesis using False Cons by simp
  qed
qed simp

lemma acc_ok_get_session: "acc_ok a \<Longrightarrow> get_session_by_token t a = (r, b) \<Longrightarrow> acc_ok b"
proof (erule get_session_cases)
  fix s
  assume ok: "acc_ok a" and new: "sha256 t \<notin> set (map us_token (login_sessions a))"
    and b: "b = a\<lparr>login_sessions := update_where (\<lambda>x. us_id x = us_id s) (\<lambda>x. x\<lparr>us_token := sha256 t\<rparr>) (login_sessions a)\<rparr>"
  have "distinct (map us_token (login_sessions b))"
    unfolding b using distinct_update_one [of us_id "login_sessions a" us_token "sha256 t"] ok new
    by (simp add: acc_ok_def)
  moreover have "map us_id (login_sessions b) = map us_id (login_sessions a)" by (simp add: b)
  moreover have "\<forall>x \<in> set (login_sessions b). us_id x \<le> session_seq a"
    using ok by (auto simp: b acc_ok_def set_update_where)
  ultimately show "acc_ok b" using ok by (simp add: b acc_ok_def)
qed simp

lemma acc_ok_update_user [intro]: "acc_ok a \<Longrightarrow> acc_ok (snd (update_user i f a))"
  by (auto simp: update_user_def acc_ok_def set_update_where split: if_splits)

lemma acc_ok_updated: "acc_ok a \<Longrightarrow> update_user i f a = (ok, b) \<Longrightarrow> acc_ok b"
  using acc_ok_update_user [of a i f] by simp

lemma acc_ok_last_login [intro]: "acc_ok a \<Longrightarrow> acc_ok (update_last_login now i a)"
  by (auto simp: update_last_login_def acc_ok_def set_update_where)

lemma acc_ok_create_user: "acc_ok a \<Longrightarrow> create_user_row n d p r a = Inr (i, b) \<Longrightarrow> acc_ok b"
  using above_seq [of "users a" u_id "user_seq a"]
  by (auto simp: create_user_row_def acc_ok_def Let_def split: if_splits)

lemma acc_ok_replace [intro]:
  "acc_ok a \<Longrightarrow> replace_user_roles i ts a = Inr b \<Longrightarrow> acc_ok b"
  "acc_ok a \<Longrightarrow> replace_role_permissions i ks a = Inr b \<Longrightarrow> acc_ok b"
  "acc_ok a \<Longrightarrow> replace_show_permissions sh i ks a = Inr b \<Longrightarrow> acc_ok b"
  "acc_ok a \<Longrightarrow> assign_show sh i r js a = Inr b \<Longrightarrow> acc_ok b"
  "acc_ok a \<Longrightarrow> acc_ok (snd (unassign_show sh i a))"
  by (auto simp: replace_user_roles_def replace_role_permissions_def replace_show_permissions_def
      assign_show_def unassign_show_def acc_ok_def split: if_splits)

lemma acc_ok_create_template: "acc_ok a \<Longrightarrow> create_role_template n d sy a = Inr (i, b) \<Longrightarrow> acc_ok b"
  using above_seq [of "role_templates a" rt_id "template_seq a"]
  by (auto simp: create_role_template_def acc_ok_def Let_def split: if_splits)

lemma acc_ok_update_template:
  assumes "acc_ok a" "update_role_template i f a = Inr (ok, b)"
  shows "acc_ok b"
proof (cases "f = no_template_fields")
  case False
  let ?h = "\<lambda>t. t\<lparr>rt_name := set_or (f_name f) (rt_name t), rt_description := set_or (f_description f) (rt_description t),
     rt_system := set_or (f_is_system f) (rt_system t), rt_active := set_or (f_is_active f) (rt_active t)\<rparr>"
  have b: "b = a\<lparr>role_templates := update_where (\<lambda>t. rt_id t = i) ?h (role_templates a)\<rparr>"
    and free: "f_name f = None \<or> i \<notin> set (map rt_id (role_templates a)) \<or>
      the (f_name f) \<notin> set (map rt_name (delete_where (\<lambda>t. rt_id t = i) (role_templates a)))"
    using assms(2) False by (auto simp: update_role_template_def split: if_splits)
  have ids: "map rt_id (role_templates b) = map rt_id (role_templates a)" by (simp add: b)
  have "distinct (map rt_name (role_templates b))"
  proof (cases "f_name f = None \<or> i \<notin> set (map rt_id (role_templates a))")
    case True
    then have "map rt_name (role_templates b) = map rt_name (role_templates a)"
      by (auto simp: b set_or_def update_where_def)
    then show ?thesis using assms(1) by (simp add: acc_ok_def)
  next
    case False
    then obtain n where n: "f_name f = Some n" by auto
    have aux: "distinct (map rt_name (update_where (\<lambda>t. rt_id t = i) ?h ts))"
      if "distinct (map rt_name ts)" "distinct (map rt_id ts)" "n \<notin> set (map rt_name (delete_where (\<lambda>t. rt_id t = i) ts))" for ts
      using that
    proof (induction ts)
      case (Cons t ts)
      have nm: "rt_name (?h x) = n" for x by (simp add: n set_or_def)
      have sub: "set (map rt_name (update_where (\<lambda>t. rt_id t = i) ?h ts)) \<subseteq>
          (if i \<in> set (map rt_id ts) then {n} else {}) \<union> set (map rt_name ts)"
        by (auto simp: set_update_where nm)
      have cs: "distinct (map rt_name (update_where (\<lambda>t. rt_id t = i) ?h ts))"
        using Cons by (auto simp: delete_where_def split: if_splits)
      show ?case
      proof (cases "rt_id t = i")
        case True
        have out: "rt_id x \<noteq> i" if "x \<in> set ts" for x
        proof
          assume "rt_id x = i"
          then have "i \<in> set (map rt_id ts)" using that by auto
          then show False using Cons.prems(2) True by simp
        qed
        have "update_where (\<lambda>t. rt_id t = i) ?h ts = ts" "delete_where (\<lambda>t. rt_id t = i) ts = ts"
          using out by (auto simp: delete_where_def filter_id_conv intro!: update_where_none)
        then show ?thesis using True Cons.prems by (simp add: nm delete_where_def)
      next
        case False
        then show ?thesis using sub cs Cons.prems by (auto simp: delete_where_def split: if_splits)
      qed
    qed simp
    show ?thesis using aux [of "role_templates a"] False free n assms(1) by (simp add: b acc_ok_def)
  qed
  moreover have "\<forall>t \<in> set (role_templates b). rt_id t \<le> template_seq a"
    using assms(1) by (auto simp: b acc_ok_def set_update_where)
  ultimately show ?thesis using assms(1) ids by (simp add: b acc_ok_def)
qed (use assms in \<open>auto simp: update_role_template_def\<close>)


section \<open>Every request keeps the constraints\<close>

lemma acc_ok_login:
  assumes "acc_ok (tables s)"
  shows "acc_ok (tables (snd (login cr now jtis name pw s)))"
proof -
  let ?n = "strip name"
  let ?c = "cleanup_expired now (tables s)"
  have clean: "acc_ok ?c" using assms by blast
  show ?thesis
  proof (cases "get_user_by_username ?n ?c")
    case None
    then show ?thesis using clean assms by (simp add: login_def Let_def split: prod.split)
  next
    case (Some u)
    let ?r = "create_session (u_id u) (create_refresh_token cr now (snd jtis) (u_id u)) (\<lfloor>now\<rfloor> + 30 * 86400) ?c"
    show ?thesis
    proof (cases ?r)
      case (Inl e)
      then show ?thesis using clean assms Some by (simp add: login_def Let_def split: prod.split)
    next
      case (Inr p)
      obtain i b where p: "p = (i, b)" by (cases p)
      have "acc_ok b" using acc_ok_create_session [OF clean] Inr p by blast
      then show ?thesis using clean assms Some Inr p by (auto simp: login_def Let_def split: prod.split)
    qed
  qed
qed

lemma acc_ok_refresh:
  assumes "acc_ok a"
  shows "acc_ok (snd (refresh cr now jtis token a))"
proof -
  obtain r a1 where g: "get_session_by_token token a = (r, a1)" by (cases "get_session_by_token token a")
  have ok1: "acc_ok a1" by (rule acc_ok_get_session [OF assms g])
  show ?thesis
  proof (cases r)
    case None
    then show ?thesis using g ok1 assms by (simp add: refresh_def Let_def split: option.split)
  next
    case (Some se)
    have ok2: "acc_ok (revoke_session i a1)" for i using ok1 by blast
    have ok3: "create_session u t e (revoke_session i a1) = Inr (j, b) \<Longrightarrow> acc_ok b" for u t e i j b
      by (rule acc_ok_create_session [OF ok2])
    show ?thesis
      using g Some ok1 ok2 ok3 assms
      by (auto simp: refresh_def Let_def split: option.split sum.split)
  qed
qed

lemma acc_ok_logout: "acc_ok a \<Longrightarrow> acc_ok (snd (logout cr now h a))"
  by (auto simp: logout_def split: sum.split)

lemma acc_ok_password: "acc_ok a \<Longrightarrow> acc_ok (snd (update_password cr now salt h old new a))"
  using acc_ok_updated [of a] by (auto simp: update_password_def Let_def split: sum.split prod.split)

lemma acc_ok_users_api:
  assumes "acc_ok a"
  shows "acc_ok (snd (api_create_user cr salt n d pw r ids a))" "acc_ok (snd (api_update_user i f ids a))"
    "acc_ok (snd (api_deactivate_user i a))" "acc_ok (snd (api_reset_password cr salt i new a))"
proof -
  show "acc_ok (snd (api_create_user cr salt n d pw r ids a))"
    using assms acc_ok_create_user [OF assms] acc_ok_replace(1)
    by (auto simp: api_create_user_def Let_def split: sum.split) blast
  show "acc_ok (snd (api_update_user i f ids a))"
  proof -
    obtain ok a1 where u: "update_user i (f\<lparr>f_password := None\<rparr>) a = (ok, a1)" by fastforce
    have "acc_ok a1" by (rule acc_ok_updated [OF assms u])
    then show ?thesis
      using assms acc_ok_replace(1) [of a1] by (auto simp: api_update_user_def Let_def u split: sum.split)
  qed
  show "acc_ok (snd (api_deactivate_user i a))" "acc_ok (snd (api_reset_password cr salt i new a))"
    using assms acc_ok_updated [OF assms]
    by (auto simp: api_deactivate_user_def api_reset_password_def deactivate_user_def Let_def split: prod.split)
qed

lemma acc_ok_roles_api:
  assumes "acc_ok a"
  shows "acc_ok (snd (api_create_role n d keys a))" "acc_ok (snd (api_update_role i nm ds ks a))"
    "acc_ok (snd (api_deactivate_role i a))" "acc_ok (snd (api_assign_user js sh i r ks a))"
    "acc_ok (snd (api_unassign_user sh i a))"
proof -
  show "acc_ok (snd (api_create_role n d keys a))"
    using assms acc_ok_create_template [OF assms] acc_ok_replace(2)
    by (auto simp: api_create_role_def Let_def split: sum.split) blast
  show "acc_ok (snd (api_update_role i nm ds ks a))"
    using assms acc_ok_update_template [OF assms] acc_ok_replace(2)
    by (auto simp: api_update_role_def Let_def split: sum.split option.split) blast+
  show "acc_ok (snd (api_deactivate_role i a))"
    using assms acc_ok_update_template [OF assms]
    by (auto simp: api_deactivate_role_def split: sum.split option.split)
  show "acc_ok (snd (api_assign_user js sh i r ks a))"
    using assms acc_ok_replace(4) [OF assms] acc_ok_replace(3)
    by (auto simp: api_assign_user_def split: sum.split option.split)
  show "acc_ok (snd (api_unassign_user sh i a))"
    using acc_ok_replace(5) [OF assms, of sh i] by (auto simp: api_unassign_user_def split: prod.split)
qed

lemma acc_ok_step: "acc_ok (tables s) \<Longrightarrow> acc_ok (tables (acc_step cr js e s))"
  by (cases e) (simp_all add: acc_ok_login acc_ok_refresh acc_ok_logout acc_ok_password acc_ok_users_api
      acc_ok_roles_api init_settles)

lemma acc_ok_run: "acc_ok (tables s) \<Longrightarrow> acc_ok (tables (acc_run cr js es s))"
  by (induction es arbitrary: s) (simp_all add: acc_ok_step)


section \<open>Digests and spent tokens\<close>

lemma sha256_no_dot: "CHR ''.'' \<notin> set (sha256 s)"
  using sha256_hex [of "CHR ''.''" s] by auto

text \<open>
  Of the stored texts none has a dot, so no stored text is a token; every stored digest of \<open>T\<close> is
  revoked.
\<close>

definition digests_only :: "acc \<Rightarrow> bool" where
  "digests_only a \<longleftrightarrow> (\<forall>s \<in> set (login_sessions a). CHR ''.'' \<notin> set (us_token s))"

definition spent :: "string \<Rightarrow> acc \<Rightarrow> bool" where
  "spent T a \<longleftrightarrow> (\<forall>s \<in> set (login_sessions a). us_token s = sha256 T \<longrightarrow> us_revoked s)"

text \<open>The refresh token a request mints.\<close>

fun minted :: "crypto \<Rightarrow> acc_event \<Rightarrow> server \<Rightarrow> string option" where
  "minted cr (Login now jtis name pw) s =
     (case fst (login cr now jtis name pw s) of Inl _ \<Rightarrow> None | Inr (_, t) \<Rightarrow> Some t)"
| "minted cr (Refreshing now jtis token) s =
     (case fst (refresh cr now jtis token (tables s)) of Inl _ \<Rightarrow> None | Inr (_, t) \<Rightarrow> Some t)"
| "minted cr _ s = None"

definition fresh_for :: "string \<Rightarrow> crypto \<Rightarrow> acc_event \<Rightarrow> server \<Rightarrow> bool" where
  "fresh_for T cr e s \<longleftrightarrow> (case minted cr e s of None \<Rightarrow> True | Some t \<Rightarrow> sha256 t \<noteq> sha256 T)"

text \<open>No refresh token minted in a run has the digest of \<open>T\<close>.\<close>

fun all_fresh :: "string \<Rightarrow> crypto \<Rightarrow> (string list \<Rightarrow> string) \<Rightarrow> acc_event list \<Rightarrow> server \<Rightarrow> bool" where
  "all_fresh T cr js [] s \<longleftrightarrow> True"
| "all_fresh T cr js (e # es) s \<longleftrightarrow> fresh_for T cr e s \<and> all_fresh T cr js es (acc_step cr js e s)"

text \<open>Both together, or the first alone.\<close>

definition token_inv :: "string option \<Rightarrow> acc \<Rightarrow> bool" where
  "token_inv T a \<longleftrightarrow> digests_only a \<and> (\<forall>t. T = Some t \<longrightarrow> spent t a)"

text \<open>A signed token in compact form has dots.\<close>

definition compact_tokens :: "crypto \<Rightarrow> bool" where
  "compact_tokens cr \<longleftrightarrow> (\<forall>now t. jwt_decode cr now t \<noteq> None \<longrightarrow> CHR ''.'' \<in> set t)"

lemma token_inv_same: "login_sessions b = login_sessions a \<Longrightarrow> token_inv T a \<Longrightarrow> token_inv T b"
  by (simp add: token_inv_def digests_only_def spent_def)

lemma token_inv_sessions [intro]:
  "token_inv T a \<Longrightarrow> token_inv T (revoke_session i a)"
  "token_inv T a \<Longrightarrow> token_inv T (revoke_all_user_sessions i a)"
  "token_inv T a \<Longrightarrow> token_inv T (cleanup_expired now a)"
  by (auto simp: token_inv_def digests_only_def spent_def revoke_session_def
      revoke_all_user_sessions_def cleanup_expired_def set_update_where)

lemma token_inv_create:
  "token_inv T a \<Longrightarrow> (\<And>x. T = Some x \<Longrightarrow> sha256 t \<noteq> sha256 x) \<Longrightarrow> create_session u t e a = Inr (i, b) \<Longrightarrow>
   token_inv T b"
  using sha256_no_dot [of t]
  by (auto simp: token_inv_def digests_only_def spent_def create_session_def Let_def split: if_splits)

lemma get_session_digests:
  assumes "digests_only a" "CHR ''.'' \<in> set t" "get_session_by_token t a = (r, b)"
  shows "b = a" "r = None \<or> (\<exists>s \<in> set (login_sessions a). r = Some s \<and> us_token s = sha256 t)"
  using assms(3) by (rule get_session_cases; use assms(1,2) in \<open>auto simp: digests_only_def\<close>)+

lemma sessions_same:
  "login_sessions (snd (update_user i f a)) = login_sessions a"
  "create_user_row n d p r a = Inr (j, b) \<Longrightarrow> login_sessions b = login_sessions a"
  "replace_user_roles i ts a = Inr b \<Longrightarrow> login_sessions b = login_sessions a"
  "replace_role_permissions i ks a = Inr b \<Longrightarrow> login_sessions b = login_sessions a"
  "replace_show_permissions sh i ks a = Inr b \<Longrightarrow> login_sessions b = login_sessions a"
  "assign_show sh i r js a = Inr b \<Longrightarrow> login_sessions b = login_sessions a"
  "create_role_template n d sy a = Inr (j, b) \<Longrightarrow> login_sessions b = login_sessions a"
  "update_role_template i g a = Inr (ok, b) \<Longrightarrow> login_sessions b = login_sessions a"
  "login_sessions (snd (unassign_show sh i a)) = login_sessions a"
  by (auto simp: update_user_def create_user_row_def replace_user_roles_def replace_role_permissions_def
      replace_show_permissions_def assign_show_def create_role_template_def update_role_template_def
      unassign_show_def Let_def split: if_splits)

lemma sessions_same_update: "update_user i f a = (ok, b) \<Longrightarrow> login_sessions b = login_sessions a"
  using sessions_same(1) [of i f a] by simp

lemma sessions_same_api:
  "login_sessions (snd (update_password cr now salt h old new a)) = login_sessions a"
  "login_sessions (snd (api_create_user cr salt n d pw r ids a)) = login_sessions a"
  "login_sessions (snd (api_update_user i f ids a)) = login_sessions a"
  "login_sessions (snd (api_deactivate_user i a)) = login_sessions a"
  "login_sessions (snd (api_reset_password cr salt i new a)) = login_sessions a"
  "login_sessions (snd (api_create_role n d keys a)) = login_sessions a"
  "login_sessions (snd (api_update_role i nm ds ks a)) = login_sessions a"
  "login_sessions (snd (api_deactivate_role i a)) = login_sessions a"
  "login_sessions (snd (api_assign_user js sh i r ks a)) = login_sessions a"
  "login_sessions (snd (api_unassign_user sh i a)) = login_sessions a"
proof -
  note same = sessions_same(2-8) sessions_same_update
  show "login_sessions (snd (update_password cr now salt h old new a)) = login_sessions a"
    by (auto simp: update_password_def Let_def dest!: same split: sum.split prod.split)
  show "login_sessions (snd (api_create_user cr salt n d pw r ids a)) = login_sessions a"
    by (auto simp: api_create_user_def Let_def dest!: same split: sum.split prod.split)
  show "login_sessions (snd (api_update_user i f ids a)) = login_sessions a"
    by (auto simp: api_update_user_def Let_def dest!: same split: sum.split prod.split)
  show "login_sessions (snd (api_deactivate_user i a)) = login_sessions a"
    by (auto simp: api_deactivate_user_def deactivate_user_def Let_def dest!: same split: prod.split)
  show "login_sessions (snd (api_reset_password cr salt i new a)) = login_sessions a"
    by (auto simp: api_reset_password_def Let_def dest!: same split: prod.split)
  show "login_sessions (snd (api_create_role n d keys a)) = login_sessions a"
    by (auto simp: api_create_role_def Let_def dest!: same split: sum.split prod.split)
  show "login_sessions (snd (api_update_role i nm ds ks a)) = login_sessions a"
    by (auto simp: api_update_role_def Let_def dest!: same split: sum.split option.split prod.split)
  show "login_sessions (snd (api_deactivate_role i a)) = login_sessions a"
    by (auto simp: api_deactivate_role_def dest!: same split: sum.split option.split prod.split)
  show "login_sessions (snd (api_assign_user js sh i r ks a)) = login_sessions a"
    by (auto simp: api_assign_user_def dest!: same split: sum.split option.split)
  show "login_sessions (snd (api_unassign_user sh i a)) = login_sessions a"
    by (simp add: api_unassign_user_def unassign_show_def Let_def)
qed

lemma sessions_same_init: "login_sessions (init_accounts h a) = login_sessions a"
proof -
  have "login_sessions (ensure_default_admin h a) = login_sessions a"
    by (auto simp: ensure_default_admin_def dest!: sessions_same(2) split: sum.split prod.split)
  then show ?thesis by (simp add: init_accounts_def Let_def)
qed


lemma token_inv_login:
  assumes "token_inv T (tables s)" "\<And>x. T = Some x \<Longrightarrow> fresh_for x cr (Login now jtis name pw) s"
  shows "token_inv T (tables (snd (login cr now jtis name pw s)))"
proof -
  let ?c = "cleanup_expired now (tables s)"
  have clean: "token_inv T ?c" using assms(1) by blast
  have login_same: "login_sessions (update_last_login now i a) = login_sessions a" for i a
    by (simp add: update_last_login_def)
  show ?thesis
  proof (cases "get_user_by_username (strip name) ?c")
    case None
    then show ?thesis using clean assms(1) by (simp add: login_def Let_def split: prod.split)
  next
    case (Some u)
    let ?t = "create_refresh_token cr now (snd jtis) (u_id u)"
    let ?go = "fst (check_allowed now (strip name) (failed s)) \<and> u_active u \<and> bcrypt_verify cr pw (u_password u)"
    show ?thesis
    proof (cases "create_session (u_id u) ?t (\<lfloor>now\<rfloor> + 30 * 86400) ?c")
      case (Inl e)
      then show ?thesis using clean assms(1) Some by (simp add: login_def Let_def split: prod.split)
    next
      case (Inr p)
      obtain i b where p: "p = (i, b)" by (cases p)
      show ?thesis
      proof (cases ?go)
        case False
        then show ?thesis using clean assms(1) Some Inr p by (auto simp: login_def Let_def split: prod.split)
      next
        case True
        have "minted cr (Login now jtis name pw) s = Some ?t"
          using True Some Inr p by (auto simp: login_def Let_def split: prod.split)
        then have "sha256 ?t \<noteq> sha256 x" if "T = Some x" for x
          using assms(2) [OF that] by (simp add: fresh_for_def)
        then have "token_inv T b" using token_inv_create [OF clean] Inr p by blast
        then have "token_inv T (update_last_login now (u_id u) b)"
          by (rule token_inv_same [OF login_same])
        then show ?thesis using True Some Inr p by (auto simp: login_def Let_def split: prod.split)
      qed
    qed
  qed
qed

lemma token_inv_refresh:
  assumes "token_inv T (tables s)" "\<And>x. T = Some x \<Longrightarrow> fresh_for x cr (Refreshing now jtis token) s" "compact_tokens cr"
  shows "token_inv T (snd (refresh cr now jtis token (tables s)))"
proof (cases "jwt_decode cr now token")
  case None
  then show ?thesis using assms(1) by (simp add: refresh_def)
next
  case (Some c)
  have dot: "CHR ''.'' \<in> set token" using assms(3) Some by (auto simp: compact_tokens_def)
  obtain r a1 where g: "get_session_by_token token (tables s) = (r, a1)" by fastforce
  have a1: "a1 = tables s" using get_session_digests(1) [OF _ dot g] assms(1) by (simp add: token_inv_def)
  have rev: "token_inv T (revoke_session i (tables s))" for i using assms(1) by blast
  show ?thesis
  proof (cases "fst (refresh cr now jtis token (tables s))")
    case (Inl e)
    then show ?thesis
      using Some g a1 assms(1) rev
      by (auto simp: refresh_def Let_def split: option.splits sum.splits prod.splits if_splits)
  next
    case (Inr p)
    then obtain ac t where p: "p = (ac, t)" by (cases p)
    have "minted cr (Refreshing now jtis token) s = Some t" using Inr p by simp
    then have new: "sha256 t \<noteq> sha256 x" if "T = Some x" for x
      using assms(2) [OF that] by (simp add: fresh_for_def)
    obtain u e j and se :: login_session where "create_session u t e (revoke_session (us_id se) (tables s)) =
        Inr (j, snd (refresh cr now jtis token (tables s)))"
      using Inr p Some g a1
      by (auto simp: refresh_def Let_def split: option.splits sum.splits prod.splits if_splits)
    then show ?thesis using token_inv_create [OF rev] new by blast
  qed
qed

lemma token_inv_step:
  assumes "token_inv T (tables s)" "\<And>x. T = Some x \<Longrightarrow> fresh_for x cr e s" "compact_tokens cr"
  shows "token_inv T (tables (acc_step cr js e s))"
proof (cases e)
  case (Login now jtis name pw)
  then show ?thesis using token_inv_login assms(1,2) by simp
next
  case (Refreshing now jtis token)
  then show ?thesis using token_inv_refresh assms by simp
next
  case (Logout now header)
  have "token_inv T (snd (logout cr now header (tables s)))"
    using assms(1) by (auto simp: logout_def split: sum.split)
  then show ?thesis by (simp add: Logout)
qed (simp_all add: token_inv_same [OF _ assms(1)] sessions_same_api sessions_same_init)

lemma token_inv_run:
  assumes "token_inv T (tables s)" "\<And>x. T = Some x \<Longrightarrow> all_fresh x cr js es s" "compact_tokens cr"
  shows "token_inv T (tables (acc_run cr js es s))"
  using assms
proof (induction es arbitrary: s)
  case (Cons e es)
  have "token_inv T (tables (acc_step cr js e s))"
    by (rule token_inv_step) (use Cons.prems in auto)
  then show ?case using Cons by simp
qed simp

lemma token_inv_start: "token_inv None (tables start)"
  by (simp add: token_inv_def digests_only_def start_def empty_acc_def)

text \<open>A spent token is refused.\<close>

lemma spent_is_refused:
  assumes "token_inv (Some T) a" "compact_tokens cr"
  shows "isl (fst (refresh cr now jtis T a))"
proof (cases "jwt_decode cr now T")
  case None
  then show ?thesis by (simp add: refresh_def)
next
  case (Some c)
  have dot: "CHR ''.'' \<in> set T" using assms(2) Some by (auto simp: compact_tokens_def)
  obtain r a1 where g: "get_session_by_token T a = (r, a1)" by (cases "get_session_by_token T a")
  have "r = None \<or> (\<exists>s. r = Some s \<and> us_revoked s)"
    using get_session_digests(2) [OF _ dot g] assms(1) by (auto simp: token_inv_def spent_def)
  then show ?thesis using Some g by (auto simp: refresh_def Let_def)
qed


text \<open>A successful refresh, and a logout of the owner, spend the token.\<close>

lemma spent_create:
  "spent T a \<Longrightarrow> sha256 t \<noteq> sha256 T \<Longrightarrow> create_session u t e a = Inr (j, b) \<Longrightarrow> spent T b"
  by (auto simp: create_session_def Let_def spent_def split: if_splits)

lemma refresh_spends:
  assumes "digests_only a" "compact_tokens cr" "\<not> isl (fst (refresh cr now jtis T a))"
    and "\<And>ac t. fst (refresh cr now jtis T a) = Inr (ac, t) \<Longrightarrow> sha256 t \<noteq> sha256 T" "acc_ok a"
  shows "spent T (snd (refresh cr now jtis T a))"
proof -
  obtain c where c: "jwt_decode cr now T = Some c" "c_type c = Refresh"
    using assms(3) by (auto simp: refresh_def Let_def split: option.splits if_splits)
  then have dot: "CHR ''.'' \<in> set T" using assms(2) by (auto simp: compact_tokens_def)
  obtain r a1 where g: "get_session_by_token T a = (r, a1)" by (cases "get_session_by_token T a")
  have a1: "a1 = a" by (rule get_session_digests(1) [OF assms(1) dot g])
  obtain se where se: "r = Some se" "se \<in> set (login_sessions a)" "us_token se = sha256 T"
    using get_session_digests(2) [OF assms(1) dot g] assms(3) c g by (auto simp: refresh_def Let_def)
  have one: "x = se" if "x \<in> set (login_sessions a)" "us_token x = sha256 T" for x
    proof -
    have "inj_on us_token (set (login_sessions a))" using assms(5) by (simp add: acc_ok_def distinct_map)
    then show ?thesis using that se(2,3) by (metis inj_onD)
  qed
  then have rev: "spent T (revoke_session (us_id se) a)"
    by (auto simp: spent_def revoke_session_def set_update_where)
  obtain ac t where ok: "fst (refresh cr now jtis T a) = Inr (ac, t)"
    using assms(3) by (cases "fst (refresh cr now jtis T a)") auto
  then obtain u e j where "create_session u t e (revoke_session (us_id se) a) = Inr (j, snd (refresh cr now jtis T a))"
    using c g a1 se(1) by (auto simp: refresh_def Let_def split: option.splits sum.splits prod.splits if_splits)
  then show ?thesis by (rule spent_create [OF rev assms(4) [OF ok]])
qed

lemma logout_spends:
  assumes "extract_bearer_token header = Inr t" "jwt_decode cr now t = Some c"
    "\<not> isl (fst (logout cr now header a))"
    "\<forall>x \<in> set (login_sessions a). us_token x = sha256 T \<longrightarrow> us_user x = c_sub c"
  shows "spent T (snd (logout cr now header a))"
proof -
  obtain u p where u: "load_user_from_access_token cr now a t = Inr (u, p)"
    using assms(1,3) by (auto simp: logout_def split: sum.splits)
  then have "u_id u = c_sub c"
    using assms(2) by (auto simp: load_user_from_access_token_def get_user_by_id_def find_Some_iff
        split: option.splits if_splits)
  then show ?thesis
    using assms(1,4) u by (auto simp: logout_def revoke_all_user_sessions_def spent_def set_update_where)
qed


text \<open>The user whose access token a request carries, and the requests that end the session of \<open>T\<close>.\<close>

definition caller :: "crypto \<Rightarrow> rat \<Rightarrow> string \<Rightarrow> int option" where
  "caller cr now header = (case extract_bearer_token header of
     Inl _ \<Rightarrow> None | Inr t \<Rightarrow> map_option c_sub (jwt_decode cr now t))"

fun ends_session :: "crypto \<Rightarrow> string \<Rightarrow> acc_event \<Rightarrow> acc \<Rightarrow> bool" where
  "ends_session cr T (Refreshing now jtis token) a \<longleftrightarrow>
     token = T \<and> \<not> isl (fst (refresh cr now jtis token a))"
| "ends_session cr T (Logout now header) a \<longleftrightarrow>
     \<not> isl (fst (logout cr now header a)) \<and>
     (\<forall>x \<in> set (login_sessions a). us_token x = sha256 T \<longrightarrow> caller cr now header = Some (us_user x))"
| "ends_session cr T _ a \<longleftrightarrow> False"

lemma ends_session_spends:
  assumes "ends_session cr T e (tables s)" "digests_only (tables s)" "acc_ok (tables s)"
    "compact_tokens cr" "fresh_for T cr e s"
  shows "spent T (tables (acc_step cr js e s))"
proof (cases e)
  case (Refreshing now jtis token)
  then have "sha256 t \<noteq> sha256 T" if "fst (refresh cr now jtis T (tables s)) = Inr (ac, t)" for ac t
    using assms(1,5) that by (simp add: fresh_for_def)
  then show ?thesis using Refreshing assms(1-4) refresh_spends [of "tables s" cr now jtis T] by simp blast
next
  case (Logout now header)
  then obtain t c where t: "extract_bearer_token header = Inr t" "jwt_decode cr now t = Some c"
    using assms(1) by (auto simp: logout_def load_user_from_access_token_def split: sum.splits option.splits)
  then show ?thesis
    using Logout assms(1) logout_spends [OF t, of "tables s" T] by (auto simp: caller_def)
qed (use assms(1) in simp_all)

end
