(* ===== verification/Account_Props.thy ===== *)
theory Account_Props
  imports Account_Runs
begin

text \<open>What the accounts, tokens, roles and permissions guarantee.\<close>

section \<open>Refresh tokens\<close>

text \<open>
  C7: a refresh token works at most once, and never after its user logged out: whatever requests ran
  before and run afterwards (clean-ups of expired rows included), the token is refused, provided no
  newly minted refresh token has its digest.
\<close>

theorem refresh_token_works_once:
  assumes "compact_tokens cr" "all_fresh T cr js (e # es) (acc_run cr js before start)"
    and "ends_session cr T e (tables (acc_run cr js before start))"
  shows "isl (fst (refresh cr later jtis T (tables (acc_run cr js (before @ e # es) start))))"
proof -
  let ?s = "acc_run cr js before start"
  have inv: "token_inv None (tables ?s)"
    by (rule token_inv_run [OF token_inv_start]) (use assms(1) in auto)
  have step: "token_inv None (tables (acc_step cr js e ?s))"
    by (rule token_inv_step [OF inv]) (use assms(1) in auto)
  have "acc_ok (tables ?s)" by (rule acc_ok_run) (simp add: start_def acc_ok_empty)
  then have "spent T (tables (acc_step cr js e ?s))"
    using ends_session_spends [OF assms(3)] inv assms(1,2) by (auto simp: token_inv_def)
  then have "token_inv (Some T) (tables (acc_step cr js e ?s))" using step by (simp add: token_inv_def)
  then have "token_inv (Some T) (tables (acc_run cr js es (acc_step cr js e ?s)))"
    by (rule token_inv_run) (use assms(1,2) in auto)
  then show ?thesis using spent_is_refused assms(1) by simp
qed

section \<open>Roles and permissions\<close>

lemma allowed_rules:
  "set (allowed_roles path m) \<subseteq> set ALL_ROLES \<and> ''admin'' \<in> set (allowed_roles path m)"
proof -
  have rules: "\<forall>(rule, rd, wr) \<in> set ROUTE_ROLE_RULES. set rd \<subseteq> set ALL_ROLES \<and> set wr \<subseteq> set ALL_ROLES \<and>
      ''admin'' \<in> set rd \<and> ''admin'' \<in> set wr"
    by (simp add: ROUTE_ROLE_RULES_def ALL_ROLES_def Let_def)
  show ?thesis
  proof (cases "find (\<lambda>(rule, _). path_matches rule path) ROUTE_ROLE_RULES")
    case None
    then show ?thesis by (simp add: allowed_roles_def Let_def ALL_ROLES_def)
  next
    case (Some r)
    obtain rule rd wr where r: "r = (rule, rd, wr)" by (cases r)
    have "r \<in> set ROUTE_ROLE_RULES" using Some by (auto dest: find_SomeD)
    with rules have "set rd \<subseteq> set ALL_ROLES \<and> set wr \<subseteq> set ALL_ROLES \<and> ''admin'' \<in> set rd \<and> ''admin'' \<in> set wr"
      unfolding r by blast
    then show ?thesis using Some r by (simp add: allowed_roles_def Let_def)
  qed
qed

lemma viewer_rules:
  assumes "''viewer'' \<in> set (allowed_roles path m)" "normalize_method m \<notin> set READ_ONLY_METHODS"
  shows "path_matches ''/api/auth/'' path \<or> path_matches ''/api/roles'' path"
proof -
  have rules: "\<forall>(rule, rd, wr) \<in> set ROUTE_ROLE_RULES. ''viewer'' \<in> set wr \<longrightarrow> rule \<in> {''/api/auth/'', ''/api/roles''}"
    by (simp add: ROUTE_ROLE_RULES_def ALL_ROLES_def Let_def)
  show ?thesis
  proof (cases "find (\<lambda>(rule, _). path_matches rule path) ROUTE_ROLE_RULES")
    case None
    then show ?thesis using assms by (simp add: allowed_roles_def Let_def)
  next
    case (Some r)
    obtain rule rd wr where r: "r = (rule, rd, wr)" by (cases r)
    have "r \<in> set ROUTE_ROLE_RULES" "path_matches rule path" using Some r by (auto dest: find_SomeD)
    then show ?thesis using rules Some r assms by (auto simp: allowed_roles_def Let_def)
  qed
qed

lemma has_mono:
  assumes "au_permissions u \<subseteq> au_permissions v"
  shows "normalize_permissions (au_permissions u) \<inter> A \<noteq> {} \<Longrightarrow> normalize_permissions (au_permissions v) \<inter> A \<noteq> {}"
  using assms by (auto simp: normalize_permissions_def)

definition show_permissions_le :: "auth_user \<Rightarrow> auth_user \<Rightarrow> bool" where
  "show_permissions_le u v \<longleftrightarrow>
     (\<forall>(s, ps) \<in> set (au_show_permissions u). \<exists>(s', ps') \<in> set (au_show_permissions v). s' = s \<and> ps \<subseteq> ps')"

lemma show_mono:
  assumes "show_permissions_le u v" "user_has_any_show_permission u keys"
  shows "user_has_any_show_permission v keys"
  using assms unfolding show_permissions_le_def user_has_any_show_permission_def normalize_permissions_def
  by fastforce

text \<open>
  Permissions only add: whatever a user may do, a user of the same role with more global
  permissions, and on each show at least the same ones, may do as well.
\<close>

theorem permissions_only_add:
  assumes "au_role v = au_role u" "au_permissions u \<subseteq> au_permissions v" "show_permissions_le u v"
    "user_is_allowed_for_request u path m"
  shows "user_is_allowed_for_request v path m"
proof -
  have if_mono: "(c \<Longrightarrow> P \<longrightarrow> P') \<Longrightarrow> (\<not> c \<Longrightarrow> Q \<longrightarrow> Q') \<Longrightarrow> (if c then P else Q) \<longrightarrow> (if c then P' else Q')"
    for c P P' Q Q' by simp
  have or_mono: "P \<longrightarrow> P' \<Longrightarrow> Q \<longrightarrow> Q' \<Longrightarrow> P \<or> Q \<longrightarrow> P' \<or> Q'" for P P' Q Q' by blast
  have has: "normalize_permissions (au_permissions u) \<inter> A \<noteq> {} \<longrightarrow> normalize_permissions (au_permissions v) \<inter> A \<noteq> {}" for A
    using has_mono [OF assms(2)] by blast
  have sh: "user_has_any_show_permission u keys \<longrightarrow> user_has_any_show_permission v keys" for keys
    using show_mono [OF assms(3)] by blast
  have "user_is_allowed_for_request u path m \<longrightarrow> user_is_allowed_for_request v path m"
    unfolding user_is_allowed_for_request_def Let_def assms(1)
    by (intro if_mono or_mono has sh imp_refl)
  with assms(4) show ?thesis by blast
qed


text \<open>Refusals descend the cases of the decision.\<close>

lemma if_not: "(c \<Longrightarrow> \<not> P) \<Longrightarrow> (\<not> c \<Longrightarrow> \<not> Q) \<Longrightarrow> \<not> (if c then P else Q)"
  by simp

lemma or_not: "\<not> P \<Longrightarrow> \<not> Q \<Longrightarrow> \<not> (P \<or> Q)"
  by simp

text \<open>The permissions that the legacy viewer template gives.\<close>

definition viewer_permissions :: "string list" where
  "viewer_permissions = the (map_of LEGACY_ROLE_TEMPLATE_PERMISSIONS ''Legacy Viewer'')"

lemma viewer_has:
  assumes "ps \<subseteq> set viewer_permissions" "normalize_permissions ps \<inter> set keys \<noteq> {}"
  shows "\<exists>k \<in> set keys. k \<in> set viewer_permissions"
proof -
  have same: "\<forall>k \<in> set viewer_permissions. strip k = k"
    by (simp add: viewer_permissions_def LEGACY_ROLE_TEMPLATE_PERMISSIONS_def strip_def is_space_def)
  obtain p where "p \<in> ps" "strip p \<in> set keys" using assms(2) by (auto simp: normalize_permissions_def)
  then show ?thesis using same assms(1) by (metis subsetD)
qed

text \<open>
  C31: administrators may make every request; a user with an unknown role, no permission and no
  show may make none; and a viewer, with at most the permissions of the viewer template and no
  show, may write only below the authentication, role, log and event paths (and the status path of
  the broadcaster).
\<close>

theorem access_matrix:
  "(normalize_legacy_role (au_role u) = ''admin'' \<longrightarrow> user_is_allowed_for_request u path m) \<and>
   (normalize_legacy_role (au_role u) \<notin> set ALL_ROLES \<and> au_permissions u = {} \<and> au_show_permissions u = [] \<longrightarrow>
      \<not> user_is_allowed_for_request u path m) \<and>
   (normalize_legacy_role (au_role u) = ''viewer'' \<and> au_permissions u \<subseteq> set viewer_permissions \<and>
      au_show_permissions u = [] \<and> normalize_method m \<notin> set READ_ONLY_METHODS \<and>
      user_is_allowed_for_request u path m \<longrightarrow>
      path_matches ''/api/auth/'' path \<or> path_matches ''/api/roles'' path \<or>
      path_matches ''/api/logs'' path \<or> path_matches ''/api/events'' path \<or>
      path_matches ''/api/liquidsoap/'' path \<and> ends_with path ''/status'')"
proof (intro conjI impI)
  assume "normalize_legacy_role (au_role u) = ''admin''"
  then show "user_is_allowed_for_request u path m"
    using allowed_rules [of path m]
    by (simp add: user_is_allowed_for_request_def Let_def role_is_allowed_for_request_def)
next
  assume u: "normalize_legacy_role (au_role u) \<notin> set ALL_ROLES \<and> au_permissions u = {} \<and> au_show_permissions u = []"
  have r: "\<not> role_is_allowed_for_request (au_role u) path m"
    using u allowed_rules [of path m] by (auto simp: role_is_allowed_for_request_def)
  have admin: "\<not> normalize_legacy_role (au_role u) = ''admin''" using u by (auto simp: ALL_ROLES_def)
  have none: "\<not> normalize_permissions (au_permissions u) \<inter> A \<noteq> {}" for A
    using u by (simp add: normalize_permissions_def)
  have noshow: "\<not> user_has_any_show_permission u keys" for keys
    using u by (simp add: user_has_any_show_permission_def)
  show "\<not> user_is_allowed_for_request u path m"
    unfolding user_is_allowed_for_request_def Let_def
    by (intro if_not or_not; (rule r admin none noshow not_False_eq_True [THEN iffD2, OF TrueI] |
          elim conjE notE [OF admin]))
next
  assume u: "normalize_legacy_role (au_role u) = ''viewer'' \<and> au_permissions u \<subseteq> set viewer_permissions \<and>
      au_show_permissions u = [] \<and> normalize_method m \<notin> set READ_ONLY_METHODS \<and>
      user_is_allowed_for_request u path m"
  let ?has = "\<lambda>keys. normalize_permissions (au_permissions u) \<inter> set keys \<noteq> {}"
  have no: "\<not> ?has keys" if "\<forall>k \<in> set keys. k \<notin> set viewer_permissions" for keys
    using viewer_has [of "au_permissions u" keys] u that by blast
  have nos: "\<not> ?has [''users.manage'', ''users.reset_password'']" "\<not> ?has [''users.manage'']"
    "\<not> ?has [''stations.edit'']" "\<not> ?has [''stations.delete'']" "\<not> ?has [''stations.create'']"
    "\<not> ?has [''downloads.use'']" "\<not> ?has [''soundboard.play'', ''soundboard.manage'']"
    "\<not> ?has [''soundboard.manage'']" "\<not> ?has [''program.panel.open'']" "\<not> ?has [''show.assign.manage'']"
    "\<not> ?has [''shows.manage'']" "\<not> ?has [''stream.configure_advanced'']" "\<not> ?has [''stream.configure_basic'']"
    by (rule no, simp add: viewer_permissions_def LEGACY_ROLE_TEMPLATE_PERMISSIONS_def)+
  have noshow: "\<not> user_has_any_show_permission u keys" for keys
    using u by (simp add: user_has_any_show_permission_def)
  have role: "role_is_allowed_for_request (au_role u) path m \<Longrightarrow>
      path_matches ''/api/auth/'' path \<or> path_matches ''/api/roles'' path"
    using viewer_rules [of path m] u by (simp add: role_is_allowed_for_request_def)
  show "path_matches ''/api/auth/'' path \<or> path_matches ''/api/roles'' path \<or>
      path_matches ''/api/logs'' path \<or> path_matches ''/api/events'' path \<or>
      path_matches ''/api/liquidsoap/'' path \<and> ends_with path ''/status''"
  proof (rule ccontr)
    assume c: "\<not> ?thesis"
    have notread: "normalize_method m \<notin> set READ_ONLY_METHODS" and
      admin: "\<not> normalize_legacy_role (au_role u) = ''admin''" using u by auto
    from c have r: "\<not> role_is_allowed_for_request (au_role u) path m" using role by blast
    from c have logs: "\<not> path_matches ''/api/logs'' path" "\<not> path_matches ''/api/events'' path"
        and status: "path_matches ''/api/liquidsoap/'' path \<Longrightarrow> ends_with path ''/status'' \<Longrightarrow> False" by blast+
    have "\<not> user_is_allowed_for_request u path m"
      unfolding user_is_allowed_for_request_def Let_def
      by (intro if_not or_not; (rule r admin nos noshow not_False_eq_True [THEN iffD2, OF TrueI] |
            ((elim conjE)?, rule FalseE, erule (1) status) |
            elim conjE disjE notE [OF admin] notE [OF notread] notE [OF logs(1)] notE [OF logs(2)]))
    then show False using u by blast
  qed
qed

section \<open>Guessing passwords\<close>

text \<open>
  Whether the password given to a login matters: had \<open>bcrypt\<close> accepted it, the answer would not be the
  refusal. A guess is such a login; its time is what a run of requests adds for the user \<open>n\<close>.
\<close>

definition would_accept :: "crypto \<Rightarrow> rat \<Rightarrow> string \<times> string \<Rightarrow> string \<Rightarrow> string \<Rightarrow> server \<Rightarrow> bool" where
  "would_accept cr now jtis name pw s \<longleftrightarrow>
     fst (login (cr\<lparr>bcrypt_verify := \<lambda>_ _. True\<rparr>) now jtis name pw s) \<noteq> Inl (Http 401 ''Invalid credentials'')"

fun guesses :: "crypto \<Rightarrow> (string list \<Rightarrow> string) \<Rightarrow> string \<Rightarrow> acc_event list \<Rightarrow> server \<Rightarrow> rat list" where
  "guesses cr js n [] s = []"
| "guesses cr js n (e # es) s =
     (case e of
        Login now jtis name pw \<Rightarrow> if strip name = n \<and> would_accept cr now jtis name pw s then [now] else []
      | _ \<Rightarrow> []) @ guesses cr js n es (acc_step cr js e s)"

text \<open>The logins the counter lets through; every guess is one of them.\<close>

fun admissions :: "crypto \<Rightarrow> (string list \<Rightarrow> string) \<Rightarrow> string \<Rightarrow> acc_event list \<Rightarrow> server \<Rightarrow> rat list" where
  "admissions cr js n [] s = []"
| "admissions cr js n (e # es) s =
     (case e of
        Login now jtis name pw \<Rightarrow> if strip name = n \<and> fst (check_allowed now n (failed s)) then [now] else []
      | _ \<Rightarrow> []) @ admissions cr js n es (acc_step cr js e s)"

lemma would_accept_allowed:
  "would_accept cr now jtis name pw s \<Longrightarrow> fst (check_allowed now (strip name) (failed s))"
  by (cases "check_allowed now (strip name) (failed s)"; cases "fst (check_allowed now (strip name) (failed s))")
     (auto simp: would_accept_def login_def Let_def)

lemma guesses_admitted:
  "length (filter P (guesses cr js n es s)) \<le> length (filter P (admissions cr js n es s))"
proof (induction es arbitrary: s)
  case (Cons e es)
  show ?case
    using Cons.IH [of "acc_step cr js e s"] would_accept_allowed [of cr _ _ _ _ s]
    by (cases e) auto
qed simp

fun never_in :: "crypto \<Rightarrow> (string list \<Rightarrow> string) \<Rightarrow> string \<Rightarrow> acc_event list \<Rightarrow> server \<Rightarrow> bool" where
  "never_in cr js n [] s \<longleftrightarrow> True"
| "never_in cr js n (e # es) s \<longleftrightarrow>
     (case e of
        Login now jtis name pw \<Rightarrow> strip name = n \<longrightarrow>
          fst (login cr now jtis name pw s) = Inl (Http 401 ''Invalid credentials'')
      | _ \<Rightarrow> True) \<and> never_in cr js n es (acc_step cr js e s)"

fun login_time :: "acc_event \<Rightarrow> rat list" where
  "login_time (Login now jtis name pw) = [now]"
| "login_time _ = []"

definition in_window :: "rat \<Rightarrow> rat list \<Rightarrow> nat" where
  "in_window t g = length (filter (\<lambda>x. t - 300 \<le> x \<and> x \<le> t) g)"

text \<open>The counter of \<open>n\<close> agrees with the guesses where they can still matter, and no window is too full.\<close>

definition counts_guesses :: "rat \<Rightarrow> string \<Rightarrow> rat list \<Rightarrow> events \<Rightarrow> bool" where
  "counts_guesses since n g fa \<longleftrightarrow>
     (\<forall>c \<ge> since - 300. filter (\<lambda>x. c \<le> x) g = filter (\<lambda>x. c \<le> x) (fa n)) \<and>
     (\<forall>x \<in> set g. x \<le> since) \<and> (\<forall>t. in_window t g \<le> 5)"

lemma counts_later: "counts_guesses since n g fa \<Longrightarrow> since \<le> now \<Longrightarrow> counts_guesses now n g fa"
  by (force simp: counts_guesses_def)

lemma counts_pruned: "counts_guesses now n g fa \<Longrightarrow> counts_guesses now n g (brute_prune now n fa)"
proof -
  have "filter (\<lambda>x. c \<le> x) (filter (\<lambda>x. now - 300 \<le> x) xs) = filter (\<lambda>x. c \<le> x) xs" if "now - 300 \<le> c" for c xs
    using that by (auto simp: filter_filter intro!: filter_cong)
  then show "counts_guesses now n g fa \<Longrightarrow> ?thesis" by (simp add: counts_guesses_def brute_prune_def)
qed

lemma counts_window:
  assumes "counts_guesses now n g fa"
  shows "in_window now g = length (brute_prune now n fa n)"
proof -
  have "\<forall>x \<in> set g. x \<le> now" using assms by (simp add: counts_guesses_def)
  then have "filter (\<lambda>x. now - 300 \<le> x \<and> x \<le> now) g = filter (\<lambda>x. now - 300 \<le> x) g"
    by (auto intro!: filter_cong)
  also have "\<dots> = filter (\<lambda>x. now - 300 \<le> x) (fa n)" using assms by (simp add: counts_guesses_def)
  finally show ?thesis by (simp add: in_window_def brute_prune_def)
qed

lemma counts_guess:
  assumes "counts_guesses now n g fa" "fst (check_allowed now n fa)"
  shows "counts_guesses now n (g @ [now]) (record_failure now n (snd (check_allowed now n fa)))"
proof -
  have few: "in_window now g < 5"
    using assms(2) counts_window [OF assms(1)] by (simp add: check_allowed_def Let_def)
  have "in_window t (g @ [now]) \<le> 5" for t
  proof (cases "t - 300 \<le> now \<and> now \<le> t")
    case True
    have "filter (\<lambda>x. t - 300 \<le> x \<and> x \<le> t) g = filter (\<lambda>x. t - 300 \<le> x) (filter (\<lambda>x. now - 300 \<le> x \<and> x \<le> now) g)"
      using assms(1) True by (auto simp: counts_guesses_def intro!: filter_cong)
    then have "in_window t g \<le> in_window now g"
      using length_filter_le [of "\<lambda>x. t - 300 \<le> x" "filter (\<lambda>x. now - 300 \<le> x \<and> x \<le> now) g"]
      by (simp only: in_window_def)
    then show ?thesis using few True by (simp add: in_window_def)
  next
    case False
    then have "in_window t (g @ [now]) = in_window t g" by (auto simp: in_window_def)
    then show ?thesis using assms(1) by (simp add: counts_guesses_def)
  qed
  moreover have "record_failure now n (snd (check_allowed now n fa)) n = brute_prune now n fa n @ [now]"
    by (simp add: brute_defs)
  moreover have "filter (\<lambda>x. c \<le> x) (brute_prune now n fa n) = filter (\<lambda>x. c \<le> x) g" if "now - 300 \<le> c" for c
    using counts_pruned [OF assms(1)] that by (simp add: counts_guesses_def)
  ultimately show ?thesis using assms(1) by (auto simp: counts_guesses_def)
qed

lemma login_denied_failed:
  assumes "fst (login cr now jtis name pw s) = Inl (Http 401 ''Invalid credentials'')"
  shows "failed (snd (login cr now jtis name pw s)) =
    (let fa = snd (check_allowed now (strip name) (failed s)) in
     if fst (check_allowed now (strip name) (failed s)) then record_failure now (strip name) fa else fa)"
  using assms
  by (auto simp: login_def Let_def split: prod.splits option.splits sum.splits if_splits)

lemma login_other_failed:
  "strip name \<noteq> n \<Longrightarrow> failed (snd (login cr now jtis name pw s)) n = failed s n"
proof -
  assume other: "strip name \<noteq> n"
  obtain ok fa where ca: "check_allowed now (strip name) (failed s) = (ok, fa)" by fastforce
  then have "fa n = failed s n" using brute_other(1) [OF other, of now "failed s"] by simp
  then show ?thesis
    using other by (auto simp: login_def Let_def ca split: option.split sum.split)
qed

lemma counts_same: "fa' n = fa n \<Longrightarrow> counts_guesses now n g fa \<Longrightarrow> counts_guesses now n g fa'"
  by (simp add: counts_guesses_def)

lemma admissions_counted:
  assumes "counts_guesses since n g (failed s)" "sorted (since # concat (map login_time es))" "never_in cr js n es s"
  shows "\<forall>t. in_window t (g @ admissions cr js n es s) \<le> 5"
  using assms
proof (induction es arbitrary: since g s)
  case (Cons e es)
  show ?case
  proof (cases "\<exists>now jtis name pw. e = Login now jtis name pw")
    case False
    then have e: "login_time e = []" "failed (acc_step cr js e s) = failed s"
        "admissions cr js n (e # es) s = admissions cr js n es (acc_step cr js e s)" "never_in cr js n es (acc_step cr js e s)"
      using Cons.prems(3) by (cases e; simp)+
    show ?thesis using Cons.IH [of since g "acc_step cr js e s"] Cons.prems(1,2) e by simp
  next
    case True
    then obtain now jtis name pw where e: "e = Login now jtis name pw" by blast
    let ?s = "snd (login cr now jtis name pw s)"
    have le: "since \<le> now" and rest: "sorted (now # concat (map login_time es))"
      and never: "never_in cr js n es ?s" using Cons.prems(2,3) by (auto simp: e)
    have c: "counts_guesses now n g (failed s)" by (rule counts_later [OF Cons.prems(1) le])
    show ?thesis
    proof (cases "strip name = n")
      case False
      have "counts_guesses now n g (failed ?s)"
        using counts_same [of "failed ?s" n "failed s"] login_other_failed [OF False] c by blast
      then show ?thesis using Cons.IH [OF _ rest never] False by (simp add: e)
    next
      case n: True
      have d: "fst (login cr now jtis name pw s) = Inl (Http 401 ''Invalid credentials'')"
        using Cons.prems(3) n by (simp add: e)
      show ?thesis
      proof (cases "fst (check_allowed now n (failed s))")
        case True
        have "counts_guesses now n (g @ [now]) (failed ?s)"
          using counts_guess [OF c True] login_denied_failed [OF d] True n by simp
        from Cons.IH [OF this rest never] show ?thesis using n True by (simp add: e)
      next
        case False
        have "failed ?s = brute_prune now n (failed s)"
          using login_denied_failed [OF d] False n by (simp add: check_allowed_def Let_def)
        then have "counts_guesses now n g (failed ?s)" using counts_pruned [OF c] by simp
        then show ?thesis using Cons.IH [OF _ rest never] n False by (simp add: e)
      qed
    qed
  qed
qed (simp add: counts_guesses_def)

text \<open>
  C9: with a clock that does not go back, in a run of requests in which no login to a name
  succeeds, there are at most five logins to that name in any five minutes to which the right
  password would have made a difference: further ones are refused whatever password they bring.
\<close>

theorem at_most_five_guesses:
  assumes "sorted (concat (map login_time es))" "never_in cr js n es start"
  shows "length (filter (\<lambda>x. t - 300 \<le> x \<and> x \<le> t) (guesses cr js n es start)) \<le> 5"
proof -
  let ?first = "hd (concat (map login_time es) @ [0])"
  have "sorted (?first # concat (map login_time es))"
    using assms(1) by (cases "concat (map login_time es)") (simp_all del: concat_eq_Nil_conv)
  moreover have "counts_guesses ?first n [] (failed start)"
    by (simp add: counts_guesses_def in_window_def start_def)
  ultimately have "in_window t (admissions cr js n es start) \<le> 5"
    using admissions_counted [of ?first n "[]" start es cr js] assms(2) by simp
  then show ?thesis
    using guesses_admitted [of "\<lambda>x. t - 300 \<le> x \<and> x \<le> t" cr js n es start] by (simp add: in_window_def)
qed

section \<open>Deactivated users\<close>

definition inactive :: "int \<Rightarrow> acc \<Rightarrow> bool" where
  "inactive i a \<longleftrightarrow> i \<le> user_seq a \<and> (\<forall>u \<in> set (users a). u_id u = i \<longrightarrow> \<not> u_active u)"

lemma get_user_SomeD: "get_user_by_id i a = Some u \<Longrightarrow> u \<in> set (users a) \<and> u_id u = i"
  using find_SomeD [of "\<lambda>u. u_id u = i" "users a" u] by (simp add: get_user_by_id_def)

lemma inactive_same: "users b = users a \<Longrightarrow> user_seq b = user_seq a \<Longrightarrow> inactive i a \<Longrightarrow> inactive i b"
  by (simp add: inactive_def)

lemma inactive_update:
  "inactive i a \<Longrightarrow> j \<noteq> i \<or> f_active f \<noteq> Some True \<Longrightarrow> update_user j f a = (ok, b) \<Longrightarrow> inactive i b"
  by (auto simp: inactive_def update_user_def set_update_where set_or_def split: if_splits option.splits)

lemma inactive_create: "inactive i a \<Longrightarrow> create_user_row n d p r a = Inr (j, b) \<Longrightarrow> inactive i b"
  by (auto simp: inactive_def create_user_row_def Let_def split: if_splits)

lemma users_same:
  "create_session u t e a = Inr (j, b) \<Longrightarrow> users b = users a \<and> user_seq b = user_seq a"
  "replace_user_roles i ts a = Inr b \<Longrightarrow> users b = users a \<and> user_seq b = user_seq a"
  "replace_role_permissions i ks a = Inr b \<Longrightarrow> users b = users a \<and> user_seq b = user_seq a"
  "replace_show_permissions sh i ks a = Inr b \<Longrightarrow> users b = users a \<and> user_seq b = user_seq a"
  "assign_show sh i r js a = Inr b \<Longrightarrow> users b = users a \<and> user_seq b = user_seq a"
  "create_role_template n d sy a = Inr (j, b) \<Longrightarrow> users b = users a \<and> user_seq b = user_seq a"
  "update_role_template i g a = Inr (ok, b) \<Longrightarrow> users b = users a \<and> user_seq b = user_seq a"
  "get_session_by_token t a = (se, b) \<Longrightarrow> users b = users a \<and> user_seq b = user_seq a"
  by (auto simp: create_session_def replace_user_roles_def replace_role_permissions_def
      replace_show_permissions_def assign_show_def create_role_template_def update_role_template_def
      get_session_by_token_def Let_def split: if_splits option.splits)

lemma users_of_sessions [simp]:
  "users (revoke_session i a) = users a" "user_seq (revoke_session i a) = user_seq a"
  "users (revoke_all_user_sessions i a) = users a" "user_seq (revoke_all_user_sessions i a) = user_seq a"
  "users (cleanup_expired now a) = users a" "user_seq (cleanup_expired now a) = user_seq a"
  by (simp_all add: revoke_session_def revoke_all_user_sessions_def cleanup_expired_def)

lemma inactive_login:
  assumes "inactive i (tables s)"
  shows "inactive i (tables (snd (login cr now jtis name pw s)))"
proof -
  have last: "inactive i b \<Longrightarrow> inactive i (update_last_login now j b)" for b j
    by (auto simp: inactive_def update_last_login_def set_update_where)
  have clean: "inactive i (cleanup_expired now (tables s))" using assms by (simp add: inactive_def)
  have created: "create_session u t e (cleanup_expired now (tables s)) = Inr (j, b) \<Longrightarrow> inactive i b" for u t e j b
    using users_same(1) clean by (auto simp: inactive_def)
  show ?thesis
    using assms clean last created
    by (auto simp: login_def Let_def split: prod.split option.split sum.split)
qed

lemma inactive_refresh:
  assumes "inactive i a"
  shows "inactive i (snd (refresh cr now jtis token a))"
  using assms inactive_same [of _ a i]
  by (auto simp: refresh_def Let_def dest!: users_same(1,8) split: option.split sum.split prod.split)

fun reactivates :: "int \<Rightarrow> acc_event \<Rightarrow> bool" where
  "reactivates i (Update_User j f ids) \<longleftrightarrow> j = i \<and> f_active f = Some True"
| "reactivates i _ \<longleftrightarrow> False"

lemma inactive_users_api:
  assumes "inactive i a"
  shows "inactive i (snd (logout cr now h a))" "inactive i (snd (update_password cr now salt h old new a))"
    "inactive i (snd (api_create_user cr salt n d pw r ids a))"
    "j \<noteq> i \<or> f_active f \<noteq> Some True \<Longrightarrow> inactive i (snd (api_update_user j f ids a))"
    "inactive i (snd (api_deactivate_user j a))" "inactive i (snd (api_reset_password cr salt j new a))"
proof -
  have upd: "inactive i b" if "update_user j f a = (ok, b)" "f_active f \<noteq> Some True" for j f ok b
    using inactive_update [OF assms _ that(1)] that(2) by blast
  show "inactive i (snd (logout cr now h a))"
    using assms by (auto simp: logout_def inactive_def split: sum.split)
  show "inactive i (snd (update_password cr now salt h old new a))"
    using assms by (auto simp: update_password_def Let_def no_fields_def dest!: upd split: sum.split prod.split)
  show "inactive i (snd (api_create_user cr salt n d pw r ids a))"
    using assms inactive_create [OF assms]
    by (auto simp: api_create_user_def Let_def inactive_def dest!: users_same(2) split: sum.split)
  show "inactive i (snd (api_deactivate_user j a))" "inactive i (snd (api_reset_password cr salt j new a))"
    by (auto simp: api_deactivate_user_def deactivate_user_def api_reset_password_def Let_def no_fields_def
        assms dest!: upd split: prod.split)
  assume j: "j \<noteq> i \<or> f_active f \<noteq> Some True"
  obtain ok b where u: "update_user j (f\<lparr>f_password := None\<rparr>) a = (ok, b)" by fastforce
  have "inactive i b" by (rule inactive_update [OF assms _ u]) (use j in simp)
  then show "inactive i (snd (api_update_user j f ids a))"
    using assms by (auto simp: api_update_user_def Let_def u inactive_def dest!: users_same(2) split: sum.split)
qed

lemma users_of_roles_api:
  "users (snd (api_create_role n d keys a)) = users a \<and> user_seq (snd (api_create_role n d keys a)) = user_seq a"
  "users (snd (api_update_role j nm ds ks a)) = users a \<and> user_seq (snd (api_update_role j nm ds ks a)) = user_seq a"
  "users (snd (api_deactivate_role j a)) = users a \<and> user_seq (snd (api_deactivate_role j a)) = user_seq a"
  "users (snd (api_assign_user js sh j r ks a)) = users a \<and> user_seq (snd (api_assign_user js sh j r ks a)) = user_seq a"
  "users (snd (api_unassign_user sh j a)) = users a \<and> user_seq (snd (api_unassign_user sh j a)) = user_seq a"
proof -
  show "users (snd (api_create_role n d keys a)) = users a \<and> user_seq (snd (api_create_role n d keys a)) = user_seq a"
    by (auto simp: api_create_role_def Let_def dest!: users_same(3,6) split: sum.split)
  show "users (snd (api_update_role j nm ds ks a)) = users a \<and> user_seq (snd (api_update_role j nm ds ks a)) = user_seq a"
    by (auto simp: api_update_role_def Let_def dest!: users_same(3,7) split: sum.split option.split)
  show "users (snd (api_deactivate_role j a)) = users a \<and> user_seq (snd (api_deactivate_role j a)) = user_seq a"
    by (auto simp: api_deactivate_role_def dest!: users_same(7) split: sum.split option.split)
  show "users (snd (api_assign_user js sh j r ks a)) = users a \<and> user_seq (snd (api_assign_user js sh j r ks a)) = user_seq a"
    by (auto simp: api_assign_user_def dest!: users_same(4,5) split: sum.split option.split)
  show "users (snd (api_unassign_user sh j a)) = users a \<and> user_seq (snd (api_unassign_user sh j a)) = user_seq a"
    by (simp add: api_unassign_user_def unassign_show_def Let_def)
qed

lemma inactive_init: "inactive i a \<Longrightarrow> inactive i (init_accounts h a)"
proof -
  assume a: "inactive i a"
  then have "inactive i (ensure_default_admin h a)"
    by (auto simp: ensure_default_admin_def dest: inactive_create split: sum.split)
  moreover have "user_seq (sync_legacy_rbac b) = user_seq b" for b
  proof -
    have "user_seq (fold seed_template nks b) = user_seq b" for nks by (induction nks arbitrary: b) simp_all
    then show ?thesis by (simp add: sync_legacy_rbac_def backfill_user_role_assignments_def
        backfill_show_assignment_permissions_def seed_legacy_role_templates_def)
  qed
  ultimately show ?thesis using a by (simp add: init_accounts_def Let_def inactive_def)
qed

lemma inactive_step: "inactive i (tables s) \<Longrightarrow> \<not> reactivates i e \<Longrightarrow> inactive i (tables (acc_step cr js e s))"
  by (cases e) (auto simp: inactive_login inactive_refresh inactive_users_api inactive_init users_of_roles_api
      intro: inactive_same [of _ "tables s"])

lemma inactive_run:
  "inactive i (tables s) \<Longrightarrow> \<forall>e \<in> set es. \<not> reactivates i e \<Longrightarrow> inactive i (tables (acc_run cr js es s))"
  by (induction es arbitrary: s) (simp_all add: inactive_step)

text \<open>
  C8: deactivating a user takes effect at once and lasts until the user is activated again: no
  request passes the guard as that user, no password logs in as that user, and no refresh token of
  a session of that user yields tokens.
\<close>

theorem deactivated_user_is_out:
  assumes "\<not> isl (fst (api_deactivate_user i (tables (acc_run cr js before start))))"
    and "\<forall>e \<in> set es. \<not> reactivates i e"
    and "s = acc_run cr js (before @ Deactivate_User i # es) start"
  shows "(\<forall>path m header p. auth_guard cr now path m header (tables s) = Inr (Some p) \<longrightarrow> au_id p \<noteq> i) \<and>
    (\<forall>jtis name pw u. get_user_by_username (strip name) (tables s) = Some u \<and> u_id u = i \<longrightarrow>
       isl (fst (login cr now jtis name pw s))) \<and>
    (\<forall>jtis token se a. get_session_by_token token (tables s) = (Some se, a) \<and> us_user se = i \<longrightarrow>
       isl (fst (refresh cr now jtis token (tables s))))"
proof -
  let ?b = "tables (acc_run cr js before start)"
  have ok: "acc_ok ?b" by (rule acc_ok_run) (simp add: start_def acc_ok_empty)
  have "inactive i (snd (api_deactivate_user i ?b))"
  proof -
    let ?f = "no_fields\<lparr>f_active := Some False\<rparr>"
    have f: "?f \<noteq> no_fields" by (simp add: no_fields_def)
    obtain b where u: "update_user i ?f ?b = (True, b)" "snd (api_deactivate_user i ?b) = b"
      using assms(1) by (auto simp: api_deactivate_user_def deactivate_user_def Let_def split: prod.splits if_splits)
    from u(1) have b: "users b = update_where (\<lambda>u. u_id u = i) (\<lambda>u. u\<lparr>u_active := False\<rparr>) (users ?b)"
        "user_seq b = user_seq ?b" "\<exists>u \<in> set (users ?b). u_id u = i"
      using f by (auto simp: update_user_def set_or_def no_fields_def rowcount_def filter_empty_conv)
    then have "i \<le> user_seq ?b" using ok by (auto simp: acc_ok_def)
    then show ?thesis using b by (auto simp: u(2) inactive_def set_update_where)
  qed
  then have gone: "inactive i (tables s)"
    unfolding assms(3) using inactive_run [OF _ assms(2), of "acc_step cr js (Deactivate_User i) (acc_run cr js before start)"]
    by simp
  have row: "\<not> u_active u" if "get_user_by_id i a = Some u" "users a = users (tables s)" for u a
    using that gone by (auto simp: inactive_def get_user_by_id_def dest: find_SomeD)
  show ?thesis
  proof (intro conjI allI impI)
    fix path m header p
    assume "auth_guard cr now path m header (tables s) = Inr (Some p)"
    then obtain u :: user_row where "u \<in> set (users (tables s))" "u_active u" "au_id p = u_id u"
      by (auto simp: auth_guard_def get_current_user_def load_user_from_access_token_def
          build_auth_user_payload_def dest!: get_user_SomeD
          split: if_splits sum.splits option.splits)
    then show "au_id p \<noteq> i" using gone by (auto simp: inactive_def)
  next
    fix jtis name pw u
    assume u: "get_user_by_username (strip name) (tables s) = Some u \<and> u_id u = i"
    then have "u \<in> set (users (tables s))" by (auto simp: get_user_by_username_def dest: find_SomeD)
    then have off: "\<not> u_active u" using u gone by (auto simp: inactive_def)
    have "get_user_by_username (strip name) (cleanup_expired now (tables s)) = Some u"
      using u by (simp add: get_user_by_username_def)
    then show "isl (fst (login cr now jtis name pw s))"
      using off by (simp add: login_def Let_def split: prod.split)
  next
    fix jtis token se a
    assume g: "get_session_by_token token (tables s) = (Some se, a) \<and> us_user se = i"
    then have "users a = users (tables s)" using users_same(8) by blast
    then have "\<not> u_active u" if "get_user_by_id i a = Some u" for u using row that by blast
    then show "isl (fst (refresh cr now jtis token (tables s)))"
      using g by (auto simp: refresh_def Let_def split: option.split)
  qed
qed

section \<open>Legacy roles\<close>

text \<open>
  \<open>init_db\<close> repairs the legacy roles: whatever was done to the role tables before, after it
  every user with a legacy role holds all the permissions of its template, and calling it again
  changes nothing. So taking the template off a user lasts only until the next request.
\<close>

theorem legacy_permissions_restored:
  assumes "a = tables (acc_run cr js es start)" "u \<in> set (users a)"
    and "map_of LEGACY_ROLE_TO_TEMPLATE (u_role u) = Some name"
    and "map_of LEGACY_ROLE_TEMPLATE_PERMISSIONS name = Some keys"
  shows "set keys \<subseteq> list_effective_global_permissions (u_id u) (init_accounts h a) \<and>
    init_accounts h (init_accounts h a) = init_accounts h a"
proof
  have ok: "acc_ok a" unfolding assms(1) by (rule acc_ok_run) (simp add: start_def acc_ok_empty)
  show "init_accounts h (init_accounts h a) = init_accounts h a"
    using init_settles [OF ok, of h] by (simp add: init_accounts_def)
  let ?b = "init_accounts h a"
  have okb: "acc_ok ?b" and synced: "\<not> legacy_rbac_needs_sync ?b" using init_settles [OF ok] by blast+
  have u: "u \<in> set (users ?b)"
    using assms(2) by (auto simp: init_accounts_def ensure_default_admin_def create_user_row_def Let_def)
  have templates: "\<not> legacy_role_templates_need_sync ?b" using synced by (simp add: legacy_rbac_needs_sync_def)
  have "template_good ?b (name, keys)"
    using templates templates_synced_iff [OF okb] map_of_SomeD [OF assms(4)] by blast
  then obtain t where t: "t \<in> set (role_templates ?b)" "rt_name t = name" "rt_active t"
      "list_role_permissions (rt_id t) ?b = set keys"
    by (auto simp: template_good_def)
  have "map_of (legacy_role_template_ids ?b) name = Some (rt_id t)"
    using legacy_ids_iff [OF okb role_template_names [OF assms(3)]] template_id_iff [OF okb] t(1,2) by auto
  then have "(u_id u, rt_id t) \<in> set (user_roles ?b)"
    using synced u assms(3)
    by (fastforce simp: legacy_rbac_needs_sync_def legacy_user_role_assignments_need_sync_def Let_def)
  moreover have "(rt_id t, k) \<in> set (template_permissions ?b)" if "k \<in> set keys" for k
    using t(4) that by (force simp: list_role_permissions_def)
  ultimately show "set keys \<subseteq> list_effective_global_permissions (u_id u) ?b"
    using t(1,3) by (force simp: list_effective_global_permissions_def)
qed

section \<open>What is not revoked\<close>

lemma refresh_ignores_passwords:
  assumes "b = a\<lparr>users := update_where P (\<lambda>u. u\<lparr>u_password := h\<rparr>) (users a)\<rparr>"
  shows "fst (refresh cr now jtis token b) = fst (refresh cr now jtis token a)"
proof -
  have user: "get_user_by_id i (x\<lparr>users := users b\<rparr>) =
      map_option (\<lambda>u. if P u then u\<lparr>u_password := h\<rparr> else u) (get_user_by_id i x)"
    if "users x = users a" for i x
    using that by (simp add: get_user_by_id_def assms find_update_where)
  have sess: "get_session_by_token token b = map_prod id (\<lambda>x. x\<lparr>users := users b\<rparr>) (get_session_by_token token a)"
    by (simp add: get_session_by_token_def assms split: option.split)
  obtain r a1 where g: "get_session_by_token token a = (r, a1)" by fastforce
  have a1: "users a1 = users a" using users_same(8) [OF g] by simp
  have made: "create_session u t e (revoke_session k (a1\<lparr>users := users b\<rparr>)) =
      map_sum id (map_prod id (\<lambda>x. x\<lparr>users := users b\<rparr>)) (create_session u t e (revoke_session k a1))" for u t e k
    by (simp add: create_session_def revoke_session_def Let_def)
  have "u_active (if P u then u\<lparr>u_password := h\<rparr> else u) = u_active u"
      "u_id (if P u then u\<lparr>u_password := h\<rparr> else u) = u_id u"
      "u_role (if P u then u\<lparr>u_password := h\<rparr> else u) = u_role u" for u
    by simp_all
  then show ?thesis
    using user [OF a1]
    by (simp add: refresh_def Let_def sess g made split: option.split sum.split prod.split)
qed

text \<open>
  Neither the password change of a user nor the reset by an operator ends any session: every
  refresh token gives what it gave before.
\<close>

theorem password_change_keeps_sessions:
  "fst (refresh cr now jtis token (snd (update_password cr t salt header old new a))) =
     fst (refresh cr now jtis token a)"
  "fst (refresh cr now jtis token (snd (api_reset_password cr salt i new a))) =
     fst (refresh cr now jtis token a)"
proof -
  have upd: "fst (refresh cr now jtis token (snd (update_user i (no_fields\<lparr>f_password := Some h\<rparr>) a))) =
      fst (refresh cr now jtis token a)" for i h
  proof -
    have "snd (update_user i (no_fields\<lparr>f_password := Some h\<rparr>) a) =
        a\<lparr>users := update_where (\<lambda>u. u_id u = i) (\<lambda>u. u\<lparr>u_password := h\<rparr>) (users a)\<rparr>"
      by (simp add: update_user_def no_fields_def set_or_def)
    then show ?thesis by (rule refresh_ignores_passwords)
  qed
  then have upd': "fst (refresh cr now jtis token b) = fst (refresh cr now jtis token a)"
    if "update_user i (no_fields\<lparr>f_password := Some h\<rparr>) a = (ok, b)" for i h ok b
    using that upd [of i h] by simp
  show "fst (refresh cr now jtis token (snd (update_password cr t salt header old new a))) =
      fst (refresh cr now jtis token a)"
    by (auto simp: update_password_def Let_def dest!: upd' split: sum.split prod.split)
  show "fst (refresh cr now jtis token (snd (api_reset_password cr salt i new a))) =
      fst (refresh cr now jtis token a)"
    by (auto simp: api_reset_password_def Let_def dest!: upd' split: prod.split)
qed

text \<open>
  Assigning a user to a show again without naming permissions removes none: a presenter made
  producer keeps the right to broadcast.
\<close>

theorem reassignment_keeps_permissions:
  "list_show_permissions show_id i a \<subseteq> list_show_permissions show_id i (snd (api_assign_user js show_id i r None a))"
  by (auto simp: api_assign_user_def assign_show_def list_show_permissions_def split: sum.split)

section \<open>Concrete inputs\<close>

text \<open>Tokens in the clear, and passwords that are their own hashes.\<close>

definition sample_crypto :: crypto where
  "sample_crypto = \<lparr>
     jwt_encode = (\<lambda>c. (case c_type c of Access \<Rightarrow> ''a.'' | Refresh \<Rightarrow> ''r.'') @ int_str (c_sub c) @ ''.'' @ c_jti c),
     jwt_decode = (\<lambda>now t.
       if take 2 t = ''a.'' \<or> take 2 t = ''r.'' then
         Some \<lparr>c_sub = sql_cast_int (takeWhile (\<lambda>c. c \<noteq> CHR ''.'') (drop 2 t)), c_role = [],
               c_type = (if take 2 t = ''a.'' then Access else Refresh), c_jti = [], c_iat = 0, c_exp = 0\<rparr>
       else None),
     bcrypt_hash = (\<lambda>salt p. p), bcrypt_verify = (\<lambda>p h. p = h)\<rparr>"

lemma compact_sample: "compact_tokens sample_crypto"
proof -
  have "CHR ''.'' \<in> set t" if "take 2 t = [c, CHR ''.'']" for t :: string and c
    using that by (metis in_set_takeD list.set_intros(1) list.set_intros(2))
  then show ?thesis by (auto simp: compact_tokens_def sample_crypto_def split: if_splits)
qed

definition ann :: "acc_event list" where
  "ann = [Create_User ''s'' ''ann'' ''Ann'' ''password'' ''dj'' (Some [])]"

definition ann_in :: "acc_event list" where
  "ann_in = ann @ [Login 1000 (''1'', ''2'') ''ann'' ''password'']"

lemmas sample_defs = sample_crypto_def ann_def ann_in_def start_def empty_acc_def on_tables_def
  api_create_user_def resolve_role_template_ids_def get_user_by_username_def get_user_by_id_def
  create_user_row_def replace_user_roles_def login_def check_allowed_def brute_prune_def
  record_success_def record_failure_def cleanup_expired_def delete_where_def
  create_access_token_def create_refresh_token_def create_session_def update_last_login_def
  current_timestamp_def strip_def is_space_def lower_def lower_char_def lower_table_def
  int_str_def digit_char_def sql_cast_int_def split_sign_def is_digit_def digits_val_def digit_val_def

lemma nat_str_1: "nat_str (Suc 0) = ''1''"
  by (simp add: nat_str.simps digit_char_def)

lemma ann_in_state:
  "acc_run sample_crypto js ann_in start = \<lparr>tables = empty_acc\<lparr>
     users := [\<lparr>u_id = 1, u_name = ''ann'', u_display = ''Ann'', u_password = ''password'', u_role = ''dj'',
                u_active = True, u_last_login = Some 1000\<rparr>], user_seq := 1,
     login_sessions := [\<lparr>us_id = 1, us_user = 1, us_token = sha256 ''r.1.2'', us_expires = 2593000,
                         us_revoked = False\<rparr>], session_seq := 1\<rparr>, failed = (\<lambda>_. [])\<rparr>"
  by (simp add: sample_defs nat_str_1 Let_def fun_eq_iff)


theorem refresh_token_works_once_witness:
  "isl (fst (refresh sample_crypto 1030 (''5'', ''6'') ''r.1.2''
     (tables (acc_run sample_crypto concat
       (ann_in @ Logout 1010 ''Bearer a.1.1'' # [Refreshing 1020 (''3'', ''4'') ''r.1.2'']) start))))"
proof (rule refresh_token_works_once [OF compact_sample])
  show "all_fresh ''r.1.2'' sample_crypto concat
      [Logout 1010 ''Bearer a.1.1'', Refreshing 1020 (''3'', ''4'') ''r.1.2''] (acc_run sample_crypto concat ann_in start)"
    unfolding ann_in_state
    by (simp add: sample_defs nat_str_1 Let_def fresh_for_def logout_def extract_bearer_token_def
        load_user_from_access_token_def refresh_def get_session_by_token_def revoke_all_user_sessions_def
        revoke_session_def)
  show "ends_session sample_crypto ''r.1.2'' (Logout 1010 ''Bearer a.1.1'')
      (tables (acc_run sample_crypto concat ann_in start))"
    unfolding ann_in_state
    by (simp add: sample_defs nat_str_1 Let_def logout_def extract_bearer_token_def caller_def
        load_user_from_access_token_def)
qed

theorem deactivated_user_is_out_witness:
  "isl (fst (login sample_crypto 2000 (''3'', ''4'') '' ann '' ''password''
     (acc_run sample_crypto concat (ann_in @ [Deactivate_User 1]) start)))"
proof -
  let ?s = "acc_run sample_crypto concat (ann_in @ Deactivate_User 1 # []) start"
  have d: "\<not> isl (fst (api_deactivate_user 1 (tables (acc_run sample_crypto concat ann_in start))))"
    unfolding ann_in_state
    by (simp add: sample_defs api_deactivate_user_def deactivate_user_def update_user_def no_fields_def rowcount_def)
  have "\<exists>u. get_user_by_username (strip '' ann '') (tables ?s) = Some u \<and> u_id u = 1"
    by (simp add: ann_in_state) (simp add: sample_defs api_deactivate_user_def deactivate_user_def
        update_user_def no_fields_def rowcount_def set_or_def)
  then show ?thesis using deactivated_user_is_out [OF d _ refl, of "[]"] by auto
qed

definition ann_tables :: acc where
  "ann_tables = empty_acc\<lparr>
     users := [\<lparr>u_id = 1, u_name = ''ann'', u_display = ''Ann'', u_password = ''password'', u_role = ''dj'',
                u_active = True, u_last_login = None\<rparr>], user_seq := 1\<rparr>"

definition wrong_logins :: "rat list \<Rightarrow> acc_event list" where
  "wrong_logins ts = map (\<lambda>t. Login t (''1'', ''2'') ''ann'' ''a'') ts"

definition ann_server :: "rat list \<Rightarrow> server" where
  "ann_server xs = \<lparr>tables = ann_tables, failed = (\<lambda>_. [])(''ann'' := xs)\<rparr>"

lemma ann_state:
  "acc_step sample_crypto js (Create_User ''s'' ''ann'' ''Ann'' ''password'' ''dj'' (Some [])) start = ann_server []"
  by (simp add: sample_defs ann_tables_def ann_server_def fun_eq_iff)

lemma wrong_login:
  "login sample_crypto t (''1'', ''2'') ''ann'' ''a'' (ann_server xs) = (Inl (Http 401 ''Invalid credentials''),
     ann_server (let ys = filter (\<lambda>x. t - 300 \<le> x) xs in if length ys < 5 then ys @ [t] else ys))"
  by (simp add: ann_server_def ann_tables_def sample_defs Let_def fun_eq_iff)

lemma wrong_login_guess:
  "would_accept sample_crypto t (''1'', ''2'') ''ann'' ''a'' (ann_server xs) \<longleftrightarrow>
     length (filter (\<lambda>x. t - 300 \<le> x) xs) < 5"
  by (simp add: would_accept_def ann_server_def ann_tables_def sample_defs Let_def)

text \<open>Of six wrong logins of an existing user within six seconds five are guesses.\<close>

theorem at_most_five_guesses_witness:
  "length (filter (\<lambda>x. 100 - 300 \<le> x \<and> x \<le> 100)
     (guesses sample_crypto concat ''ann'' (ann @ wrong_logins [1, 2, 3, 4, 5, 6]) start)) \<le> 5 \<and>
   guesses sample_crypto concat ''ann'' (ann @ wrong_logins [1, 2, 3, 4, 5, 6]) start = [1, 2, 3, 4, 5]"
proof
  have s: "strip ''ann'' = ''ann''" by (simp add: strip_def is_space_def)
  have "never_in sample_crypto concat ''ann'' (ann @ wrong_logins [1, 2, 3, 4, 5, 6]) start"
    by (simp add: wrong_logins_def ann_def ann_state wrong_login s Let_def del: acc_step.simps(5))
  then show "length (filter (\<lambda>x. 100 - 300 \<le> x \<and> x \<le> 100)
     (guesses sample_crypto concat ''ann'' (ann @ wrong_logins [1, 2, 3, 4, 5, 6]) start)) \<le> 5"
    by (intro at_most_five_guesses) (simp_all add: wrong_logins_def ann_def)
  show "guesses sample_crypto concat ''ann'' (ann @ wrong_logins [1, 2, 3, 4, 5, 6]) start = [1, 2, 3, 4, 5]"
    by (simp add: wrong_logins_def ann_def ann_state s wrong_login wrong_login_guess Let_def del: acc_step.simps(5))
qed

theorem permissions_only_add_witness:
  "user_is_allowed_for_request \<lparr>au_id = 2, au_role = ''guest'', au_templates = [],
     au_permissions = {''downloads.use'', ''logs.view''}, au_show_permissions = []\<rparr> ''/api/logs'' ''GET''"
proof (rule permissions_only_add)
  show "user_is_allowed_for_request \<lparr>au_id = 2, au_role = ''guest'', au_templates = [],
     au_permissions = {''logs.view''}, au_show_permissions = []\<rparr> ''/api/logs'' ''GET''"
    by (simp add: user_is_allowed_for_request_def Let_def path_matches_def starts_with_def ends_with_def
        normalize_permissions_def strip_def is_space_def)
qed (simp_all add: show_permissions_le_def)

theorem access_matrix_witness:
  "\<not> user_is_allowed_for_request \<lparr>au_id = 3, au_role = ''operator'', au_templates = [],
     au_permissions = {}, au_show_permissions = []\<rparr> ''/api/queue/skip'' ''POST''"
  using access_matrix [of "\<lparr>au_id = 3, au_role = ''operator'', au_templates = [],
     au_permissions = {}, au_show_permissions = []\<rparr>" "''/api/queue/skip''" "''POST''"]
  by (simp add: normalize_legacy_role_def strip_def is_space_def lower_def lower_char_def lower_table_def
      ALL_ROLES_def Let_def)

theorem legacy_permissions_restored_witness:
  "set [''stations.view'', ''library.view''] \<subseteq>
     list_effective_global_permissions 1 (init_accounts ''h'' (tables (acc_run sample_crypto concat ann start)))"
proof -
  have u: "\<lparr>u_id = 1, u_name = ''ann'', u_display = ''Ann'', u_password = ''password'', u_role = ''dj'',
      u_active = True, u_last_login = None\<rparr> \<in> set (users (tables (acc_run sample_crypto concat ann start)))"
    by (simp add: sample_defs Let_def)
  have "map_of LEGACY_ROLE_TO_TEMPLATE (u_role \<lparr>u_id = 1, u_name = ''ann'', u_display = ''Ann'', u_password = ''password'',
      u_role = ''dj'', u_active = True, u_last_login = None\<rparr>) = Some ''Legacy DJ''"
    by (simp add: LEGACY_ROLE_TO_TEMPLATE_def)
  moreover have "\<exists>keys. map_of LEGACY_ROLE_TEMPLATE_PERMISSIONS ''Legacy DJ'' = Some keys \<and>
      set [''stations.view'', ''library.view''] \<subseteq> set keys"
    by (simp add: LEGACY_ROLE_TEMPLATE_PERMISSIONS_def)
  ultimately show ?thesis
    using legacy_permissions_restored [OF refl u, of "''Legacy DJ''" _ "''h''"] by fastforce
qed

end
