(* ===== verification/Logs.thy ===== *)
theory Logs
  imports Database
begin

text \<open>
  \<open>LogRepository\<close> (\<open>repositories/log_repo.py\<close>): the operation log and the events, two tables that
  keep their newest rows only. Both tables have an \<open>INTEGER PRIMARY KEY\<close>; the payload, which is only
  displayed, is left out. \<open>m\<close> is the configured number of rows.
\<close>

record log_entry =
  lr_id :: int
  lr_station :: "int option"
  lr_level :: string
  lr_event :: string
  lr_message :: string

record event_row =
  ev_id :: int
  ev_station :: int
  ev_type :: string

section \<open>Pruning\<close>

text \<open>
  \<open>_prune_table\<close>: the id of the row number \<open>m\<close> from the newest is the oldest that stays. \<open>OFFSET\<close>
  past the end finds no row.
\<close>

definition newest_first :: "('r \<Rightarrow> int) \<Rightarrow> 'r list \<Rightarrow> 'r list" where
  "newest_first key rows = rev (sort_key key rows)"

definition prune_table :: "('r \<Rightarrow> int) \<Rightarrow> int \<Rightarrow> 'r list \<Rightarrow> 'r list" where
  "prune_table key m rows =
     (if m \<le> 0 then rows
      else case drop (nat (max 0 (m - 1))) (newest_first key rows) of
        [] \<Rightarrow> rows
      | r # _ \<Rightarrow> delete_where (\<lambda>x. key x < key r) rows)"

section \<open>Writing and reading\<close>

definition add_operation_log ::
  "int \<Rightarrow> int option \<Rightarrow> string \<Rightarrow> string \<Rightarrow> string \<Rightarrow> log_entry list \<Rightarrow> int \<times> log_entry list" where
  "add_operation_log m st message event level rows =
     (let i = next_rowid (map lr_id rows) in
      (i, prune_table lr_id m
        (rows @ [\<lparr>lr_id = i, lr_station = st, lr_level = or_default ''info'' level,
                  lr_event = or_default ''operation'' event, lr_message = message\<rparr>])))"

definition safe_limit :: "int \<Rightarrow> nat" where
  "safe_limit limit = nat (max 1 (min limit 2000))"

definition list_operation_logs :: "int option \<Rightarrow> int \<Rightarrow> log_entry list \<Rightarrow> log_entry list" where
  "list_operation_logs st limit rows =
     take (safe_limit limit)
       (newest_first lr_id (case st of None \<Rightarrow> rows | Some s \<Rightarrow> filter (\<lambda>r. lr_station r = Some s) rows))"

definition add_event :: "int \<Rightarrow> int \<Rightarrow> string \<Rightarrow> event_row list \<Rightarrow> int \<times> event_row list" where
  "add_event m st type rows =
     (let i = next_rowid (map ev_id rows) in
      (i, prune_table ev_id m (rows @ [\<lparr>ev_id = i, ev_station = st, ev_type = or_default ''generic'' type\<rparr>])))"

definition list_events :: "int option \<Rightarrow> int \<Rightarrow> event_row list \<Rightarrow> event_row list" where
  "list_events st limit rows =
     take (safe_limit limit)
       (newest_first ev_id (case st of None \<Rightarrow> rows | Some s \<Rightarrow> filter (\<lambda>r. ev_station r = s) rows))"

definition delete_event :: "int \<Rightarrow> event_row list \<Rightarrow> bool \<times> event_row list" where
  "delete_event i rows = (0 < rowcount (\<lambda>r. ev_id r = i) rows, delete_where (\<lambda>r. ev_id r = i) rows)"

section \<open>A table with rising ids keeps its newest rows\<close>

definition rising :: "('r \<Rightarrow> int) \<Rightarrow> 'r list \<Rightarrow> bool" where
  "rising key rows \<longleftrightarrow> sorted_wrt (\<lambda>a b. key a < key b) rows"

lemma rising_sorted: "rising key rows \<Longrightarrow> sort_key key rows = rows"
  unfolding rising_def
  by (intro sort_key_id_if_sorted) (simp add: sorted_map sorted_wrt_mono_rel [rotated])

lemma rising_append_one:
  "rising key (rows @ [r]) \<longleftrightarrow> rising key rows \<and> (\<forall>x \<in> set rows. key x < key r)"
  by (simp add: rising_def sorted_wrt_append)

lemma rising_drop: "rising key rows \<Longrightarrow> rising key (drop n rows)"
  by (simp add: rising_def sorted_wrt_drop)

lemma rising_delete_below:
  assumes "rising key (as @ r # bs)"
  shows "delete_where (\<lambda>x. key x < key r) (as @ r # bs) = r # bs"
proof -
  have "\<forall>x \<in> set as. key x < key r" "\<forall>x \<in> set bs. key r < key x"
    using assms by (auto simp: rising_def sorted_wrt_append)
  then have "filter (\<lambda>x. \<not> key x < key r) as = []" "filter (\<lambda>x. \<not> key x < key r) bs = bs"
    by (auto simp: filter_empty_conv filter_id_conv)
  then show ?thesis by (simp add: delete_where_def)
qed

text \<open>Pruning a table of rising ids leaves exactly its newest \<open>m\<close> rows.\<close>

lemma prune_keeps_newest:
  assumes "rising key rows" and "0 < m"
  shows "prune_table key m rows = drop (length rows - nat m) rows"
proof (cases "length rows < nat m")
  case True
  then have "drop (nat (m - 1)) (rev rows) = []" using assms(2) by simp
  then show ?thesis using True assms by (simp add: prune_table_def newest_first_def rising_sorted)
next
  case False
  define k where "k = length rows - nat m"
  have k: "k < length rows" "nat (m - 1) = length rows - Suc k"
    using False assms(2) by (auto simp: k_def)
  have split: "rows = take k rows @ rows ! k # drop (Suc k) rows"
    using k by (simp add: id_take_nth_drop)
  have "rev rows ! (length rows - Suc k) = rows ! k"
    using k by (simp add: rev_nth)
  then obtain rs where "drop (nat (m - 1)) (rev rows) = rows ! k # rs"
    using k Cons_nth_drop_Suc [of "length rows - Suc k" "rev rows"] by (metis diff_Suc_less length_rev length_pos_if_in_set nth_mem)
  then have "prune_table key m rows = delete_where (\<lambda>x. key x < key (rows ! k)) rows"
    using assms by (simp add: prune_table_def newest_first_def rising_sorted)
  also have "\<dots> = rows ! k # drop (Suc k) rows"
    using rising_delete_below [of key "take k rows" "rows ! k" "drop (Suc k) rows"] split assms(1) by simp
  also have "\<dots> = drop k rows" using k by (simp add: Cons_nth_drop_Suc)
  finally show ?thesis by (simp add: k_def)
qed

lemma add_operation_log_newest:
  assumes "rising lr_id rows" "0 < m"
  shows "\<exists>r. lr_station r = st \<and> lr_message r = message \<and>
           snd (add_operation_log m st message event level rows) = drop (length rows + 1 - nat m) (rows @ [r])"
    and "rising lr_id (snd (add_operation_log m st message event level rows))"
proof -
  define r where "r = \<lparr>lr_id = next_rowid (map lr_id rows), lr_station = st,
    lr_level = or_default ''info'' level, lr_event = or_default ''operation'' event, lr_message = message\<rparr>"
  have "rising lr_id (rows @ [r])"
    using assms next_rowid_greater [of _ "map lr_id rows"] by (simp add: rising_append_one r_def)
  then have e: "snd (add_operation_log m st message event level rows) = drop (length rows + 1 - nat m) (rows @ [r])"
    and "rising lr_id (snd (add_operation_log m st message event level rows))"
    using assms prune_keeps_newest [of lr_id "rows @ [r]" m]
    by (simp_all add: add_operation_log_def Let_def r_def [symmetric] rising_drop del: drop_append)
  then show "rising lr_id (snd (add_operation_log m st message event level rows))" by simp
  show "\<exists>r. lr_station r = st \<and> lr_message r = message \<and>
           snd (add_operation_log m st message event level rows) = drop (length rows + 1 - nat m) (rows @ [r])"
    by (rule exI [of _ r]) (simp add: e r_def del: drop_append)
qed

end
