(* ===== verification/Studios.thy ===== *)
theory Studios
  imports Logs
begin

text \<open>
  The studios of a station: \<open>StudioRepository\<close> (\<open>repositories/studio_repo.py\<close>) and \<open>StudioService\<close>
  (\<open>services/studio_service.py\<close>): who sits in which studio, which studio is on air, and who may
  open the microphone. The service holds the lock of the station while it joins, leaves and hands
  over, so one request is one step. Foreign keys are on. Time columns are left out; the clock that
  orders the chat does not run backwards. No caller writes the seat status \<open>standby\<close>.
\<close>

section \<open>Tables\<close>

record studio_row =
  sd_id :: int
  sd_station :: int
  sd_name :: string
  sd_description :: string
  sd_order :: int
  sd_active :: bool
  sd_on_air :: bool
  sd_user :: "int option"

datatype seat_status = Seat_Active | Seat_Left

record seat_row =
  se_id :: int
  se_studio :: int
  se_user :: int
  se_role :: string
  se_status :: seat_status

record chat_row =
  ch_id :: int
  ch_studio :: int
  ch_user :: int
  ch_message :: string

text \<open>\<open>known_stations\<close> and \<open>known_users\<close> are what the foreign keys refer to; \<open>max_logs\<close> is configured.\<close>

record studio_db =
  studios :: "studio_row list"
  studio_seq :: int
  seats :: "seat_row list"
  seat_seq :: int
  chat :: "chat_row list"
  chat_seq :: int
  operation_logs :: "log_entry list"
  max_logs :: int
  known_stations :: "int list"
  known_users :: "int list"

datatype studio_error =
    Not_Found string
  | Conflict string
  | Forbidden string
  | Invalid string
  | Foreign_Key

type_synonym 'a studio_op = "studio_db \<Rightarrow> (studio_error + 'a) \<times> studio_db"

section \<open>Repository\<close>

definition get_studio :: "int \<Rightarrow> studio_db \<Rightarrow> studio_row option" where
  "get_studio i d = find (\<lambda>r. sd_id r = i) (studios d)"

definition list_by_station :: "int \<Rightarrow> studio_db \<Rightarrow> studio_row list" where
  "list_by_station st d =
     sort_key (\<lambda>r. (sd_order r, sd_id r)) (filter (\<lambda>r. sd_station r = st) (studios d))"

definition unknown_user :: "int option \<Rightarrow> studio_db \<Rightarrow> bool" where
  "unknown_user user d \<longleftrightarrow> (case user of None \<Rightarrow> False | Some u \<Rightarrow> u \<notin> set (known_users d))"

lemma unknown_user_simps [simp]:
  "\<not> unknown_user None d" "unknown_user (Some u) d \<longleftrightarrow> u \<notin> set (known_users d)"
  by (simp_all add: unknown_user_def)

definition create_row ::
  "int \<Rightarrow> string \<Rightarrow> string \<Rightarrow> int \<Rightarrow> bool \<Rightarrow> bool \<Rightarrow> int option \<Rightarrow> int studio_op" where
  "create_row st name description order active on_air user d =
     (if st \<notin> set (known_stations d) \<or> unknown_user user d then (Inl Foreign_Key, d)
      else let i = studio_seq d + 1 in
        (Inr i, d\<lparr>studio_seq := i, studios := studios d @
           [\<lparr>sd_id = i, sd_station = st, sd_name = strip name, sd_description = strip description,
             sd_order = (if order = 0 then 1 else order), sd_active = active, sd_on_air = on_air,
             sd_user = user\<rparr>]\<rparr>))"

definition ensure_default_for_station :: "int \<Rightarrow> unit studio_op" where
  "ensure_default_for_station st d =
     (if list_by_station st d \<noteq> [] then (Inr (), d)
      else case create_row st ''Studio A'' [] 1 True True None d of
        (Inl e, d') \<Rightarrow> (Inl e, d')
      | (Inr _, d') \<Rightarrow> (Inr (), d'))"

text \<open>
  The keyword arguments of \<open>update\<close>: a key that is absent and one that is \<open>None\<close> both leave the column
  alone. No caller passes \<open>current_user_id\<close>.
\<close>

record studio_fields =
  sf_name :: "string option"
  sf_description :: "string option"
  sf_order :: "int option"
  sf_active :: "bool option"
  sf_on_air :: "bool option"

definition no_studio_fields :: studio_fields where
  "no_studio_fields = \<lparr>sf_name = None, sf_description = None, sf_order = None, sf_active = None, sf_on_air = None\<rparr>"

definition put :: "'a option \<Rightarrow> 'a \<Rightarrow> 'a" where
  "put new old = (case new of None \<Rightarrow> old | Some x \<Rightarrow> x)"

definition set_fields :: "studio_fields \<Rightarrow> studio_row \<Rightarrow> studio_row" where
  "set_fields f r = r\<lparr>sd_name := put (sf_name f) (sd_name r),
     sd_description := put (sf_description f) (sd_description r), sd_order := put (sf_order f) (sd_order r),
     sd_active := put (sf_active f) (sd_active r), sd_on_air := put (sf_on_air f) (sd_on_air r)\<rparr>"

definition update_row :: "int \<Rightarrow> studio_fields \<Rightarrow> studio_db \<Rightarrow> bool \<times> studio_db" where
  "update_row i f d =
     (if f = no_studio_fields then (False, d)
      else (0 < rowcount (\<lambda>r. sd_id r = i) (studios d),
            d\<lparr>studios := update_where (\<lambda>r. sd_id r = i) (set_fields f) (studios d)\<rparr>))"

definition set_on_air :: "int \<Rightarrow> bool \<Rightarrow> studio_db \<Rightarrow> studio_db" where
  "set_on_air i on d = snd (update_row i (no_studio_fields\<lparr>sf_on_air := Some on\<rparr>) d)"

text \<open>\<open>delete\<close> takes the seats and the chat of the studio along (\<open>ON DELETE CASCADE\<close>).\<close>

definition delete_studio :: "int \<Rightarrow> studio_db \<Rightarrow> bool \<times> studio_db" where
  "delete_studio i d =
     (0 < rowcount (\<lambda>r. sd_id r = i) (studios d),
      d\<lparr>studios := delete_where (\<lambda>r. sd_id r = i) (studios d),
        seats := delete_where (\<lambda>s. se_studio s = i) (seats d),
        chat := delete_where (\<lambda>c. ch_studio c = i) (chat d)\<rparr>)"

definition set_current_user :: "int \<Rightarrow> int option \<Rightarrow> unit studio_op" where
  "set_current_user i user d =
     (if unknown_user user d then (Inl Foreign_Key, d)
      else (Inr (), d\<lparr>studios := update_where (\<lambda>r. sd_id r = i) (sd_user_update (\<lambda>_. user)) (studios d)\<rparr>))"

definition seat_of :: "int \<Rightarrow> int \<Rightarrow> seat_row \<Rightarrow> bool" where
  "seat_of studio user s \<longleftrightarrow> se_studio s = studio \<and> se_user s = user"

definition upsert_session :: "int \<Rightarrow> int \<Rightarrow> string \<Rightarrow> int studio_op" where
  "upsert_session studio user r d =
     (case find (seat_of studio user) (seats d) of
        Some s \<Rightarrow> (Inr (se_id s), d\<lparr>seats := update_where (seat_of studio user)
          (\<lambda>s. s\<lparr>se_role := or_default ''dj'' r, se_status := Seat_Active\<rparr>) (seats d)\<rparr>)
      | None \<Rightarrow>
          if studio \<notin> set (map sd_id (studios d)) \<or> user \<notin> set (known_users d) then (Inl Foreign_Key, d)
          else let i = seat_seq d + 1 in
            (Inr i, d\<lparr>seat_seq := i, seats := seats d @
               [\<lparr>se_id = i, se_studio = studio, se_user = user, se_role = or_default ''dj'' r,
                 se_status = Seat_Active\<rparr>]\<rparr>))"

definition leave_session :: "int \<Rightarrow> int \<Rightarrow> studio_db \<Rightarrow> bool \<times> studio_db" where
  "leave_session studio user d =
     (0 < rowcount (seat_of studio user) (seats d),
      d\<lparr>seats := update_where (seat_of studio user) (se_status_update (\<lambda>_. Seat_Left)) (seats d)\<rparr>)"

definition create_chat_message :: "int \<Rightarrow> int \<Rightarrow> string \<Rightarrow> int studio_op" where
  "create_chat_message studio user message d =
     (if studio \<notin> set (map sd_id (studios d)) \<or> user \<notin> set (known_users d) then (Inl Foreign_Key, d)
      else let i = chat_seq d + 1 in
        (Inr i, d\<lparr>chat_seq := i, chat := chat d @
           [\<lparr>ch_id = i, ch_studio = studio, ch_user = user, ch_message = message\<rparr>]\<rparr>))"

definition repo_chat_messages :: "int \<Rightarrow> int \<Rightarrow> studio_db \<Rightarrow> chat_row list" where
  "repo_chat_messages studio limit d =
     take (nat (max 1 (if limit = 0 then 50 else limit)))
       (newest_first ch_id (filter (\<lambda>c. ch_studio c = studio) (chat d)))"

section \<open>Actors\<close>

record actor =
  a_id :: int
  a_name :: string
  a_role :: string

definition normalized_role :: "actor \<Rightarrow> string" where
  "normalized_role a = (let r = lower (strip (a_role a)) in if r = ''superadmin'' then ''admin'' else r)"

definition require_admin :: "actor \<Rightarrow> studio_error option" where
  "require_admin a = (if normalized_role a \<noteq> ''admin'' then Some (Forbidden ''admin_required'') else None)"

definition require_participant :: "actor \<Rightarrow> studio_error option" where
  "require_participant a =
     (if normalized_role a \<notin> {''admin'', ''dj'', ''producer''}
      then Some (Forbidden ''participant_role_required'') else None)"

definition session_role_for :: "actor \<Rightarrow> string" where
  "session_role_for a = (if normalized_role a = ''producer'' then ''producer'' else ''dj'')"

definition current_user_of :: "studio_row \<Rightarrow> int" where
  "current_user_of r = (case sd_user r of None \<Rightarrow> 0 | Some u \<Rightarrow> u)"

definition require_handoff_actor :: "actor \<Rightarrow> studio_row \<Rightarrow> studio_error option" where
  "require_handoff_actor a source =
     (if normalized_role a = ''admin'' then None
      else if normalized_role a \<noteq> ''dj'' then Some (Forbidden ''handoff_forbidden'')
      else if current_user_of source \<noteq> a_id a then Some (Forbidden ''handoff_forbidden'')
      else None)"

section \<open>Who sits where\<close>

definition joined :: "seat_row \<Rightarrow> bool" where
  "joined s \<longleftrightarrow> se_status s = Seat_Active"

definition joined_studio_ids :: "int \<Rightarrow> studio_db \<Rightarrow> int list" where
  "joined_studio_ids user d =
     (if user \<le> 0 then [] else map se_studio (filter (\<lambda>s. se_user s = user \<and> joined s) (seats d)))"

definition has_joined_session :: "int \<Rightarrow> int \<Rightarrow> studio_db \<Rightarrow> bool" where
  "has_joined_session studio user d \<longleftrightarrow> (\<exists>s \<in> set (seats d). seat_of studio user s \<and> joined s)"

definition has_dj_session :: "int \<Rightarrow> int \<Rightarrow> studio_db \<Rightarrow> bool" where
  "has_dj_session studio user d \<longleftrightarrow>
     (\<exists>s \<in> set (seats d). seat_of studio user s \<and> joined s \<and> se_role s = ''dj'')"

text \<open>\<open>_active_dj_user_id\<close> of a studio that exists; \<open>0\<close> is nobody.\<close>

definition active_dj_user_id :: "studio_row \<Rightarrow> studio_db \<Rightarrow> int" where
  "active_dj_user_id r d =
     (case sd_user r of None \<Rightarrow> 0 | Some u \<Rightarrow> if has_dj_session (sd_id r) u d then u else 0)"

definition current_studio_for_user :: "int \<Rightarrow> int \<Rightarrow> studio_db \<Rightarrow> int" where
  "current_studio_for_user user st d =
     (case filter (\<lambda>r. has_joined_session (sd_id r) user d) (list_by_station st d) of
        [] \<Rightarrow> 0 | r # _ \<Rightarrow> sd_id r)"

definition can_user_activate_mic :: "int \<Rightarrow> int \<Rightarrow> studio_db \<Rightarrow> bool \<times> string" where
  "can_user_activate_mic st user d =
     (case find sd_on_air (list_by_station st d) of
        None \<Rightarrow> (False, ''no_on_air_studio'')
      | Some r \<Rightarrow>
          if current_user_of r \<noteq> user then (False, ''not_studio_owner'')
          else if \<not> has_dj_session (sd_id r) user d then (False, ''no_dj_session'')
          else (True, ''ok''))"

section \<open>Requests\<close>

record station_view =
  selected_studio :: int
  studio_views :: "(studio_row \<times> bool) list"

text \<open>The flag of a studio says that the actor has joined it; the presence counts are left out.\<close>

definition snapshot_station :: "int \<Rightarrow> actor \<Rightarrow> studio_db \<Rightarrow> station_view" where
  "snapshot_station st a d =
     \<lparr>selected_studio = (if 0 < a_id a then current_studio_for_user (a_id a) st d else 0),
      studio_views = map (\<lambda>r. (r, sd_id r \<in> set (joined_studio_ids (a_id a) d))) (list_by_station st d)\<rparr>"

definition log_studio :: "int \<Rightarrow> string \<Rightarrow> string \<Rightarrow> studio_db \<Rightarrow> studio_db" where
  "log_studio st message event d =
     d\<lparr>operation_logs := snd (add_operation_log (max_logs d) (Some st) message event ''info'' (operation_logs d))\<rparr>"

definition create_studio :: "int \<Rightarrow> string \<Rightarrow> actor \<Rightarrow> string \<Rightarrow> int studio_op" where
  "create_studio st name a description d =
     (case require_admin a of
        Some e \<Rightarrow> (Inl e, d)
      | None \<Rightarrow>
          if strip name = [] then (Inl (Invalid ''studio_name_required''), d)
          else case create_row st (strip name) (strip description)
                      (int (length (list_by_station st d)) + 1) True False None d of
            (Inl e, d') \<Rightarrow> (Inl e, d')
          | (Inr i, d') \<Rightarrow> (Inr i, log_studio st (''Studio created: '' @ strip name) ''studio.create'' d'))"

text \<open>\<open>sf_on_air\<close> is no argument of the request: it is \<open>None\<close>.\<close>

definition clean_fields :: "studio_fields \<Rightarrow> studio_fields" where
  "clean_fields f = f\<lparr>sf_name := map_option strip (sf_name f),
     sf_description := map_option strip (sf_description f), sf_on_air := None\<rparr>"

definition update_studio :: "int \<Rightarrow> actor \<Rightarrow> studio_fields \<Rightarrow> station_view studio_op" where
  "update_studio i a f d =
     (case require_admin a of
        Some e \<Rightarrow> (Inl e, d)
      | None \<Rightarrow> case get_studio i d of
          None \<Rightarrow> (Inl (Not_Found ''studio_not_found''), d)
        | Some r \<Rightarrow>
            if sf_name (clean_fields f) = Some [] then (Inl (Invalid ''studio_name_required''), d)
            else if clean_fields f = no_studio_fields then (Inr (snapshot_station (sd_station r) a d), d)
            else case update_row i (clean_fields f) d of
              (False, d') \<Rightarrow> (Inl (Conflict ''studio_update_failed''), d')
            | (True, d') \<Rightarrow>
                let d'' = log_studio (sd_station r) (''Studio updated: '' @ int_str i) ''studio.update'' d'
                in (Inr (snapshot_station (sd_station r) a d''), d''))"

definition take_desk :: "int \<Rightarrow> int \<Rightarrow> actor \<Rightarrow> unit studio_op" where
  "take_desk i st a d =
     (case set_current_user i (Some (a_id a)) d of
        (Inl e, d') \<Rightarrow> (Inl e, d')
      | (Inr _, d') \<Rightarrow>
          (Inr (), if \<exists>r \<in> set (list_by_station st d'). sd_on_air r then d' else set_on_air i True d'))"

definition take_seat :: "studio_row \<Rightarrow> actor \<Rightarrow> station_view studio_op" where
  "take_seat r a d =
     (case upsert_session (sd_id r) (a_id a) (session_role_for a) d of
        (Inl e, d') \<Rightarrow> (Inl e, d')
      | (Inr _, d') \<Rightarrow>
          let d'' = log_studio (sd_station r) (''Studio join: '' @ a_name a) ''studio.join'' d'
          in (Inr (snapshot_station (sd_station r) a d''), d''))"

definition join_studio :: "int \<Rightarrow> actor \<Rightarrow> station_view studio_op" where
  "join_studio i a d =
     (case require_participant a of
        Some e \<Rightarrow> (Inl e, d)
      | None \<Rightarrow> case get_studio i d of
          None \<Rightarrow> (Inl (Not_Found ''studio_not_found''), d)
        | Some r \<Rightarrow>
            if filter (\<lambda>j. j \<noteq> i) (joined_studio_ids (a_id a) d) \<noteq> []
            then (Inl (Conflict ''user_already_joined_other_studio''), d)
            else if session_role_for a = ''dj'' then
              if active_dj_user_id r d \<notin> {0, a_id a} then (Inl (Conflict ''studio_already_has_active_dj''), d)
              else case take_desk i (sd_station r) a d of
                (Inl e, d') \<Rightarrow> (Inl e, d')
              | (Inr _, d') \<Rightarrow> take_seat r a d'
            else take_seat r a d)"

definition leave_studio :: "int \<Rightarrow> actor \<Rightarrow> station_view studio_op" where
  "leave_studio i a d =
     (case get_studio i d of
        None \<Rightarrow> (Inl (Not_Found ''studio_not_found''), d)
      | Some r \<Rightarrow>
          let d1 = snd (leave_session i (a_id a) d);
              d2 = (if current_user_of r = a_id a
                    then let d2 = snd (set_current_user i None d1)
                         in if sd_on_air r then set_on_air i False d2 else d2
                    else d1);
              d3 = log_studio (sd_station r) (''Studio leave: '' @ a_name a) ''studio.leave'' d2
          in (Inr (snapshot_station (sd_station r) a d3), d3))"

definition put_only_on_air :: "int \<Rightarrow> int \<Rightarrow> studio_db \<Rightarrow> studio_db" where
  "put_only_on_air st target d =
     fold (\<lambda>r. set_on_air (sd_id r) (sd_id r = target)) (list_by_station st d) d"

definition handoff :: "int \<Rightarrow> int \<Rightarrow> int \<Rightarrow> actor \<Rightarrow> station_view studio_op" where
  "handoff st source_id target_id a d =
     (case (get_studio source_id d, get_studio target_id d) of
        (Some source, Some target) \<Rightarrow>
          (case require_handoff_actor a source of
             Some e \<Rightarrow> (Inl e, d)
           | None \<Rightarrow>
               if sd_station source \<noteq> st \<or> sd_station target \<noteq> st
               then (Inl (Conflict ''studio_station_mismatch''), d)
               else if \<not> sd_on_air source then (Inl (Conflict ''source_studio_not_on_air''), d)
               else if active_dj_user_id target d \<le> 0
               then (Inl (Conflict ''target_studio_missing_active_dj''), d)
               else let d1 = put_only_on_air st target_id d;
                        d2 = log_studio st (''Studio handoff: '' @ int_str source_id @ ''->'' @ int_str target_id)
                               ''studio.handoff'' d1
                    in (Inr (snapshot_station st a d2), d2))
      | _ \<Rightarrow> (Inl (Not_Found ''studio_not_found''), d))"

definition list_chat_messages :: "int \<Rightarrow> int \<Rightarrow> studio_db \<Rightarrow> chat_row list" where
  "list_chat_messages i limit d = rev (repo_chat_messages i limit d)"

definition send_chat_message :: "int \<Rightarrow> actor \<Rightarrow> string \<Rightarrow> chat_row option studio_op" where
  "send_chat_message i a message d =
     (case get_studio i d of
        None \<Rightarrow> (Inl (Not_Found ''studio_not_found''), d)
      | Some r \<Rightarrow>
          if strip message = [] then (Inl (Invalid ''message_required''), d)
          else if \<not> has_joined_session i (a_id a) d
          then (Inl (Forbidden ''chat_requires_joined_session''), d)
          else case create_chat_message i (a_id a) (strip message) d of
            (Inl e, d') \<Rightarrow> (Inl e, d')
          | (Inr _, d') \<Rightarrow>
              let d'' = log_studio (sd_station r) (''Studio chat: '' @ a_name a) ''studio.chat'' d'
              in (Inr (case repo_chat_messages i 1 d'' of [] \<Rightarrow> None | c # _ \<Rightarrow> Some c), d''))"

end
