(* ===== verification/Studio_Laws.thy ===== *)
theory Studio_Laws
  imports Studios
begin

text \<open>
  What every studio request keeps: unique keys, at most one studio of a station on air, no user in
  two studios, no desk without its user sitting there, and a log of bounded length.
\<close>

section \<open>The invariant\<close>

definition studio_keys :: "studio_db \<Rightarrow> bool" where
  "studio_keys d \<longleftrightarrow> distinct (map sd_id (studios d)) \<and> (\<forall>r \<in> set (studios d). sd_id r \<le> studio_seq d)
     \<and> distinct (map (\<lambda>s. (se_studio s, se_user s)) (seats d)) \<and> (\<forall>u \<in> set (known_users d). 0 < u)
     \<and> (\<forall>s \<in> set (seats d). se_user s \<in> set (known_users d))"

definition one_on_air :: "studio_db \<Rightarrow> bool" where
  "one_on_air d \<longleftrightarrow> (\<forall>r \<in> set (studios d). \<forall>r' \<in> set (studios d).
     sd_on_air r \<and> sd_on_air r' \<and> sd_station r = sd_station r' \<longrightarrow> sd_id r = sd_id r')"

definition one_seat :: "studio_db \<Rightarrow> bool" where
  "one_seat d \<longleftrightarrow> (\<forall>s \<in> set (seats d). \<forall>s' \<in> set (seats d).
     joined s \<and> joined s' \<and> se_user s = se_user s' \<longrightarrow> se_studio s = se_studio s')"

definition desks_seated :: "studio_db \<Rightarrow> bool" where
  "desks_seated d \<longleftrightarrow>
     (\<forall>r \<in> set (studios d). \<forall>u. sd_user r = Some u \<longrightarrow> has_joined_session (sd_id r) u d)"

definition log_bounded :: "studio_db \<Rightarrow> bool" where
  "log_bounded d \<longleftrightarrow> rising lr_id (operation_logs d)
     \<and> (0 < max_logs d \<longrightarrow> length (operation_logs d) \<le> nat (max_logs d))"

definition studio_ok :: "studio_db \<Rightarrow> bool" where
  "studio_ok d \<longleftrightarrow> studio_keys d \<and> one_on_air d \<and> one_seat d \<and> desks_seated d \<and> log_bounded d"

lemmas studio_ok_defs = studio_ok_def studio_keys_def one_on_air_def one_seat_def desks_seated_def
  log_bounded_def

section \<open>Effects of the statements\<close>

lemma set_on_air_simps [simp]:
  "studios (set_on_air i on d) = update_where (\<lambda>r. sd_id r = i) (sd_on_air_update (\<lambda>_. on)) (studios d)"
  "seats (set_on_air i on d) = seats d" "studio_seq (set_on_air i on d) = studio_seq d"
  "known_users (set_on_air i on d) = known_users d" "operation_logs (set_on_air i on d) = operation_logs d"
  "max_logs (set_on_air i on d) = max_logs d" "known_stations (set_on_air i on d) = known_stations d"
  by (simp_all add: set_on_air_def update_row_def no_studio_fields_def set_fields_def [abs_def] put_def update_where_def)

lemma leave_session_simps [simp]:
  "studios (snd (leave_session i u d)) = studios d"
  "seats (snd (leave_session i u d)) = update_where (seat_of i u) (se_status_update (\<lambda>_. Seat_Left)) (seats d)"
  "studio_seq (snd (leave_session i u d)) = studio_seq d" "known_users (snd (leave_session i u d)) = known_users d"
  "operation_logs (snd (leave_session i u d)) = operation_logs d" "max_logs (snd (leave_session i u d)) = max_logs d"
  by (simp_all add: leave_session_def)

lemma set_current_user_None [simp]:
  "studios (snd (set_current_user i None d)) = update_where (\<lambda>r. sd_id r = i) (sd_user_update (\<lambda>_. None)) (studios d)"
  "seats (snd (set_current_user i None d)) = seats d" "studio_seq (snd (set_current_user i None d)) = studio_seq d"
  "known_users (snd (set_current_user i None d)) = known_users d"
  "operation_logs (snd (set_current_user i None d)) = operation_logs d"
  "max_logs (snd (set_current_user i None d)) = max_logs d"
  by (simp_all add: set_current_user_def)

lemma log_studio_simps [simp]:
  "studios (log_studio st m e d) = studios d" "seats (log_studio st m e d) = seats d"
  "studio_seq (log_studio st m e d) = studio_seq d" "known_users (log_studio st m e d) = known_users d"
  "known_stations (log_studio st m e d) = known_stations d"
  by (simp_all add: log_studio_def)

lemma list_by_station_log [simp]: "list_by_station st (log_studio s m e d) = list_by_station st d"
  by (simp add: list_by_station_def)

lemma has_joined_cong: "seats d' = seats d \<Longrightarrow> has_joined_session i u d' = has_joined_session i u d"
  by (simp add: has_joined_session_def)

lemma has_dj_cong: "seats d' = seats d \<Longrightarrow> has_dj_session i u d' = has_dj_session i u d"
  by (simp add: has_dj_session_def)

lemma set_list_by_station [simp]: "set (list_by_station st d) = {r \<in> set (studios d). sd_station r = st}"
  by (auto simp: list_by_station_def)

lemma get_studio_SomeD: "get_studio i d = Some r \<Longrightarrow> r \<in> set (studios d) \<and> sd_id r = i"
  by (auto simp: get_studio_def find_Some_iff)

text \<open>Each part of the invariant depends on few tables.\<close>

lemma part_cong:
  "studios d' = studios d \<Longrightarrow> one_on_air d' = one_on_air d"
  "seats d' = seats d \<Longrightarrow> one_seat d' = one_seat d"
  "studios d' = studios d \<Longrightarrow> seats d' = seats d \<Longrightarrow> desks_seated d' = desks_seated d"
  "operation_logs d' = operation_logs d \<Longrightarrow> max_logs d' = max_logs d \<Longrightarrow> log_bounded d' = log_bounded d"
  "studios d' = studios d \<Longrightarrow> studio_seq d' = studio_seq d \<Longrightarrow> seats d' = seats d \<Longrightarrow> known_users d' = known_users d \<Longrightarrow>
   studio_keys d' = studio_keys d"
  unfolding one_on_air_def one_seat_def desks_seated_def log_bounded_def studio_keys_def
  by (simp_all only: has_joined_session_def)

lemma one_on_airI:
  assumes "one_on_air d"
    and "\<And>r'. r' \<in> set (studios d') \<Longrightarrow> sd_on_air r' \<Longrightarrow>
      \<exists>r \<in> set (studios d). sd_on_air r \<and> sd_id r = sd_id r' \<and> sd_station r = sd_station r'"
  shows "one_on_air d'"
  unfolding one_on_air_def
proof (intro ballI impI)
  fix r r'
  assume "r \<in> set (studios d')" "r' \<in> set (studios d')" "sd_on_air r \<and> sd_on_air r' \<and> sd_station r = sd_station r'"
  then obtain q q' where "q \<in> set (studios d)" "q' \<in> set (studios d)" "sd_on_air q" "sd_on_air q'"
    "sd_id q = sd_id r" "sd_id q' = sd_id r'" "sd_station q = sd_station q'"
    using assms(2) [of r] assms(2) [of r'] by metis
  then show "sd_id r = sd_id r'" using assms(1) unfolding one_on_air_def by metis
qed

lemma one_on_air_add:
  assumes ok: "one_on_air d" and e: "studios d' = studios d @ [r]"
    and r: "sd_on_air r \<Longrightarrow> \<forall>x \<in> set (studios d). sd_station x \<noteq> sd_station r"
  shows "one_on_air d'"
  unfolding one_on_air_def
proof (intro ballI impI)
  fix x y
  assume x: "x \<in> set (studios d')" and y: "y \<in> set (studios d')"
    and xy: "sd_on_air x \<and> sd_on_air y \<and> sd_station x = sd_station y"
  show "sd_id x = sd_id y"
  proof (cases "x = r \<or> y = r")
    case True
    then have "x = r \<and> y = r" using x y xy r e by auto
    then show ?thesis by simp
  next
    case False
    then have "x \<in> set (studios d)" "y \<in> set (studios d)" using x y e by auto
    then show ?thesis using ok xy unfolding one_on_air_def by blast
  qed
qed

lemma one_seatI:
  assumes "one_seat d"
    and "\<And>s'. s' \<in> set (seats d') \<Longrightarrow> joined s' \<Longrightarrow>
      \<exists>s \<in> set (seats d). joined s \<and> se_user s = se_user s' \<and> se_studio s = se_studio s'"
  shows "one_seat d'"
  unfolding one_seat_def
proof (intro ballI impI)
  fix s s'
  assume "s \<in> set (seats d')" "s' \<in> set (seats d')" "joined s \<and> joined s' \<and> se_user s = se_user s'"
  then obtain q q' where "q \<in> set (seats d)" "q' \<in> set (seats d)" "joined q" "joined q'"
    "se_studio q = se_studio s" "se_studio q' = se_studio s'" "se_user q = se_user q'"
    using assms(2) [of s] assms(2) [of s'] by metis
  then show "se_studio s = se_studio s'" using assms(1) unfolding one_seat_def by metis
qed

lemma studio_keys_update:
  assumes "studio_keys d" "\<And>r. sd_id (f r) = sd_id r"
    and "studios d' = update_where P f (studios d)" "seats d' = seats d" "studio_seq d' = studio_seq d"
    "known_users d' = known_users d"
  shows "studio_keys d'"
  using assms(1) unfolding studio_keys_def assms(3-6)
  by (simp add: assms(2) ball_update_where if_distrib [of sd_id])

lemma log_bounded_log: "log_bounded d \<Longrightarrow> log_bounded (log_studio st m e d)"
proof -
  assume b: "log_bounded d"
  show ?thesis
  proof (cases "0 < max_logs d")
    case True
    note n = add_operation_log_newest [of "operation_logs d" "max_logs d" "Some st" m e "''info''"]
    have r: "rising lr_id (operation_logs d)" using b by (simp add: log_bounded_def)
    obtain row where "snd (add_operation_log (max_logs d) (Some st) m e ''info'' (operation_logs d))
        = drop (length (operation_logs d) + 1 - nat (max_logs d)) (operation_logs d @ [row])"
      using n(1) [OF r True] by blast
    then have "length (operation_logs (log_studio st m e d)) \<le> nat (max_logs d)"
      by (simp add: log_studio_def)
    then show ?thesis using n(2) [OF r True] True by (simp add: log_bounded_def log_studio_def)
  next
    case False
    then show ?thesis using b next_rowid_greater [of _ "map lr_id (operation_logs d)"]
      by (simp add: log_bounded_def log_studio_def add_operation_log_def Let_def prune_table_def
            rising_append_one)
  qed
qed

lemma log_studio_ok [intro]: "studio_ok d \<Longrightarrow> studio_ok (log_studio st m e d)"
  using log_bounded_log [of d st m e] part_cong [of "log_studio st m e d" d] by (simp add: studio_ok_def)

section \<open>Every request keeps the invariant\<close>

lemma create_row_ok:
  assumes "studio_ok d" "on = False \<or> list_by_station st d = []"
  shows "studio_ok (snd (create_row st n x ord act on None d))"
proof -
  let ?d' = "snd (create_row st n x ord act on None d)"
  have s: "seats ?d' = seats d" by (simp add: create_row_def Let_def)
  have empty: "list_by_station st d = [] \<longleftrightarrow> (\<forall>r \<in> set (studios d). sd_station r \<noteq> st)"
    by (metis (mono_tags, lifting) empty_iff list.set(1) mem_Collect_eq set_list_by_station
        all_not_in_conv set_empty)
  show ?thesis
  proof (cases "st \<in> set (known_stations d)")
    case True
    have fresh: "\<forall>r \<in> set (studios d). sd_id r < studio_seq d + 1"
      using assms(1) by (fastforce simp: studio_ok_def studio_keys_def)
    obtain r where e: "?d' = d\<lparr>studio_seq := studio_seq d + 1, studios := studios d @ [r]\<rparr>"
      and r: "sd_id r = studio_seq d + 1" "sd_user r = None" "sd_station r = st" "sd_on_air r = on"
      using True by (simp add: create_row_def Let_def)
    have "studio_keys ?d'"
      using assms(1) fresh r unfolding e by (fastforce simp: studio_ok_def studio_keys_def)
    moreover have "one_on_air ?d'"
    proof (rule one_on_air_add [of d])
      show "one_on_air d" using assms(1) by (simp add: studio_ok_def)
      show "studios ?d' = studios d @ [r]" by (simp add: e)
      show "\<forall>x \<in> set (studios d). sd_station x \<noteq> sd_station r" if "sd_on_air r"
        using that assms(2) empty r by auto
    qed
    moreover have "desks_seated ?d'"
      using assms(1) r has_joined_cong [OF s] unfolding e by (auto simp: studio_ok_def desks_seated_def)
    moreover have "one_seat ?d'" "log_bounded ?d'"
      using assms(1) part_cong(2,4) [of ?d' d] s by (simp_all add: studio_ok_def e)
    ultimately show ?thesis by (simp add: studio_ok_def)
  qed (simp add: create_row_def assms(1))
qed

lemma ensure_default_ok: "studio_ok d \<Longrightarrow> studio_ok (snd (ensure_default_for_station st d))"
  using create_row_ok [of d True st "''Studio A''" "[]" 1 True]
  by (auto simp: ensure_default_for_station_def split: prod.split sum.split)

lemma create_studio_ok: "studio_ok d \<Longrightarrow> studio_ok (snd (create_studio st n a x d))"
  using create_row_ok [of d False st "strip n" "strip x" "int (length (list_by_station st d)) + 1" True]
  by (auto simp: create_studio_def split: prod.split sum.split option.split)

lemma update_row_ok:
  assumes "studio_ok d" "sf_on_air f = None"
  shows "studio_ok (snd (update_row i f d))"
proof -
  let ?f = "set_fields f"
  have f: "\<And>r. sd_id (?f r) = sd_id r" "\<And>r. sd_on_air (?f r) = sd_on_air r" "\<And>r. sd_station (?f r) = sd_station r"
    "\<And>r. sd_user (?f r) = sd_user r"
    using assms(2) by (simp_all add: set_fields_def put_def)
  show ?thesis
  proof (cases "f = no_studio_fields")
    case False
    let ?d' = "d\<lparr>studios := update_where (\<lambda>r. sd_id r = i) ?f (studios d)\<rparr>"
    have "studio_keys ?d'"
      using assms(1) f(1) by (intro studio_keys_update [of d ?f ?d' "\<lambda>r. sd_id r = i"]) (simp_all add: studio_ok_def)
    moreover have "one_on_air ?d'"
    proof (rule one_on_airI)
      show "one_on_air d" using assms(1) by (simp add: studio_ok_def)
    qed (auto simp: set_update_where f)
    moreover have "one_seat ?d'" "log_bounded ?d'"
      using assms(1) part_cong [of ?d' d] by (simp_all add: studio_ok_def)
    moreover have "desks_seated ?d'"
      using assms(1) has_joined_cong [of ?d' d]
      by (auto simp: studio_ok_def desks_seated_def set_update_where f)
    ultimately show ?thesis using False by (simp add: update_row_def studio_ok_def)
  qed (simp add: update_row_def assms(1))
qed

lemma update_studio_ok: "studio_ok d \<Longrightarrow> studio_ok (snd (update_studio i a f d))"
  using update_row_ok [of d "clean_fields f" i]
  by (auto simp: update_studio_def Let_def clean_fields_def split: prod.split option.split bool.split)

lemma delete_studio_ok:
  assumes "studio_ok d"
  shows "studio_ok (snd (delete_studio i d))"
proof -
  let ?d' = "snd (delete_studio i d)"
  have "has_joined_session (sd_id r) u ?d'" if "has_joined_session (sd_id r) u d" "sd_id r \<noteq> i" for r u
    using that unfolding has_joined_session_def seat_of_def delete_studio_def by auto
  then have "desks_seated ?d'"
    using assms unfolding studio_ok_def desks_seated_def by (auto simp: delete_studio_def)
  moreover have "studio_keys ?d'"
    using assms by (simp add: studio_ok_def studio_keys_def delete_studio_def distinct_map_filter delete_where_def)
  moreover have "one_on_air ?d'"
    by (rule one_on_airI [of d]) (use assms in \<open>auto simp: studio_ok_def delete_studio_def\<close>)
  moreover have "one_seat ?d'"
    by (rule one_seatI [of d]) (use assms in \<open>auto simp: studio_ok_def delete_studio_def\<close>)
  moreover have "log_bounded ?d'"
    using assms by (simp add: studio_ok_def log_bounded_def delete_studio_def)
  ultimately show ?thesis by (simp add: studio_ok_def)
qed

lemma send_chat_ok: "studio_ok d \<Longrightarrow> studio_ok (snd (send_chat_message i a m d))"
proof -
  assume ok: "studio_ok d"
  have c: "studio_ok (snd (create_chat_message i u x d))" for u x
    using ok part_cong [of "snd (create_chat_message i u x d)" d]
    by (simp add: studio_ok_def create_chat_message_def Let_def)
  show ?thesis using ok c [of "a_id a" "strip m"]
    by (auto simp: send_chat_message_def Let_def split: prod.split option.split sum.split)
qed

lemma row_by_id:
  "studio_keys d \<Longrightarrow> r \<in> set (studios d) \<Longrightarrow> r' \<in> set (studios d) \<Longrightarrow> sd_id r = sd_id r' \<Longrightarrow> r = r'"
  using inj_onD [of sd_id "set (studios d)" r r'] by (simp add: studio_keys_def distinct_map)

lemma leave_studio_state:
  assumes "get_studio i d = Some r"
  shows "studios (snd (leave_studio i a d)) = (if current_user_of r = a_id a
      then update_where (\<lambda>x. sd_id x = i) (\<lambda>x. x\<lparr>sd_user := None, sd_on_air := sd_on_air x \<and> \<not> sd_on_air r\<rparr>) (studios d)
      else studios d)"
    and "seats (snd (leave_studio i a d)) =
      update_where (seat_of i (a_id a)) (se_status_update (\<lambda>_. Seat_Left)) (seats d)"
  using assms by (auto simp: leave_studio_def Let_def update_where_def)

lemma leave_studio_ok:
  assumes ok: "studio_ok d"
  shows "studio_ok (snd (leave_studio i a d))"
proof (cases "get_studio i d")
  case None
  then show ?thesis using ok by (simp add: leave_studio_def)
next
  case (Some r)
  let ?d' = "snd (leave_studio i a d)"
  note st = leave_studio_state [OF Some, of a]
  have r: "r \<in> set (studios d)" "sd_id r = i" using get_studio_SomeD [OF Some] by simp_all
  have f: "studio_seq ?d' = studio_seq d" "known_users ?d' = known_users d"
    using Some by (simp_all add: leave_studio_def Let_def)
  have "one_on_air ?d'"
    by (rule one_on_airI [of d]) (use ok in \<open>auto simp: studio_ok_def st set_update_where split: if_splits\<close>)
  moreover have "one_seat ?d'"
    by (rule one_seatI [of d])
      (use ok in \<open>auto simp: studio_ok_def st set_update_where joined_def split: if_splits\<close>)
  moreover have "studio_keys ?d'"
  proof -
    have "map (\<lambda>s. (se_studio s, se_user s)) (seats ?d') = map (\<lambda>s. (se_studio s, se_user s)) (seats d)"
      unfolding st by (rule map_update_where) simp
    moreover have "map sd_id (studios ?d') = map sd_id (studios d)" unfolding st by simp
    moreover have "\<forall>r \<in> set (studios ?d'). sd_id r \<le> studio_seq d" "\<forall>s \<in> set (seats ?d'). se_user s \<in> set (known_users d)"
      using ok by (auto simp: st studio_ok_def studio_keys_def set_update_where)
    ultimately show ?thesis using ok by (simp add: studio_ok_def studio_keys_def f)
  qed
  moreover have "desks_seated ?d'"
    unfolding desks_seated_def
  proof (intro ballI allI impI)
    fix x u
    assume x: "x \<in> set (studios ?d')" "sd_user x = Some u"
    then obtain y where y: "y \<in> set (studios d)" "sd_user y = Some u" "sd_id y = sd_id x"
      and keep: "\<not> (current_user_of r = a_id a \<and> sd_id y = i)"
      unfolding st by (auto simp: set_update_where split: if_splits)
    then obtain s where s: "s \<in> set (seats d)" "seat_of (sd_id y) u s" "joined s"
      using ok unfolding studio_ok_def desks_seated_def has_joined_session_def by blast
    have "\<not> seat_of i (a_id a) s"
    proof
      assume "seat_of i (a_id a) s"
      then have "sd_id y = i" "u = a_id a" using s(2) by (auto simp: seat_of_def)
      then have "y = r" using row_by_id [of d y r] ok y r by (auto simp: studio_ok_def)
      then show False using keep y \<open>u = a_id a\<close> \<open>sd_id y = i\<close> by (simp add: current_user_of_def)
    qed
    then have "s \<in> set (seats ?d')" using s(1) unfolding st by (auto simp: set_update_where)
    then show "has_joined_session (sd_id x) u ?d'"
      using s y(3) unfolding has_joined_session_def by auto
  qed
  moreover obtain d2 where d2: "?d' = log_studio (sd_station r) (''Studio leave: '' @ a_name a) ''studio.leave'' d2"
      "operation_logs d2 = operation_logs d" "max_logs d2 = max_logs d"
    using Some by (simp add: leave_studio_def Let_def)
  then have "log_bounded ?d'"
    using ok log_bounded_log [of d2] part_cong(4) [of d2 d] by (simp add: studio_ok_def)
  ultimately show ?thesis by (simp add: studio_ok_def)
qed

lemma put_only_on_air_fields [simp]:
  "seats (fold (\<lambda>r. set_on_air (sd_id r) (P r)) rs d) = seats d"
  "studio_seq (fold (\<lambda>r. set_on_air (sd_id r) (P r)) rs d) = studio_seq d"
  "known_users (fold (\<lambda>r. set_on_air (sd_id r) (P r)) rs d) = known_users d"
  "operation_logs (fold (\<lambda>r. set_on_air (sd_id r) (P r)) rs d) = operation_logs d"
  "max_logs (fold (\<lambda>r. set_on_air (sd_id r) (P r)) rs d) = max_logs d"
  by (induction rs arbitrary: d) simp_all

lemma put_on_air_fold:
  "studios (fold (\<lambda>r. set_on_air (sd_id r) (sd_id r = t)) rs d) =
     map (\<lambda>x. if sd_id x \<in> sd_id ` set rs then x\<lparr>sd_on_air := sd_id x = t\<rparr> else x) (studios d)"
proof (induction rs arbitrary: d)
  case (Cons r rs)
  show ?case by (simp add: Cons.IH update_where_def)
qed simp

lemma put_only_on_air_seats [simp]: "seats (put_only_on_air st t d) = seats d"
  by (simp add: put_only_on_air_def)

text \<open>Handing over puts exactly the target on air in the station.\<close>

lemma put_only_on_air_studios:
  assumes "studio_keys d"
  shows "studios (put_only_on_air st t d) =
     update_where (\<lambda>x. sd_station x = st) (\<lambda>x. x\<lparr>sd_on_air := sd_id x = t\<rparr>) (studios d)"
proof -
  have "sd_id x \<in> sd_id ` set (list_by_station st d) \<longleftrightarrow> sd_station x = st" if "x \<in> set (studios d)" for x
    using that row_by_id [OF assms] by auto
  then show ?thesis
    by (auto simp: put_only_on_air_def put_on_air_fold update_where_def intro!: map_cong)
qed

lemma put_only_on_air_ok:
  assumes "studio_ok d"
  shows "studio_ok (put_only_on_air st t d)"
proof -
  let ?d' = "put_only_on_air st t d"
  have k: "studio_keys d" using assms by (simp add: studio_ok_def)
  note s = put_only_on_air_studios [OF k, of st t]
  have e: "seats ?d' = seats d" "studio_seq ?d' = studio_seq d" "known_users ?d' = known_users d"
    "operation_logs ?d' = operation_logs d" "max_logs ?d' = max_logs d"
    by (simp_all add: put_only_on_air_def)
  have "studio_keys ?d'" by (rule studio_keys_update [OF k _ s e(1-3)]) simp
  moreover have "one_on_air ?d'"
    unfolding one_on_air_def
  proof (intro ballI impI)
    fix x y
    assume "x \<in> set (studios ?d')" "y \<in> set (studios ?d')" and xy: "sd_on_air x \<and> sd_on_air y \<and> sd_station x = sd_station y"
    then obtain p q where p: "p \<in> set (studios d)" "x = (if sd_station p = st then p\<lparr>sd_on_air := sd_id p = t\<rparr> else p)"
      and q: "q \<in> set (studios d)" "y = (if sd_station q = st then q\<lparr>sd_on_air := sd_id q = t\<rparr> else q)"
      unfolding s by (auto simp: set_update_where)
    show "sd_id x = sd_id y"
    proof (cases "sd_station p = st")
      case True
      then show ?thesis using p q xy by (auto split: if_splits)
    next
      case False
      then have "sd_on_air p \<and> sd_on_air q \<and> sd_station p = sd_station q" "sd_id x = sd_id p" "sd_id y = sd_id q"
        using p q xy by (auto split: if_splits)
      then show ?thesis using assms p(1) q(1) unfolding studio_ok_def one_on_air_def by metis
    qed
  qed
  moreover have "one_seat ?d'" "log_bounded ?d'"
    using assms part_cong(2,4) [of ?d' d] e by (simp_all add: studio_ok_def)
  moreover have "desks_seated ?d'"
    using assms has_joined_cong [OF e(1)] unfolding studio_ok_def desks_seated_def s
    by (auto simp: set_update_where split: if_splits)
  ultimately show ?thesis by (simp add: studio_ok_def)
qed

lemma handoff_ok: "studio_ok d \<Longrightarrow> studio_ok (snd (handoff st s t a d))"
  using put_only_on_air_ok [of d st t] by (auto simp: handoff_def Let_def split: option.split)

section \<open>Joining\<close>

lemma take_desk_effect:
  assumes "take_desk i st a d = (Inr (), d')"
  shows "seats d' = seats d" "studio_seq d' = studio_seq d" "known_users d' = known_users d"
    "operation_logs d' = operation_logs d" "max_logs d' = max_logs d" "a_id a \<in> set (known_users d)"
    and "studios d' = update_where (\<lambda>r. sd_id r = i) (\<lambda>r. r\<lparr>sd_user := Some (a_id a),
      sd_on_air := sd_on_air r \<or> \<not> (\<exists>x \<in> set (studios d). sd_station x = st \<and> sd_on_air x)\<rparr>) (studios d)"
proof -
  let ?d1 = "d\<lparr>studios := update_where (\<lambda>r. sd_id r = i) (sd_user_update (\<lambda>_. Some (a_id a))) (studios d)\<rparr>"
  have u: "a_id a \<in> set (known_users d)"
    using assms by (auto simp: take_desk_def set_current_user_def split: if_splits)
  have on: "(\<exists>r \<in> set (list_by_station st ?d1). sd_on_air r) \<longleftrightarrow>
      (\<exists>x \<in> set (studios d). sd_station x = st \<and> sd_on_air x)"
  proof -
    have "(\<exists>r \<in> set (list_by_station st ?d1). sd_on_air r) \<longleftrightarrow>
        (\<exists>r \<in> set (studios ?d1). sd_station r = st \<and> sd_on_air r)" by auto
    then show ?thesis by (simp add: bex_update_where if_distrib [of sd_station] if_distrib [of sd_on_air])
  qed
  have d': "d' = (if \<exists>x \<in> set (studios d). sd_station x = st \<and> sd_on_air x then ?d1 else set_on_air i True ?d1)"
    using assms u unfolding on [symmetric] by (simp add: take_desk_def set_current_user_def split: if_splits)
  then show "seats d' = seats d" "studio_seq d' = studio_seq d" "known_users d' = known_users d"
    "operation_logs d' = operation_logs d" "max_logs d' = max_logs d" "a_id a \<in> set (known_users d)"
    using u by simp_all
  show "studios d' = update_where (\<lambda>r. sd_id r = i) (\<lambda>r. r\<lparr>sd_user := Some (a_id a),
      sd_on_air := sd_on_air r \<or> \<not> (\<exists>x \<in> set (studios d). sd_station x = st \<and> sd_on_air x)\<rparr>) (studios d)"
  proof (cases "\<exists>x \<in> set (studios d). sd_station x = st \<and> sd_on_air x")
    case True
    then show ?thesis unfolding d' by (simp add: update_where_def)
  next
    case False
    then show ?thesis unfolding d' if_not_P [OF False] by (auto simp: update_where_def)
  qed
qed

lemma take_desk_one_on_air:
  assumes "take_desk (sd_id r) (sd_station r) a d = (Inr (), d')" "studio_keys d" "one_on_air d" "r \<in> set (studios d)"
  shows "one_on_air d'"
proof (cases "\<exists>x \<in> set (studios d). sd_station x = sd_station r \<and> sd_on_air x")
  case True
  then show ?thesis
    by (intro one_on_airI [OF assms(3)]) (auto simp: take_desk_effect(7) [OF assms(1)] set_update_where)
next
  case False
  have st: "sd_station y = sd_station r" if "y \<in> set (studios d)" "sd_id y = sd_id r" for y
    using row_by_id [OF assms(2) that(1) assms(4) that(2)] by simp
  show ?thesis
    unfolding one_on_air_def
  proof (intro ballI impI)
    fix x y
    assume x: "x \<in> set (studios d')" and y: "y \<in> set (studios d')" and xy: "sd_on_air x \<and> sd_on_air y \<and> sd_station x = sd_station y"
    obtain p where p: "p \<in> set (studios d)" "sd_id p = sd_id x" "sd_station p = sd_station x" "sd_on_air p \<or> sd_id p = sd_id r"
      using x xy by (auto simp: take_desk_effect(7) [OF assms(1)] set_update_where split: if_splits)
    obtain q where q: "q \<in> set (studios d)" "sd_id q = sd_id y" "sd_station q = sd_station y" "sd_on_air q \<or> sd_id q = sd_id r"
      using y xy by (auto simp: take_desk_effect(7) [OF assms(1)] set_update_where split: if_splits)
    consider "sd_id p = sd_id r" "sd_id q = sd_id r" | "sd_on_air p" "sd_on_air q" | "sd_on_air p" "sd_id q = sd_id r"
      | "sd_id p = sd_id r" "sd_on_air q" using p q by blast
    then show "sd_id x = sd_id y"
    proof cases
      case 2
      then show ?thesis using assms(3) p q xy unfolding one_on_air_def by metis
    qed (use p q xy st False in \<open>auto\<close>)
  qed
qed

lemma upsert_effect:
  assumes "upsert_session i u ro d = (Inr k, d')"
  shows "studios d' = studios d" "studio_seq d' = studio_seq d" "known_users d' = known_users d"
    "operation_logs d' = operation_logs d" "max_logs d' = max_logs d"
    and "\<exists>s \<in> set (seats d'). seat_of i u s \<and> joined s \<and> se_role s = or_default ''dj'' ro"
    and "\<And>s. s \<in> set (seats d') \<Longrightarrow> seat_of i u s \<or> s \<in> set (seats d)"
    and "\<And>s. s \<in> set (seats d) \<Longrightarrow> seat_of i u s \<or> s \<in> set (seats d')"
    and "studio_keys d \<Longrightarrow> studio_keys d'"
proof -
  consider s where "find (seat_of i u) (seats d) = Some s"
      "d' = d\<lparr>seats := update_where (seat_of i u)
        (\<lambda>s. s\<lparr>se_role := or_default ''dj'' ro, se_status := Seat_Active\<rparr>) (seats d)\<rparr>"
    | "find (seat_of i u) (seats d) = None" "u \<in> set (known_users d)"
      "d' = d\<lparr>seat_seq := seat_seq d + 1, seats := seats d @
        [\<lparr>se_id = seat_seq d + 1, se_studio = i, se_user = u, se_role = or_default ''dj'' ro, se_status = Seat_Active\<rparr>]\<rparr>"
    using assms by (auto simp: upsert_session_def Let_def split: option.splits if_splits)
  note c = this
  show "studios d' = studios d" "studio_seq d' = studio_seq d" "known_users d' = known_users d"
    "operation_logs d' = operation_logs d" "max_logs d' = max_logs d"
    by (cases rule: c; simp)+
  show "\<exists>s \<in> set (seats d'). seat_of i u s \<and> joined s \<and> se_role s = or_default ''dj'' ro"
  proof (cases rule: c)
    case (1 s)
    then show ?thesis
      using find_SomeD [OF 1(1)] by (intro bexI [of _ "s\<lparr>se_role := or_default ''dj'' ro, se_status := Seat_Active\<rparr>"])
        (auto simp: set_update_where seat_of_def joined_def)
  qed (simp add: seat_of_def joined_def)
  show "\<And>s. s \<in> set (seats d') \<Longrightarrow> seat_of i u s \<or> s \<in> set (seats d)"
    by (cases rule: c) (auto simp: set_update_where seat_of_def split: if_splits)
  show "\<And>s. s \<in> set (seats d) \<Longrightarrow> seat_of i u s \<or> s \<in> set (seats d')"
    by (cases rule: c) (auto simp: set_update_where)
  show "studio_keys d'" if k: "studio_keys d"
  proof (cases rule: c)
    case 1
    let ?k = "\<lambda>s. (se_studio s, se_user s)"
    have "map ?k (seats d') = map ?k (seats d)" unfolding 1(2) by (simp add: map_update_where)
    moreover have "\<forall>s \<in> set (seats d'). se_user s \<in> set (known_users d')"
      using k unfolding 1(2) by (auto simp: studio_keys_def set_update_where)
    ultimately show ?thesis using k unfolding studio_keys_def 1(2) by simp
  next
    case 2
    then have "\<forall>s \<in> set (seats d). \<not> (se_studio s = i \<and> se_user s = u)"
      by (auto simp: find_None_iff seat_of_def)
    then show ?thesis using k 2 unfolding studio_keys_def by auto
  qed
qed

lemma upsert_in_studio:
  assumes "r \<in> set (studios d)" "sd_id r = i" "u \<in> set (known_users d)"
  shows "\<exists>k d'. upsert_session i u ro d = (Inr k, d')"
  using assms by (auto simp: upsert_session_def Let_def split: option.splits)

text \<open>The outcomes of a join: refused without effect, or seated at an unoccupied or own desk.\<close>

lemma join_cases:
  obtains (refused) e where "join_studio i a d = (Inl e, d)"
  | (seated) r d1 d2 k where "get_studio i d = Some r" "a_id a \<in> set (known_users d) \<or> d1 = d"
      "(session_role_for a = ''dj'' \<and> active_dj_user_id r d \<in> {0, a_id a} \<and> take_desk i (sd_station r) a d = (Inr (), d1))
       \<or> (session_role_for a \<noteq> ''dj'' \<and> d1 = d)"
      "upsert_session i (a_id a) (session_role_for a) d1 = (Inr k, d2)"
      "\<forall>j \<in> set (joined_studio_ids (a_id a) d). j = i"
      "snd (join_studio i a d) = log_studio (sd_station r) (''Studio join: '' @ a_name a) ''studio.join'' d2"
      "isl (fst (join_studio i a d)) = False"
proof -
  consider (no) e where "join_studio i a d = (Inl e, d)"
    | (dj) r where "get_studio i d = Some r" "filter (\<lambda>j. j \<noteq> i) (joined_studio_ids (a_id a) d) = []"
       "session_role_for a = ''dj''" "active_dj_user_id r d \<in> {0, a_id a}"
       "join_studio i a d = (case take_desk i (sd_station r) a d of (Inl e, d') \<Rightarrow> (Inl e, d') | (Inr _, d') \<Rightarrow> take_seat r a d')"
    | (pr) r where "get_studio i d = Some r" "filter (\<lambda>j. j \<noteq> i) (joined_studio_ids (a_id a) d) = []"
       "session_role_for a \<noteq> ''dj''" "join_studio i a d = take_seat r a d"
  proof (cases "require_participant a")
    case (Some e)
    then show ?thesis by (intro no [of e]) (simp add: join_studio_def)
  next
    case part: None
    show ?thesis
    proof (cases "get_studio i d")
      case None
      then show ?thesis using part by (intro no) (simp add: join_studio_def)
    next
      case (Some r)
      show ?thesis
      proof (cases "filter (\<lambda>j. j \<noteq> i) (joined_studio_ids (a_id a) d) = []")
        case False
        then show ?thesis using part Some by (intro no) (simp add: join_studio_def)
      next
        case True
        consider "session_role_for a \<noteq> ''dj''" | "session_role_for a = ''dj''" "active_dj_user_id r d \<in> {0, a_id a}"
          | "session_role_for a = ''dj''" "active_dj_user_id r d \<notin> {0, a_id a}" by blast
        then show ?thesis
        proof cases
          case 1
          show ?thesis by (rule pr [OF Some True 1]) (simp add: join_studio_def part Some True 1)
        next
          case 2
          show ?thesis by (rule dj [OF Some True 2]) (use 2 in \<open>simp add: join_studio_def part Some True\<close>)
        next
          case 3
          then show ?thesis using part Some True by (intro no) (simp add: join_studio_def)
        qed
      qed
    qed
  qed
  then show thesis
  proof cases
    case no
    then show ?thesis by (rule refused)
  next
    case (dj r)
    have r: "r \<in> set (studios d)" "sd_id r = i" using get_studio_SomeD [OF dj(1)] by simp_all
    show ?thesis
    proof (cases "a_id a \<in> set (known_users d)")
      case False
      then have "take_desk i (sd_station r) a d = (Inl Foreign_Key, d)"
        by (simp add: take_desk_def set_current_user_def)
      then show ?thesis using dj(5) by (intro refused [of Foreign_Key]) simp
    next
      case True
      then obtain d1 where d1: "take_desk i (sd_station r) a d = (Inr (), d1)"
        by (simp add: take_desk_def set_current_user_def)
      have "\<exists>x \<in> set (studios d1). sd_id x = i"
        using r by (simp add: take_desk_effect(7) [OF d1] bex_update_where if_distrib [of sd_id]) blast
      then obtain k d2 where d2: "upsert_session i (a_id a) (session_role_for a) d1 = (Inr k, d2)"
        using upsert_in_studio [of _ d1 i "a_id a"] True take_desk_effect(3) [OF d1] by metis
      show ?thesis
        by (rule seated [OF dj(1) _ _ d2]) (use dj d1 d2 True r in \<open>auto simp: filter_empty_conv take_seat_def Let_def\<close>)
    qed
  next
    case (pr r)
    have r: "sd_id r = i" using get_studio_SomeD [OF pr(1)] by simp
    show ?thesis
    proof (cases "upsert_session i (a_id a) (session_role_for a) d")
      case (Pair x d2)
      show ?thesis
      proof (cases x)
        case (Inl e)
        then have "d2 = d" using Pair by (auto simp: upsert_session_def Let_def split: option.splits if_splits)
        then show ?thesis using Pair Inl pr r by (intro refused [of e]) (simp add: take_seat_def)
      next
        case (Inr k)
        show ?thesis
          by (rule seated [OF pr(1) _ _ Pair [unfolded Inr]])
            (use pr Pair Inr r in \<open>auto simp: filter_empty_conv take_seat_def Let_def\<close>)
      qed
    qed
  qed
qed

lemma join_studio_ok:
  assumes ok: "studio_ok d"
  shows "studio_ok (snd (join_studio i a d))"
proof (cases rule: join_cases [of i a d])
  case (refused e)
  then show ?thesis using ok by simp
next
  case (seated r d1 d2 k)
  have parts: "studio_keys d" "one_on_air d" "one_seat d" "desks_seated d" "log_bounded d"
    using ok by (simp_all add: studio_ok_def)
  have r: "r \<in> set (studios d)" "sd_id r = i" using get_studio_SomeD [OF seated(1)] by simp_all
  have d1: "seats d1 = seats d" "studio_keys d1" "one_on_air d1" "log_bounded d1"
    and rows: "\<And>x u. x \<in> set (studios d1) \<Longrightarrow> sd_user x = Some u \<Longrightarrow>
        (\<exists>y \<in> set (studios d). sd_id y = sd_id x \<and> sd_user y = Some u) \<or> (sd_id x = i \<and> u = a_id a)"
  proof -
    show "seats d1 = seats d" using seated(3) take_desk_effect(1) by metis
    show "studio_keys d1"
      using seated(3)
    proof
      assume t: "session_role_for a = ''dj'' \<and> active_dj_user_id r d \<in> {0, a_id a} \<and> take_desk i (sd_station r) a d = (Inr (), d1)"
      note e = take_desk_effect [OF t [THEN conjunct2, THEN conjunct2]]
      show ?thesis by (rule studio_keys_update [OF parts(1) _ e(7) e(1-3)]) simp
    qed (simp add: parts(1))
    show "one_on_air d1"
      using seated(3) take_desk_one_on_air [of r a d d1] parts r by auto
    show "log_bounded d1" using seated(3) parts(5) part_cong(4) take_desk_effect(4,5) by metis
    show "(\<exists>y \<in> set (studios d). sd_id y = sd_id x \<and> sd_user y = Some u) \<or> (sd_id x = i \<and> u = a_id a)"
      if "x \<in> set (studios d1)" "sd_user x = Some u" for x u
      using seated(3) that by (auto dest!: take_desk_effect(7) simp: set_update_where split: if_splits)
  qed
  note up = upsert_effect [OF seated(4)]
  have "studio_keys d2" by (rule up(9) [OF d1(2)])
  moreover have "one_on_air d2" using d1(3) part_cong(1) [OF up(1)] by simp
  moreover have "log_bounded d2" using d1(4) part_cong(4) [OF up(4,5)] by simp
  moreover have "one_seat d2"
    unfolding one_seat_def
  proof (intro ballI impI)
    fix s s'
    assume s: "s \<in> set (seats d2)" "s' \<in> set (seats d2)" "joined s \<and> joined s' \<and> se_user s = se_user s'"
    have here: "se_studio x = i" if "x \<in> set (seats d2)" "joined x" "se_user x = a_id a" for x
    proof (cases "seat_of i (a_id a) x")
      case False
      then have x: "x \<in> set (seats d)" using up(7) [OF that(1)] d1(1) by simp
      then have "0 < se_user x" using parts(1) by (auto simp: studio_keys_def)
      then have "se_studio x \<in> set (joined_studio_ids (a_id a) d)"
        using x that by (simp add: joined_studio_ids_def)
      then show ?thesis using seated(5) by simp
    qed (simp add: seat_of_def)
    show "se_studio s = se_studio s'"
    proof (cases "se_user s = a_id a")
      case True
      then show ?thesis using here [of s] here [of s'] s by simp
    next
      case False
      then have "s \<in> set (seats d)" "s' \<in> set (seats d)"
        using up(7) [OF s(1)] up(7) [OF s(2)] s(3) d1(1) by (auto simp: seat_of_def)
      then show ?thesis using parts(3) s(3) unfolding one_seat_def by blast
    qed
  qed
  moreover have "desks_seated d2"
    unfolding desks_seated_def
  proof (intro ballI allI impI)
    fix x u
    assume x: "x \<in> set (studios d2)" "sd_user x = Some u"
    show "has_joined_session (sd_id x) u d2"
    proof (cases "sd_id x = i \<and> u = a_id a")
      case True
      then show ?thesis using up(6) by (auto simp: has_joined_session_def)
    next
      case False
      then obtain s where s: "s \<in> set (seats d)" "seat_of (sd_id x) u s" "joined s"
        using rows [of x u] x up(1) parts(4) unfolding desks_seated_def has_joined_session_def by metis
      have "\<not> seat_of i (a_id a) s" using s(2) False by (auto simp: seat_of_def)
      then have "s \<in> set (seats d2)" using up(8) [of s] s(1) d1(1) by simp
      then show ?thesis using s by (auto simp: has_joined_session_def)
    qed
  qed
  ultimately have "studio_ok d2" by (simp add: studio_ok_def)
  then show ?thesis unfolding seated(6) by (rule log_studio_ok)
qed

end
