(* ===== verification/Live_Mic.thy ===== *)
theory Live_Mic
  imports Studio_Laws
begin

text \<open>
  The live microphone of a station: the registry of the three kinds of audio session
  (\<open>audio/live_mic_registry.py\<close>), the start of a transmission
  (\<open>services/studio_service.py\<close>), the studio end points that take the microphone away again
  (\<open>api/studios.py\<close>), and the messages of the socket (\<open>ws/router.py\<close>) and the render end points
  (\<open>api/audio.py\<close>) that use it. A session is a number; whether it runs is an argument. Levels and
  listeners are left out.
\<close>

section \<open>Registry\<close>

record mic_state =
  ws_session :: "nat option"
  rtc_session :: "nat option"
  render_session :: "nat option"
  transmitting :: bool
  active_user :: "actor option"
  source_name :: string

definition mic_off :: mic_state where
  "mic_off = \<lparr>ws_session = None, rtc_session = None, render_session = None, transmitting = False,
     active_user = None, source_name = []\<rparr>"

text \<open>\<open>stopped\<close> collects the sessions whose \<open>stop\<close> was called.\<close>

record mics =
  mic_of :: "int \<Rightarrow> mic_state"
  stopped :: "nat list"

definition no_mics :: mics where
  "no_mics = \<lparr>mic_of = (\<lambda>_. mic_off), stopped = []\<rparr>"

definition set_mic :: "int \<Rightarrow> mic_state \<Rightarrow> nat option list \<Rightarrow> mics \<Rightarrow> mics" where
  "set_mic st s stop m = m\<lparr>mic_of := (mic_of m)(st := s),
     stopped := stopped m @ concat (map (\<lambda>h. case h of None \<Rightarrow> [] | Some x \<Rightarrow> [x]) stop)\<rparr>"

definition start_transmission :: "int \<Rightarrow> actor \<Rightarrow> mics \<Rightarrow> mics" where
  "start_transmission st u m =
     (let s = mic_of m st in
      set_mic st (s\<lparr>rtc_session := None, render_session := None, transmitting := True,
        active_user := Some u, source_name := []\<rparr>) [rtc_session s, render_session s] m)"

definition owned_by :: "int option \<Rightarrow> mic_state \<Rightarrow> bool" where
  "owned_by uid s \<longleftrightarrow>
     (case (uid, active_user s) of (Some i, Some a) \<Rightarrow> a_id a = i | _ \<Rightarrow> True)"

definition stop_transmission :: "int \<Rightarrow> int option \<Rightarrow> mics \<Rightarrow> mics" where
  "stop_transmission st uid m =
     (let s = mic_of m st in
      if owned_by uid s
      then set_mic st (s\<lparr>transmitting := False, active_user := None, source_name := []\<rparr>) [] m
      else m)"

definition start_rtc_session :: "int \<Rightarrow> nat \<Rightarrow> actor \<Rightarrow> mics \<Rightarrow> mics" where
  "start_rtc_session st h u m =
     (let s = mic_of m st in
      set_mic st \<lparr>ws_session = None, rtc_session = Some h, render_session = None, transmitting = True,
        active_user = Some u, source_name = []\<rparr> [ws_session s, rtc_session s, render_session s] m)"

definition stop_rtc_session :: "int \<Rightarrow> int option \<Rightarrow> mics \<Rightarrow> mics" where
  "stop_rtc_session st uid m =
     (let s = mic_of m st in
      if owned_by uid s
      then set_mic st (s\<lparr>rtc_session := None, transmitting := False, active_user := None, source_name := []\<rparr>)
             [rtc_session s] m
      else m)"

text \<open>\<open>h\<close> is the session the factory makes; it is started before it is installed.\<close>

definition start_render :: "int \<Rightarrow> nat \<Rightarrow> actor \<Rightarrow> string \<Rightarrow> mics \<Rightarrow> mics" where
  "start_render st h u source m =
     (let s = mic_of m st in
      set_mic st \<lparr>ws_session = None, rtc_session = None, render_session = Some h, transmitting = True,
        active_user = Some u, source_name = or_default ''OmniVoice'' (strip (or_default ''OmniVoice'' source))\<rparr>
        [ws_session s, rtc_session s, render_session s] m)"

definition push_render_chunk :: "(nat \<Rightarrow> bool) \<Rightarrow> int \<Rightarrow> mics \<Rightarrow> exn + nat" where
  "push_render_chunk runs st m =
     (case render_session (mic_of m st) of
        Some h \<Rightarrow> if runs h then Inr h else Inl (RuntimeError ''render session is not running'')
      | None \<Rightarrow> Inl (RuntimeError ''render session is not running''))"

definition stop_render_transmission :: "int \<Rightarrow> int option \<Rightarrow> mics \<Rightarrow> mics" where
  "stop_render_transmission st uid m =
     (let s = mic_of m st in
      if owned_by uid s
      then set_mic st (s\<lparr>render_session := None, transmitting := False, active_user := None, source_name := []\<rparr>)
             [render_session s] m
      else m)"

definition stop_live_input :: "int \<Rightarrow> int option \<Rightarrow> mics \<Rightarrow> mics" where
  "stop_live_input st uid m =
     (let s = mic_of m st in
      if owned_by uid s then set_mic st mic_off [ws_session s, rtc_session s, render_session s] m else m)"

definition live :: "(nat \<Rightarrow> bool) \<Rightarrow> nat option \<Rightarrow> bool" where
  "live runs h \<longleftrightarrow> (case h of None \<Rightarrow> False | Some x \<Rightarrow> runs x)"

text \<open>\<open>fresh\<close> is the session \<open>_ensure_session\<close> makes when there is none; the result takes the chunk.\<close>

definition push_chunk :: "(nat \<Rightarrow> bool) \<Rightarrow> nat \<Rightarrow> int \<Rightarrow> mics \<Rightarrow> nat option \<times> mics" where
  "push_chunk runs fresh st m =
     (let s = mic_of m st in
      if live runs (rtc_session s) \<or> live runs (render_session s) then (None, m)
      else case ws_session s of
        Some h \<Rightarrow> (Some h, m)
      | None \<Rightarrow> (Some fresh, set_mic st (s\<lparr>ws_session := Some fresh\<rparr>) [] m))"

datatype pcm_source = Silence | Session nat

definition read_pcm :: "(nat \<Rightarrow> bool) \<Rightarrow> int \<Rightarrow> mics \<Rightarrow> pcm_source" where
  "read_pcm runs st m =
     (let s = mic_of m st in
      if live runs (render_session s) then Session (the (render_session s))
      else if live runs (rtc_session s) then Session (the (rtc_session s))
      else case ws_session s of None \<Rightarrow> Silence | Some h \<Rightarrow> Session h)"

definition live_input_enabled :: "(nat \<Rightarrow> bool) \<Rightarrow> int \<Rightarrow> mics \<Rightarrow> bool" where
  "live_input_enabled runs st m \<longleftrightarrow>
     (let s = mic_of m st in transmitting s \<or> ws_session s \<noteq> None \<or> live runs (rtc_session s)
        \<or> live runs (render_session s))"

definition transport :: "(nat \<Rightarrow> bool) \<Rightarrow> int \<Rightarrow> mics \<Rightarrow> string" where
  "transport runs st m =
     (let s = mic_of m st in
      if live runs (render_session s) then ''render''
      else if live runs (rtc_session s) then ''webrtc'' else ''websocket'')"

section \<open>Requests\<close>

text \<open>\<open>offers\<close>: the WebRTC offers, a station and a user each, that wait for their answer.\<close>

record booth =
  studio_tables :: studio_db
  booth_mics :: mics
  offers :: "(int \<times> actor) list"

type_synonym 'a booth_op = "booth \<Rightarrow> (studio_error + 'a) \<times> booth"

definition mic_allowed :: "int \<Rightarrow> actor \<Rightarrow> booth \<Rightarrow> studio_error option" where
  "mic_allowed st a b =
     (if normalized_role a = ''admin'' then None
      else case can_user_activate_mic st (a_id a) (studio_tables b) of
        (True, _) \<Rightarrow> None
      | (False, detail) \<Rightarrow> Some (Forbidden detail))"

definition start_mic_transmission :: "int \<Rightarrow> actor \<Rightarrow> unit booth_op" where
  "start_mic_transmission st a b =
     (case mic_allowed st a b of
        Some e \<Rightarrow> (Inl e, b)
      | None \<Rightarrow> (Inr (), b\<lparr>booth_mics := start_transmission st a (booth_mics b)\<rparr>))"

definition start_render_transmission :: "int \<Rightarrow> nat \<Rightarrow> actor \<Rightarrow> string \<Rightarrow> unit booth_op" where
  "start_render_transmission st h a source b =
     (case mic_allowed st a b of
        Some e \<Rightarrow> (Inl e, b)
      | None \<Rightarrow> (Inr (), b\<lparr>booth_mics := start_render st h a source (booth_mics b)\<rparr>))"

definition enforce_live_mic_ownership :: "int \<Rightarrow> booth \<Rightarrow> booth" where
  "enforce_live_mic_ownership st b =
     (let uid = (case active_user (mic_of (booth_mics b) st) of None \<Rightarrow> 0 | Some a \<Rightarrow> a_id a) in
      if uid \<le> 0 then b
      else if fst (can_user_activate_mic st uid (studio_tables b)) then b
      else b\<lparr>booth_mics := stop_live_input st (Some uid) (booth_mics b)\<rparr>)"

text \<open>A request of the service, and then the check of the microphone of its station.\<close>

definition with_enforcement :: "int \<Rightarrow> 'a studio_op \<Rightarrow> 'a booth_op" where
  "with_enforcement st op b =
     (case op (studio_tables b) of
        (Inl e, d) \<Rightarrow> (Inl e, b\<lparr>studio_tables := d\<rparr>)
      | (Inr x, d) \<Rightarrow> (Inr x, enforce_live_mic_ownership st (b\<lparr>studio_tables := d\<rparr>)))"

definition station_of :: "int \<Rightarrow> studio_db \<Rightarrow> int" where
  "station_of i d = (case get_studio i d of None \<Rightarrow> 0 | Some r \<Rightarrow> sd_station r)"

definition api_join :: "int \<Rightarrow> actor \<Rightarrow> station_view booth_op" where
  "api_join i a b = with_enforcement (station_of i (studio_tables b)) (join_studio i a) b"

definition api_leave :: "int \<Rightarrow> actor \<Rightarrow> station_view booth_op" where
  "api_leave i a b = with_enforcement (station_of i (studio_tables b)) (leave_studio i a) b"

definition api_handoff :: "int \<Rightarrow> int \<Rightarrow> int \<Rightarrow> actor \<Rightarrow> station_view booth_op" where
  "api_handoff st source target a b = with_enforcement st (handoff st source target a) b"

definition api_update_studio :: "int \<Rightarrow> actor \<Rightarrow> studio_fields \<Rightarrow> unit booth_op" where
  "api_update_studio i a f b =
     (if a_role a \<noteq> ''admin'' then (Inl (Forbidden ''Forbidden''), b)
      else case get_studio i (studio_tables b) of
        None \<Rightarrow> (Inl (Not_Found ''studio_not_found''), b)
      | Some r \<Rightarrow>
          if sf_name (clean_fields f) = Some [] then (Inl (Invalid ''studio_name_required''), b)
          else (Inr (), enforce_live_mic_ownership (sd_station r)
                  (b\<lparr>studio_tables := snd (update_row i (clean_fields f) (studio_tables b))\<rparr>)))"

definition api_create_studio :: "int \<Rightarrow> string \<Rightarrow> actor \<Rightarrow> string \<Rightarrow> int booth_op" where
  "api_create_studio st name a description b =
     (case create_studio st name a description (studio_tables b) of (x, d) \<Rightarrow> (x, b\<lparr>studio_tables := d\<rparr>))"

definition api_chat :: "int \<Rightarrow> actor \<Rightarrow> string \<Rightarrow> chat_row option booth_op" where
  "api_chat i a message b =
     (case send_chat_message i a message (studio_tables b) of (x, d) \<Rightarrow> (x, b\<lparr>studio_tables := d\<rparr>))"

text \<open>
  The socket: the WebRTC offer checks and opens the transmission, waits for the answer of the
  peer connection, and installs the session \<open>h\<close>. While it waits other requests run.
\<close>

definition offer_begin :: "int \<Rightarrow> actor \<Rightarrow> unit booth_op" where
  "offer_begin st a b =
     (case start_mic_transmission st a b of
        (Inl e, b') \<Rightarrow> (Inl e, b')
      | (Inr _, b') \<Rightarrow> (Inr (), b'\<lparr>offers := (st, a) # offers b'\<rparr>))"

definition offer_done :: "int \<Rightarrow> nat \<Rightarrow> actor \<Rightarrow> booth \<Rightarrow> booth" where
  "offer_done st h a b =
     (if (st, a) \<in> set (offers b)
      then b\<lparr>offers := remove1 (st, a) (offers b), booth_mics := start_rtc_session st h a (booth_mics b)\<rparr>
      else b)"

definition socket_audio :: "(nat \<Rightarrow> bool) \<Rightarrow> nat \<Rightarrow> int \<Rightarrow> actor \<Rightarrow> nat option booth_op" where
  "socket_audio runs fresh st a b =
     (case mic_allowed st a b of
        Some e \<Rightarrow> (Inl e, b)
      | None \<Rightarrow> (case push_chunk runs fresh st (booth_mics b) of (h, m) \<Rightarrow> (Inr h, b\<lparr>booth_mics := m\<rparr>)))"

definition stop_live_render :: "int \<Rightarrow> actor \<Rightarrow> unit booth_op" where
  "stop_live_render st a b =
     (if (case active_user (mic_of (booth_mics b) st) of None \<Rightarrow> 0 | Some u \<Rightarrow> a_id u) = a_id a
         \<or> fst (can_user_activate_mic st (a_id a) (studio_tables b))
      then (Inr (), b\<lparr>booth_mics := stop_render_transmission st (Some (a_id a)) (booth_mics b)\<rparr>)
      else (Inl (Forbidden (snd (can_user_activate_mic st (a_id a) (studio_tables b)))), b))"

end
