(* ===== verification/Studio_Props.thy ===== *)
theory Studio_Props
  imports Live_Mic
begin

text \<open>
  What the studio requests guarantee: the tables stay consistent, a handover moves the microphone,
  and nobody but the disc jockey on air and administrators keeps a transmission open.
\<close>

section \<open>The microphone in a consistent database\<close>

text \<open>At most one studio of the station is on air, so the order of the studios plays no role.\<close>

lemma mic_allowed_iff:
  assumes "studio_ok d"
  shows "fst (can_user_activate_mic st u d) \<longleftrightarrow>
    (\<exists>r \<in> set (studios d). sd_station r = st \<and> sd_on_air r \<and> sd_user r = Some u \<and> has_dj_session (sd_id r) u d)"
proof -
  have pos: "0 < v" if "has_dj_session i v d" for i v
    using that assms by (auto simp: has_dj_session_def seat_of_def studio_ok_def studio_keys_def)
  have one: "x = y" if "x \<in> set (list_by_station st d)" "y \<in> set (list_by_station st d)" "sd_on_air x" "sd_on_air y" for x y
  proof (rule row_by_id [of d])
    show "studio_keys d" using assms by (simp add: studio_ok_def)
    show "x \<in> set (studios d)" "y \<in> set (studios d)" using that by auto
    show "sd_id x = sd_id y" using assms that unfolding studio_ok_def one_on_air_def by auto
  qed
  show ?thesis
  proof (cases "find sd_on_air (list_by_station st d)")
    case None
    then have "\<not> sd_on_air r" if "r \<in> set (studios d)" "sd_station r = st" for r
      using that by (auto simp: find_None_iff)
    moreover have "\<not> fst (can_user_activate_mic st u d)" using None by (simp add: can_user_activate_mic_def)
    ultimately show ?thesis by blast
  next
    case (Some r)
    then have r: "r \<in> set (studios d)" "sd_station r = st" "sd_on_air r" by (auto dest!: find_SomeD)
    have only: "r' = r" if "r' \<in> set (studios d)" "sd_station r' = st" "sd_on_air r'" for r'
      using one [of r' r] that r by simp
    have "fst (can_user_activate_mic st u d) \<longleftrightarrow> current_user_of r = u \<and> has_dj_session (sd_id r) u d"
      using Some by (simp add: can_user_activate_mic_def)
    also have "\<dots> \<longleftrightarrow> sd_user r = Some u \<and> has_dj_session (sd_id r) u d"
      using pos [of "sd_id r" u] by (auto simp: current_user_of_def split: option.splits)
    finally show ?thesis using r only by blast
  qed
qed

lemma mic_allowed_positive:
  assumes "studio_ok d" "fst (can_user_activate_mic st u d)"
  shows "0 < u"
  using assms unfolding mic_allowed_iff [OF assms(1)]
  by (auto simp: has_dj_session_def seat_of_def studio_ok_def studio_keys_def)

section \<open>Who transmits\<close>

definition may_transmit :: "int \<Rightarrow> actor \<Rightarrow> booth \<Rightarrow> bool" where
  "may_transmit st a b \<longleftrightarrow>
     normalized_role a = ''admin'' \<or> fst (can_user_activate_mic st (a_id a) (studio_tables b))"

definition mic_owned :: "int \<Rightarrow> booth \<Rightarrow> bool" where
  "mic_owned st b \<longleftrightarrow>
     (case active_user (mic_of (booth_mics b) st) of None \<Rightarrow> True | Some a \<Rightarrow> may_transmit st a b)"

lemma mic_owned_offers [simp]: "mic_owned st (b\<lparr>offers := os\<rparr>) = mic_owned st b"
  by (simp add: mic_owned_def may_transmit_def split: option.split)

lemma mic_allowed_None: "mic_allowed st a b = None \<longleftrightarrow> may_transmit st a b"
  by (auto simp: mic_allowed_def may_transmit_def split: prod.splits bool.splits)

lemma active_user_simps [simp]:
  "active_user (mic_of (start_transmission st a m) s) = (if s = st then Some a else active_user (mic_of m s))"
  "active_user (mic_of (start_rtc_session st h a m) s) = (if s = st then Some a else active_user (mic_of m s))"
  "active_user (mic_of (start_render st h a src m) s) = (if s = st then Some a else active_user (mic_of m s))"
  "active_user (mic_of (snd (push_chunk runs f st m)) s) = active_user (mic_of m s)"
  by (simp_all add: start_transmission_def start_rtc_session_def start_render_def push_chunk_def
        set_mic_def Let_def split: option.splits)

lemma active_user_stop:
  "active_user (mic_of (stop_transmission st u m) s) = Some a \<Longrightarrow> active_user (mic_of m s) = Some a"
  "active_user (mic_of (stop_rtc_session st u m) s) = Some a \<Longrightarrow> active_user (mic_of m s) = Some a"
  "active_user (mic_of (stop_render_transmission st u m) s) = Some a \<Longrightarrow> active_user (mic_of m s) = Some a"
  by (auto simp: stop_transmission_def stop_rtc_session_def stop_render_transmission_def
        set_mic_def Let_def split: if_splits)

lemma enforce_tables [simp]: "studio_tables (enforce_live_mic_ownership st b) = studio_tables b"
  by (simp add: enforce_live_mic_ownership_def Let_def)

text \<open>The check leaves other stations alone and the transmission of its station to an owner.\<close>

lemma enforce_other: "s \<noteq> st \<Longrightarrow> mic_of (booth_mics (enforce_live_mic_ownership st b)) s = mic_of (booth_mics b) s"
  by (simp add: enforce_live_mic_ownership_def Let_def stop_live_input_def set_mic_def)

lemma enforce_here:
  assumes "active_user (mic_of (booth_mics (enforce_live_mic_ownership st b)) st) = Some a"
  shows "active_user (mic_of (booth_mics b) st) = Some a"
    and "a_id a \<le> 0 \<or> fst (can_user_activate_mic st (a_id a) (studio_tables b))"
  using assms
  by (auto simp: enforce_live_mic_ownership_def Let_def stop_live_input_def set_mic_def mic_off_def
        owned_by_def split: if_splits option.splits)

section \<open>Requests and the stations they do not concern\<close>

lemma mic_kept:
  assumes "studio_ok d" "studio_ok d'" "fst (can_user_activate_mic st u d)"
    and "\<And>r. r \<in> set (studios d) \<Longrightarrow> sd_station r = st \<Longrightarrow> sd_on_air r \<Longrightarrow>
      \<exists>r' \<in> set (studios d'). sd_id r' = sd_id r \<and> sd_station r' = st \<and> sd_on_air r' \<and> sd_user r' = sd_user r"
    and "\<And>r. r \<in> set (studios d) \<Longrightarrow> sd_station r = st \<Longrightarrow> has_dj_session (sd_id r) u d \<Longrightarrow> has_dj_session (sd_id r) u d'"
  shows "fst (can_user_activate_mic st u d')"
  using assms(3) assms(4,5) unfolding mic_allowed_iff [OF assms(1)] mic_allowed_iff [OF assms(2)] by metis

lemma join_mic_elsewhere:
  assumes ok: "studio_ok d" and "fst (can_user_activate_mic st u d)" "st \<noteq> station_of i d"
  shows "fst (can_user_activate_mic st u (snd (join_studio i a d)))"
proof (cases rule: join_cases [of i a d])
  case (refused e)
  then show ?thesis using assms by simp
next
  case (seated r d1 d2 k)
  have r: "r \<in> set (studios d)" "sd_id r = i" "station_of i d = sd_station r"
    using get_studio_SomeD [OF seated(1)] seated(1) by (simp_all add: station_of_def)
  have away: "sd_id x \<noteq> i" if "x \<in> set (studios d)" "sd_station x = st" for x
    using row_by_id [of d x r] ok that r assms(3) by (auto simp: studio_ok_def)
  have d1: "seats d1 = seats d" "x \<in> set (studios d1)" if "x \<in> set (studios d)" "sd_station x = st" for x
    using seated(3) take_desk_effect(1,7) [of i "sd_station r" a d d1] that away [OF that]
    by (auto simp: set_update_where)
  note up = upsert_effect [OF seated(4)]
  show ?thesis
  proof (rule mic_kept [OF ok join_studio_ok [OF ok] assms(2)])
    fix x
    assume x: "x \<in> set (studios d)" "sd_station x = st"
    show "\<exists>r' \<in> set (studios (snd (join_studio i a d))). sd_id r' = sd_id x \<and> sd_station r' = st \<and> sd_on_air r' \<and> sd_user r' = sd_user x"
      if "sd_on_air x"
      using d1(2) [OF x] x that up(1) unfolding seated(6) by (intro bexI [of _ x]) simp_all
    show "has_dj_session (sd_id x) u (snd (join_studio i a d))" if dj: "has_dj_session (sd_id x) u d"
    proof -
      obtain s where s: "s \<in> set (seats d)" "seat_of (sd_id x) u s" "joined s" "se_role s = ''dj''"
        using dj unfolding has_dj_session_def by blast
      then have "\<not> seat_of i (a_id a) s" using away [OF x] by (auto simp: seat_of_def)
      then have "s \<in> set (seats d2)" using up(8) [of s] s(1) d1(1) [OF x] by simp
      then show ?thesis using s unfolding seated(6) by (auto simp: has_dj_session_def)
    qed
  qed
qed

lemma leave_mic_elsewhere:
  assumes ok: "studio_ok d" and "fst (can_user_activate_mic st u d)" "st \<noteq> station_of i d"
  shows "fst (can_user_activate_mic st u (snd (leave_studio i a d)))"
proof (cases "get_studio i d")
  case None
  then show ?thesis using assms by (simp add: leave_studio_def)
next
  case (Some r)
  have r: "r \<in> set (studios d)" "sd_id r = i" "station_of i d = sd_station r"
    using get_studio_SomeD [OF Some] Some by (simp_all add: station_of_def)
  have away: "sd_id x \<noteq> i" if "x \<in> set (studios d)" "sd_station x = st" for x
    using row_by_id [of d x r] ok that r assms(3) by (auto simp: studio_ok_def)
  note s = leave_studio_state [OF Some, of a]
  show ?thesis
  proof (rule mic_kept [OF ok leave_studio_ok [OF ok] assms(2)])
    fix x
    assume x: "x \<in> set (studios d)" "sd_station x = st"
    show "\<exists>r' \<in> set (studios (snd (leave_studio i a d))). sd_id r' = sd_id x \<and> sd_station r' = st \<and> sd_on_air r' \<and> sd_user r' = sd_user x"
      if "sd_on_air x"
      using x that away [OF x] unfolding s by (intro bexI [of _ x]) (simp_all add: set_update_where)
    show "has_dj_session (sd_id x) u (snd (leave_studio i a d))" if dj: "has_dj_session (sd_id x) u d"
    proof -
      obtain p where p: "p \<in> set (seats d)" "seat_of (sd_id x) u p" "joined p" "se_role p = ''dj''"
        using dj unfolding has_dj_session_def by blast
      then have "\<not> seat_of i (a_id a) p" using away [OF x] by (auto simp: seat_of_def)
      then have "p \<in> set (seats (snd (leave_studio i a d)))"
        using p(1) unfolding s set_update_where by force
      then show ?thesis using p unfolding has_dj_session_def by blast
    qed
  qed
qed

lemma handoff_cases:
  obtains (refused) e where "handoff st i j a d = (Inl e, d)"
  | (moved) source target v where "get_studio i d = Some source" "get_studio j d = Some target"
      "require_handoff_actor a source = None" "sd_station source = st" "sd_station target = st"
      "sd_on_air source" "0 < active_dj_user_id target d"
      "handoff st i j a d = (Inr v, log_studio st (''Studio handoff: '' @ int_str i @ ''->'' @ int_str j)
         ''studio.handoff'' (put_only_on_air st j d))"
proof (cases "get_studio i d")
  case None
  then show thesis by (intro refused) (simp add: handoff_def)
next
  case source: (Some s)
  show thesis
  proof (cases "get_studio j d")
    case None
    then show thesis using source by (intro refused) (simp add: handoff_def)
  next
    case target: (Some t)
    show thesis
    proof (cases "require_handoff_actor a s")
      case None
      consider "sd_station s \<noteq> st \<or> sd_station t \<noteq> st" | "sd_station s = st" "sd_station t = st" "\<not> sd_on_air s"
        | "sd_station s = st" "sd_station t = st" "sd_on_air s" "active_dj_user_id t d \<le> 0"
        | "sd_station s = st" "sd_station t = st" "sd_on_air s" "0 < active_dj_user_id t d" by linarith
      then show thesis
      proof cases
        case 4
        define d' where "d' = log_studio st (''Studio handoff: '' @ int_str i @ ''->'' @ int_str j)
          ''studio.handoff'' (put_only_on_air st j d)"
        have "handoff st i j a d = (Inr (snapshot_station st a d'), d')"
          using 4 by (simp add: handoff_def Let_def source target None d'_def)
        then show thesis unfolding d'_def by (rule moved [OF source target None 4])
      qed (rule refused, simp add: handoff_def source target None)+
    qed (rule refused, simp add: handoff_def source target)
  qed
qed

lemma handoff_mic_elsewhere:
  assumes ok: "studio_ok d" and "fst (can_user_activate_mic st u d)" "st \<noteq> st'"
  shows "fst (can_user_activate_mic st u (snd (handoff st' i j a d)))"
proof -
  have k: "studio_keys d" using ok by (simp add: studio_ok_def)
  show ?thesis
  proof (cases rule: handoff_cases [of st' i j a d])
    case (refused e)
    then show ?thesis using assms by simp
  next
    case (moved source target v)
    show ?thesis
      by (rule mic_kept [OF ok handoff_ok [OF ok] assms(2)])
        (use assms(3) in \<open>auto simp: moved(8) put_only_on_air_studios [OF k] set_update_where has_dj_session_def\<close>)
  qed
qed

section \<open>Runs\<close>

text \<open>One request or socket message; a WebRTC offer is two, before and after its answer is awaited.\<close>

datatype booth_event =
    Default_Studio int
  | Create_Studio int string actor string
  | Update_Studio int actor studio_fields
  | Join int actor
  | Leave int actor
  | Hand_Over int int int actor
  | Chat int actor string
  | Mic_Start int actor
  | Mic_Stop int actor
  | Offer_Begin int actor
  | Offer_Done int nat actor
  | Rtc_Close int actor
  | Audio int actor nat
  | Render_Start int nat actor string
  | Render_Stop int actor

fun booth_step :: "(nat \<Rightarrow> bool) \<Rightarrow> booth_event \<Rightarrow> booth \<Rightarrow> booth" where
  "booth_step runs (Default_Studio st) b =
     b\<lparr>studio_tables := snd (ensure_default_for_station st (studio_tables b))\<rparr>"
| "booth_step runs (Create_Studio st n a x) b = snd (api_create_studio st n a x b)"
| "booth_step runs (Update_Studio i a f) b = snd (api_update_studio i a f b)"
| "booth_step runs (Join i a) b = snd (api_join i a b)"
| "booth_step runs (Leave i a) b = snd (api_leave i a b)"
| "booth_step runs (Hand_Over st i j a) b = snd (api_handoff st i j a b)"
| "booth_step runs (Chat i a m) b = snd (api_chat i a m b)"
| "booth_step runs (Mic_Start st a) b = snd (start_mic_transmission st a b)"
| "booth_step runs (Mic_Stop st a) b = b\<lparr>booth_mics := stop_transmission st (Some (a_id a)) (booth_mics b)\<rparr>"
| "booth_step runs (Offer_Begin st a) b = snd (offer_begin st a b)"
| "booth_step runs (Offer_Done st h a) b = offer_done st h a b"
| "booth_step runs (Rtc_Close st a) b = b\<lparr>booth_mics := stop_rtc_session st (Some (a_id a)) (booth_mics b)\<rparr>"
| "booth_step runs (Audio st a h) b = snd (socket_audio runs h st a b)"
| "booth_step runs (Render_Start st h a source) b = snd (start_render_transmission st h a source b)"
| "booth_step runs (Render_Stop st a) b = snd (stop_live_render st a b)"

definition booth_run :: "(nat \<Rightarrow> bool) \<Rightarrow> booth_event list \<Rightarrow> booth \<Rightarrow> booth" where
  "booth_run runs es b = fold (booth_step runs) es b"

text \<open>Whether every offer whose answer arrives is still one its user may transmit with.\<close>

fun timely :: "(nat \<Rightarrow> bool) \<Rightarrow> booth_event list \<Rightarrow> booth \<Rightarrow> bool" where
  "timely runs [] b \<longleftrightarrow> True"
| "timely runs (e # es) b \<longleftrightarrow>
     (case e of Offer_Done st h a \<Rightarrow> (st, a) \<in> set (offers b) \<longrightarrow> may_transmit st a b | _ \<Rightarrow> True) \<and>
     timely runs es (booth_step runs e b)"

text \<open>No studio yet, in a database with the stations \<open>sts\<close> and the users \<open>us\<close>.\<close>

definition first_booth :: "int list \<Rightarrow> int list \<Rightarrow> int \<Rightarrow> booth" where
  "first_booth sts us logs = \<lparr>studio_tables = \<lparr>studios = [], studio_seq = 0, seats = [], seat_seq = 0,
     chat = [], chat_seq = 0, operation_logs = [], max_logs = logs, known_stations = sts, known_users = us\<rparr>,
     booth_mics = no_mics, offers = []\<rparr>"

lemma with_enforcement_tables: "studio_tables (snd (with_enforcement st op b)) = snd (op (studio_tables b))"
  by (simp add: with_enforcement_def split: prod.split sum.split)

lemma mic_step_tables [simp]:
  "studio_tables (snd (start_mic_transmission st a b)) = studio_tables b"
  "studio_tables (snd (offer_begin st a b)) = studio_tables b"
  "studio_tables (offer_done st h a b) = studio_tables b"
  "studio_tables (snd (socket_audio runs f st a b)) = studio_tables b"
  "studio_tables (snd (start_render_transmission st h a src b)) = studio_tables b"
  "studio_tables (snd (stop_live_render st a b)) = studio_tables b"
  by (simp_all add: start_mic_transmission_def offer_begin_def offer_done_def socket_audio_def
        start_render_transmission_def stop_live_render_def split: option.split prod.split sum.split)

lemma api_tables [simp]:
  "studio_tables (snd (api_create_studio st n a x b)) = snd (create_studio st n a x (studio_tables b))"
  "studio_tables (snd (api_chat i a m b)) = snd (send_chat_message i a m (studio_tables b))"
  by (simp_all add: api_create_studio_def api_chat_def split: prod.split)

lemma booth_step_ok:
  assumes ok: "studio_ok (studio_tables b)"
  shows "studio_ok (studio_tables (booth_step runs e b))"
proof (cases e)
  case (Update_Studio i a f)
  show ?thesis using ok update_row_ok [OF ok, of "clean_fields f" i]
    by (simp add: Update_Studio api_update_studio_def clean_fields_def split: option.split)
qed (use ok in \<open>simp_all add: with_enforcement_tables api_join_def api_leave_def api_handoff_def
      join_studio_ok leave_studio_ok handoff_ok ensure_default_ok create_studio_ok send_chat_ok\<close>)

lemma booth_run_ok:
  "studio_ok (studio_tables b) \<Longrightarrow> studio_ok (studio_tables (booth_run runs es b))"
  by (induction es arbitrary: b) (simp_all add: booth_run_def booth_step_ok del: booth_step.simps)

lemma first_booth_ok: "\<forall>u \<in> set us. 0 < u \<Longrightarrow> studio_ok (studio_tables (first_booth sts us logs))"
  by (simp add: first_booth_def studio_ok_defs rising_def)

section \<open>The microphone follows the desk\<close>

lemma mic_kept_by_rows:
  assumes "studio_ok d" "studio_ok d'" "seats d' = seats d"
    and "\<And>r. r \<in> set (studios d) \<Longrightarrow> sd_on_air r \<Longrightarrow> \<exists>r' \<in> set (studios d'). sd_id r' = sd_id r
           \<and> sd_station r' = sd_station r \<and> sd_on_air r' \<and> sd_user r' = sd_user r"
    and "fst (can_user_activate_mic st u d)"
  shows "fst (can_user_activate_mic st u d')"
  using assms by (intro mic_kept [OF assms(1,2,5)]) (auto simp: has_dj_session_def)

lemma new_rows_keep_mic:
  assumes ok: "studio_ok d" and "fst (can_user_activate_mic st u d)"
  shows "fst (can_user_activate_mic st u (snd (create_studio s n a x d)))"
    and "fst (can_user_activate_mic st u (snd (ensure_default_for_station s d)))"
    and "fst (can_user_activate_mic st u (snd (send_chat_message i a m d)))"
proof -
  show "fst (can_user_activate_mic st u (snd (create_studio s n a x d)))"
    by (rule mic_kept_by_rows [OF ok create_studio_ok [OF ok] _ _ assms(2)])
      (auto simp: create_studio_def create_row_def Let_def split: option.split)
  show "fst (can_user_activate_mic st u (snd (ensure_default_for_station s d)))"
    by (rule mic_kept_by_rows [OF ok ensure_default_ok [OF ok] _ _ assms(2)])
      (auto simp: ensure_default_for_station_def create_row_def Let_def)
  show "fst (can_user_activate_mic st u (snd (send_chat_message i a m d)))"
    by (rule mic_kept_by_rows [OF ok send_chat_ok [OF ok] _ _ assms(2)])
      (auto simp: send_chat_message_def create_chat_message_def Let_def split: option.split)
qed

lemma mic_owned_enforced:
  assumes ok: "studio_ok (studio_tables b)" and owned: "\<And>s. mic_owned s b"
    and else: "\<And>s u. s \<noteq> st \<Longrightarrow> fst (can_user_activate_mic s u (studio_tables b)) \<Longrightarrow> fst (can_user_activate_mic s u d)"
  shows "mic_owned s (enforce_live_mic_ownership st (b\<lparr>studio_tables := d\<rparr>))"
proof (cases "active_user (mic_of (booth_mics (enforce_live_mic_ownership st (b\<lparr>studio_tables := d\<rparr>))) s)")
  case None
  then show ?thesis by (simp add: mic_owned_def)
next
  case (Some a)
  have before: "may_transmit s a b" if "active_user (mic_of (booth_mics b) s) = Some a"
    using owned [of s] that by (simp add: mic_owned_def)
  show ?thesis
  proof (cases "s = st")
    case True
    then have now: "active_user (mic_of (booth_mics b) st) = Some a" "a_id a \<le> 0 \<or> fst (can_user_activate_mic st (a_id a) d)"
      using enforce_here [of st "b\<lparr>studio_tables := d\<rparr>" a] Some by simp_all
    moreover have "may_transmit st a b" using before now True by simp
    ultimately show ?thesis using Some True mic_allowed_positive [OF ok, of st "a_id a"]
      by (auto simp: mic_owned_def may_transmit_def)
  next
    case False
    then show ?thesis using Some before else enforce_other [OF False, of "b\<lparr>studio_tables := d\<rparr>"]
      by (auto simp: mic_owned_def may_transmit_def)
  qed
qed

lemma with_enforcement_owned:
  assumes "studio_ok (studio_tables b)" "\<And>s. mic_owned s b"
    and "\<And>s u. s \<noteq> st \<Longrightarrow> fst (can_user_activate_mic s u (studio_tables b)) \<Longrightarrow>
           fst (can_user_activate_mic s u (snd (op (studio_tables b))))"
    and "\<And>e d. op (studio_tables b) = (Inl e, d) \<Longrightarrow> d = studio_tables b"
  shows "mic_owned s (snd (with_enforcement st op b))"
proof (cases "op (studio_tables b)")
  case (Pair x d)
  show ?thesis
  proof (cases x)
    case (Inl e)
    then show ?thesis using assms(2) [of s] assms(4) Pair by (simp add: with_enforcement_def)
  next
    case (Inr y)
    then show ?thesis using mic_owned_enforced [OF assms(1,2), of st d s] assms(3) Pair
      by (simp add: with_enforcement_def)
  qed
qed

lemma mic_owned_mics:
  assumes "\<And>s. mic_owned s b"
    and "\<And>a. active_user (mic_of m s) = Some a \<Longrightarrow> active_user (mic_of (booth_mics b) s) = Some a \<or> may_transmit s a b"
  shows "mic_owned s (b\<lparr>booth_mics := m\<rparr>)"
  using assms(1) [of s] assms(2) by (auto simp: mic_owned_def may_transmit_def split: option.splits)

lemma refusals:
  "join_studio i a d = (Inl e, d') \<Longrightarrow> d' = d" "leave_studio i a d = (Inl e, d') \<Longrightarrow> d' = d"
  "handoff st i j a d = (Inl e, d') \<Longrightarrow> d' = d"
  subgoal by (cases rule: join_cases [of i a d]) auto
  subgoal by (auto simp: leave_studio_def Let_def split: option.splits)
  subgoal by (cases rule: handoff_cases [of st i j a d]) auto
  done

lemma booth_step_owned:
  assumes ok: "studio_ok (studio_tables b)" and owned: "\<And>s. mic_owned s b" and timely: "timely runs [e] b"
  shows "mic_owned s (booth_step runs e b)"
proof -
  note start = mic_owned_mics [OF owned]
  have tables: "mic_owned s (b\<lparr>studio_tables := d\<rparr>)"
    if "\<And>u. fst (can_user_activate_mic s u (studio_tables b)) \<Longrightarrow> fst (can_user_activate_mic s u d)" for d
    using owned [of s] that by (auto simp: mic_owned_def may_transmit_def split: option.splits)
  have started: "mic_owned s (snd (start_mic_transmission st a b))" for st a
  proof (cases "mic_allowed st a b")
    case None
    then have t: "may_transmit st a b" by (simp add: mic_allowed_None)
    have "mic_owned s (b\<lparr>booth_mics := start_transmission st a (booth_mics b)\<rparr>)"
      by (rule start) (use t in \<open>auto split: if_splits\<close>)
    then show ?thesis using None by (simp add: start_mic_transmission_def)
  qed (simp add: start_mic_transmission_def owned)
  show ?thesis
  proof (cases e)
    case (Default_Studio st)
    then show ?thesis using tables new_rows_keep_mic(2) [OF ok] by simp
  next
    case (Create_Studio st n a x)
    then show ?thesis using tables new_rows_keep_mic(1) [OF ok]
      by (simp add: api_create_studio_def split: prod.split) (metis snd_conv)
  next
    case (Update_Studio i a f)
    have ok': "studio_ok (snd (update_row i (clean_fields f) (studio_tables b)))"
      by (rule update_row_ok [OF ok]) (simp add: clean_fields_def)
    have "fst (can_user_activate_mic s' u (snd (update_row i (clean_fields f) (studio_tables b))))"
      if "fst (can_user_activate_mic s' u (studio_tables b))" for s' u
      by (rule mic_kept_by_rows [OF ok ok' _ _ that])
        (auto simp: update_row_def bex_update_where set_fields_def clean_fields_def put_def
          if_distrib [of sd_id] if_distrib [of sd_station] if_distrib [of sd_on_air] if_distrib [of sd_user])
    then show ?thesis using mic_owned_enforced [OF ok owned] owned Update_Studio
      by (auto simp: api_update_studio_def split: option.split)
  next
    case (Join i a)
    show ?thesis unfolding Join booth_step.simps api_join_def
    proof (rule with_enforcement_owned [OF ok owned])
      show "d = studio_tables b" if "join_studio i a (studio_tables b) = (Inl er, d)" for er d
        using that by (rule refusals)
    qed (rule join_mic_elsewhere [OF ok])
  next
    case (Leave i a)
    show ?thesis unfolding Leave booth_step.simps api_leave_def
    proof (rule with_enforcement_owned [OF ok owned])
      show "d = studio_tables b" if "leave_studio i a (studio_tables b) = (Inl er, d)" for er d
        using that by (rule refusals)
    qed (rule leave_mic_elsewhere [OF ok])
  next
    case (Hand_Over st i j a)
    show ?thesis unfolding Hand_Over booth_step.simps api_handoff_def
    proof (rule with_enforcement_owned [OF ok owned])
      show "d = studio_tables b" if "handoff st i j a (studio_tables b) = (Inl er, d)" for er d
        using that by (rule refusals)
    qed (rule handoff_mic_elsewhere [OF ok])
  next
    case (Chat i a m)
    then show ?thesis using tables new_rows_keep_mic(3) [OF ok]
      by (simp add: api_chat_def split: prod.split) (metis snd_conv)
  next
    case (Mic_Start st a)
    then show ?thesis using started by simp
  next
    case (Mic_Stop st a)
    then show ?thesis by (auto intro!: start dest: active_user_stop(1))
  next
    case (Offer_Begin st a)
    then show ?thesis using started [of st a] Offer_Begin
      by (cases "start_mic_transmission st a b") (auto simp: offer_begin_def split: sum.split)
  next
    case (Offer_Done st h a)
    show ?thesis
    proof (cases "(st, a) \<in> set (offers b)")
      case True
      then have t: "may_transmit st a b" using timely Offer_Done by simp
      have "mic_owned s (b\<lparr>booth_mics := start_rtc_session st h a (booth_mics b)\<rparr>)"
        by (rule start) (use t in \<open>auto split: if_splits\<close>)
      moreover have "booth_step runs e b = (b\<lparr>booth_mics := start_rtc_session st h a (booth_mics b)\<rparr>)
          \<lparr>offers := remove1 (st, a) (offers b)\<rparr>" using True Offer_Done by (simp add: offer_done_def)
      ultimately show ?thesis by (simp only: mic_owned_offers)
    qed (simp add: Offer_Done offer_done_def owned)
  next
    case (Rtc_Close st a)
    then show ?thesis by (auto intro!: start dest: active_user_stop(2))
  next
    case (Audio st a h)
    have "mic_owned s (b\<lparr>booth_mics := snd (push_chunk runs h st (booth_mics b))\<rparr>)"
      by (rule start) simp
    then show ?thesis using owned Audio
      by (simp add: socket_audio_def split: option.split prod.split) (metis snd_conv)
  next
    case (Render_Start st h a source)
    show ?thesis
    proof (cases "mic_allowed st a b")
      case None
      then have t: "may_transmit st a b" by (simp add: mic_allowed_None)
      have "mic_owned s (b\<lparr>booth_mics := start_render st h a source (booth_mics b)\<rparr>)"
        by (rule start) (use t in \<open>auto split: if_splits\<close>)
      then show ?thesis using None Render_Start by (simp add: start_render_transmission_def)
    qed (simp add: Render_Start start_render_transmission_def owned)
  next
    case (Render_Stop st a)
    then show ?thesis using owned
      by (auto simp: stop_live_render_def intro!: start dest: active_user_stop(3))
  qed
qed

lemma booth_run_owned:
  assumes "studio_ok (studio_tables b)" "\<And>s. mic_owned s b" "timely runs es b"
  shows "mic_owned s (booth_run runs es b)"
  using assms
proof (induction es arbitrary: b)
  case (Cons e es)
  then have "timely runs [e] b" "timely runs es (booth_step runs e b)" by simp_all
  then show ?case using Cons booth_step_ok [OF Cons.prems(1)] booth_step_owned [OF Cons.prems(1,2)]
    by (simp add: booth_run_def del: booth_step.simps timely.simps)
qed (simp add: booth_run_def)

section \<open>Properties\<close>

text \<open>
  C33: from an empty database every sequence of studio requests and socket messages, each taken as a
  whole (the lock the code takes is one per station), keeps the tables consistent: ids and seats are unique, at most one studio of a station is on air, nobody sits in two
  studios, whoever has a desk sits in that studio, and the operation log stays within its bound.
\<close>

theorem studios_consistent:
  assumes "\<forall>u \<in> set us. 0 < u"
  shows "studio_ok (studio_tables (booth_run runs es (first_booth sts us logs)))"
  by (rule booth_run_ok [OF first_booth_ok [OF assms]])

text \<open>Two disc jockeys and an administrator in a station with two studios.\<close>

definition ada :: actor where "ada = \<lparr>a_id = 1, a_name = ''ada'', a_role = ''SuperAdmin ''\<rparr>"
definition bob :: actor where "bob = \<lparr>a_id = 2, a_name = ''bob'', a_role = ''dj''\<rparr>"
definition cem :: actor where "cem = \<lparr>a_id = 3, a_name = ''cem'', a_role = ''dj''\<rparr>"

definition two_desks :: "booth_event list" where
  "two_desks = [Create_Studio 7 ''A'' ada [], Create_Studio 7 ''B'' ada [], Join 1 bob, Join 2 cem]"

definition radio :: "booth_event list \<Rightarrow> booth" where
  "radio es = booth_run (\<lambda>_. True) es (first_booth [7] [1, 2, 3] 100)"

lemmas radio_defs = radio_def two_desks_def ada_def bob_def cem_def

theorem studios_consistent_witness:
  "studio_ok (studio_tables (radio two_desks))
   \<and> map (\<lambda>r. (sd_id r, sd_on_air r, sd_user r)) (studios (studio_tables (radio two_desks)))
     = [(1, True, Some 2), (2, False, Some 3)]"
proof
  show "studio_ok (studio_tables (radio two_desks))"
    unfolding radio_def by (rule studios_consistent) simp
  show "map (\<lambda>r. (sd_id r, sd_on_air r, sd_user r)) (studios (studio_tables (radio two_desks)))
     = [(1, True, Some 2), (2, False, Some 3)]"
    unfolding radio_defs by code_simp
qed

text \<open>
  C34: after any sequence of studio requests and socket messages, whoever a station's registry names as
  transmitting may transmit: an administrator, or the user at the desk of the studio on air with a
  disc jockey's seat there. Joining, leaving and handing over take the microphone from everybody else.
  The exception is a WebRTC offer whose answer arrives after its user lost the desk: the run must have
  none (\<open>offer_outlives_desk\<close> is a run that has one).
\<close>

theorem mic_follows_desk:
  assumes "\<forall>u \<in> set us. 0 < u"
    and "b = booth_run runs es (first_booth sts us logs)"
    and "timely runs es (first_booth sts us logs)"
    and "active_user (mic_of (booth_mics b) st) = Some a"
  shows "normalized_role a = ''admin'' \<or>
    (\<exists>r \<in> set (studios (studio_tables b)). sd_station r = st \<and> sd_on_air r \<and> sd_user r = Some (a_id a)
       \<and> has_dj_session (sd_id r) (a_id a) (studio_tables b))"
proof -
  have ok: "studio_ok (studio_tables b)"
    unfolding assms(2) by (rule booth_run_ok [OF first_booth_ok [OF assms(1)]])
  have "mic_owned st b"
    unfolding assms(2)
    by (rule booth_run_owned [OF first_booth_ok [OF assms(1)] _ assms(3)])
      (simp add: mic_owned_def first_booth_def no_mics_def mic_off_def)
  then show ?thesis using assms(4) mic_allowed_iff [OF ok, of st "a_id a"]
    by (simp add: mic_owned_def may_transmit_def)
qed

text \<open>Bob's offer is answered while he has the desk.\<close>

definition bob_on_air :: "booth_event list" where
  "bob_on_air = two_desks @ [Offer_Begin 7 bob, Chat 1 bob ''hi'', Offer_Done 7 5 bob]"

theorem mic_follows_desk_witness:
  "active_user (mic_of (booth_mics (radio bob_on_air)) 7) = Some bob
   \<and> (normalized_role bob = ''admin'' \<or>
      (\<exists>r \<in> set (studios (studio_tables (radio bob_on_air))). sd_station r = 7 \<and> sd_on_air r
         \<and> sd_user r = Some (a_id bob)
         \<and> has_dj_session (sd_id r) (a_id bob) (studio_tables (radio bob_on_air))))"
proof -
  have on: "active_user (mic_of (booth_mics (radio bob_on_air)) 7) = Some bob"
    unfolding radio_defs bob_on_air_def by code_simp
  have "timely (\<lambda>_. True) bob_on_air (first_booth [7] [1, 2, 3] 100)"
    unfolding radio_defs bob_on_air_def by code_simp
  then show ?thesis
    by (intro conjI [OF on] mic_follows_desk [OF _ radio_def _ on]) simp_all
qed

lemma handoff_effect:
  assumes "studio_ok (studio_tables b)" and "api_handoff st i j a b = (Inr v, b')"
  shows "{sd_id r |r. r \<in> set (studios (studio_tables b')) \<and> sd_station r = st \<and> sd_on_air r} = {j}"
    and "{u. fst (can_user_activate_mic st u (studio_tables b'))}
      = {u. \<exists>r \<in> set (studios (studio_tables b')). sd_id r = j \<and> sd_user r = Some u}"
    and "(case active_user (mic_of (booth_mics b) st) of
        Some c \<Rightarrow> a_id c \<le> 0 \<or> fst (can_user_activate_mic st (a_id c) (studio_tables b'))
          \<or> (active_user (mic_of (booth_mics b') st) = None \<and> read_pcm runs st (booth_mics b') = Silence)
      | None \<Rightarrow> booth_mics b' = booth_mics b)"
proof -
  let ?d = "studio_tables b"
  let ?d' = "studio_tables b'"
  have ok': "studio_ok ?d'"
    using handoff_ok [OF assms(1)] with_enforcement_tables assms(2)
    unfolding api_handoff_def by (metis snd_conv)
  obtain source target w where h: "get_studio j ?d = Some target" "sd_station target = st"
      "0 < active_dj_user_id target ?d"
      "handoff st i j a ?d = (Inr w, log_studio st (''Studio handoff: '' @ int_str i @ ''->'' @ int_str j)
         ''studio.handoff'' (put_only_on_air st j ?d))"
    using assms(2) by (cases rule: handoff_cases [of st i j a ?d])
      (auto simp: api_handoff_def with_enforcement_def)
  have t: "target \<in> set (studios ?d)" "sd_id target = j" using get_studio_SomeD [OF h(1)] by simp_all
  have b': "b' = enforce_live_mic_ownership st (b\<lparr>studio_tables := ?d'\<rparr>)"
    and d': "studios ?d' = update_where (\<lambda>x. sd_station x = st) (\<lambda>x. x\<lparr>sd_on_air := sd_id x = j\<rparr>) (studios ?d)"
      "seats ?d' = seats ?d"
    using assms h(4) put_only_on_air_studios [of ?d st j]
    by (auto simp: api_handoff_def with_enforcement_def studio_ok_def)
  have t': "target\<lparr>sd_on_air := True\<rparr> \<in> set (studios ?d')"
    using t h(2) unfolding d' set_update_where by force
  have only: "r = target\<lparr>sd_on_air := True\<rparr>" if "r \<in> set (studios ?d')" "sd_id r = j" for r
    using row_by_id [of ?d' r "target\<lparr>sd_on_air := True\<rparr>"] ok' that t t' by (simp add: studio_ok_def)
  have on: "sd_on_air r \<longleftrightarrow> sd_id r = j" if "r \<in> set (studios ?d')" "sd_station r = st" for r
  proof -
    have "r \<in> (\<lambda>x. if sd_station x = st then x\<lparr>sd_on_air := sd_id x = j\<rparr> else x) ` set (studios ?d)"
      using that(1) unfolding d' set_update_where .
    then obtain x where "r = (if sd_station x = st then x\<lparr>sd_on_air := sd_id x = j\<rparr> else x)"
      by (elim imageE)
    then show ?thesis using that(2) by (cases "sd_station x = st") simp_all
  qed
  show "{sd_id r |r. r \<in> set (studios ?d') \<and> sd_station r = st \<and> sd_on_air r} = {j}"
  proof (intro equalityI subsetI)
    fix x
    assume "x \<in> {sd_id r |r. r \<in> set (studios ?d') \<and> sd_station r = st \<and> sd_on_air r}"
    then show "x \<in> {j}" using on by blast
  next
    fix x
    assume "x \<in> {j}"
    then show "x \<in> {sd_id r |r. r \<in> set (studios ?d') \<and> sd_station r = st \<and> sd_on_air r}"
      using t' t(2) h(2) by (intro CollectI exI [of _ "target\<lparr>sd_on_air := True\<rparr>"]) simp
  qed
  obtain u where u: "sd_user target = Some u" "has_dj_session j u ?d'"
    using h(3) t(2) has_dj_cong [OF d'(2)] by (auto simp: active_dj_user_id_def split: option.splits if_splits)
  show "{u. fst (can_user_activate_mic st u ?d')} = {u. \<exists>r \<in> set (studios ?d'). sd_id r = j \<and> sd_user r = Some u}"
    unfolding mic_allowed_iff [OF ok']
  proof (intro Collect_cong iffI)
    fix x
    assume "\<exists>r \<in> set (studios ?d'). sd_station r = st \<and> sd_on_air r \<and> sd_user r = Some x \<and> has_dj_session (sd_id r) x ?d'"
    then show "\<exists>r \<in> set (studios ?d'). sd_id r = j \<and> sd_user r = Some x" using on by blast
  next
    fix x
    assume "\<exists>r \<in> set (studios ?d'). sd_id r = j \<and> sd_user r = Some x"
    then have "Some x = Some u" using only u(1) by fastforce
    then have "x = u" by simp
    then show "\<exists>r \<in> set (studios ?d'). sd_station r = st \<and> sd_on_air r \<and> sd_user r = Some x \<and> has_dj_session (sd_id r) x ?d'"
      using t' t h(2) u by (intro bexI [OF _ t']) simp
  qed
  show "(case active_user (mic_of (booth_mics b) st) of
        Some c \<Rightarrow> a_id c \<le> 0 \<or> fst (can_user_activate_mic st (a_id c) ?d')
          \<or> (active_user (mic_of (booth_mics b') st) = None \<and> read_pcm runs st (booth_mics b') = Silence)
      | None \<Rightarrow> booth_mics b' = booth_mics b)"
  proof (cases "active_user (mic_of (booth_mics b) st)")
    case None
    then show ?thesis by (subst b') (simp add: enforce_live_mic_ownership_def)
  next
    case (Some c)
    show ?thesis
    proof (cases "a_id c \<le> 0 \<or> fst (can_user_activate_mic st (a_id c) ?d')")
      case False
      have "booth_mics b' = stop_live_input st (Some (a_id c)) (booth_mics b)"
        by (subst b') (use False Some in \<open>simp add: enforce_live_mic_ownership_def\<close>)
      then show ?thesis using Some
        by (simp add: stop_live_input_def set_mic_def mic_off_def owned_by_def read_pcm_def live_def Let_def)
    qed (use Some in auto)
  qed
qed

text \<open>
  A handover that succeeds puts exactly the target studio of the station on air, lets exactly the
  user at the target's desk open the microphone, and silences a transmission of anybody else.
\<close>

theorem handoff_moves_mic:
  assumes "studio_ok (studio_tables b)" and "api_handoff st i j a b = (Inr v, b')"
  shows "{sd_id r |r. r \<in> set (studios (studio_tables b')) \<and> sd_station r = st \<and> sd_on_air r} = {j}
    \<and> {u. fst (can_user_activate_mic st u (studio_tables b'))}
      = {u. \<exists>r \<in> set (studios (studio_tables b')). sd_id r = j \<and> sd_user r = Some u}
    \<and> (case active_user (mic_of (booth_mics b) st) of
        Some c \<Rightarrow> a_id c \<le> 0 \<or> fst (can_user_activate_mic st (a_id c) (studio_tables b'))
          \<or> (active_user (mic_of (booth_mics b') st) = None \<and> read_pcm runs st (booth_mics b') = Silence)
      | None \<Rightarrow> booth_mics b' = booth_mics b)"
  by (intro conjI handoff_effect [OF assms])

text \<open>Bob talks and hands over to Cem's studio.\<close>

theorem handoff_moves_mic_witness:
  "\<exists>v b'. api_handoff 7 1 2 bob (radio (two_desks @ [Mic_Start 7 bob])) = (Inr v, b')
     \<and> {u. fst (can_user_activate_mic 7 u (studio_tables b'))} = {3}
     \<and> active_user (mic_of (booth_mics b') 7) = None"
proof -
  let ?b = "radio (two_desks @ [Mic_Start 7 bob])"
  have ok: "studio_ok (studio_tables ?b)"
    unfolding radio_def by (rule booth_run_ok [OF first_booth_ok]) simp
  obtain x b' where h: "api_handoff 7 1 2 bob ?b = (x, b')" by (cases "api_handoff 7 1 2 bob ?b")
  have "\<not> isl (fst (api_handoff 7 1 2 bob ?b))" unfolding radio_defs by code_simp
  then obtain v where v: "x = Inr v" using h by (cases x) auto
  have rows: "map (\<lambda>r. (sd_id r, sd_user r)) (studios (studio_tables (snd (api_handoff 7 1 2 bob ?b)))) = [(1, Some 2), (2, Some 3)]"
    unfolding radio_defs by code_simp
  have "(\<exists>r \<in> set (studios (studio_tables b')). sd_id r = 2 \<and> sd_user r = Some u) \<longleftrightarrow>
      (2, Some u) \<in> set (map (\<lambda>r. (sd_id r, sd_user r)) (studios (studio_tables b')))" for u
    by force
  then have "{u. \<exists>r \<in> set (studios (studio_tables b')). sd_id r = 2 \<and> sd_user r = Some u} = {3}"
    using rows h by (simp del: set_map)
  then have "{u. fst (can_user_activate_mic 7 u (studio_tables b'))} = {3}"
    using handoff_moves_mic [OF ok h [unfolded v]] by simp
  moreover have "active_user (mic_of (booth_mics (snd (api_handoff 7 1 2 bob ?b))) 7) = None"
    unfolding radio_defs by code_simp
  ultimately show ?thesis using h v by auto
qed

section \<open>Where the microphone does not follow\<close>

text \<open>
  The offer checks the desk before it waits for the peer connection and installs the session without
  checking again: a disc jockey who has left meanwhile transmits.
\<close>

theorem offer_outlives_desk:
  "let b = radio (two_desks @ [Offer_Begin 7 bob, Leave 1 bob, Offer_Done 7 5 bob])
   in active_user (mic_of (booth_mics b) 7) = Some bob \<and> read_pcm (\<lambda>_. True) 7 (booth_mics b) = Session 5
     \<and> fst (can_user_activate_mic 7 (a_id bob) (studio_tables b)) = False"
  unfolding radio_defs by code_simp

text \<open>An administrator may open the microphone without a desk, and loses it to the next studio request.\<close>

theorem join_cuts_administrator:
  "active_user (mic_of (booth_mics (radio [Default_Studio 7, Mic_Start 7 ada])) 7) = Some ada
   \<and> active_user (mic_of (booth_mics (radio [Default_Studio 7, Mic_Start 7 ada, Join 1 bob])) 7) = None"
  unfolding radio_defs by code_simp

end
