(* ===== verification/Guest_Room.thy ===== *)
theory Guest_Room
  imports Studios Sha256
begin

text \<open>
  The guest room of a studio (\<open>services/guest_room_service.py\<close>) and the recordings that need the
  guests' consent (\<open>services/program_recording.py\<close>). Every operation opens a connection of its own
  and commits before it returns or raises, so one operation is one step, except where its reads and
  its writes are split below. Tokens, clock readings and the success of starting a recorder are
  arguments. Left out: audit records, replication, the files and mirrors of a recording.
\<close>

section \<open>Tables\<close>

record invite_row =
  gi_id :: int
  gi_studio :: int
  gi_station :: int
  gi_token :: string
  gi_by :: int
  gi_expires :: rat
  gi_redeemed :: "rat option"
  gi_revoked :: "rat option"

text \<open>No operation writes the status \<open>left\<close>.\<close>

datatype guest_status = Lobby | Admitted | Rejected | Kicked

record guest_row =
  gs_id :: int
  gs_invite :: int
  gs_studio :: int
  gs_station :: int
  gs_name :: string
  gs_token :: string
  gs_status :: guest_status
  gs_connected :: bool
  gs_muted :: bool
  gs_on_air :: bool
  gs_gain :: rat
  gs_quality :: string

datatype rec_status = Pending_Consent | Recording | Cancelled | Completed | Interrupted | Deleted

text \<open>An entry of \<open>segments\<close> in \<open>manifest_json\<close>, without its paths.\<close>

record segment =
  sg_started :: rat
  sg_stopped :: "rat option"
  sg_reason :: "string option"

record recording_row =
  gr_id :: int
  gr_studio :: int
  gr_station :: int
  gr_status :: rec_status
  gr_by :: int
  gr_expires :: rat
  gr_segments :: "segment list"
  gr_reason :: string

datatype decision = Undecided | Accepted | Declined

record consent_row =
  gc_recording :: int
  gc_session :: int
  gc_decision :: decision

text \<open>
  \<open>recorders\<close> (from the station to the recording, in the order of insertion) and \<open>timers\<close> are the
  fields of the recording service; \<open>controls\<close> and \<open>loaded_at\<close> the cache of the audio mixer.
\<close>

record room =
  room_studios :: "studio_row list"
  invites :: "invite_row list"
  guests :: "guest_row list"
  recordings :: "recording_row list"
  consents :: "consent_row list"
  recorders :: "(int \<times> int) list"
  timers :: "int list"
  controls :: "guest_row list"
  loaded_at :: rat

datatype room_error =
    Room_Error string
  | Recording_Error string
  | Bad_Retention
  | Token_Taken

type_synonym 'a room_op = "room \<Rightarrow> (room_error + 'a) \<times> room"

definition room_studio :: "int \<Rightarrow> room \<Rightarrow> studio_row option" where
  "room_studio i r = find (\<lambda>s. sd_id s = i) (room_studios r)"

definition guest_of :: "int \<Rightarrow> room \<Rightarrow> guest_row option" where
  "guest_of i r = find (\<lambda>g. gs_id g = i) (guests r)"

definition guest_in :: "int \<Rightarrow> int \<Rightarrow> room \<Rightarrow> guest_row option" where
  "guest_in studio i r = find (\<lambda>g. gs_id g = i \<and> gs_studio g = studio) (guests r)"

definition recording_of :: "int \<Rightarrow> room \<Rightarrow> recording_row option" where
  "recording_of i r = find (\<lambda>x. gr_id x = i) (recordings r)"

definition set_guest :: "int \<Rightarrow> (guest_row \<Rightarrow> guest_row) \<Rightarrow> room \<Rightarrow> room" where
  "set_guest i f r = r\<lparr>guests := update_where (\<lambda>g. gs_id g = i) f (guests r)\<rparr>"

definition set_recording :: "int \<Rightarrow> (recording_row \<Rightarrow> recording_row) \<Rightarrow> room \<Rightarrow> room" where
  "set_recording i f r = r\<lparr>recordings := update_where (\<lambda>x. gr_id x = i) f (recordings r)\<rparr>"

definition invalidate_controls :: "room \<Rightarrow> room" where
  "invalidate_controls r = r\<lparr>loaded_at := 0\<rparr>"

definition token_digest :: "string \<Rightarrow> string" where
  "token_digest t = sha256 t"

section \<open>Invitations and sessions\<close>

fun split_words :: "string \<Rightarrow> string list" where
  "split_words [] = []"
| "split_words (c # cs) =
     (if is_space c then split_words cs
      else case (cs, split_words cs) of
        ([], _) \<Rightarrow> [[c]]
      | (d # _, ws) \<Rightarrow> if is_space d then [c] # ws else (case ws of [] \<Rightarrow> [[c]] | w # ws' \<Rightarrow> (c # w) # ws'))"

definition normalized_name :: "string \<Rightarrow> string" where
  "normalized_name s = join_char CHR '' '' (split_words (strip s))"

definition create_invite :: "rat \<Rightarrow> string \<Rightarrow> int \<Rightarrow> int \<Rightarrow> int room_op" where
  "create_invite now token actor_id studio r =
     (case find (\<lambda>s. sd_id s = studio \<and> sd_active s) (room_studios r) of
        None \<Rightarrow> (Inl (Room_Error ''studio_not_found''), r)
      | Some s \<Rightarrow>
          if token_digest token \<in> set (map gi_token (invites r)) then (Inl Token_Taken, r)
          else let i = next_rowid (map gi_id (invites r)) in
            (Inr i, r\<lparr>invites := invites r @ [\<lparr>gi_id = i, gi_studio = studio, gi_station = sd_station s,
               gi_token = token_digest token, gi_by = actor_id, gi_expires = now + 7200,
               gi_redeemed = None, gi_revoked = None\<rparr>]\<rparr>))"

definition revoke_invite :: "rat \<Rightarrow> int \<Rightarrow> int \<Rightarrow> unit room_op" where
  "revoke_invite now studio i r =
     (case find (\<lambda>v. gi_id v = i \<and> gi_studio v = studio) (invites r) of
        None \<Rightarrow> (Inl (Room_Error ''guest_invite_not_found''), r)
      | Some _ \<Rightarrow>
          (Inr (), r\<lparr>invites := update_where (\<lambda>v. gi_id v = i)
             (gi_revoked_update (\<lambda>_. Some (current_timestamp now))) (invites r)\<rparr>))"

definition redeem_check :: "rat \<Rightarrow> string \<Rightarrow> string \<Rightarrow> room \<Rightarrow> room_error + invite_row" where
  "redeem_check now token name r =
     (if \<not> (1 \<le> length (normalized_name name) \<and> length (normalized_name name) \<le> 80)
      then Inl (Room_Error ''guest_display_name_required'')
      else case find (\<lambda>v. gi_token v = token_digest token) (invites r) of
        None \<Rightarrow> Inl (Room_Error ''guest_invite_invalid'')
      | Some v \<Rightarrow>
          if gi_revoked v \<noteq> None \<or> gi_redeemed v \<noteq> None then Inl (Room_Error ''guest_invite_unavailable'')
          else if gi_expires v \<le> now then Inl (Room_Error ''guest_invite_expired'')
          else Inr v)"

definition redeem_write :: "rat \<Rightarrow> string \<Rightarrow> string \<Rightarrow> invite_row \<Rightarrow> int room_op" where
  "redeem_write now session_token name v r =
     (if token_digest session_token \<in> set (map gs_token (guests r)) then (Inl Token_Taken, r)
      else let i = next_rowid (map gs_id (guests r)) in
        (Inr i, r\<lparr>guests := guests r @ [\<lparr>gs_id = i, gs_invite = gi_id v, gs_studio = gi_studio v,
             gs_station = gi_station v, gs_name = normalized_name name, gs_token = token_digest session_token,
             gs_status = Lobby, gs_connected = False, gs_muted = False, gs_on_air = False, gs_gain = 0,
             gs_quality = ''unknown''\<rparr>],
           invites := update_where (\<lambda>w. gi_id w = gi_id v)
             (gi_redeemed_update (\<lambda>_. Some (current_timestamp now))) (invites r)\<rparr>))"

definition redeem :: "rat \<Rightarrow> string \<Rightarrow> string \<Rightarrow> string \<Rightarrow> int room_op" where
  "redeem now token session_token name r =
     (case redeem_check now token name r of
        Inl e \<Rightarrow> (Inl e, r)
      | Inr v \<Rightarrow> redeem_write now session_token name v r)"

definition authenticate_session :: "string \<Rightarrow> room \<Rightarrow> room_error + guest_row" where
  "authenticate_session token r =
     (case find (\<lambda>g. gs_token g = token_digest token) (guests r) of
        None \<Rightarrow> Inl (Room_Error ''guest_session_invalid'')
      | Some g \<Rightarrow>
          if gs_status g = Rejected \<or> gs_status g = Kicked then Inl (Room_Error ''guest_session_invalid'')
          else Inr g)"

definition set_connected :: "int \<Rightarrow> bool \<Rightarrow> string \<Rightarrow> guest_row option room_op" where
  "set_connected i up quality r =
     (let r' = invalidate_controls (set_guest i
           (\<lambda>g. g\<lparr>gs_connected := up, gs_quality := take 32 (or_default ''unknown'' quality)\<rparr>) r)
      in (Inr (guest_of i r'), r'))"

section \<open>The operator's side\<close>

definition max_admitted_guests :: nat where
  "max_admitted_guests = 4"

definition admitted_in :: "int \<Rightarrow> room \<Rightarrow> guest_row list" where
  "admitted_in studio r = filter (\<lambda>g. gs_studio g = studio \<and> gs_status g = Admitted) (guests r)"

definition consented :: "int \<Rightarrow> int \<Rightarrow> room \<Rightarrow> bool" where
  "consented recording i r \<longleftrightarrow>
     (case find (\<lambda>c. gc_recording c = recording \<and> gc_session c = i) (consents r) of
        None \<Rightarrow> False | Some c \<Rightarrow> gc_decision c = Accepted)"

definition admit_check :: "int \<Rightarrow> int \<Rightarrow> room \<Rightarrow> room_error option" where
  "admit_check studio i r =
     (if (case guest_in studio i r of None \<Rightarrow> True | Some g \<Rightarrow> gs_status g \<noteq> Lobby)
      then Some (Room_Error ''guest_session_not_in_lobby'')
      else if max_admitted_guests \<le> length (admitted_in studio r) then Some (Room_Error ''guest_room_full'')
      else case find (\<lambda>x. gr_studio x = studio \<and> gr_status x = Recording) (recordings r) of
        None \<Rightarrow> None
      | Some x \<Rightarrow> if consented (gr_id x) i r then None else Some (Room_Error ''recording_consent_required''))"

definition admit_write :: "int \<Rightarrow> room \<Rightarrow> room" where
  "admit_write i r = invalidate_controls (set_guest i (\<lambda>g. g\<lparr>gs_status := Admitted, gs_on_air := False\<rparr>) r)"

definition admit :: "int \<Rightarrow> int \<Rightarrow> guest_row option room_op" where
  "admit studio i r =
     (case admit_check studio i r of
        Some e \<Rightarrow> (Inl e, r)
      | None \<Rightarrow> (let r' = admit_write i r in (Inr (guest_of i r'), r')))"

definition reject_or_kick :: "int \<Rightarrow> int \<Rightarrow> bool \<Rightarrow> guest_status room_op" where
  "reject_or_kick studio i rejecting r =
     (case guest_in studio i r of
        None \<Rightarrow> (Inl (Room_Error ''guest_session_not_found''), r)
      | Some _ \<Rightarrow>
          let s = (if rejecting then Rejected else Kicked)
          in (Inr s, invalidate_controls (set_guest i (\<lambda>g. g\<lparr>gs_status := s, gs_on_air := False\<rparr>) r)))"

definition update_audio_check :: "int \<Rightarrow> int \<Rightarrow> rat option \<Rightarrow> room \<Rightarrow> room_error option" where
  "update_audio_check studio i gain r =
     (if (case guest_in studio i r of None \<Rightarrow> True | Some g \<Rightarrow> gs_status g \<noteq> Admitted)
      then Some (Room_Error ''guest_session_not_admitted'')
      else if (case gain of None \<Rightarrow> False | Some x \<Rightarrow> \<not> (-24 \<le> x \<and> x \<le> 12))
      then Some (Room_Error ''invalid_guest_gain'')
      else None)"

definition update_audio_write :: "int \<Rightarrow> bool option \<Rightarrow> bool option \<Rightarrow> rat option \<Rightarrow> room \<Rightarrow> room" where
  "update_audio_write i muted on_air gain r =
     invalidate_controls (set_guest i (\<lambda>g. g\<lparr>gs_muted := put muted (gs_muted g),
       gs_on_air := put on_air (gs_on_air g), gs_gain := put gain (gs_gain g)\<rparr>) r)"

definition update_audio ::
  "int \<Rightarrow> int \<Rightarrow> bool option \<Rightarrow> bool option \<Rightarrow> rat option \<Rightarrow> guest_row option room_op" where
  "update_audio studio i muted on_air gain r =
     (case update_audio_check studio i gain r of
        Some e \<Rightarrow> (Inl e, r)
      | None \<Rightarrow> (let r' = update_audio_write i muted on_air gain r in (Inr (guest_of i r'), r')))"

definition all_off_air :: "int \<Rightarrow> nat room_op" where
  "all_off_air studio r =
     (case room_studio studio r of
        None \<Rightarrow> (Inl (Room_Error ''studio_not_found''), r)
      | Some _ \<Rightarrow>
          (Inr (length (admitted_in studio r)),
           invalidate_controls (r\<lparr>guests := update_where (\<lambda>g. gs_studio g = studio \<and> gs_status g = Admitted)
             (gs_on_air_update (\<lambda>_. False)) (guests r)\<rparr>)))"

definition guest_self_mute :: "string \<Rightarrow> bool \<Rightarrow> int room_op" where
  "guest_self_mute token muted r =
     (case authenticate_session token r of
        Inl e \<Rightarrow> (Inl e, r)
      | Inr g \<Rightarrow> (Inr (gs_id g), invalidate_controls (set_guest (gs_id g) (gs_muted_update (\<lambda>_. muted)) r)))"

end
