(* ===== verification/Guest_Recording.thy ===== *)
theory Guest_Recording
  imports Guest_Room
begin

text \<open>
  \<open>ProgramRecordingService\<close> (\<open>services/program_recording.py\<close>): asking for consent, starting,
  stopping and resuming a recording of a studio's programme, and what the audio mixer
  (\<open>audio/guest_audio_registry.py\<close>) lets be heard.
\<close>

section \<open>Starting\<close>

definition close_last :: "(segment \<Rightarrow> segment) \<Rightarrow> segment list \<Rightarrow> segment list" where
  "close_last f segs = (if segs = [] then [] else butlast segs @ [f (last segs)])"

text \<open>\<open>setdefault\<close>: an entry that is there stays.\<close>

definition default_to :: "'a \<Rightarrow> 'a option \<Rightarrow> 'a option" where
  "default_to x old = (case old of None \<Rightarrow> Some x | Some y \<Rightarrow> Some y)"

definition new_segments :: "rat \<Rightarrow> bool \<Rightarrow> recording_row \<Rightarrow> segment list" where
  "new_segments now resume x =
     (let segs = (if resume then gr_segments x else []);
          closed = (if resume then close_last (\<lambda>s. s\<lparr>sg_stopped := default_to now (sg_stopped s),
                      sg_reason := default_to ''leadership_lost'' (sg_reason s)\<rparr>) segs else segs)
      in closed @ [\<lparr>sg_started = now, sg_stopped = None, sg_reason = None\<rparr>])"

text \<open>
  \<open>_start\<close>: \<open>can_record\<close> tells whether the recorder process could be started; its exception is raised
  after the timer of the consent is gone.
\<close>

definition start_recording :: "rat \<Rightarrow> bool \<Rightarrow> bool \<Rightarrow> int \<Rightarrow> unit room_op" where
  "start_recording now can_record resume i r0 =
     (let r = r0\<lparr>timers := removeAll i (timers r0)\<rparr> in
      case recording_of i r of
        None \<Rightarrow> (Inr (), r)
      | Some x \<Rightarrow>
          if gr_status x \<noteq> (if resume then Recording else Pending_Consent) then (Inr (), r)
          else if gr_station x \<in> set (map fst (recorders r)) then (Inr (), r)
          else if \<not> can_record then (Inl (Recording_Error ''ffmpeg_unavailable''), r)
          else (Inr (), set_recording i (\<lambda>x. x\<lparr>gr_status := Recording, gr_segments := new_segments now resume x,
                  gr_reason := []\<rparr>) (r\<lparr>recorders := recorders r @ [(gr_station x, i)]\<rparr>)))"

definition recording_status :: "int \<Rightarrow> room \<Rightarrow> room_error + recording_row" where
  "recording_status i r =
     (case recording_of i r of None \<Rightarrow> Inl (Recording_Error ''recording_not_found'') | Some x \<Rightarrow> Inr x)"

definition with_status :: "int \<Rightarrow> (room_error + 'a) \<times> room \<Rightarrow> (room_error + recording_row) \<times> room" where
  "with_status i res = (case res of (Inl e, r) \<Rightarrow> (Inl e, r) | (Inr _, r) \<Rightarrow> (recording_status i r, r))"

text \<open>\<open>retention\<close> is the station's setting, a text.\<close>

definition retention_days :: "string option \<Rightarrow> int option" where
  "retention_days raw =
     (case raw of None \<Rightarrow> Some 30
      | Some s \<Rightarrow> map_option (\<lambda>n. max 1 (min 365 n)) (if s = [] then Some 30 else py_int s))"

definition asked_guests :: "int \<Rightarrow> room \<Rightarrow> guest_row list" where
  "asked_guests studio r =
     filter (\<lambda>g. gs_studio g = studio \<and> gs_status g = Admitted \<and> gs_connected g) (guests r)"

definition request_recording ::
  "rat \<Rightarrow> bool \<Rightarrow> string option \<Rightarrow> int \<Rightarrow> int \<Rightarrow> recording_row room_op" where
  "request_recording now can_record retention actor_id studio r =
     (case room_studio studio r of
        None \<Rightarrow> (Inl (Recording_Error ''studio_not_found''), r)
      | Some s \<Rightarrow>
          if \<exists>x \<in> set (recordings r). gr_studio x = studio \<and> (gr_status x = Pending_Consent \<or> gr_status x = Recording)
          then (Inl (Recording_Error ''recording_already_active''), r)
          else case retention_days retention of
            None \<Rightarrow> (Inl Bad_Retention, r)
          | Some days \<Rightarrow>
              let i = next_rowid (map gr_id (recordings r));
                  asked = asked_guests studio r;
                  r1 = r\<lparr>recordings := recordings r @ [\<lparr>gr_id = i, gr_studio = studio,
                           gr_station = sd_station s, gr_status = Pending_Consent, gr_by = actor_id,
                           gr_expires = now + of_int (86400 * days), gr_segments = [], gr_reason = []\<rparr>],
                         consents := consents r @ map (\<lambda>g. \<lparr>gc_recording = i, gc_session = gs_id g,
                           gc_decision = Undecided\<rparr>) asked\<rparr>
              in with_status i
                   (if asked = [] then start_recording now can_record False i r1
                    else (Inr (), r1\<lparr>timers := timers r1 @ [i]\<rparr>)))"

definition cancel_recording :: "string \<Rightarrow> recording_row \<Rightarrow> recording_row" where
  "cancel_recording reason x = x\<lparr>gr_status := Cancelled, gr_reason := reason\<rparr>"

text \<open>The timer of a recording has run out.\<close>

definition expire_consent :: "int \<Rightarrow> room \<Rightarrow> room" where
  "expire_consent i r = r\<lparr>recordings := update_where (\<lambda>x. gr_id x = i \<and> gr_status x = Pending_Consent)
     (cancel_recording ''consent_timeout'') (recordings r), timers := removeAll i (timers r)\<rparr>"

definition decided :: "int \<Rightarrow> decision \<Rightarrow> room \<Rightarrow> bool" where
  "decided i d r \<longleftrightarrow> (\<exists>c \<in> set (consents r). gc_recording c = i \<and> gc_decision c = d)"

definition set_consent :: "int \<Rightarrow> int \<Rightarrow> decision \<Rightarrow> room \<Rightarrow> room" where
  "set_consent i s d r = r\<lparr>consents := update_where (\<lambda>c. gc_recording c = i \<and> gc_session c = s)
     (gc_decision_update (\<lambda>_. d)) (consents r)\<rparr>"

definition consent :: "rat \<Rightarrow> bool \<Rightarrow> int \<Rightarrow> string \<Rightarrow> bool \<Rightarrow> recording_row room_op" where
  "consent now can_record i token accepted r =
     (case authenticate_session token r of
        Inl e \<Rightarrow> (Inl e, r)
      | Inr g \<Rightarrow>
          if \<not> (\<exists>c \<in> set (consents r). gc_recording c = i \<and> gc_session c = gs_id g)
          then (Inl (Recording_Error ''recording_consent_not_requested''), r)
          else if accepted
          then let r1 = set_consent i (gs_id g) Accepted r
            in with_status i (if \<not> decided i Undecided r1 \<and> \<not> decided i Declined r1
                              then start_recording now can_record False i r1 else (Inr (), r1))
          else let r1 = set_recording i (cancel_recording ''consent_declined'') (set_consent i (gs_id g) Declined r)
            in with_status i (Inr (), r1\<lparr>timers := removeAll i (timers r1)\<rparr>))"

section \<open>Stopping\<close>

text \<open>
  \<open>stop\<close> takes the recorder of the recording's station, whichever recording it belongs to; \<open>failed\<close> is
  that recorder's error.
\<close>

definition stop_recording :: "rat \<Rightarrow> string \<Rightarrow> string \<Rightarrow> int \<Rightarrow> recording_row room_op" where
  "stop_recording now failed reason i r =
     (case recording_of i r of
        None \<Rightarrow> (Inl (Recording_Error ''recording_not_found''), r)
      | Some x \<Rightarrow>
          let active = map_of (recorders r) (gr_station x);
              failure = or_default (case active of None \<Rightarrow> [] | Some _ \<Rightarrow> failed) reason;
              status = (if failure = ''leadership_lost'' then Recording
                        else if failure \<noteq> [] then Interrupted else Completed);
              r1 = set_recording i (\<lambda>x. x\<lparr>gr_status := status, gr_reason := failure,
                     gr_segments := close_last (\<lambda>s. s\<lparr>sg_stopped := Some now,
                       sg_reason := (if failure = [] then sg_reason s else Some failure)\<rparr>) (gr_segments x)\<rparr>)
                   (r\<lparr>recorders := filter (\<lambda>p. fst p \<noteq> gr_station x) (recorders r)\<rparr>)
          in (recording_status i r1, r1))"

definition stop_all :: "rat \<Rightarrow> string \<Rightarrow> string \<Rightarrow> room \<Rightarrow> nat \<times> room" where
  "stop_all now failed reason r =
     (let ids = map snd (recorders r) in
      (length ids, fold (\<lambda>i s. snd (stop_recording now failed reason i s)) ids (r\<lparr>timers := []\<rparr>)))"

definition interrupt_station :: "rat \<Rightarrow> string \<Rightarrow> string \<Rightarrow> int \<Rightarrow> bool room_op" where
  "interrupt_station now failed reason st r =
     (case map_of (recorders r) st of
        None \<Rightarrow> (Inr False, r)
      | Some i \<Rightarrow> (case stop_recording now failed (or_default ''runtime_stopped'' reason) i r of
            (Inl e, r') \<Rightarrow> (Inl e, r') | (Inr _, r') \<Rightarrow> (Inr True, r')))"

text \<open>\<open>publish_pcm\<close> when the recorder does not take the chunk: it is stopped by a thread of its own.\<close>

definition recorder_failed :: "rat \<Rightarrow> string \<Rightarrow> int \<Rightarrow> room \<Rightarrow> room" where
  "recorder_failed now failed st r =
     (case map_of (recorders r) st of
        None \<Rightarrow> r
      | Some i \<Rightarrow> snd (stop_recording now failed ''recorder_backpressure_or_failure'' i r))"

definition resume_replicated_recordings :: "rat \<Rightarrow> bool \<Rightarrow> room \<Rightarrow> nat \<times> room" where
  "resume_replicated_recordings now can_record r =
     fold (\<lambda>i (n, s). case start_recording now can_record True i s of
         (Inr _, s') \<Rightarrow> (n + 1, s') | (Inl _, s') \<Rightarrow> (n, s'))
       (map gr_id (filter (\<lambda>x. gr_status x = Recording) (recordings r))) (0, r)"

section \<open>Deleting\<close>

definition delete_recording :: "int \<Rightarrow> unit room_op" where
  "delete_recording i r =
     (case recording_of i r of
        None \<Rightarrow> (Inl (Recording_Error ''recording_not_found''), r)
      | Some x \<Rightarrow>
          if gr_status x = Recording \<or> gr_status x = Pending_Consent
          then (Inl (Recording_Error ''recording_is_active''), r)
          else (Inr (), set_recording i (gr_status_update (\<lambda>_. Deleted)) r))"

definition cleanup_recordings :: "rat \<Rightarrow> room \<Rightarrow> nat \<times> room" where
  "cleanup_recordings now r =
     fold (\<lambda>i (n, s). case delete_recording i s of (Inr _, s') \<Rightarrow> (n + 1, s') | (Inl _, s') \<Rightarrow> (n, s'))
       (map gr_id (filter (\<lambda>x. gr_expires x < now \<and> gr_status x \<notin> {Recording, Pending_Consent, Deleted})
          (recordings r))) (0, r)"

section \<open>What is heard\<close>

text \<open>
  \<open>_controls\<close>: the rows of admitted sessions, read from the database at most every 200 ms. \<open>tick\<close> is
  the monotonic clock.
\<close>

definition read_controls :: "room \<Rightarrow> guest_row list" where
  "read_controls r = filter (\<lambda>g. gs_status g = Admitted) (guests r)"

definition store_controls :: "rat \<Rightarrow> guest_row list \<Rightarrow> room \<Rightarrow> room" where
  "store_controls tick cs r = r\<lparr>controls := cs, loaded_at := tick\<rparr>"

definition load_controls :: "rat \<Rightarrow> room \<Rightarrow> guest_row list \<times> room" where
  "load_controls tick r =
     (if tick - loaded_at r < 1 / 5 then (controls r, r)
      else let cs = read_controls r in (cs, store_controls tick cs r))"

definition audible :: "int \<Rightarrow> guest_row \<Rightarrow> bool" where
  "audible st c \<longleftrightarrow> gs_station c = st \<and> gs_connected c \<and> \<not> gs_muted c \<and> gs_on_air c"

text \<open>The sources \<open>read_on_air_pcm\<close> mixes, of the sessions with an audio connection, with their gain.\<close>

definition mixed_sources :: "int list \<Rightarrow> rat \<Rightarrow> int \<Rightarrow> room \<Rightarrow> (int \<times> rat) list \<times> room" where
  "mixed_sources peers tick st r =
     (case load_controls tick r of (cs, r') \<Rightarrow>
        (concat (map (\<lambda>i. case find (\<lambda>c. gs_id c = i) cs of
            None \<Rightarrow> [] | Some c \<Rightarrow> if audible st c then [(i, gs_gain c)] else []) peers), r'))"

definition has_on_air :: "rat \<Rightarrow> int \<Rightarrow> room \<Rightarrow> bool \<times> room" where
  "has_on_air tick st r = (case load_controls tick r of (cs, r') \<Rightarrow> (\<exists>c \<in> set cs. audible st c, r'))"

end
