(* ===== verification/Guest_Laws.thy ===== *)
theory Guest_Laws
  imports Guest_Recording
begin

text \<open>What every operation of the guest room and of the recordings keeps.\<close>

section \<open>Counting rows\<close>

lemma length_filter_map_le:
  "(\<And>x. x \<in> set xs \<Longrightarrow> Q (if P x then f x else x) \<Longrightarrow> Q x) \<Longrightarrow>
   length (filter Q (update_where P f xs)) \<le> length (filter Q xs)"
proof (induction xs)
  case (Cons x xs)
  have "length (filter Q (update_where P f xs)) \<le> length (filter Q xs)"
    by (rule Cons.IH) (rule Cons.prems, simp_all)
  moreover have "Q (if P x then f x else x) \<Longrightarrow> Q x" using Cons.prems by simp
  ultimately show ?case by (cases "Q (if P x then f x else x)"; cases "Q x") auto
qed simp

lemma length_filter_update_one:
  assumes "distinct (map key xs)"
  shows "length (filter Q (update_where (\<lambda>x. key x = k) f xs)) \<le> Suc (length (filter Q xs))"
  using assms
proof (induction xs)
  case (Cons x xs)
  show ?case
  proof (cases "key x = k")
    case True
    then have "\<forall>y \<in> set xs. key y \<noteq> k" using Cons.prems by (metis distinct.simps(2) imageI list.set_map list.simps(9))
    then have "update_where (\<lambda>x. key x = k) f xs = xs" by (intro update_where_none) simp
    then show ?thesis using True by simp
  next
    case False
    then show ?thesis using Cons by auto
  qed
qed simp

lemma image_update_where: "(\<And>x. g (f x) = g x) \<Longrightarrow> g ` set (update_where P f xs) = g ` set xs"
  by (simp only: list.set_map [symmetric] map_update_where)

section \<open>The rows of the guests\<close>

definition sound_guest :: "guest_row \<Rightarrow> bool" where
  "sound_guest g \<longleftrightarrow> (gs_on_air g \<longrightarrow> gs_status g = Admitted) \<and> -24 \<le> gs_gain g \<and> gs_gain g \<le> 12"

definition few_admitted :: "room \<Rightarrow> bool" where
  "few_admitted r \<longleftrightarrow> (\<forall>studio. length (admitted_in studio r) \<le> max_admitted_guests)"

definition invite_spent :: "room \<Rightarrow> guest_row \<Rightarrow> bool" where
  "invite_spent r g \<longleftrightarrow> (\<exists>v \<in> set (invites r). gi_id v = gs_invite g \<and> gi_redeemed v \<noteq> None
     \<and> gi_studio v = gs_studio g \<and> gi_station v = gs_station g)"

definition guests_ok :: "room \<Rightarrow> bool" where
  "guests_ok r \<longleftrightarrow> distinct (map gi_id (invites r)) \<and> distinct (map gs_id (guests r))
     \<and> distinct (map gs_invite (guests r)) \<and> (\<forall>g \<in> set (guests r). sound_guest g \<and> invite_spent r g)
     \<and> few_admitted r"

text \<open>The cache of the mixer is empty, outdated on purpose or what the table says.\<close>

definition cache_ok :: "room \<Rightarrow> bool" where
  "cache_ok r \<longleftrightarrow> loaded_at r = 0 \<or> controls r = filter (\<lambda>g. gs_status g = Admitted) (guests r)"

lemma guests_ok_update:
  assumes ok: "guests_ok r"
    and keep: "\<And>g. gs_id (f g) = gs_id g" "\<And>g. gs_invite (f g) = gs_invite g" "\<And>g. gs_studio (f g) = gs_studio g"
      "\<And>g. gs_station (f g) = gs_station g"
    and sound: "\<And>g. g \<in> set (guests r) \<Longrightarrow> P g \<Longrightarrow> sound_guest g \<Longrightarrow> sound_guest (f g)"
    and no_new: "\<And>g. P g \<Longrightarrow> gs_status (f g) = Admitted \<Longrightarrow> gs_status g = Admitted"
    and r': "guests r' = update_where P f (guests r)" "invites r' = invites r"
  shows "guests_ok r'"
proof -
  have "length (admitted_in s r') \<le> length (admitted_in s r)" for s
    unfolding admitted_in_def r'
    by (rule length_filter_map_le) (auto simp: keep no_new split: if_splits)
  then have "few_admitted r'"
    using ok unfolding guests_ok_def few_admitted_def by (meson order_trans)
  moreover have "invite_spent r' (if P g then f g else g)" if "g \<in> set (guests r)" for g
    using ok that by (auto simp: guests_ok_def invite_spent_def r' keep)
  ultimately show ?thesis
    using ok sound unfolding guests_ok_def r' by (auto simp: keep map_update_where ball_update_where)
qed

lemma guests_ok_cong:
  "guests r' = guests r \<Longrightarrow> invites r' = invites r \<Longrightarrow> guests_ok r' = guests_ok r"
  by (simp add: guests_ok_def few_admitted_def admitted_in_def invite_spent_def [abs_def])

lemma guests_ok_invites:
  assumes "guests_ok r" "guests r' = guests r" "distinct (map gi_id (invites r'))"
    and "\<And>v. v \<in> set (invites r) \<Longrightarrow> \<exists>v' \<in> set (invites r'). gi_id v' = gi_id v \<and> gi_studio v' = gi_studio v
      \<and> gi_station v' = gi_station v \<and> (gi_redeemed v \<noteq> None \<longrightarrow> gi_redeemed v' \<noteq> None)"
  shows "guests_ok r'"
proof -
  have "invite_spent r' g" if "invite_spent r g" for g
    using that assms(4) unfolding invite_spent_def by metis
  moreover have "few_admitted r' = few_admitted r" by (simp add: few_admitted_def admitted_in_def assms(2))
  ultimately show ?thesis using assms(1,3) by (simp add: guests_ok_def assms(2))
qed

section \<open>Operations of the guest room\<close>

lemma set_guest_simps [simp]:
  "guests (set_guest i f r) = update_where (\<lambda>g. gs_id g = i) f (guests r)" "invites (set_guest i f r) = invites r"
  "recordings (set_guest i f r) = recordings r" "consents (set_guest i f r) = consents r"
  "recorders (set_guest i f r) = recorders r" "room_studios (set_guest i f r) = room_studios r"
  by (simp_all add: set_guest_def)

lemma invalidate_simps [simp]:
  "guests (invalidate_controls r) = guests r" "invites (invalidate_controls r) = invites r"
  "recordings (invalidate_controls r) = recordings r" "consents (invalidate_controls r) = consents r"
  "recorders (invalidate_controls r) = recorders r" "room_studios (invalidate_controls r) = room_studios r"
  "cache_ok (invalidate_controls r)"
  by (simp_all add: invalidate_controls_def cache_ok_def)

lemma guest_in_SomeD: "guest_in s i r = Some g \<Longrightarrow> g \<in> set (guests r) \<and> gs_id g = i \<and> gs_studio g = s"
  by (auto simp: guest_in_def dest: find_SomeD)

lemma create_invite_ok:
  assumes ok: "guests_ok r"
  shows "guests_ok (snd (create_invite now t a s r))"
proof -
  consider "snd (create_invite now t a s r) = r"
    | v where "snd (create_invite now t a s r) = r\<lparr>invites := invites r @ [v]\<rparr>" "gi_id v = next_rowid (map gi_id (invites r))"
    by (cases "find (\<lambda>x. sd_id x = s \<and> sd_active x) (room_studios r)"; cases "token_digest t \<in> set (map gi_token (invites r))")
      (simp_all add: create_invite_def Let_def)
  then show ?thesis
  proof cases
    case (2 v)
    then show ?thesis using ok next_rowid_fresh [of "map gi_id (invites r)"]
      by (intro guests_ok_invites [OF ok]) (auto simp: guests_ok_def)
  qed (simp add: ok)
qed

lemma revoke_invite_ok: "guests_ok r \<Longrightarrow> guests_ok (snd (revoke_invite now s i r))"
  by (rule guests_ok_invites [of r])
    (auto simp: revoke_invite_def guests_ok_def bex_update_where split: option.split)

lemma redeem_check_Inr:
  "redeem_check now t n r = Inr v \<Longrightarrow> v \<in> set (invites r) \<and> gi_redeemed v = None"
  by (auto simp: redeem_check_def split: if_splits option.splits dest: find_SomeD)

text \<open>
  The three operations that check first and write afterwards: what the write needs is still true when it
  is made.
\<close>

definition invite_open :: "invite_row \<Rightarrow> room \<Rightarrow> bool" where
  "invite_open v r \<longleftrightarrow> (\<exists>w \<in> set (invites r). gi_id w = gi_id v \<and> gi_token w = gi_token v \<and> gi_studio w = gi_studio v
     \<and> gi_station w = gi_station v \<and> gi_redeemed w = None)"

lemma redeem_check_open: "redeem_check now t n r = Inr v \<Longrightarrow> invite_open v r"
  using redeem_check_Inr by (auto simp: invite_open_def)

lemma same_invite: "guests_ok r \<Longrightarrow> v \<in> set (invites r) \<Longrightarrow> w \<in> set (invites r) \<Longrightarrow> gi_id v = gi_id w \<Longrightarrow> v = w"
  using inj_onD [of gi_id "set (invites r)" v w] by (simp add: guests_ok_def distinct_map)

lemma redeem_write_cases:
  obtains (same) "snd (redeem_write now st n v r) = r"
  | (written) g where "guests (snd (redeem_write now st n v r)) = guests r @ [g]"
      "gs_id g = next_rowid (map gs_id (guests r))" "gs_invite g = gi_id v" "gs_studio g = gi_studio v"
      "gs_station g = gi_station v" "gs_status g = Lobby" "\<not> gs_on_air g" "gs_gain g = 0"
      "invites (snd (redeem_write now st n v r)) = update_where (\<lambda>w. gi_id w = gi_id v)
         (gi_redeemed_update (\<lambda>_. Some (current_timestamp now))) (invites r)"
  by (cases "token_digest st \<in> set (map gs_token (guests r))") (simp_all add: redeem_write_def Let_def)

lemma redeem_write_ok:
  assumes ok: "guests_ok r" and v: "invite_open v r"
  shows "guests_ok (snd (redeem_write now st n v r))"
proof (cases rule: redeem_write_cases [of now st n v r])
  case (written g)
  let ?r' = "snd (redeem_write now st n v r)"
  obtain u where u: "u \<in> set (invites r)" "gi_id u = gi_id v" "gi_studio u = gi_studio v" "gi_station u = gi_station v"
      "gi_redeemed u = None"
    using v by (auto simp: invite_open_def)
  have unused: "gs_invite x \<noteq> gi_id v" if x: "x \<in> set (guests r)" for x
  proof
    assume e: "gs_invite x = gi_id v"
    have "invite_spent r x" using ok x by (simp add: guests_ok_def)
    then obtain w where "w \<in> set (invites r)" "gi_id w = gs_invite x" "gi_redeemed w \<noteq> None"
      by (auto simp: invite_spent_def)
    then show False using same_invite [OF ok, of w u] u e by simp
  qed
  have spent: "invite_spent ?r' x" if inv: "invite_spent r x" for x
  proof -
    obtain w where w: "w \<in> set (invites r)" "gi_id w = gs_invite x" "gi_redeemed w \<noteq> None"
        "gi_studio w = gs_studio x" "gi_station w = gs_station x"
      using inv by (auto simp: invite_spent_def)
    then show ?thesis unfolding invite_spent_def written(9) bex_update_where by (intro bexI [OF _ w(1)]) simp
  qed
  have new: "invite_spent ?r' g" using u written unfolding invite_spent_def written(9) bex_update_where by auto
  have "few_admitted ?r'"
    using ok written by (simp add: guests_ok_def few_admitted_def admitted_in_def)
  moreover have "sound_guest g" using written by (simp add: sound_guest_def)
  moreover have "gs_invite g \<notin> gs_invite ` set (guests r)" using unused written(3) by (metis imageE)
  then have "distinct (map gs_id (guests ?r'))" "distinct (map gs_invite (guests ?r'))"
    using ok written(1,2) next_rowid_fresh [of "map gs_id (guests r)"] by (simp_all add: guests_ok_def)
  ultimately show ?thesis
    using ok spent new written(1,9) by (auto simp: guests_ok_def)
qed (simp add: ok)

lemma redeem_ok: "guests_ok r \<Longrightarrow> guests_ok (snd (redeem now t st n r))"
  by (auto simp: redeem_def redeem_write_ok redeem_check_open split: sum.split)

lemma set_connected_ok: "guests_ok r \<Longrightarrow> guests_ok (snd (set_connected i up q r))"
  by (rule guests_ok_update [of r "\<lambda>g. g\<lparr>gs_connected := up, gs_quality := take 32 (or_default ''unknown'' q)\<rparr>" "\<lambda>g. gs_id g = i"])
    (simp_all add: set_connected_def Let_def sound_guest_def)

lemma reject_or_kick_ok: "guests_ok r \<Longrightarrow> guests_ok (snd (reject_or_kick s i b r))"
proof -
  assume ok: "guests_ok r"
  have "guests_ok (invalidate_controls (set_guest i (\<lambda>g. g\<lparr>gs_status := if b then Rejected else Kicked, gs_on_air := False\<rparr>) r))"
    by (rule guests_ok_update [OF ok, of "\<lambda>g. g\<lparr>gs_status := if b then Rejected else Kicked, gs_on_air := False\<rparr>" "\<lambda>g. gs_id g = i"])
      (simp_all add: sound_guest_def split: if_splits)
  then show ?thesis using ok by (cases b) (simp_all add: reject_or_kick_def Let_def split: option.split)
qed

lemma same_guest: "guests_ok r \<Longrightarrow> g \<in> set (guests r) \<Longrightarrow> g' \<in> set (guests r) \<Longrightarrow> gs_id g = gs_id g' \<Longrightarrow> g = g'"
  using inj_onD [of gs_id "set (guests r)" g g'] by (simp add: guests_ok_def distinct_map)

definition audio_allowed :: "int \<Rightarrow> rat option \<Rightarrow> room \<Rightarrow> bool" where
  "audio_allowed i gain r \<longleftrightarrow> (\<exists>g \<in> set (guests r). gs_id g = i \<and> gs_status g = Admitted)
     \<and> (case gain of None \<Rightarrow> True | Some x \<Rightarrow> -24 \<le> x \<and> x \<le> 12)"

lemma update_audio_check_allowed: "update_audio_check s i gain r = None \<Longrightarrow> audio_allowed i gain r"
  by (auto simp: update_audio_check_def audio_allowed_def split: option.splits if_splits dest!: guest_in_SomeD)

lemma update_audio_write_ok:
  assumes ok: "guests_ok r" and a: "audio_allowed i gain r"
  shows "guests_ok (update_audio_write i m on gain r)"
proof -
  obtain g where g: "g \<in> set (guests r)" "gs_id g = i" "gs_status g = Admitted" using a by (auto simp: audio_allowed_def)
  let ?f = "\<lambda>g. g\<lparr>gs_muted := put m (gs_muted g), gs_on_air := put on (gs_on_air g), gs_gain := put gain (gs_gain g)\<rparr>"
  show ?thesis
  proof (rule guests_ok_update [OF ok, of ?f "\<lambda>g. gs_id g = i"])
    fix x
    assume x: "x \<in> set (guests r)" "gs_id x = i" "sound_guest x"
    then have "x = g" using same_guest [OF ok x(1), of g] g by simp
    then show "sound_guest (?f x)" using g(3) x(3) a
      by (auto simp: audio_allowed_def sound_guest_def put_def split: option.splits)
  qed (simp_all add: update_audio_write_def)
qed

lemma update_audio_ok: "guests_ok r \<Longrightarrow> guests_ok (snd (update_audio s i m on gain r))"
  by (auto simp: update_audio_def Let_def update_audio_write_ok update_audio_check_allowed split: option.split)

lemma all_off_air_ok:
  assumes "guests_ok r"
  shows "guests_ok (snd (all_off_air s r))"
proof (cases "room_studio s r")
  case (Some x)
  show ?thesis
    by (rule guests_ok_update [OF assms, of "gs_on_air_update (\<lambda>_. False)" "\<lambda>g. gs_studio g = s \<and> gs_status g = Admitted"])
      (simp_all add: sound_guest_def all_off_air_def Some)
qed (simp add: all_off_air_def assms)

lemma self_mute_ok: "guests_ok r \<Longrightarrow> guests_ok (snd (guest_self_mute t b r))"
proof -
  assume ok: "guests_ok r"
  have "guests_ok (invalidate_controls (set_guest i (gs_muted_update (\<lambda>_. b)) r))" for i
    by (rule guests_ok_update [OF ok, of "gs_muted_update (\<lambda>_. b)" "\<lambda>g. gs_id g = i"]) (simp_all add: sound_guest_def)
  then show ?thesis using ok by (simp add: guest_self_mute_def split: sum.split)
qed

definition seat_free :: "int \<Rightarrow> int \<Rightarrow> room \<Rightarrow> bool" where
  "seat_free s i r \<longleftrightarrow> (\<exists>g \<in> set (guests r). gs_id g = i \<and> gs_studio g = s) \<and> length (admitted_in s r) < max_admitted_guests"

lemma admit_check_free: "admit_check s i r = None \<Longrightarrow> seat_free s i r"
  by (auto simp: admit_check_def seat_free_def split: option.splits if_splits dest!: guest_in_SomeD)

lemma admit_write_rows:
  "guests (admit_write i r) = update_where (\<lambda>g. gs_id g = i) (\<lambda>g. g\<lparr>gs_status := Admitted, gs_on_air := False\<rparr>) (guests r)"
  "invites (admit_write i r) = invites r"
  by (simp_all add: admit_write_def)

lemma admit_write_elsewhere:
  assumes ok: "guests_ok r" and g: "g \<in> set (guests r)" "gs_id g = i" and s': "s' \<noteq> gs_studio g"
  shows "length (admitted_in s' (admit_write i r)) \<le> length (admitted_in s' r)"
  unfolding admitted_in_def admit_write_rows
proof (rule length_filter_map_le)
  let ?f = "\<lambda>g. g\<lparr>gs_status := Admitted, gs_on_air := False\<rparr>"
  fix x
  assume "x \<in> set (guests r)" "gs_studio (if gs_id x = i then ?f x else x) = s' \<and> gs_status (if gs_id x = i then ?f x else x) = Admitted"
  then show "gs_studio x = s' \<and> gs_status x = Admitted"
    using same_guest [OF ok, of x g] g s' by (auto split: if_splits)
qed

lemma admit_write_ok:
  assumes ok: "guests_ok r" and free: "seat_free s i r"
  shows "guests_ok (admit_write i r)"
proof -
  obtain g where g: "g \<in> set (guests r)" "gs_id g = i" "gs_studio g = s" using free by (auto simp: seat_free_def)
  let ?r' = "admit_write i r"
  have "length (admitted_in s' ?r') \<le> max_admitted_guests" for s'
  proof (cases "s' = s")
    case True
    have "length (admitted_in s ?r') \<le> Suc (length (admitted_in s r))"
      unfolding admitted_in_def admit_write_rows by (rule length_filter_update_one) (use ok in \<open>simp add: guests_ok_def\<close>)
    then show ?thesis using free True by (simp add: seat_free_def)
  next
    case False
    then show ?thesis using admit_write_elsewhere [OF ok g(1,2), of s'] g(3) ok
      unfolding guests_ok_def few_admitted_def by (metis order_trans)
  qed
  then have "few_admitted ?r'" by (simp add: few_admitted_def)
  moreover have "invite_spent ?r' (if gs_id g = i then g\<lparr>gs_status := Admitted, gs_on_air := False\<rparr> else g)"
    if "g \<in> set (guests r)" for g
    using ok that by (auto simp: guests_ok_def invite_spent_def admit_write_rows)
  ultimately show ?thesis
    using ok unfolding guests_ok_def admit_write_rows
    by (auto simp: map_update_where ball_update_where sound_guest_def)
qed

lemma admit_ok: "guests_ok r \<Longrightarrow> guests_ok (snd (admit s i r))"
  by (auto simp: admit_def Let_def intro: admit_write_ok admit_check_free split: option.split)

end
