(* ===== verification/Guest_Props.thy ===== *)
theory Guest_Props
  imports Guest_Laws
begin

text \<open>
  What the guest room and its recordings guarantee in every run, and the runs in which a guest is
  recorded without having agreed.
\<close>

section \<open>Consent\<close>

definition consents_known :: "room \<Rightarrow> bool" where
  "consents_known r \<longleftrightarrow> (\<forall>c \<in> set (consents r).
     gc_recording c \<in> gr_id ` set (recordings r) \<and>
     (\<exists>g \<in> set (guests r). gs_id g = gc_session c \<and> gs_status g \<noteq> Lobby))"

definition all_accepted :: "int \<Rightarrow> room \<Rightarrow> bool" where
  "all_accepted i r \<longleftrightarrow> (\<forall>c \<in> set (consents r). gc_recording c = i \<longrightarrow> gc_decision c = Accepted)"

definition recorded_with_consent :: "room \<Rightarrow> bool" where
  "recorded_with_consent r \<longleftrightarrow> (\<forall>x \<in> set (recordings r). gr_status x = Recording \<longrightarrow> all_accepted (gr_id x) r)"

definition recordings_ok :: "room \<Rightarrow> bool" where
  "recordings_ok r \<longleftrightarrow> distinct (map gr_id (recordings r)) \<and> consents_known r \<and> recorded_with_consent r"

lemma recordings_ok_guests:
  assumes "recordings_ok r" "recordings r' = recordings r" "consents r' = consents r"
    and "\<And>g. g \<in> set (guests r) \<Longrightarrow> \<exists>g' \<in> set (guests r'). gs_id g' = gs_id g \<and> (gs_status g \<noteq> Lobby \<longrightarrow> gs_status g' \<noteq> Lobby)"
  shows "recordings_ok r'"
proof -
  have "consents_known r'"
    unfolding consents_known_def assms(2,3)
  proof (intro ballI conjI)
    fix c
    assume c: "c \<in> set (consents r)"
    then show "gc_recording c \<in> gr_id ` set (recordings r)"
      using assms(1) by (simp add: recordings_ok_def consents_known_def)
    have "\<exists>g \<in> set (guests r). gs_id g = gc_session c \<and> gs_status g \<noteq> Lobby"
      using c assms(1) by (simp add: recordings_ok_def consents_known_def)
    then show "\<exists>g \<in> set (guests r'). gs_id g = gc_session c \<and> gs_status g \<noteq> Lobby"
      using assms(4) by metis
  qed
  then show ?thesis
    using assms by (simp add: recordings_ok_def recorded_with_consent_def all_accepted_def)
qed

lemma recordings_ok_cong:
  "guests r' = guests r \<Longrightarrow> recordings r' = recordings r \<Longrightarrow> consents r' = consents r \<Longrightarrow> recordings_ok r' = recordings_ok r"
  by (simp add: recordings_ok_def consents_known_def recorded_with_consent_def all_accepted_def)

lemma recordings_ok_set_guest:
  assumes "recordings_ok r" "\<And>g. gs_id (f g) = gs_id g" "\<And>g. P g \<Longrightarrow> gs_status g \<noteq> Lobby \<Longrightarrow> gs_status (f g) \<noteq> Lobby"
    and "guests r' = update_where P f (guests r)" "recordings r' = recordings r" "consents r' = consents r"
  shows "recordings_ok r'"
  by (rule recordings_ok_guests [OF assms(1,5,6)])
    (unfold assms(4) bex_update_where, use assms(2,3) in \<open>auto intro!: bexI\<close>)

lemma invite_fields:
  "guests (snd (create_invite now t a s r)) = guests r" "guests (snd (revoke_invite now s i r)) = guests r"
  "recordings (snd (create_invite now t a s r)) = recordings r" "recordings (snd (revoke_invite now s i r)) = recordings r"
  "consents (snd (create_invite now t a s r)) = consents r" "consents (snd (revoke_invite now s i r)) = consents r"
  "controls (snd (create_invite now t a s r)) = controls r" "controls (snd (revoke_invite now s i r)) = controls r"
  "loaded_at (snd (create_invite now t a s r)) = loaded_at r" "loaded_at (snd (revoke_invite now s i r)) = loaded_at r"
  by (simp_all add: create_invite_def revoke_invite_def Let_def split: option.split)

lemma guest_ops_recordings_ok:
  assumes ok: "recordings_ok r"
  shows "recordings_ok (snd (create_invite now t a s r))" "recordings_ok (snd (revoke_invite now s i r))"
    "recordings_ok (snd (redeem now t t' n r))" "recordings_ok (snd (set_connected i up q r))"
    "recordings_ok (snd (admit s i r))" "recordings_ok (snd (reject_or_kick s i b r))"
    "recordings_ok (snd (update_audio s i m on gain r))" "recordings_ok (snd (all_off_air s r))"
    "recordings_ok (snd (guest_self_mute t m' r))"
proof -
  note set = recordings_ok_set_guest [OF ok]
  show "recordings_ok (snd (create_invite now t a s r))" "recordings_ok (snd (revoke_invite now s i r))"
    using ok recordings_ok_cong [OF invite_fields(1,3,5)] recordings_ok_cong [OF invite_fields(2,4,6)] by simp_all
  show "recordings_ok (snd (redeem now t t' n r))"
    by (rule recordings_ok_guests [OF ok])
      (auto simp: redeem_def redeem_write_def Let_def split: sum.split)
  show "recordings_ok (snd (set_connected i up q r))"
    by (rule set [of "\<lambda>g. g\<lparr>gs_connected := up, gs_quality := take 32 (or_default ''unknown'' q)\<rparr>" "\<lambda>g. gs_id g = i"])
      (simp_all add: set_connected_def Let_def)
  show "recordings_ok (snd (admit s i r))"
  proof (cases "admit_check s i r")
    case None
    show ?thesis
      by (rule set [of "\<lambda>g. g\<lparr>gs_status := Admitted, gs_on_air := False\<rparr>" "\<lambda>g. gs_id g = i"])
        (simp_all add: admit_def None Let_def admit_write_def)
  qed (simp add: admit_def ok)
  show "recordings_ok (snd (reject_or_kick s i b r))"
  proof (cases "guest_in s i r")
    case (Some g)
    show ?thesis
      by (rule set [of "\<lambda>g. g\<lparr>gs_status := if b then Rejected else Kicked, gs_on_air := False\<rparr>" "\<lambda>g. gs_id g = i"])
        (simp_all add: reject_or_kick_def Some Let_def)
  qed (simp add: reject_or_kick_def ok)
  show "recordings_ok (snd (update_audio s i m on gain r))"
  proof (cases "snd (update_audio s i m on gain r) = r")
    case False
    show ?thesis
      by (rule set [of "\<lambda>g. g\<lparr>gs_muted := put m (gs_muted g), gs_on_air := put on (gs_on_air g), gs_gain := put gain (gs_gain g)\<rparr>"
          "\<lambda>g. gs_id g = i"])
        (use False in \<open>auto simp: update_audio_def update_audio_write_def Let_def split: option.splits\<close>)
  qed (simp add: ok)
  show "recordings_ok (snd (all_off_air s r))"
  proof (cases "room_studio s r")
    case (Some x)
    show ?thesis
      by (rule set [of "gs_on_air_update (\<lambda>_. False)" "\<lambda>g. gs_studio g = s \<and> gs_status g = Admitted"])
        (simp_all add: all_off_air_def Some)
  qed (simp add: all_off_air_def ok)
  show "recordings_ok (snd (guest_self_mute t m' r))"
  proof (cases "authenticate_session t r")
    case (Inr g)
    show ?thesis
      by (rule set [of "gs_muted_update (\<lambda>_. m')" "\<lambda>x. gs_id x = gs_id g"]) (simp_all add: guest_self_mute_def Inr)
  qed (simp add: guest_self_mute_def ok)
qed

section \<open>Operations of the recordings\<close>

lemma set_recording_simps [simp]:
  "recordings (set_recording i f r) = update_where (\<lambda>x. gr_id x = i) f (recordings r)"
  "guests (set_recording i f r) = guests r" "invites (set_recording i f r) = invites r"
  "consents (set_recording i f r) = consents r" "controls (set_recording i f r) = controls r"
  "loaded_at (set_recording i f r) = loaded_at r"
  by (simp_all add: set_recording_def)

text \<open>A row that becomes \<open>Recording\<close> must have all its consents.\<close>

lemma recordings_ok_update:
  assumes "recordings_ok r" "\<And>x. gr_id (f x) = gr_id x"
    and "\<And>x. x \<in> set (recordings r) \<Longrightarrow> P x \<Longrightarrow> gr_status (f x) = Recording \<Longrightarrow> all_accepted (gr_id x) r"
    and "recordings r' = update_where P f (recordings r)" "guests r' = guests r" "consents r' = consents r"
  shows "recordings_ok r'"
proof -
  have ids: "gr_id ` set (recordings r') = gr_id ` set (recordings r)"
    unfolding assms(4) by (rule image_update_where) (rule assms(2))
  have "recorded_with_consent r'"
    unfolding recorded_with_consent_def
  proof (intro ballI impI)
    fix y
    assume "y \<in> set (recordings r')" "gr_status y = Recording"
    then obtain x where x: "x \<in> set (recordings r)" "y = (if P x then f x else x)" "gr_status y = Recording"
      unfolding assms(4) set_update_where by blast
    have "all_accepted (gr_id x) r"
      using x assms(1,3) by (cases "P x") (auto simp: recordings_ok_def recorded_with_consent_def)
    then show "all_accepted (gr_id y) r'"
      using x assms(2,6) by (simp add: all_accepted_def)
  qed
  moreover have "consents_known r'"
    using assms(1,5,6) ids by (simp add: recordings_ok_def consents_known_def)
  ultimately show ?thesis
    using assms(1,2,4) by (simp add: recordings_ok_def map_update_where)
qed

lemma start_recording_fields [simp]:
  "guests (snd (start_recording now can resume i r)) = guests r"
  "invites (snd (start_recording now can resume i r)) = invites r"
  "consents (snd (start_recording now can resume i r)) = consents r"
  "controls (snd (start_recording now can resume i r)) = controls r"
  "loaded_at (snd (start_recording now can resume i r)) = loaded_at r"
  by (simp_all add: start_recording_def Let_def split: option.split)

lemma start_recording_cases:
  obtains (same) "recordings (snd (start_recording now can resume i r)) = recordings r"
      "recorders (snd (start_recording now can resume i r)) = recorders r"
  | (started) x where "recording_of i r = Some x" "gr_status x = (if resume then Recording else Pending_Consent)"
      "recordings (snd (start_recording now can resume i r)) = update_where (\<lambda>x. gr_id x = i)
         (\<lambda>x. x\<lparr>gr_status := Recording, gr_segments := new_segments now resume x, gr_reason := []\<rparr>) (recordings r)"
      "recorders (snd (start_recording now can resume i r)) = recorders r @ [(gr_station x, i)]"
      "gr_station x \<notin> fst ` set (recorders r)"
proof -
  have rec: "recording_of i (r\<lparr>timers := ts\<rparr>) = recording_of i r" for ts by (simp add: recording_of_def)
  show thesis
  proof (cases "recording_of i r")
    case None
    then show ?thesis by (intro same) (simp_all add: start_recording_def Let_def rec)
  next
    case (Some x)
    show ?thesis
    proof (cases "gr_status x \<noteq> (if resume then Recording else Pending_Consent) \<or> gr_station x \<in> set (map fst (recorders r)) \<or> \<not> can")
      case True
      then show ?thesis by (intro same) (auto simp: start_recording_def Let_def rec Some)
    next
      case False
      then have "gr_status x = (if resume then Recording else Pending_Consent)" "gr_station x \<notin> fst ` set (recorders r)" can
        by auto
      then show ?thesis
        by (intro started [OF Some]) (simp_all add: start_recording_def Let_def rec Some set_recording_def)
    qed
  qed
qed

lemma start_recording_ok:
  assumes ok: "recordings_ok r" and "resume \<or> all_accepted i r"
  shows "recordings_ok (snd (start_recording now can resume i r))"
proof -
  show ?thesis
  proof (cases rule: start_recording_cases [of now can resume i r])
    case same
    then show ?thesis using ok recordings_ok_cong [of "snd (start_recording now can resume i r)" r] by simp
  next
    case (started x)
    have x: "x \<in> set (recordings r)" "gr_id x = i" using started(1) by (auto simp: recording_of_def dest: find_SomeD)
    have "all_accepted i r"
    proof (cases resume)
      case True
      then show ?thesis using ok x started(2) by (auto simp: recordings_ok_def recorded_with_consent_def)
    qed (use assms(2) in simp)
    then show ?thesis by (intro recordings_ok_update [OF ok _ _ started(3)]) auto
  qed
qed

lemma with_status_room [simp]: "snd (with_status i res) = snd res"
  by (simp add: with_status_def split: prod.split sum.split)

lemma request_recording_cases:
  obtains (refused) "snd (request_recording now can days a s r) = r"
  | (asked) x i r1 where "i = next_rowid (map gr_id (recordings r))"
      "recordings r1 = recordings r @ [x]" "gr_id x = i" "gr_status x = Pending_Consent"
      "consents r1 = consents r @ map (\<lambda>g. \<lparr>gc_recording = i, gc_session = gs_id g, gc_decision = Undecided\<rparr>) (asked_guests s r)"
      "guests r1 = guests r" "invites r1 = invites r" "controls r1 = controls r" "loaded_at r1 = loaded_at r"
      "snd (request_recording now can days a s r) =
        (if asked_guests s r = [] then snd (start_recording now can False i r1) else r1\<lparr>timers := timers r1 @ [i]\<rparr>)"
proof -
  show thesis
  proof (cases "room_studio s r")
    case None
    then show ?thesis by (intro refused) (simp add: request_recording_def)
  next
    case (Some st)
    show ?thesis
    proof (cases "retention_days days")
      case None
      then show ?thesis using Some by (intro refused) (simp add: request_recording_def)
    next
      case dd: (Some d)
      show ?thesis
      proof (cases "\<exists>x \<in> set (recordings r). gr_studio x = s \<and> (gr_status x = Pending_Consent \<or> gr_status x = Recording)")
        case True
        then show ?thesis using Some by (intro refused) (simp add: request_recording_def)
      next
        case False
        define x :: recording_row where "x = \<lparr>gr_id = next_rowid (map gr_id (recordings r)), gr_studio = s,
          gr_station = sd_station st, gr_status = Pending_Consent, gr_by = a,
          gr_expires = now + of_int (86400 * d), gr_segments = [], gr_reason = []\<rparr>"
        define r1 where "r1 = r\<lparr>recordings := recordings r @ [x], consents := consents r @ map (\<lambda>g.
          \<lparr>gc_recording = next_rowid (map gr_id (recordings r)), gc_session = gs_id g, gc_decision = Undecided\<rparr>)
            (asked_guests s r)\<rparr>"
        have "snd (request_recording now can days a s r) =
            (if asked_guests s r = [] then snd (start_recording now can False (next_rowid (map gr_id (recordings r))) r1)
             else r1\<lparr>timers := timers r1 @ [next_rowid (map gr_id (recordings r))]\<rparr>)"
          by (simp only: request_recording_def Let_def Some dd option.case if_not_P [OF False] x_def [symmetric]
                r1_def [symmetric] with_status_room if_distrib [of snd] snd_conv)
        then show ?thesis by (intro asked [of _ r1 x, OF refl]) (simp_all add: r1_def x_def)
      qed
    qed
  qed
qed

lemma request_recording_ok:
  assumes ok: "recordings_ok r" and guests: "guests_ok r"
  shows "recordings_ok (snd (request_recording now can days a s r))"
proof (cases rule: request_recording_cases [of now can days a s r])
  case refused
  then show ?thesis using ok by simp
next
  case (asked x i r1)
  have fresh: "i \<notin> gr_id ` set (recordings r)"
    using next_rowid_fresh [of "map gr_id (recordings r)"] asked(1) by simp
  have old: "gc_recording c \<noteq> i" if "c \<in> set (consents r)" for c
    using that ok fresh by (auto simp: recordings_ok_def consents_known_def)
  have "consents_known r1"
    using ok by (auto simp: consents_known_def recordings_ok_def asked asked_guests_def)
  moreover have "recorded_with_consent r1"
    unfolding recorded_with_consent_def
  proof (intro ballI impI)
    fix y
    assume y: "y \<in> set (recordings r1)" "gr_status y = Recording"
    then have "y \<in> set (recordings r)" using asked(2,4) by auto
    then have "all_accepted (gr_id y) r" "gr_id y \<noteq> i"
      using ok y(2) fresh by (auto simp: recordings_ok_def recorded_with_consent_def)
    then show "all_accepted (gr_id y) r1" by (auto simp: all_accepted_def asked(5))
  qed
  moreover have "distinct (map gr_id (recordings r1))"
    using ok fresh asked(2,3) by (simp add: recordings_ok_def)
  ultimately have r1: "recordings_ok r1" by (simp add: recordings_ok_def)
  show ?thesis
  proof (cases "asked_guests s r = []")
    case True
    then have "all_accepted i r1" using old by (auto simp: all_accepted_def asked(5))
    then show ?thesis using start_recording_ok [OF r1] True asked(10) by simp
  next
    case False
    then show ?thesis using r1 asked(10) recordings_ok_cong [of "r1\<lparr>timers := timers r1 @ [i]\<rparr>" r1] by simp
  qed
qed

lemma expire_consent_ok: "recordings_ok r \<Longrightarrow> recordings_ok (expire_consent i r)"
  by (rule recordings_ok_update [of r "cancel_recording ''consent_timeout''" "\<lambda>x. gr_id x = i \<and> gr_status x = Pending_Consent"])
    (simp_all add: expire_consent_def cancel_recording_def)

lemma delete_recording_ok: "recordings_ok r \<Longrightarrow> recordings_ok (snd (delete_recording i r))"
proof (cases "snd (delete_recording i r) = r")
  case False
  assume "recordings_ok r"
  then show ?thesis
    by (rule recordings_ok_update [of r "gr_status_update (\<lambda>_. Deleted)" "\<lambda>x. gr_id x = i"])
      (use False in \<open>auto simp: delete_recording_def split: option.splits if_splits\<close>)
qed simp

lemma set_consent_ok:
  assumes ok: "recordings_ok r" and "d = Accepted"
  shows "recordings_ok (set_consent i s d r)"
proof -
  have f: "recordings (set_consent i s d r) = recordings r" "guests (set_consent i s d r) = guests r"
    "consents (set_consent i s d r) = update_where (\<lambda>c. gc_recording c = i \<and> gc_session c = s)
       (gc_decision_update (\<lambda>_. d)) (consents r)"
    by (simp_all add: set_consent_def)
  have "consents_known (set_consent i s d r)"
    using ok by (auto simp: recordings_ok_def consents_known_def f set_update_where)
  moreover have "recorded_with_consent (set_consent i s d r)"
    unfolding recorded_with_consent_def all_accepted_def f ball_update_where
    using ok assms(2) by (auto simp: recordings_ok_def recorded_with_consent_def all_accepted_def)
  ultimately show ?thesis using ok by (simp add: recordings_ok_def f)
qed

lemma decline_ok:
  assumes ok: "recordings_ok r"
  shows "recordings_ok (set_recording i (cancel_recording m) (set_consent i s Declined r))"
proof -
  let ?r' = "set_recording i (cancel_recording m) (set_consent i s Declined r)"
  have f: "recordings ?r' = update_where (\<lambda>x. gr_id x = i) (cancel_recording m) (recordings r)" "guests ?r' = guests r"
    "consents ?r' = update_where (\<lambda>c. gc_recording c = i \<and> gc_session c = s) (gc_decision_update (\<lambda>_. Declined)) (consents r)"
    by (simp_all add: set_consent_def)
  have ids: "gr_id ` set (update_where (\<lambda>x. gr_id x = i) (cancel_recording m) (recordings r)) = gr_id ` set (recordings r)"
    by (rule image_update_where) (simp add: cancel_recording_def)
  have "consents_known ?r'"
    unfolding consents_known_def f ids ball_update_where
    using ok by (auto simp: recordings_ok_def consents_known_def)
  moreover have "recorded_with_consent ?r'"
    unfolding recorded_with_consent_def all_accepted_def f ball_update_where
    using ok by (auto simp: recordings_ok_def recorded_with_consent_def all_accepted_def cancel_recording_def)
  moreover have "distinct (map gr_id (recordings ?r'))"
    using ok unfolding f by (simp add: recordings_ok_def map_update_where cancel_recording_def)
  ultimately show ?thesis by (simp add: recordings_ok_def)
qed

lemma consent_ok:
  assumes ok: "recordings_ok r"
  shows "recordings_ok (snd (consent now can i token accepted r))"
proof (cases "authenticate_session token r")
  case (Inl e)
  then show ?thesis using ok by (simp add: consent_def)
next
  case (Inr g)
  show ?thesis
  proof (cases "\<exists>c \<in> set (consents r). gc_recording c = i \<and> gc_session c = gs_id g")
    case False
    then show ?thesis using ok Inr by (simp add: consent_def)
  next
    case asked: True
    show ?thesis
    proof (cases accepted)
      case True
      let ?r1 = "set_consent i (gs_id g) Accepted r"
      have r1: "recordings_ok ?r1" by (rule set_consent_ok [OF ok refl])
      have e: "snd (consent now can i token accepted r) =
          (if \<not> decided i Undecided ?r1 \<and> \<not> decided i Declined ?r1 then snd (start_recording now can False i ?r1) else ?r1)"
        using True asked Inr by (auto simp: consent_def Let_def)
      have "all_accepted i ?r1" if "\<not> decided i Undecided ?r1" "\<not> decided i Declined ?r1"
        unfolding all_accepted_def
      proof (intro ballI impI)
        fix c
        assume "c \<in> set (consents ?r1)" "gc_recording c = i"
        then show "gc_decision c = Accepted"
          using that by (cases "gc_decision c") (auto simp: decided_def)
      qed
      then show ?thesis using r1 start_recording_ok [OF r1, of False i now can] unfolding e by simp
    next
      case False
      let ?r1 = "set_recording i (cancel_recording ''consent_declined'') (set_consent i (gs_id g) Declined r)"
      have "snd (consent now can i token accepted r) = ?r1\<lparr>timers := removeAll i (timers ?r1)\<rparr>"
        using False asked Inr by (auto simp: consent_def Let_def)
      then show ?thesis
        using decline_ok [OF ok, of i "''consent_declined''" "gs_id g"]
          recordings_ok_cong [of "?r1\<lparr>timers := removeAll i (timers ?r1)\<rparr>" ?r1] by simp
    qed
  qed
qed

text \<open>A stop for any reason but the loss of the leadership.\<close>

definition real_stop :: "string \<Rightarrow> bool" where
  "real_stop s \<longleftrightarrow> s \<noteq> ''leadership_lost''"

lemma stop_recording_state:
  assumes "recording_of i r = Some x"
  obtains f rs where "\<And>y. gr_id (f y) = gr_id y"
    "real_stop failed \<Longrightarrow> real_stop reason \<Longrightarrow> \<forall>y. gr_status (f y) \<noteq> Recording"
    "snd (stop_recording now failed reason i r) = set_recording i f (r\<lparr>recorders := rs\<rparr>)"
proof -
  define failure where "failure = or_default (case map_of (recorders r) (gr_station x) of None \<Rightarrow> [] | Some _ \<Rightarrow> failed) reason"
  let ?f = "\<lambda>y. y\<lparr>gr_status := (if failure = ''leadership_lost'' then Recording else if failure \<noteq> [] then Interrupted else Completed),
      gr_reason := failure, gr_segments := close_last (\<lambda>s. s\<lparr>sg_stopped := Some now,
        sg_reason := (if failure = [] then sg_reason s else Some failure)\<rparr>) (gr_segments y)\<rparr>"
  have "snd (stop_recording now failed reason i r) =
      set_recording i ?f (r\<lparr>recorders := filter (\<lambda>p. fst p \<noteq> gr_station x) (recorders r)\<rparr>)"
    unfolding stop_recording_def assms Let_def failure_def by simp
  moreover have "failure \<noteq> ''leadership_lost''" if "real_stop failed" "real_stop reason"
    using that by (auto simp: failure_def or_default_def real_stop_def split: option.splits)
  ultimately show thesis by (intro that [of ?f]) auto
qed

lemma stop_recording_ok:
  assumes ok: "recordings_ok r" and "real_stop failed" "real_stop reason"
  shows "recordings_ok (snd (stop_recording now failed reason i r))"
proof (cases "recording_of i r")
  case None
  then show ?thesis using ok by (simp add: stop_recording_def)
next
  case (Some x)
  obtain f rs where f: "\<And>y. gr_id (f y) = gr_id y" "\<forall>y. gr_status (f y) \<noteq> Recording"
    and e: "snd (stop_recording now failed reason i r) = set_recording i f (r\<lparr>recorders := rs\<rparr>)"
    using stop_recording_state [OF Some, where failed = failed and reason = reason and now = now] assms(2,3) by metis
  show ?thesis unfolding e
    by (rule recordings_ok_update [OF ok f(1), of "\<lambda>x. gr_id x = i"]) (use f(2) in simp_all)
qed

lemma stop_recording_fields [simp]:
  "guests (snd (stop_recording now failed reason i r)) = guests r"
  "invites (snd (stop_recording now failed reason i r)) = invites r"
  "controls (snd (stop_recording now failed reason i r)) = controls r"
  "loaded_at (snd (stop_recording now failed reason i r)) = loaded_at r"
  by (cases "recording_of i r"; simp add: stop_recording_def Let_def)+

text \<open>What each of a list of operations keeps, all of them keep.\<close>

lemma fold_keeps: "(\<And>x s. I s \<Longrightarrow> I (f x s)) \<Longrightarrow> I s \<Longrightarrow> I (fold f xs s)"
  by (induction xs arbitrary: s) auto

lemma stop_all_ok:
  "recordings_ok r \<Longrightarrow> real_stop failed \<Longrightarrow> real_stop reason \<Longrightarrow> recordings_ok (snd (stop_all now failed reason r))"
  unfolding stop_all_def Let_def snd_conv
  by (rule fold_keeps) (simp_all add: stop_recording_ok recordings_ok_cong [of "r\<lparr>timers := []\<rparr>" r])

text \<open>The loops that count their successes.\<close>

lemma snd_fold_count:
  "snd (fold (\<lambda>i (n, s). case g i s of (Inr _, s') \<Rightarrow> (n + (1 :: nat), s') | (Inl _, s') \<Rightarrow> (n, s')) ids (n0, s0)) =
   fold (\<lambda>i s. snd (g i s)) ids s0"
proof (induction ids arbitrary: n0 s0)
  case (Cons i ids)
  then show ?case by (cases "g i s0"; cases "fst (g i s0)") auto
qed simp

lemma loops_room:
  "snd (resume_replicated_recordings now can r) = fold (\<lambda>i s. snd (start_recording now can True i s))
     (map gr_id (filter (\<lambda>x. gr_status x = Recording) (recordings r))) r"
  "snd (cleanup_recordings now r) = fold (\<lambda>i s. snd (delete_recording i s))
     (map gr_id (filter (\<lambda>x. gr_expires x < now \<and> gr_status x \<notin> {Recording, Pending_Consent, Deleted}) (recordings r))) r"
  unfolding resume_replicated_recordings_def cleanup_recordings_def by (rule snd_fold_count)+

lemma loops_ok:
  assumes "recordings_ok r"
  shows "recordings_ok (snd (resume_replicated_recordings now can r))" "recordings_ok (snd (cleanup_recordings now r))"
  unfolding loops_room by (rule fold_keeps; use assms in \<open>simp add: start_recording_ok delete_recording_ok\<close>)+

section \<open>The cache of the mixer\<close>

lemma load_controls_rows [simp]:
  "guests (snd (load_controls tick r)) = guests r" "invites (snd (load_controls tick r)) = invites r"
  "recordings (snd (load_controls tick r)) = recordings r" "consents (snd (load_controls tick r)) = consents r"
  by (simp_all add: load_controls_def read_controls_def store_controls_def Let_def)

lemma cache_ok_load: "cache_ok r \<Longrightarrow> cache_ok (snd (load_controls tick r))"
  by (simp add: load_controls_def read_controls_def store_controls_def cache_ok_def Let_def)

lemma cache_ok_cong:
  "guests r' = guests r \<Longrightarrow> controls r' = controls r \<Longrightarrow> loaded_at r' = loaded_at r \<Longrightarrow> cache_ok r' = cache_ok r"
  by (simp add: cache_ok_def)

lemma guest_ops_cache_ok:
  assumes ok: "cache_ok r"
  shows "cache_ok (snd (create_invite now t a s r))" "cache_ok (snd (revoke_invite now s i r))"
    "cache_ok (snd (redeem now t t' n r))" "cache_ok (snd (set_connected i up q r))"
    "cache_ok (snd (admit s i r))" "cache_ok (snd (reject_or_kick s i b r))"
    "cache_ok (snd (update_audio s i m on gain r))" "cache_ok (snd (all_off_air s r))"
    "cache_ok (snd (guest_self_mute t m' r))"
proof -
  show "cache_ok (snd (create_invite now t a s r))" "cache_ok (snd (revoke_invite now s i r))"
    using ok cache_ok_cong [OF invite_fields(1,7,9)] cache_ok_cong [OF invite_fields(2,8,10)] by simp_all
  show "cache_ok (snd (redeem now t t' n r))"
    using ok by (auto simp: redeem_def redeem_write_def Let_def cache_ok_def split: sum.split)
qed (use ok in \<open>simp_all add: set_connected_def admit_def admit_write_def reject_or_kick_def update_audio_def update_audio_write_def
      all_off_air_def guest_self_mute_def Let_def split: option.split sum.split\<close>)

section \<open>Runs\<close>

text \<open>
  A request, a socket message, a timer of a consent, a failing recorder, a change of the role of the
  node, or a block of audio.
\<close>

datatype room_event =
    Create_Invite rat string int int
  | Revoke_Invite rat int int
  | Redeem rat string string string
  | Connect int bool string
  | Admit int int
  | Remove int int bool
  | Set_Audio int int "bool option" "bool option" "rat option"
  | All_Off int
  | Self_Mute string bool
  | Request rat bool "string option" int int
  | Expire int
  | Consent rat bool int string bool
  | Stop rat string int
  | Stop_All rat string string
  | Interrupt rat string string int
  | Recorder_Failed rat string int
  | Resume rat bool
  | Delete_Recording int
  | Cleanup rat
  | Mix "int list" rat int

fun room_step :: "room_event \<Rightarrow> room \<Rightarrow> room" where
  "room_step (Create_Invite now t a s) r = snd (create_invite now t a s r)"
| "room_step (Revoke_Invite now s i) r = snd (revoke_invite now s i r)"
| "room_step (Redeem now t t' n) r = snd (redeem now t t' n r)"
| "room_step (Connect i up q) r = snd (set_connected i up q r)"
| "room_step (Admit s i) r = snd (admit s i r)"
| "room_step (Remove s i b) r = snd (reject_or_kick s i b r)"
| "room_step (Set_Audio s i m on g) r = snd (update_audio s i m on g r)"
| "room_step (All_Off s) r = snd (all_off_air s r)"
| "room_step (Self_Mute t m) r = snd (guest_self_mute t m r)"
| "room_step (Request now can days a s) r = snd (request_recording now can days a s r)"
| "room_step (Expire i) r = (if i \<in> set (timers r) then expire_consent i r else r)"
| "room_step (Consent now can i t b) r = snd (consent now can i t b r)"
| "room_step (Stop now failed i) r = snd (stop_recording now failed [] i r)"
| "room_step (Stop_All now failed reason) r = snd (stop_all now failed reason r)"
| "room_step (Interrupt now failed reason st) r = snd (interrupt_station now failed reason st r)"
| "room_step (Recorder_Failed now failed st) r = recorder_failed now failed st r"
| "room_step (Resume now can) r = snd (resume_replicated_recordings now can r)"
| "room_step (Delete_Recording i) r = snd (delete_recording i r)"
| "room_step (Cleanup now) r = snd (cleanup_recordings now r)"
| "room_step (Mix peers tick st) r = snd (mixed_sources peers tick st r)"

definition room_run :: "room_event list \<Rightarrow> room \<Rightarrow> room" where
  "room_run es r = fold room_step es r"

definition first_room :: "studio_row list \<Rightarrow> room" where
  "first_room ss = \<lparr>room_studios = ss, invites = [], guests = [], recordings = [], consents = [],
     recorders = [], timers = [], controls = [], loaded_at = 0\<rparr>"

lemma request_fields [simp]:
  "guests (snd (request_recording now can days a s r)) = guests r"
  "invites (snd (request_recording now can days a s r)) = invites r"
  "controls (snd (request_recording now can days a s r)) = controls r"
  "loaded_at (snd (request_recording now can days a s r)) = loaded_at r"
  by (cases rule: request_recording_cases [of now can days a s r]; simp)+

lemma consent_fields [simp]:
  "guests (snd (consent now can i t b r)) = guests r" "invites (snd (consent now can i t b r)) = invites r"
  "controls (snd (consent now can i t b r)) = controls r" "loaded_at (snd (consent now can i t b r)) = loaded_at r"
  by (simp_all add: consent_def set_consent_def Let_def split: sum.split)

lemma interrupt_station_room:
  "snd (interrupt_station now failed reason st r) = (case map_of (recorders r) st of
     None \<Rightarrow> r | Some i \<Rightarrow> snd (stop_recording now failed (or_default ''runtime_stopped'' reason) i r))"
  by (simp add: interrupt_station_def split: option.split prod.split sum.split)

lemma recording_ops_fields:
  "guests (room_step e r) = guests r \<and> invites (room_step e r) = invites r \<and> controls (room_step e r) = controls r
    \<and> loaded_at (room_step e r) = loaded_at r"
  if "case e of Request _ _ _ _ _ \<Rightarrow> True | Expire _ \<Rightarrow> True | Consent _ _ _ _ _ \<Rightarrow> True | Stop _ _ _ \<Rightarrow> True
    | Stop_All _ _ _ \<Rightarrow> True | Interrupt _ _ _ _ \<Rightarrow> True | Recorder_Failed _ _ _ \<Rightarrow> True | Resume _ _ \<Rightarrow> True
    | Delete_Recording _ \<Rightarrow> True | Cleanup _ \<Rightarrow> True | _ \<Rightarrow> False"
proof -
  let ?same = "\<lambda>s. guests s = guests r \<and> invites s = invites r \<and> controls s = controls r \<and> loaded_at s = loaded_at r"
  have stop: "?same s \<Longrightarrow> ?same (snd (stop_recording now failed reason i s))" for now failed reason i s by simp
  have del: "?same s \<Longrightarrow> ?same (snd (delete_recording i s))" for i s
    by (simp add: delete_recording_def split: option.split)
  show ?thesis
  proof (cases e)
    case (Stop_All now failed reason)
    have "?same (fold (\<lambda>i s. snd (stop_recording now failed reason i s)) ids (r\<lparr>timers := []\<rparr>))" for ids
      by (rule fold_keeps) simp_all
    then show ?thesis by (simp add: Stop_All stop_all_def)
  next
    case (Interrupt now failed reason st)
    then show ?thesis by (simp add: interrupt_station_room split: option.split)
  next
    case (Recorder_Failed now failed st)
    then show ?thesis by (simp add: recorder_failed_def split: option.split)
  next
    case (Resume now can)
    have "?same (snd (resume_replicated_recordings now can r))"
      unfolding loops_room by (rule fold_keeps) simp_all
    then show ?thesis by (simp add: Resume)
  next
    case (Cleanup now)
    have "?same (snd (cleanup_recordings now r))"
      unfolding loops_room by (rule fold_keeps) (simp_all add: del)
    then show ?thesis by (simp add: Cleanup)
  qed (use that del [of r] in \<open>simp_all add: expire_consent_def\<close>)
qed

lemma mixed_sources_room [simp]: "snd (mixed_sources peers tick st r) = snd (load_controls tick r)"
  by (simp add: mixed_sources_def split: prod.split)

lemma room_step_guests_ok:
  assumes "guests_ok r"
  shows "guests_ok (room_step e r)"
proof (cases "case e of Request _ _ _ _ _ \<Rightarrow> True | Expire _ \<Rightarrow> True | Consent _ _ _ _ _ \<Rightarrow> True | Stop _ _ _ \<Rightarrow> True
    | Stop_All _ _ _ \<Rightarrow> True | Interrupt _ _ _ _ \<Rightarrow> True | Recorder_Failed _ _ _ \<Rightarrow> True | Resume _ _ \<Rightarrow> True
    | Delete_Recording _ \<Rightarrow> True | Cleanup _ \<Rightarrow> True | _ \<Rightarrow> False")
  case True
  then show ?thesis
    using assms recording_ops_fields [of e r] guests_ok_cong [of "room_step e r" r] by simp
next
  case False
  then show ?thesis
    using assms guests_ok_cong [of "snd (load_controls _ r)" r]
    by (cases e) (simp_all add: create_invite_ok revoke_invite_ok redeem_ok set_connected_ok admit_ok reject_or_kick_ok
        update_audio_ok all_off_air_ok self_mute_ok)
qed

lemma room_step_ok:
  assumes "guests_ok r" "cache_ok r"
  shows "guests_ok (room_step e r) \<and> cache_ok (room_step e r)"
proof (cases "case e of Request _ _ _ _ _ \<Rightarrow> True | Expire _ \<Rightarrow> True | Consent _ _ _ _ _ \<Rightarrow> True | Stop _ _ _ \<Rightarrow> True
    | Stop_All _ _ _ \<Rightarrow> True | Interrupt _ _ _ _ \<Rightarrow> True | Recorder_Failed _ _ _ \<Rightarrow> True | Resume _ _ \<Rightarrow> True
    | Delete_Recording _ \<Rightarrow> True | Cleanup _ \<Rightarrow> True | _ \<Rightarrow> False")
  case True
  then show ?thesis
    using assms room_step_guests_ok recording_ops_fields [of e r] cache_ok_cong [of "room_step e r" r] by simp
next
  case False
  then have "cache_ok (room_step e r)"
    using assms by (cases e) (simp_all add: guest_ops_cache_ok cache_ok_load)
  then show ?thesis using room_step_guests_ok assms by simp
qed

lemma first_room_ok: "guests_ok (first_room ss)" "cache_ok (first_room ss)" "recordings_ok (first_room ss)"
  by (simp_all add: first_room_def guests_ok_def few_admitted_def admitted_in_def cache_ok_def recordings_ok_def
      consents_known_def recorded_with_consent_def)

lemma room_run_ok: "guests_ok r \<Longrightarrow> cache_ok r \<Longrightarrow> guests_ok (room_run es r) \<and> cache_ok (room_run es r)"
  by (induction es arbitrary: r) (simp_all add: room_run_def room_step_ok del: room_step.simps)

section \<open>Properties\<close>

text \<open>
  C37: after any sequence of operations, handled one after the other, the mixer hears of the connected
  sessions exactly those the tables show as admitted, connected, not muted and on air in the station,
  although it reads the tables at most five times a second. A read that overlaps with an operation
  may be heard until the next one (\<open>racing_load_outlives_kick\<close>).
\<close>

theorem mixer_hears_on_air:
  assumes "r = room_run es (first_room ss)" and "1 / 5 \<le> tick"
  shows "set (fst (mixed_sources peers tick st r)) =
    {(gs_id g, gs_gain g) |g. g \<in> set (guests r) \<and> gs_id g \<in> set peers \<and> gs_status g = Admitted
       \<and> gs_station g = st \<and> gs_connected g \<and> \<not> gs_muted g \<and> gs_on_air g}"
proof -
  have ok: "guests_ok r" "cache_ok r" using room_run_ok [OF first_room_ok(1,2)] assms(1) by simp_all
  let ?cs = "filter (\<lambda>g. gs_status g = Admitted) (guests r)"
  have "fst (load_controls tick r) = ?cs"
    using ok(2) assms(2) by (auto simp: load_controls_def read_controls_def store_controls_def cache_ok_def Let_def)
  then have e: "fst (mixed_sources peers tick st r) = concat (map (\<lambda>i. case find (\<lambda>c. gs_id c = i) ?cs of
      None \<Rightarrow> [] | Some c \<Rightarrow> if audible st c then [(i, gs_gain c)] else []) peers)"
    by (cases "load_controls tick r") (simp add: mixed_sources_def)
  have found: "find (\<lambda>c. gs_id c = i) ?cs = Some c \<longleftrightarrow> c \<in> set ?cs \<and> gs_id c = i" for i c
  proof
    assume "c \<in> set ?cs \<and> gs_id c = i"
    then obtain c' where "find (\<lambda>c. gs_id c = i) ?cs = Some c'" by (cases "find (\<lambda>c. gs_id c = i) ?cs") (auto simp: find_None_iff)
    moreover from this have "c' = c"
      using same_guest [OF ok(1), of c' c] \<open>c \<in> set ?cs \<and> gs_id c = i\<close> by (auto dest!: find_SomeD)
    ultimately show "find (\<lambda>c. gs_id c = i) ?cs = Some c" by simp
  qed (auto dest: find_SomeD)
  show ?thesis
  proof (intro equalityI subsetI)
    fix p
    assume "p \<in> set (fst (mixed_sources peers tick st r))"
    then obtain i where "i \<in> set peers" "p \<in> set (case find (\<lambda>c. gs_id c = i) ?cs of
        None \<Rightarrow> [] | Some c \<Rightarrow> if audible st c then [(i, gs_gain c)] else [])"
      unfolding e by auto
    then show "p \<in> {(gs_id g, gs_gain g) |g. g \<in> set (guests r) \<and> gs_id g \<in> set peers \<and> gs_status g = Admitted
       \<and> gs_station g = st \<and> gs_connected g \<and> \<not> gs_muted g \<and> gs_on_air g}"
      by (cases "find (\<lambda>c. gs_id c = i) ?cs") (auto simp: found audible_def split: if_splits)
  next
    fix p
    assume "p \<in> {(gs_id g, gs_gain g) |g. g \<in> set (guests r) \<and> gs_id g \<in> set peers \<and> gs_status g = Admitted
       \<and> gs_station g = st \<and> gs_connected g \<and> \<not> gs_muted g \<and> gs_on_air g}"
    then obtain g where g: "p = (gs_id g, gs_gain g)" "g \<in> set ?cs" "gs_id g \<in> set peers" "audible st g"
      by (auto simp: audible_def)
    then have "find (\<lambda>c. gs_id c = gs_id g) ?cs = Some g" using found by blast
    then show "p \<in> set (fst (mixed_sources peers tick st r))" unfolding e using g by force
  qed
qed

text \<open>Whether an event stops a recording for the loss of the leadership.\<close>

fun keeps_leadership :: "room_event \<Rightarrow> bool" where
  "keeps_leadership (Stop now failed i) \<longleftrightarrow> real_stop failed"
| "keeps_leadership (Stop_All now failed reason) \<longleftrightarrow> real_stop failed \<and> real_stop reason"
| "keeps_leadership (Interrupt now failed reason st) \<longleftrightarrow> real_stop failed \<and> real_stop reason"
| "keeps_leadership (Recorder_Failed now failed st) \<longleftrightarrow> real_stop failed"
| "keeps_leadership _ \<longleftrightarrow> True"

lemma real_stop_simps [simp]: "real_stop []" "real_stop ''recorder_backpressure_or_failure''"
  "real_stop s \<Longrightarrow> real_stop (or_default ''runtime_stopped'' s)"
  by (simp_all add: real_stop_def or_default_def)

lemma room_step_recordings_ok:
  assumes "recordings_ok r" "guests_ok r" "keeps_leadership e"
  shows "recordings_ok (room_step e r)"
proof (cases e)
  case (Interrupt now failed reason st)
  then show ?thesis using assms by (simp add: interrupt_station_room stop_recording_ok split: option.split)
next
  case (Recorder_Failed now failed st)
  then show ?thesis using assms by (simp add: recorder_failed_def stop_recording_ok split: option.split)
next
  case (Mix peers tick st)
  then show ?thesis using assms recordings_ok_cong [of "snd (load_controls tick r)" r] by simp
qed (use assms in \<open>simp_all add: guest_ops_recordings_ok request_recording_ok expire_consent_ok consent_ok
    stop_recording_ok stop_all_ok loops_ok delete_recording_ok\<close>)

lemma room_run_recordings_ok:
  assumes "\<forall>e \<in> set es. keeps_leadership e" "recordings_ok r" "guests_ok r" "cache_ok r"
  shows "recordings_ok (room_run es r)"
  using assms
proof (induction es arbitrary: r)
  case (Cons e es)
  then show ?case using room_step_recordings_ok [of r e] room_step_ok [of r e]
    by (simp add: room_run_def del: room_step.simps)
qed (simp add: room_run_def)

text \<open>
  C36: as long as the node keeps its leadership and requests are handled one after the other, a
  recording whose row says it is in progress has the agreement of every guest who was asked, and a
  request to admit another guest to its studio is refused. It is the row that is meant: a guest who
  withdraws the agreement cancels the row while the recorder goes on
  (\<open>withdrawn_consent_keeps_recording\<close>), and then admissions are no longer refused.
\<close>

theorem recording_needs_consent:
  assumes "\<forall>e \<in> set es. keeps_leadership e" and "r = room_run es (first_room ss)"
    and "x \<in> set (recordings r)" "gr_status x = Recording"
  shows "(\<forall>c \<in> set (consents r). gc_recording c \<noteq> gr_id x \<or> gc_decision c = Accepted)
    \<and> (\<exists>e. admit (gr_studio x) i r = (Inl e, r))"
proof -
  have ok: "recordings_ok r" "guests_ok r"
    using room_run_recordings_ok [OF assms(1) first_room_ok(3,1,2)] room_run_ok [OF first_room_ok(1,2)] assms(2)
    by simp_all
  have "\<not> consented j i r" if "guest_in (gr_studio x) i r = Some g" "gs_status g = Lobby" for g j
  proof
    assume "consented j i r"
    then obtain c where "c \<in> set (consents r)" "gc_session c = i"
      by (auto simp: consented_def split: option.splits dest: find_SomeD)
    then obtain g' where "g' \<in> set (guests r)" "gs_id g' = i" "gs_status g' \<noteq> Lobby"
      using ok(1) unfolding recordings_ok_def consents_known_def by metis
    then show False using same_guest [OF ok(2), of g' g] guest_in_SomeD [OF that(1)] that(2) by auto
  qed
  moreover have "find (\<lambda>y. gr_studio y = gr_studio x \<and> gr_status y = Recording) (recordings r) \<noteq> None"
    using assms(3,4) by (auto simp: find_None_iff)
  ultimately have "admit_check (gr_studio x) i r \<noteq> None"
    by (auto simp: admit_check_def split: option.splits if_splits)
  then have "\<exists>e. admit (gr_studio x) i r = (Inl e, r)" by (auto simp: admit_def)
  then show ?thesis
    using ok(1) assms(3,4) by (auto simp: recordings_ok_def recorded_with_consent_def all_accepted_def)
qed

end
