(* ===== verification/Guest_Races.thy ===== *)
theory Guest_Races
  imports Guest_Props
begin

text \<open>
  Requests of the guest room that overlap. The end points run in a pool of threads, and nothing holds
  the database between the check and the write of a redemption, an admission or a change of the audio:
  here the two are separate events, and any number of requests may have passed their check and wait
  to write. Every other operation writes in one transaction without a check that matters to it.
\<close>

section \<open>Interleaved requests\<close>

text \<open>A request that has passed its check and has not written yet.\<close>

datatype passed =
    Redeeming string string invite_row
  | Admitting int int
  | Updating int "bool option" "bool option" "rat option"

fun finish :: "rat \<Rightarrow> passed \<Rightarrow> room \<Rightarrow> room" where
  "finish now (Redeeming st n v) r = snd (redeem_write now st n v r)"
| "finish now (Admitting s i) r = admit_write i r"
| "finish now (Updating i m on gain) r = update_audio_write i m on gain r"

datatype race_event =
    Redeem_Check rat string string string
  | Admit_Check int int
  | Audio_Check int int "bool option" "bool option" "rat option"
  | Write rat nat
  | Whole room_event

type_synonym race = "room \<times> passed list"

fun race_step :: "race_event \<Rightarrow> race \<Rightarrow> race" where
  "race_step (Redeem_Check now t st n) (r, ps) =
     (r, case redeem_check now t n r of Inl _ \<Rightarrow> ps | Inr v \<Rightarrow> ps @ [Redeeming st n v])"
| "race_step (Admit_Check s i) (r, ps) =
     (r, case admit_check s i r of Some _ \<Rightarrow> ps | None \<Rightarrow> ps @ [Admitting s i])"
| "race_step (Audio_Check s i m on gain) (r, ps) =
     (r, case update_audio_check s i gain r of Some _ \<Rightarrow> ps | None \<Rightarrow> ps @ [Updating i m on gain])"
| "race_step (Write now k) (r, ps) =
     (if k < length ps then (finish now (ps ! k) r, take k ps @ drop (Suc k) ps) else (r, ps))"
| "race_step (Whole e) (r, ps) = (room_step e r, ps)"

definition race_run :: "race_event list \<Rightarrow> race \<Rightarrow> race" where
  "race_run es s = fold race_step es s"

text \<open>A check with its write right after it is the operation.\<close>

lemma check_then_write:
  "redeem_check now t n r = Inr v \<Longrightarrow>
   race_run [Redeem_Check now t st n, Write now (length ps)] (r, ps) = (room_step (Redeem now t st n) r, ps)"
  "admit_check s i r = None \<Longrightarrow>
   race_run [Admit_Check s i, Write now (length ps)] (r, ps) = (room_step (Admit s i) r, ps)"
  "update_audio_check s i gain r = None \<Longrightarrow>
   race_run [Audio_Check s i m on gain, Write now (length ps)] (r, ps) = (room_step (Set_Audio s i m on gain) r, ps)"
  by (simp_all add: race_run_def redeem_def admit_def update_audio_def Let_def)

section \<open>Requests that do not get in each other's way\<close>

fun redeems :: "string \<Rightarrow> passed \<Rightarrow> bool" where
  "redeems t (Redeeming st n v) \<longleftrightarrow> gi_token v = t"
| "redeems t _ \<longleftrightarrow> False"

fun admits_to :: "int \<Rightarrow> passed \<Rightarrow> bool" where
  "admits_to s (Admitting s' i) \<longleftrightarrow> s' = s"
| "admits_to s _ \<longleftrightarrow> False"

fun updates :: "int \<Rightarrow> passed \<Rightarrow> bool" where
  "updates i (Updating j m on gain) \<longleftrightarrow> j = i"
| "updates i _ \<longleftrightarrow> False"

text \<open>
  An event is orderly unless it redeems an invitation another redemption has just checked, admits to a
  studio to which another admission is on its way, or removes a guest whose audio is being changed.
  The three operations that check first occur as their two events.
\<close>

fun orderly :: "race \<Rightarrow> race_event \<Rightarrow> bool" where
  "orderly (r, ps) (Redeem_Check now t st n) \<longleftrightarrow> (\<forall>p \<in> set ps. \<not> redeems (token_digest t) p)"
| "orderly (r, ps) (Admit_Check s i) \<longleftrightarrow> (\<forall>p \<in> set ps. \<not> admits_to s p)"
| "orderly (r, ps) (Audio_Check s i m on gain) \<longleftrightarrow> True"
| "orderly (r, ps) (Write now k) \<longleftrightarrow> True"
| "orderly (r, ps) (Whole e) \<longleftrightarrow>
     (case e of
        Redeem _ _ _ _ \<Rightarrow> False | Admit _ _ \<Rightarrow> False | Set_Audio _ _ _ _ _ \<Rightarrow> False
      | Remove s i b \<Rightarrow> \<forall>p \<in> set ps. \<not> updates i p
      | _ \<Rightarrow> True)"

fun orderly_run :: "race_event list \<Rightarrow> race \<Rightarrow> bool" where
  "orderly_run [] s \<longleftrightarrow> True"
| "orderly_run (e # es) s \<longleftrightarrow> orderly s e \<and> orderly_run es (race_step e s)"

fun still_allowed :: "room \<Rightarrow> passed \<Rightarrow> bool" where
  "still_allowed r (Redeeming st n v) \<longleftrightarrow> invite_open v r"
| "still_allowed r (Admitting s i) \<longleftrightarrow> seat_free s i r"
| "still_allowed r (Updating i m on gain) \<longleftrightarrow> audio_allowed i gain r"

fun apart :: "passed \<Rightarrow> passed \<Rightarrow> bool" where
  "apart (Redeeming st n v) (Redeeming st' n' w) \<longleftrightarrow> gi_id v \<noteq> gi_id w"
| "apart (Admitting s i) (Admitting s' i') \<longleftrightarrow> s \<noteq> s'"
| "apart _ _ \<longleftrightarrow> True"

fun race_ok :: "race \<Rightarrow> bool" where
  "race_ok (r, ps) \<longleftrightarrow> guests_ok r \<and> (\<forall>p \<in> set ps. still_allowed r p) \<and> sorted_wrt apart ps"

lemma apart_sym: "apart p q \<longleftrightarrow> apart q p"
  by (cases p; cases q) auto

lemma finish_ok: "guests_ok r \<Longrightarrow> still_allowed r p \<Longrightarrow> guests_ok (finish now p r)"
  by (cases p) (auto simp: redeem_write_ok update_audio_write_ok intro: admit_write_ok)

lemma seat_free_write:
  assumes "guests_ok r" "seat_free s i r" "seat_free s' i' r" "s \<noteq> s'"
  shows "seat_free s' i' (admit_write i r)"
proof -
  obtain g where "g \<in> set (guests r)" "gs_id g = i" "gs_studio g = s" using assms(2) by (auto simp: seat_free_def)
  then have "length (admitted_in s' (admit_write i r)) \<le> length (admitted_in s' r)"
    using admit_write_elsewhere [OF assms(1), of g i s'] assms(4) by simp
  then show ?thesis using assms(3) by (auto simp: seat_free_def admit_write_rows bex_update_where)
qed

lemma redeem_write_keeps:
  assumes "still_allowed r q" "apart (Redeeming st n v) q"
  shows "still_allowed (snd (redeem_write now st n v r)) q"
proof (cases rule: redeem_write_cases [of now st n v r])
  case (written g)
  show ?thesis
  proof (cases q)
    case (Redeeming st' n' w)
    then obtain u where u: "u \<in> set (invites r)" "gi_id u = gi_id w" "gi_token u = gi_token w" "gi_studio u = gi_studio w"
        "gi_station u = gi_station w" "gi_redeemed u = None"
      using assms(1) by (auto simp: invite_open_def)
    then show ?thesis using Redeeming assms(2)
      unfolding Redeeming still_allowed.simps invite_open_def written(9) bex_update_where by (intro bexI [OF _ u(1)]) simp
  qed (use assms(1) written in \<open>auto simp: seat_free_def audio_allowed_def admitted_in_def\<close>)
qed (simp add: assms)

text \<open>What an operation that admits nobody leaves true for the waiting requests.\<close>

definition keeps_open :: "room \<Rightarrow> room \<Rightarrow> bool" where
  "keeps_open r r' \<longleftrightarrow> (\<forall>v. invite_open v r \<longrightarrow> invite_open v r')"

lemma keeps_open_invites: "invites r' = invites r \<Longrightarrow> keeps_open r r'"
  by (simp add: keeps_open_def invite_open_def)

lemma still_allowed_update:
  assumes q: "still_allowed r q" and inv: "keeps_open r r'" and r': "guests r' = update_where P f (guests r)"
    and keep: "\<And>g. gs_id (f g) = gs_id g" "\<And>g. gs_studio (f g) = gs_studio g"
      "\<And>g. P g \<Longrightarrow> gs_status (f g) = Admitted \<Longrightarrow> gs_status g = Admitted"
    and stay: "\<And>g. P g \<Longrightarrow> updates (gs_id g) q \<Longrightarrow> gs_status g = Admitted \<Longrightarrow> gs_status (f g) = Admitted"
  shows "still_allowed r' q"
proof (cases q)
  case (Redeeming st n v)
  then show ?thesis using q inv by (simp add: keeps_open_def)
next
  case (Admitting s i)
  have "length (admitted_in s r') \<le> length (admitted_in s r)"
    unfolding admitted_in_def r' by (rule length_filter_map_le) (use keep in \<open>auto split: if_splits\<close>)
  then show ?thesis using q Admitting by (auto simp: seat_free_def r' keep bex_update_where)
next
  case (Updating i m on gain)
  then obtain g where g: "g \<in> set (guests r)" "gs_id g = i" "gs_status g = Admitted"
    using q by (auto simp: audio_allowed_def)
  then have "gs_id (if P g then f g else g) = i \<and> gs_status (if P g then f g else g) = Admitted"
    using keep(1) stay [of g] Updating by simp
  then show ?thesis using q g(1) unfolding Updating still_allowed.simps audio_allowed_def r' bex_update_where by blast
qed

lemma still_allowed_rows: "still_allowed r q \<Longrightarrow> keeps_open r r' \<Longrightarrow> guests r' = guests r \<Longrightarrow> still_allowed r' q"
  by (rule still_allowed_update [of r q r' "\<lambda>_. False" id]) (simp_all add: update_where_none)

lemma finish_keeps:
  assumes "guests_ok r" "still_allowed r p" "still_allowed r q" "apart p q"
  shows "still_allowed (finish now p r) q"
proof (cases p)
  case (Redeeming st n v)
  then show ?thesis using redeem_write_keeps assms by simp
next
  case (Admitting s i)
  show ?thesis
  proof (cases q)
    case (Admitting s' i')
    then show ?thesis using \<open>p = Admitting s i\<close> assms by (simp add: seat_free_write)
  qed (use \<open>p = Admitting s i\<close> assms in \<open>auto simp: invite_open_def audio_allowed_def admit_write_rows bex_update_where\<close>)
next
  case (Updating i m on gain)
  show ?thesis
    by (rule still_allowed_update [OF assms(3), of _ "\<lambda>g. gs_id g = i"
          "\<lambda>g. g\<lparr>gs_muted := put m (gs_muted g), gs_on_air := put on (gs_on_air g), gs_gain := put gain (gs_gain g)\<rparr>"])
      (simp_all add: Updating update_audio_write_def keeps_open_invites)
qed

lemma invites_keep_open:
  "keeps_open r (snd (create_invite now t a s r))" "keeps_open r (snd (revoke_invite now s i r))"
  by (fastforce simp: keeps_open_def invite_open_def create_invite_def revoke_invite_def Let_def bex_update_where
      split: option.split)+

lemma whole_keeps:
  assumes q: "still_allowed r q" and e: "\<forall>p \<in> set ps. still_allowed r p" "q \<in> set ps" "orderly (r, ps) (Whole e)"
  shows "still_allowed (room_step e r) q"
proof (cases e)
  case (Remove s i b)
  then have "\<not> updates i q" using e by simp
  show ?thesis
  proof (cases "guest_in s i r")
    case (Some g)
    show ?thesis
      by (rule still_allowed_update [OF q, of _ "\<lambda>g. gs_id g = i"
            "\<lambda>g. g\<lparr>gs_status := if b then Rejected else Kicked, gs_on_air := False\<rparr>"])
        (use \<open>\<not> updates i q\<close> in \<open>auto simp: Remove reject_or_kick_def Some Let_def keeps_open_invites split: if_splits\<close>)
  qed (simp add: Remove reject_or_kick_def q)
next
  case (Connect i up quality)
  show ?thesis
    by (rule still_allowed_update [OF q, of _ "\<lambda>g. gs_id g = i"
          "\<lambda>g. g\<lparr>gs_connected := up, gs_quality := take 32 (or_default ''unknown'' quality)\<rparr>"])
      (simp_all add: Connect set_connected_def Let_def keeps_open_invites)
next
  case (All_Off s)
  show ?thesis
  proof (cases "room_studio s r")
    case (Some x)
    show ?thesis
      by (rule still_allowed_update [OF q, of _ "\<lambda>g. gs_studio g = s \<and> gs_status g = Admitted" "gs_on_air_update (\<lambda>_. False)"])
        (simp_all add: All_Off all_off_air_def Some keeps_open_invites)
  qed (simp add: All_Off all_off_air_def q)
next
  case (Self_Mute t b)
  show ?thesis
  proof (cases "authenticate_session t r")
    case (Inr g)
    show ?thesis
      by (rule still_allowed_update [OF q, of _ "\<lambda>x. gs_id x = gs_id g" "gs_muted_update (\<lambda>_. b)"])
        (simp_all add: Self_Mute guest_self_mute_def Inr keeps_open_invites)
  qed (simp add: Self_Mute guest_self_mute_def q)
next
  case (Create_Invite now t a s)
  then show ?thesis using still_allowed_rows [OF q invites_keep_open(1)] by (simp add: invite_fields)
next
  case (Revoke_Invite now s i)
  then show ?thesis using still_allowed_rows [OF q invites_keep_open(2)] by (simp add: invite_fields)
next
  case (Mix peers tick st)
  then show ?thesis using still_allowed_rows [OF q, of "snd (load_controls tick r)"] by (simp add: keeps_open_invites)
qed (use e recording_ops_fields [of e r] still_allowed_rows [OF q keeps_open_invites, of "room_step e r"] in simp_all)

lemma redeem_check_token: "redeem_check now t n r = Inr v \<Longrightarrow> gi_token v = token_digest t"
  by (auto simp: redeem_check_def split: if_splits option.splits dest: find_SomeD)

lemma race_check_ok:
  assumes ok: "race_ok (r, ps)" and p: "still_allowed r p" "\<And>q. q \<in> set ps \<Longrightarrow> apart q p"
  shows "race_ok (r, ps @ [p])"
  using assms by (auto simp: sorted_wrt_append)

lemma race_step_ok:
  assumes ok: "race_ok s" and "orderly s e"
  shows "race_ok (race_step e s)"
proof -
  obtain r ps where s: "s = (r, ps)" by (cases s)
  have g: "guests_ok r" and w: "\<And>q. q \<in> set ps \<Longrightarrow> still_allowed r q" and a: "sorted_wrt apart ps"
    using ok s by simp_all
  show ?thesis
  proof (cases e)
    case (Redeem_Check now t st n)
    show ?thesis
    proof (cases "redeem_check now t n r")
      case (Inr v)
      have v: "v \<in> set (invites r)" "gi_token v = token_digest t"
        using redeem_check_Inr [OF Inr] redeem_check_token [OF Inr] by simp_all
      have "apart q (Redeeming st n v)" if q: "q \<in> set ps" for q
      proof (cases q)
        case (Redeeming st' n' x)
        then obtain u where u: "u \<in> set (invites r)" "gi_id u = gi_id x" "gi_token u = gi_token x"
          using w [OF q] by (auto simp: invite_open_def)
        moreover have "gi_token x \<noteq> token_digest t" using assms(2) q Redeeming Redeem_Check s by auto
        ultimately show ?thesis using Redeeming same_invite [OF g v(1) u(1)] v(2) by auto
      qed simp_all
      then have "race_ok (r, ps @ [Redeeming st n v])"
        using race_check_ok [of r ps "Redeeming st n v"] ok s redeem_check_open [OF Inr] by simp
      then show ?thesis by (simp add: s Redeem_Check Inr del: race_ok.simps)
    qed (use ok in \<open>simp add: s Redeem_Check\<close>)
  next
    case (Admit_Check st i)
    show ?thesis
    proof (cases "admit_check st i r")
      case None
      have "apart q (Admitting st i)" if "q \<in> set ps" for q
        using assms(2) that Admit_Check s by (cases q) auto
      then have "race_ok (r, ps @ [Admitting st i])"
        using race_check_ok [of r ps "Admitting st i"] ok s admit_check_free [OF None] by simp
      then show ?thesis by (simp add: s Admit_Check None del: race_ok.simps)
    qed (use ok in \<open>simp add: s Admit_Check\<close>)
  next
    case (Audio_Check st i m on gain)
    show ?thesis
    proof (cases "update_audio_check st i gain r")
      case None
      have "apart q (Updating i m on gain)" for q by (cases q) simp_all
      then have "race_ok (r, ps @ [Updating i m on gain])"
        using race_check_ok [of r ps "Updating i m on gain"] ok s update_audio_check_allowed [OF None] by simp
      then show ?thesis by (simp add: s Audio_Check None del: race_ok.simps)
    qed (use ok in \<open>simp add: s Audio_Check\<close>)
  next
    case (Write now k)
    show ?thesis
    proof (cases "k < length ps")
      case True
      let ?rest = "take k ps @ drop (Suc k) ps"
      have "sorted_wrt apart (take k ps @ ps ! k # drop (Suc k) ps)"
        using a id_take_nth_drop [OF True] by simp
      then have "sorted_wrt apart ?rest" "\<And>q. q \<in> set ?rest \<Longrightarrow> apart (ps ! k) q"
        by (auto simp: sorted_wrt_append apart_sym)
      moreover have "q \<in> set ps" if "q \<in> set ?rest" for q
        using that by (auto dest: in_set_takeD in_set_dropD)
      ultimately have "race_ok (finish now (ps ! k) r, ?rest)"
        using g w True finish_ok [of r "ps ! k"] finish_keeps [of r "ps ! k"] by (simp del: set_append)
      then show ?thesis by (simp add: s Write True del: race_ok.simps)
    qed (use ok in \<open>simp add: s Write\<close>)
  next
    case (Whole ev)
    have "guests_ok (room_step ev r)"
      using room_step_guests_ok [OF g] .
    then show ?thesis using whole_keeps [of r _ ps ev] w a assms(2) by (simp add: s Whole)
  qed
qed

lemma race_run_ok: "race_ok s \<Longrightarrow> orderly_run es s \<Longrightarrow> race_ok (race_run es s)"
  by (induction es arbitrary: s) (simp_all add: race_run_def race_step_ok)

section \<open>Property\<close>

text \<open>
  C35: however the requests of the guest room overlap, as long as no two redemptions of one invitation
  and no two admissions to one studio are between check and write at once and no guest is removed
  while the guest's audio is being changed, only admitted guests are on air, with a gain between -24
  and 12 dB, at most four guests of a studio are admitted, and every session comes from an invitation
  of its studio that is spent, no two sessions from the same one. The three conditions are needed:
  \<open>racing_admissions_overfill\<close>, \<open>racing_redemptions_share_invite\<close>, \<open>racing_removal_leaves_on_air\<close>.
\<close>

theorem guest_room_safe:
  assumes "orderly_run es (first_room ss, [])" and "(r, ps) = race_run es (first_room ss, [])"
  shows "(\<forall>g \<in> set (guests r). (gs_on_air g \<longrightarrow> gs_status g = Admitted) \<and> -24 \<le> gs_gain g \<and> gs_gain g \<le> 12)
    \<and> (\<forall>studio. length (filter (\<lambda>g. gs_studio g = studio \<and> gs_status g = Admitted) (guests r)) \<le> 4)
    \<and> distinct (map gs_invite (guests r))
    \<and> (\<forall>g \<in> set (guests r). \<exists>v \<in> set (invites r). gi_id v = gs_invite g \<and> gi_redeemed v \<noteq> None
         \<and> gi_studio v = gs_studio g \<and> gi_station v = gs_station g)"
proof -
  have "race_ok (first_room ss, [])" using first_room_ok(1) by simp
  from race_run_ok [OF this assms(1)] have "guests_ok r" unfolding assms(2) [symmetric] by simp
  then show ?thesis
    by (simp add: guests_ok_def sound_guest_def few_admitted_def admitted_in_def max_admitted_guests_def invite_spent_def)
qed

end
