(* ===== verification/Guest_Runs.thy ===== *)
theory Guest_Runs
  imports Guest_Races
begin

text \<open>Concrete runs of the guest room: the witnesses of \<open>Guest_Props\<close> and its findings.\<close>

section \<open>A guest on air\<close>

definition studio_a :: studio_row where
  "studio_a = \<lparr>sd_id = 1, sd_station = 7, sd_name = ''A'', sd_description = [], sd_order = 1, sd_active = True,
     sd_on_air = True, sd_user = None\<rparr>"

definition ayse :: guest_row where
  "ayse = \<lparr>gs_id = 1, gs_invite = 1, gs_studio = 1, gs_station = 7, gs_name = ''Ayse'',
     gs_token = token_digest ''key'', gs_status = Admitted, gs_connected = True, gs_muted = False,
     gs_on_air = True, gs_gain = -3, gs_quality = ''unknown''\<rparr>"

definition spent_invite :: invite_row where
  "spent_invite = \<lparr>gi_id = 1, gi_studio = 1, gi_station = 7, gi_token = token_digest ''inv'', gi_by = 9,
     gi_expires = 7200, gi_redeemed = Some 60, gi_revoked = None\<rparr>"

definition guest_talks :: "room_event list" where
  "guest_talks = [Create_Invite 0 ''inv'' 9 1, Redeem 60 ''inv'' ''key'' ''  Ayse '', Connect 1 True [],
     Admit 1 1, Set_Audio 1 1 None (Some True) (Some (-3))]"

definition ayse_room :: room where
  "ayse_room = (first_room [studio_a])\<lparr>invites := [spent_invite], guests := [ayse]\<rparr>"

lemma ayse_name: "normalized_name ''  Ayse '' = ''Ayse''"
  by code_simp

lemma ayse_short: "normalized_name ''Ayse'' = ''Ayse''"
  by code_simp

lemmas room_ops = create_invite_def redeem_check_def redeem_write_def set_connected_def admit_check_def
  admit_write_def update_audio_check_def update_audio_write_def all_off_air_def guest_self_mute_def
  authenticate_session_def guest_in_def guest_of_def room_studio_def set_guest_def invalidate_controls_def
  admitted_in_def max_admitted_guests_def next_rowid_def put_def or_default_def current_timestamp_def ayse_name Let_def

lemma guest_talks_room: "room_run guest_talks (first_room [studio_a]) = ayse_room"
  by (simp add: room_run_def guest_talks_def first_room_def ayse_room_def studio_a_def ayse_def spent_invite_def
      redeem_def admit_def update_audio_def room_ops)

text \<open>The same with other requests between each check and its write.\<close>

definition guest_talks_meanwhile :: "race_event list" where
  "guest_talks_meanwhile = [Whole (Create_Invite 0 ''inv'' 9 1), Redeem_Check 60 ''inv'' ''key'' ''  Ayse '', Whole (All_Off 1),
     Write 60 0, Whole (Connect 1 True []), Admit_Check 1 1, Whole (Self_Mute ''key'' True), Write 63 0,
     Audio_Check 1 1 (Some False) (Some True) (Some (-3)), Whole (All_Off 1), Write 64 0]"

lemma guest_talks_meanwhile_room: "race_run guest_talks_meanwhile (first_room [studio_a], []) = (ayse_room, [])"
  by (simp add: race_run_def guest_talks_meanwhile_def first_room_def ayse_room_def studio_a_def ayse_def spent_invite_def
      room_ops)

theorem guest_room_safe_witness:
  "\<exists>r. (r, []) = race_run guest_talks_meanwhile (first_room [studio_a], []) \<and> map gs_on_air (guests r) = [True]
     \<and> length (filter (\<lambda>g. gs_studio g = 1 \<and> gs_status g = Admitted) (guests r)) \<le> 4"
proof -
  have "orderly_run guest_talks_meanwhile (first_room [studio_a], [])"
    by (simp add: guest_talks_meanwhile_def first_room_def studio_a_def room_ops)
  from guest_room_safe [OF this guest_talks_meanwhile_room [symmetric]] show ?thesis
    by (simp add: guest_talks_meanwhile_room ayse_room_def ayse_def)
qed

theorem mixer_hears_on_air_witness:
  "set (fst (mixed_sources [1, 2] 5 7 (room_run guest_talks (first_room [studio_a])))) = {(1, -3)}"
  using mixer_hears_on_air [OF refl, of 5 "[1, 2]" 7 guest_talks "[studio_a]"]
  by (auto simp: guest_talks_room ayse_room_def ayse_def)

section \<open>A recording with consent\<close>

definition recorded :: "room_event list" where
  "recorded = guest_talks @ [Request 100 True None 9 1, Consent 110 True 1 ''key'' True]"

definition rec_row :: "rec_status \<Rightarrow> segment list \<Rightarrow> string \<Rightarrow> recording_row" where
  "rec_row s segs m = \<lparr>gr_id = 1, gr_studio = 1, gr_station = 7, gr_status = s, gr_by = 9,
     gr_expires = 100 + 2592000, gr_segments = segs, gr_reason = m\<rparr>"

definition ayse_says :: "decision \<Rightarrow> consent_row" where
  "ayse_says d = \<lparr>gc_recording = 1, gc_session = 1, gc_decision = d\<rparr>"

lemmas recording_ops = request_recording_def consent_def start_recording_def with_status_def recording_status_def
  recording_of_def retention_days_def asked_guests_def authenticate_session_def set_consent_def decided_def
  set_recording_def new_segments_def close_last_def stop_recording_def stop_all_def cancel_recording_def
  default_to_def or_default_def next_rowid_def room_studio_def Let_def

definition recording_room :: room where
  "recording_room = ayse_room\<lparr>recordings := [rec_row Recording [\<lparr>sg_started = 110, sg_stopped = None, sg_reason = None\<rparr>] []],
     consents := [ayse_says Accepted], recorders := [(7, 1)]\<rparr>"

lemma room_run_append: "room_run (es @ es') r = room_run es' (room_run es r)"
  by (simp add: room_run_def)

lemma recorded_room: "room_run recorded (first_room [studio_a]) = recording_room"
  unfolding recorded_def room_run_append guest_talks_room recording_room_def
  by (simp add: room_run_def ayse_room_def first_room_def studio_a_def ayse_def rec_row_def ayse_says_def recording_ops)

theorem recording_needs_consent_witness:
  "\<exists>x \<in> set (recordings (room_run recorded (first_room [studio_a]))). gr_status x = Recording
     \<and> (\<exists>c \<in> set (consents (room_run recorded (first_room [studio_a]))). gc_decision c = Accepted)
     \<and> (\<exists>e. admit 1 2 (room_run recorded (first_room [studio_a])) = (Inl e, room_run recorded (first_room [studio_a])))"
proof -
  let ?x = "rec_row Recording [\<lparr>sg_started = 110, sg_stopped = None, sg_reason = None\<rparr>] []"
  have x: "?x \<in> set (recordings (room_run recorded (first_room [studio_a])))" "gr_status ?x = Recording"
    by (simp_all add: recorded_room recording_room_def rec_row_def)
  have "\<forall>e \<in> set recorded. keeps_leadership e" by (simp add: recorded_def guest_talks_def)
  note recording_needs_consent [OF this refl x, of 2]
  then show ?thesis using x
    by (intro bexI [OF _ x(1)]) (simp add: rec_row_def recorded_room recording_room_def ayse_says_def)
qed

section \<open>Where consent is missing\<close>

text \<open>
  Only guests who are connected are asked. A guest who is admitted and on air but reconnecting is not
  asked and is heard in the recording afterwards.
\<close>

theorem reconnecting_guest_is_not_asked:
  "let r = room_run (guest_talks @ [Connect 1 False [], Request 100 True None 9 1, Connect 1 True []]) (first_room [studio_a])
   in map gr_status (recordings r) = [Recording] \<and> consents r = [] \<and> recorders r = [(7, 1)]
    \<and> fst (mixed_sources [1] 200 7 r) = [(1, -3)]"
  unfolding room_run_append guest_talks_room
  by (simp add: room_run_def ayse_room_def first_room_def studio_a_def ayse_def recording_ops set_connected_def
      set_guest_def invalidate_controls_def guest_of_def mixed_sources_def load_controls_def read_controls_def store_controls_def audible_def)

text \<open>
  A guest who withdraws the consent during the recording cancels the row, but the recorder goes on; after
  a change of leader the recording is even in progress again.
\<close>

theorem withdrawn_consent_keeps_recording:
  "let r = room_run (recorded @ [Consent 300 True 1 ''key'' False]) (first_room [studio_a])
   in map gr_status (recordings r) = [Cancelled] \<and> recorders r = [(7, 1)]"
  "let r = room_run (recorded @ [Consent 300 True 1 ''key'' False, Stop_All 400 [] ''leadership_lost'', Resume 401 True])
             (first_room [studio_a])
   in map gr_status (recordings r) = [Recording] \<and> map gc_decision (consents r) = [Declined] \<and> recorders r = [(7, 1)]"
  unfolding room_run_append recorded_room
  by (simp_all add: room_run_def recording_room_def ayse_room_def first_room_def studio_a_def ayse_def recording_ops
      rec_row_def ayse_says_def resume_replicated_recordings_def)

text \<open>A recorder that cannot be started leaves the recording waiting for good: no timer runs any more.\<close>

theorem failed_start_blocks_studio:
  "let r = room_run [Request 100 False None 9 1] (first_room [studio_a])
   in map gr_status (recordings r) = [Pending_Consent] \<and> timers r = []
    \<and> fst (request_recording 200 True None 9 1 r) = Inl (Recording_Error ''recording_already_active'')"
  by (simp add: room_run_def first_room_def studio_a_def recording_ops)

text \<open>Stopping the recording of one studio takes the recorder of another studio of the station.\<close>

theorem stop_takes_other_recorder:
  "let r = room_run [Request 100 True None 9 1, Request 200 True None 9 2, Stop 300 [] 2]
             (first_room [studio_a, studio_a\<lparr>sd_id := 2\<rparr>])
   in map (\<lambda>x. (gr_id x, gr_status x)) (recordings r) = [(1, Recording), (2, Completed)] \<and> recorders r = []"
  by (simp add: room_run_def first_room_def studio_a_def recording_ops max_or_zero_def)

section \<open>Two requests at once\<close>

text \<open>
  The end points run in a pool of threads and nothing holds the database between the check and the
  write: of two interleaved requests both pass the check, and a fifth guest is admitted.
\<close>

definition guest_no :: "int \<Rightarrow> guest_status \<Rightarrow> guest_row" where
  "guest_no i s = ayse\<lparr>gs_id := i, gs_invite := i, gs_token := replicate (nat i) CHR ''t'', gs_status := s, gs_on_air := False\<rparr>"

theorem racing_admissions_overfill:
  "let r = (first_room [studio_a])\<lparr>guests := map (\<lambda>i. guest_no i (if i \<le> 3 then Admitted else Lobby)) [1, 2, 3, 4, 5]\<rparr>;
       r4 = admit_write 4 r
   in admit_check 1 4 r = None \<and> admit_check 1 5 r = None \<and> admit_check 1 5 r4 = Some (Room_Error ''guest_room_full'')
    \<and> length (admitted_in 1 (admit_write 5 r4)) = 5"
  by (simp add: first_room_def guest_no_def ayse_def admit_check_def admit_write_def guest_in_def admitted_in_def
      max_admitted_guests_def set_guest_def invalidate_controls_def Let_def)

theorem racing_redemptions_share_invite:
  "let v = spent_invite\<lparr>gi_redeemed := None\<rparr>; r = (first_room [studio_a])\<lparr>invites := [v]\<rparr>;
       r1 = snd (redeem_write 60 ''k1'' ''Ayse'' v r)
   in redeem_check 60 ''inv'' ''Ayse'' r = Inr v \<and> (\<exists>e. redeem_check 61 ''inv'' ''Ayse'' r1 = Inl e)
    \<and> (token_digest ''k1'' \<noteq> token_digest ''k2'' \<longrightarrow>
         map gs_invite (guests (snd (redeem_write 61 ''k2'' ''Ayse'' v r1))) = [1, 1])"
  by (simp add: first_room_def spent_invite_def redeem_check_def redeem_write_def next_rowid_def max_or_zero_def
      ayse_short Let_def)

text \<open>
  A change of the audio that has seen the guest admitted writes after the guest was kicked: the row of the
  kicked guest says on air again. The mixer does not hear it, for it reads admitted guests only.
\<close>

theorem racing_removal_leaves_on_air:
  "let (r, ps) = race_run [Audio_Check 1 1 None (Some True) None, Whole (Remove 1 1 False), Write 90 0] (ayse_room, [])
   in map gs_status (guests r) = [Kicked] \<and> map gs_on_air (guests r) = [True] \<and> fst (mixed_sources [1] 5 7 r) = []"
  by (simp add: race_run_def ayse_room_def first_room_def studio_a_def ayse_def room_ops reject_or_kick_def
      mixed_sources_def load_controls_def read_controls_def store_controls_def)

text \<open>
  The mixer reads the table outside the lock of its cache: a block of audio that read it before a guest was
  kicked stores what it read afterwards, and the guest is heard until the cache is due again.
\<close>

theorem racing_load_outlives_kick:
  "let r = room_run [Remove 1 1 False] ayse_room; r' = store_controls 5 (read_controls ayse_room) r
   in fst (mixed_sources [1] (5 + 1/10) 7 r') = [(1, -3)] \<and> fst (mixed_sources [1] (5 + 1/5) 7 r') = []"
  by (simp add: room_run_def ayse_room_def first_room_def studio_a_def ayse_def room_ops reject_or_kick_def
      mixed_sources_def load_controls_def read_controls_def store_controls_def audible_def)

end
