(* ===== verification/Json.thy ===== *)
theory Json
  imports Py_Text "HOL-Library.List_Lexorder" "HOL-Library.Char_ord" "HOL-Library.AList"
begin

text \<open>
  Python's \<open>json\<close> as the journals of the program use it: \<open>dumps\<close> with sorted keys, the separators
  \<open>,\<close> and \<open>:\<close> and \<open>ensure_ascii=False\<close> (\<open>canonical_json\<close> of \<open>services/replication_journal.py\<close>), and
  \<open>loads\<close>. A dictionary is the list of its items in the order of insertion. A float is represented by
  its \<open>repr\<close>; other spellings of floats, the three non-finite ones and escapes above \<open>0xff\<close> are left out.
\<close>

datatype json =
    J_Null
  | J_Bool bool
  | J_Int int
  | J_Float string
  | J_Str string
  | J_List "json list"
  | J_Obj "(string \<times> json) list"

section \<open>Writing\<close>

abbreviation quote :: char where "quote \<equiv> CHR 0x22"
abbreviation backslash :: char where "backslash \<equiv> CHR 0x5C"

definition hex_digits :: string where
  "hex_digits = ''0123456789abcdef''"

text \<open>The letters of the short escapes and the characters they stand for.\<close>

definition short_escapes :: "(char \<times> char) list" where
  "short_escapes = [(quote, quote), (backslash, backslash), (CHR ''n'', CHR 0x0A), (CHR ''r'', CHR 0x0D),
     (CHR ''t'', CHR 0x09), (CHR ''f'', CHR 0x0C), (CHR ''b'', CHR 0x08)]"

definition escape_char :: "char \<Rightarrow> string" where
  "escape_char c = (case find (\<lambda>p. snd p = c) short_escapes of
       Some p \<Rightarrow> [backslash, fst p]
     | None \<Rightarrow> if (of_char c :: nat) < 32
         then backslash # ''u00'' @ [hex_digits ! (of_char c div 16), hex_digits ! (of_char c mod 16)]
         else [c])"

definition str_text :: "string \<Rightarrow> string" where
  "str_text s = quote # concat (map escape_char s) @ [quote]"

definition member_text :: "string \<times> string \<Rightarrow> string" where
  "member_text p = str_text (fst p) @ CHR '':'' # snd p"

fun json_text :: "json \<Rightarrow> string" where
  "json_text J_Null = ''null''"
| "json_text (J_Bool b) = (if b then ''true'' else ''false'')"
| "json_text (J_Int i) = int_str i"
| "json_text (J_Float l) = l"
| "json_text (J_Str s) = str_text s"
| "json_text (J_List xs) = CHR ''['' # join_char CHR '','' (map json_text xs) @ '']''"
| "json_text (J_Obj kvs) = CHR ''{'' #
     join_char CHR '','' (map member_text (sort_key fst (map (\<lambda>p. (fst p, json_text (snd p))) kvs))) @ ''}''"

section \<open>Reading\<close>

definition skip_ws :: "string \<Rightarrow> string" where
  "skip_ws s = dropWhile (\<lambda>c. c = CHR '' '' \<or> c = CHR 0x09 \<or> c = CHR 0x0A \<or> c = CHR 0x0D) s"

definition hex_val :: "char \<Rightarrow> nat option" where
  "hex_val c = (let n = length (takeWhile (\<lambda>d. d \<noteq> lower_char c) hex_digits) in if n < 16 then Some n else None)"

definition read_hex :: "string \<Rightarrow> nat option" where
  "read_hex s = foldl (\<lambda>a c. case (a, hex_val c) of (Some n, Some h) \<Rightarrow> Some (16 * n + h) | _ \<Rightarrow> None) (Some 0) s"

definition read_escape :: "char \<Rightarrow> char option" where
  "read_escape c = (if c = CHR ''/'' then Some CHR ''/'' else map_of short_escapes c)"

text \<open>The rest of a text literal after its opening quote.\<close>

function scan_str :: "string \<Rightarrow> (string \<times> string) option" where
  "scan_str s = (case s of
       [] \<Rightarrow> None
     | c # cs \<Rightarrow>
         if c = quote then Some ([], cs)
         else if c = backslash then
           (case cs of
              [] \<Rightarrow> None
            | d # ds \<Rightarrow>
                if d = CHR ''u'' then
                  (case (if length ds < 4 then None else read_hex (take 4 ds)) of
                     None \<Rightarrow> None
                   | Some n \<Rightarrow> if n < 256 then map_option (apfst ((#) (char_of n))) (scan_str (drop 4 ds)) else None)
                else (case read_escape d of
                     None \<Rightarrow> None
                   | Some e \<Rightarrow> map_option (apfst ((#) e)) (scan_str ds)))
         else if (of_char c :: nat) < 32 then None
         else map_option (apfst ((#) c)) (scan_str cs))"
  by pat_completeness auto
termination by (relation "measure length") auto

declare scan_str.simps [simp del]

text \<open>An integer part, a fraction and an exponent, as the decoder's pattern takes them.\<close>

definition scan_fraction :: "string \<Rightarrow> string" where
  "scan_fraction s = (case s of
       c # d # r \<Rightarrow> if c = CHR ''.'' \<and> is_digit d then c # takeWhile is_digit (d # r) else []
     | _ \<Rightarrow> [])"

definition scan_json_exponent :: "string \<Rightarrow> string" where
  "scan_json_exponent s = (case s of
       c # r \<Rightarrow> if c = CHR ''e'' \<or> c = CHR ''E''
         then let sign = (case r of d # _ \<Rightarrow> if d = CHR ''+'' \<or> d = CHR ''-'' then [d] else [] | [] \<Rightarrow> []);
                  ds = takeWhile is_digit (drop (length sign) r)
           in if ds = [] then [] else c # sign @ ds
         else []
     | [] \<Rightarrow> [])"

definition scan_sign :: "string \<Rightarrow> string" where
  "scan_sign s = (case s of c # _ \<Rightarrow> if c = CHR ''-'' then [c] else [] | [] \<Rightarrow> [])"

definition scan_whole :: "string \<Rightarrow> string" where
  "scan_whole s = (case s of c # _ \<Rightarrow> if c = CHR ''0'' then [c] else takeWhile is_digit s | [] \<Rightarrow> [])"

definition scan_number :: "string \<Rightarrow> (json \<times> string) option" where
  "scan_number s =
     (let sign = scan_sign s;
          u = drop (length sign) s;
          whole = scan_whole u;
          r = drop (length whole) u;
          frac = scan_fraction r;
          expo = scan_json_exponent (drop (length frac) r);
          v = int (digits_val whole)
      in if whole = [] then None
         else Some (if frac = [] \<and> expo = [] then J_Int (if sign = [] then v else - v)
                    else J_Float (sign @ whole @ frac @ expo),
                drop (length frac + length expo) r))"

definition dict_of :: "(string \<times> json) list \<Rightarrow> (string \<times> json) list" where
  "dict_of ps = fold (\<lambda>(k, v) d. AList.update k v d) ps []"

text \<open>
  The decoder. The number bounds the depth of the calls; twice the length of the text is enough, since
  every second call consumes a character.
\<close>

fun parse_value :: "nat \<Rightarrow> string \<Rightarrow> (json \<times> string) option"
and parse_items :: "nat \<Rightarrow> string \<Rightarrow> (json list \<times> string) option"
and parse_members :: "nat \<Rightarrow> string \<Rightarrow> ((string \<times> json) list \<times> string) option" where
  "parse_value 0 s = None"
| "parse_value (Suc n) s = (case s of
       [] \<Rightarrow> None
     | c # cs \<Rightarrow>
         if c = quote then map_option (apfst J_Str) (scan_str cs)
         else if c = CHR ''{'' then
           (let r = skip_ws cs in
            case r of
              d # ds \<Rightarrow> if d = CHR ''}'' then Some (J_Obj [], ds)
                else map_option (apfst (\<lambda>ps. J_Obj (dict_of ps))) (parse_members n r)
            | [] \<Rightarrow> None)
         else if c = CHR ''['' then
           (let r = skip_ws cs in
            case r of
              d # ds \<Rightarrow> if d = CHR '']'' then Some (J_List [], ds)
                else map_option (apfst J_List) (parse_items n r)
            | [] \<Rightarrow> None)
         else if take 4 s = ''null'' then Some (J_Null, drop 4 s)
         else if take 4 s = ''true'' then Some (J_Bool True, drop 4 s)
         else if take 5 s = ''false'' then Some (J_Bool False, drop 5 s)
         else scan_number s)"
| "parse_items 0 s = None"
| "parse_items (Suc n) s = (case parse_value n s of
       None \<Rightarrow> None
     | Some (v, r) \<Rightarrow> (case skip_ws r of
           d # ds \<Rightarrow>
             if d = CHR '','' then map_option (apfst ((#) v)) (parse_items n (skip_ws ds))
             else if d = CHR '']'' then Some ([v], ds)
             else None
         | [] \<Rightarrow> None))"
| "parse_members 0 s = None"
| "parse_members (Suc n) s = (case s of
       [] \<Rightarrow> None
     | c # cs \<Rightarrow>
         if c \<noteq> quote then None
         else case scan_str cs of
           None \<Rightarrow> None
         | Some (k, r) \<Rightarrow> (case skip_ws r of
               [] \<Rightarrow> None
             | d # ds \<Rightarrow>
                 if d \<noteq> CHR '':'' then None
                 else case parse_value n (skip_ws ds) of
                   None \<Rightarrow> None
                 | Some (v, r') \<Rightarrow> (case skip_ws r' of
                       e # es \<Rightarrow>
                         if e = CHR '','' then map_option (apfst ((#) (k, v))) (parse_members n (skip_ws es))
                         else if e = CHR ''}'' then Some ([(k, v)], es)
                         else None
                     | [] \<Rightarrow> None)))"

definition json_loads :: "string \<Rightarrow> json option" where
  "json_loads s = (case parse_value (2 * length s + 2) (skip_ws s) of
       Some (v, r) \<Rightarrow> if skip_ws r = [] then Some v else None
     | None \<Rightarrow> None)"

text \<open>
  What \<open>loads\<close> makes of the text of a value: the members of its dictionaries come back sorted. A value
  that Python can hold has no key twice and its floats are texts that read as floats.
\<close>

fun canon :: "json \<Rightarrow> json" where
  "canon (J_List xs) = J_List (map canon xs)"
| "canon (J_Obj kvs) = J_Obj (sort_key fst (map (\<lambda>p. (fst p, canon (snd p))) kvs))"
| "canon v = v"

fun json_ok :: "json \<Rightarrow> bool" where
  "json_ok (J_Float l) \<longleftrightarrow> scan_number l = Some (J_Float l, [])"
| "json_ok (J_List xs) \<longleftrightarrow> (\<forall>x \<in> set xs. json_ok x)"
| "json_ok (J_Obj kvs) \<longleftrightarrow> distinct (map fst kvs) \<and> (\<forall>p \<in> set kvs. json_ok (snd p))"
| "json_ok _ \<longleftrightarrow> True"

end
