(* ===== verification/Json_Laws.thy ===== *)
theory Json_Laws
  imports Json
begin

text \<open>What \<open>loads\<close> reads of a text that \<open>dumps\<close> wrote.\<close>

section \<open>Text literals\<close>

lemma hex_val_digit: "n < 16 \<Longrightarrow> hex_val (hex_digits ! n) = Some n"
proof -
  have "\<forall>n \<in> set [0..<16]. hex_val (hex_digits ! n) = Some n" by code_simp
  then show "n < 16 \<Longrightarrow> hex_val (hex_digits ! n) = Some n" by simp
qed

lemma read_hex_escape:
  "n < 256 \<Longrightarrow> read_hex [CHR ''0'', CHR ''0'', hex_digits ! (n div 16), hex_digits ! (n mod 16)] = Some n"
proof -
  assume "n < 256"
  then have "n div 16 < 16" "n mod 16 < 16" by simp_all
  moreover have "hex_val CHR ''0'' = Some 0" by code_simp
  ultimately show ?thesis by (simp add: read_hex_def hex_val_digit)
qed

lemma scan_escape_char: "scan_str (escape_char c @ r) = map_option (apfst ((#) c)) (scan_str r)"
proof (cases "find (\<lambda>p. snd p = c) short_escapes")
  case (Some p)
  then have "p \<in> set short_escapes" "snd p = c" by (auto simp: find_Some_iff)
  then show ?thesis using Some
    by (subst scan_str.simps) (auto simp: escape_char_def short_escapes_def read_escape_def)
next
  case None
  then have c: "c \<noteq> quote" "c \<noteq> backslash" by (auto simp: find_None_iff short_escapes_def)
  show ?thesis
  proof (cases "(of_char c :: nat) < 32")
    case True
    then show ?thesis using None c
      by (subst scan_str.simps) (simp add: escape_char_def read_hex_escape)
  next
    case False
    then show ?thesis using None c by (subst scan_str.simps) (simp add: escape_char_def)
  qed
qed

lemma scan_str_text: "scan_str (concat (map escape_char s) @ quote # r) = Some (s, r)"
proof (induction s)
  case Nil
  show ?case by (subst scan_str.simps) simp
next
  case (Cons c s)
  then show ?case by (simp add: scan_escape_char)
qed

section \<open>Numbers\<close>

text \<open>A text that no number goes on with.\<close>

definition ends_number :: "string \<Rightarrow> bool" where
  "ends_number r \<longleftrightarrow> (case r of [] \<Rightarrow> True
     | c # _ \<Rightarrow> \<not> is_digit c \<and> c \<noteq> CHR ''.'' \<and> c \<noteq> CHR ''e'' \<and> c \<noteq> CHR ''E'' \<and> c \<noteq> CHR ''+''
        \<and> c \<noteq> CHR ''-'')"

lemma ends_number_simps [simp]:
  "ends_number []" "ends_number (CHR '','' # r)" "ends_number (CHR '']'' # r)" "ends_number (CHR ''}'' # r)"
  by (simp_all add: ends_number_def is_digit_def)

lemma takeWhile_digits_app:
  "(\<And>c. c \<in> set s \<Longrightarrow> is_digit c) \<Longrightarrow> ends_number r \<Longrightarrow> takeWhile is_digit (s @ r) = s"
  by (induction s) (auto simp: ends_number_def split: list.splits)

lemma no_fraction: "ends_number r \<Longrightarrow> scan_fraction r = []" "ends_number r \<Longrightarrow> scan_json_exponent r = []"
  by (auto simp: ends_number_def scan_fraction_def scan_json_exponent_def split: list.splits)

lemma nat_str_zero: "nat_str 0 = ''0''"
  by (simp add: nat_str.simps digit_char_def)

lemma hd_nat_str: "hd (nat_str n) = CHR ''0'' \<Longrightarrow> n = 0"
proof (induction n rule: nat_str.induct)
  case (1 n)
  show ?case
  proof (cases "n < 10")
    case True
    then show ?thesis using "1.prems" by (drule_tac less_10_cases) (auto simp: nat_str.simps [of n] digit_char_def)
  next
    case False
    then have "n div 10 = 0" using 1 by (simp add: nat_str.simps [of n] hd_append)
    with False show ?thesis by simp
  qed
qed

lemma scan_nat_str:
  assumes r: "ends_number r" and s: "sign = [] \<or> sign = ''-''"
  shows "scan_number (sign @ nat_str n @ r) = Some (J_Int (if sign = [] then int n else - int n), r)"
proof -
  obtain c cs where n: "nat_str n = c # cs" by (cases "nat_str n") auto
  have dg: "\<And>d. d \<in> set (nat_str n) \<Longrightarrow> is_digit d" by (rule nat_str_digits)
  have "scan_sign (sign @ nat_str n @ r) = sign"
    using s dg [of c] n by (auto simp: scan_sign_def is_digit_def)
  moreover have "scan_whole (nat_str n @ r) = nat_str n"
  proof (cases "c = CHR ''0''")
    case True
    then have "n = 0" using hd_nat_str [of n] n by simp
    then show ?thesis using nat_str_zero by (simp add: scan_whole_def)
  next
    case False
    have "takeWhile is_digit (nat_str n @ r) = nat_str n" using dg r by (rule takeWhile_digits_app)
    with False show ?thesis by (simp add: n scan_whole_def)
  qed
  ultimately show ?thesis using r by (simp add: scan_number_def Let_def no_fraction)
qed

lemma scan_int_str: "ends_number r \<Longrightarrow> scan_number (int_str i @ r) = Some (J_Int i, r)"
  using scan_nat_str [of r "[]" "nat i"] scan_nat_str [of r "''-''" "nat (- i)"] by (simp add: int_str_def)

lemma takeWhile_digits_ends: "ends_number r \<Longrightarrow> takeWhile is_digit (s @ r) = takeWhile is_digit s"
  by (induction s) (auto simp: ends_number_def split: list.splits)

lemma scan_fraction_app: "ends_number r \<Longrightarrow> scan_fraction (s @ r) = scan_fraction s"
  using takeWhile_digits_ends [of r]
  by (cases s rule: remdups_adj.cases) (auto simp: scan_fraction_def ends_number_def split: list.splits)

lemma scan_exponent_app: "ends_number r \<Longrightarrow> scan_json_exponent (s @ r) = scan_json_exponent s"
proof -
  assume r: "ends_number r"
  show ?thesis
  proof (cases s rule: remdups_adj.cases)
    case (2 c)
    then show ?thesis using r by (auto simp: scan_json_exponent_def ends_number_def Let_def split: list.splits)
  next
    case (3 c d t)
    have "takeWhile is_digit (d # t @ r) = takeWhile is_digit (d # t)"
      using takeWhile_digits_ends [OF r, of "d # t"] by simp
    then show ?thesis using takeWhile_digits_ends [OF r, of t] 3
      by (auto simp: scan_json_exponent_def Let_def)
  qed (use r in \<open>simp add: no_fraction; simp add: scan_json_exponent_def\<close>)
qed

lemma scan_lengths:
  "length (scan_fraction s) \<le> length s" "length (scan_json_exponent s) \<le> length s"
  by (auto simp: scan_fraction_def scan_json_exponent_def Let_def le_SucI length_takeWhile_le split: list.splits)

lemma scan_whole_app: "ends_number r \<Longrightarrow> s \<noteq> [] \<Longrightarrow> scan_whole (s @ r) = scan_whole s"
  using takeWhile_digits_ends [of r s] by (auto simp: scan_whole_def split: list.splits)

lemma scan_number_app:
  assumes s: "scan_number s = Some (v, [])" and r: "ends_number r"
  shows "scan_number (s @ r) = Some (v, r)"
proof -
  define sign u where "sign = scan_sign s" and "u = drop (length sign) s"
  define whole t where "whole = scan_whole u" and "t = drop (length whole) u"
  define frac expo where "frac = scan_fraction t" and "expo = scan_json_exponent (drop (length frac) t)"
  note defs = sign_def u_def whole_def t_def frac_def expo_def
  have w: "whole \<noteq> []" and k: "length t \<le> length frac + length expo"
    and v: "v = (if frac = [] \<and> expo = [] then J_Int (if sign = [] then int (digits_val whole) else - int (digits_val whole))
      else J_Float (sign @ whole @ frac @ expo))"
    using s unfolding scan_number_def Let_def defs [symmetric] by (auto split: if_splits)
  have "u \<noteq> []" using w by (auto simp: whole_def scan_whole_def)
  then have "s \<noteq> []" by (auto simp: u_def)
  then have sign: "scan_sign (s @ r) = sign" by (auto simp: sign_def scan_sign_def split: list.splits)
  have "length sign \<le> length s" using \<open>u \<noteq> []\<close> by (simp add: u_def)
  then have u: "drop (length sign) (s @ r) = u @ r" by (simp add: u_def)
  have whole: "scan_whole (u @ r) = whole" using r \<open>u \<noteq> []\<close> by (simp add: whole_def scan_whole_app)
  have "length whole \<le> length u" by (auto simp: whole_def scan_whole_def length_takeWhile_le split: list.splits)
  then have t: "drop (length whole) (u @ r) = t @ r" by (simp add: t_def)
  have fl: "length frac \<le> length t" by (simp add: frac_def scan_lengths)
  moreover have "length expo \<le> length t - length frac"
    using scan_lengths(2) [of "drop (length frac) t"] by (simp add: expo_def)
  ultimately have k': "length frac + length expo = length t" using k by linarith
  have frac: "scan_fraction (t @ r) = frac" using r by (simp add: frac_def scan_fraction_app)
  have expo: "scan_json_exponent (drop (length frac) (t @ r)) = expo"
    using r fl by (simp add: expo_def scan_exponent_app)
  show ?thesis using w k' unfolding scan_number_def Let_def sign u whole t frac expo
    by (simp add: v)
qed

section \<open>Values\<close>

lemma sort_key_map_snd:
  fixes kvs :: "(string \<times> 'a) list"
  shows "sort_key fst (map (\<lambda>p. (fst p, f (snd p))) kvs) = map (\<lambda>p. (fst p, f (snd p))) (sort_key fst kvs)"
proof -
  have "insort_key fst (fst p, f (snd p)) (map (\<lambda>p. (fst p, f (snd p))) ps)
      = map (\<lambda>p. (fst p, f (snd p))) (insort_key fst p ps)"
    for p :: "string \<times> 'a" and ps
    by (induction ps) auto
  then show ?thesis by (induction kvs) auto
qed

lemma obj_text:
  "json_text (J_Obj kvs) = CHR ''{'' #
     join_char CHR '','' (map (\<lambda>p. member_text (fst p, json_text (snd p))) (sort_key fst kvs)) @ ''}''"
  by (simp add: sort_key_map_snd comp_def)

lemma canon_obj: "canon (J_Obj kvs) = J_Obj (map (\<lambda>p. (fst p, canon (snd p))) (sort_key fst kvs))"
  by (simp add: sort_key_map_snd)

lemma join_char_Cons': "join_char c (s # ss) = s @ (if ss = [] then [] else c # join_char c ss)"
  by (cases ss) simp_all

text \<open>The first character of a value is neither blank nor a delimiter.\<close>

definition starts_value :: "char \<Rightarrow> bool" where
  "starts_value c \<longleftrightarrow> c \<notin> set '' ]},'' \<and> c \<noteq> CHR 0x09 \<and> c \<noteq> CHR 0x0A \<and> c \<noteq> CHR 0x0D"

lemma digit_starts: "is_digit c \<Longrightarrow> starts_value c" "starts_value CHR ''-''" "starts_value quote"
  by (auto simp: is_digit_def starts_value_def)

lemma number_start:
  "scan_number s = Some x \<Longrightarrow> \<exists>c cs. s = c # cs \<and> (is_digit c \<or> c = CHR ''-'')"
proof -
  assume "scan_number s = Some x"
  then have w: "scan_whole (drop (length (scan_sign s)) s) \<noteq> []"
    by (auto simp: scan_number_def Let_def split: if_splits)
  then obtain c cs where "s = c # cs" by (cases s) (auto simp: scan_whole_def scan_sign_def)
  then show ?thesis using w
    by (auto simp: scan_sign_def scan_whole_def is_digit_def split: if_splits)
qed

lemma json_text_start: "json_ok v \<Longrightarrow> \<exists>c cs. json_text v = c # cs \<and> starts_value c"
proof (cases v)
  case (J_Int i)
  then show ?thesis
    using number_start [OF scan_int_str [of "[]" i]] by (auto intro: digit_starts)
next
  case (J_Float l)
  then show "json_ok v \<Longrightarrow> ?thesis"
    using number_start [of l] by (auto intro: digit_starts)
qed (auto simp: str_text_def starts_value_def)

lemma skip_ws_start: "starts_value c \<Longrightarrow> skip_ws (c # s) = c # s"
  by (auto simp: skip_ws_def starts_value_def)

lemma skip_ws_simps [simp]:
  "skip_ws [] = []" "skip_ws (CHR '','' # s) = CHR '','' # s" "skip_ws (CHR '']'' # s) = CHR '']'' # s"
  "skip_ws (CHR ''}'' # s) = CHR ''}'' # s" "skip_ws (CHR '':'' # s) = CHR '':'' # s"
  "skip_ws (quote # s) = quote # s"
  by (simp_all add: skip_ws_def)

lemma skip_ws_value [simp]: "json_ok v \<Longrightarrow> skip_ws (json_text v @ r) = json_text v @ r"
  using json_text_start [of v] by (auto simp: skip_ws_start)

lemma parse_number:
  assumes "scan_number s = Some (v, r)"
  shows "parse_value (Suc n) s = Some (v, r)"
proof -
  obtain c cs where s: "s = c # cs" and "is_digit c \<or> c = CHR ''-''" using number_start [OF assms] by blast
  then have "c \<noteq> quote" "c \<noteq> CHR ''{''" "c \<noteq> CHR ''[''" "c \<noteq> CHR ''n''" "c \<noteq> CHR ''t''" "c \<noteq> CHR ''f''"
    by (auto simp: is_digit_def)
  then show ?thesis using assms by (simp add: s)
qed

text \<open>What the decoder makes of one value, with enough depth.\<close>

definition reads_back :: "json \<Rightarrow> bool" where
  "reads_back v \<longleftrightarrow> (\<forall>n r. 2 * length (json_text v @ r) + 1 \<le> n \<longrightarrow> ends_number r
     \<longrightarrow> parse_value n (json_text v @ r) = Some (canon v, r))"

lemma reads_backD:
  "reads_back v \<Longrightarrow> 2 * (length (json_text v) + length r) + 1 \<le> n \<Longrightarrow> ends_number r \<Longrightarrow>
   parse_value n (json_text v @ r) = Some (canon v, r)"
  by (simp add: reads_back_def)

lemma parse_items_text:
  assumes "xs \<noteq> []" "\<forall>x \<in> set xs. json_ok x \<and> reads_back x"
    and "2 * length (join_char CHR '','' (map json_text xs) @ CHR '']'' # r) + 2 \<le> n"
  shows "parse_items n (join_char CHR '','' (map json_text xs) @ CHR '']'' # r) = Some (map canon xs, r)"
  using assms
proof (induction xs arbitrary: n)
  case (Cons x xs)
  obtain m where n: "n = Suc m" using Cons.prems(3) by (cases n) auto
  show ?case
  proof (cases "xs = []")
    case True
    have "parse_value m (json_text x @ CHR '']'' # r) = Some (canon x, CHR '']'' # r)"
      using Cons.prems n True by (intro reads_backD) auto
    with True show ?thesis by (simp add: n)
  next
    case False
    let ?t = "join_char CHR '','' (map json_text xs) @ CHR '']'' # r"
    have v: "parse_value m (json_text x @ CHR '','' # ?t) = Some (canon x, CHR '','' # ?t)"
      using Cons.prems n False by (intro reads_backD) (auto simp: join_char_Cons')
    obtain y ys where xs: "xs = y # ys" using False by (cases xs) auto
    have ws: "skip_ws ?t = ?t" using Cons.prems(2) by (simp add: xs join_char_Cons')
    have "parse_items m ?t = Some (map canon xs, r)"
      using Cons.prems n False by (intro Cons.IH) (auto simp: join_char_Cons')
    with v ws False show ?thesis by (simp add: n join_char_Cons')
  qed
qed simp

lemma parse_members_text:
  assumes "ps \<noteq> []" "\<forall>p \<in> set ps. json_ok (snd p) \<and> reads_back (snd p)"
    and "2 * length (join_char CHR '','' (map (\<lambda>p. member_text (fst p, json_text (snd p))) ps) @ CHR ''}'' # r) + 2 \<le> n"
  shows "parse_members n (join_char CHR '','' (map (\<lambda>p. member_text (fst p, json_text (snd p))) ps) @ CHR ''}'' # r)
    = Some (map (\<lambda>p. (fst p, canon (snd p))) ps, r)"
  using assms
proof (induction ps arbitrary: n)
  case (Cons p ps)
  obtain k v where p: "p = (k, v)" by (cases p)
  obtain m where n: "n = Suc m" using Cons.prems(3) by (cases n) auto
  let ?j = "\<lambda>ps. join_char CHR '','' (map (\<lambda>p. member_text (fst p, json_text (snd p))) ps)"
  have str: "scan_str (concat (map escape_char k) @ quote # s) = Some (k, s)" for s by (rule scan_str_text)
  show ?case
  proof (cases "ps = []")
    case True
    have "parse_value m (json_text v @ CHR ''}'' # r) = Some (canon v, CHR ''}'' # r)"
      using Cons.prems n True by (intro reads_backD) (auto simp: p member_text_def str_text_def)
    with True show ?thesis using Cons.prems(2) str by (simp add: n p member_text_def str_text_def)
  next
    case False
    let ?t = "?j ps @ CHR ''}'' # r"
    have v: "parse_value m (json_text v @ CHR '','' # ?t) = Some (canon v, CHR '','' # ?t)"
      using Cons.prems n False by (intro reads_backD) (auto simp: join_char_Cons' p member_text_def str_text_def)
    have ws: "skip_ws ?t = ?t" using False by (cases ps) (auto simp: join_char_Cons' member_text_def str_text_def)
    have "parse_members m ?t = Some (map (\<lambda>p. (fst p, canon (snd p))) ps, r)"
      using Cons.prems n False by (intro Cons.IH) (auto simp: join_char_Cons')
    with v ws False Cons.prems(2) str show ?thesis by (simp add: n p join_char_Cons' member_text_def str_text_def)
  qed
qed simp

lemma dict_of_distinct: "distinct (map fst ps) \<Longrightarrow> dict_of ps = ps"
proof -
  have upd: "k \<notin> set (map fst d) \<Longrightarrow> AList.update k v d = d @ [(k, v)]" for k :: string and v :: json and d
    by (induction d) auto
  have "distinct (map fst (d @ ps)) \<Longrightarrow> fold (\<lambda>(k, v) d. AList.update k v d) ps d = d @ ps" for d
    by (induction ps arbitrary: d) (auto simp: upd)
  from this [of "[]"] show "distinct (map fst ps) \<Longrightarrow> dict_of ps = ps" by (simp add: dict_of_def)
qed

lemma json_reads_back: "json_ok v \<Longrightarrow> reads_back v"
proof (induction v)
  case (J_Str s)
  show ?case
    by (auto simp: reads_back_def str_text_def scan_str_text gr0_conv_Suc dest!: Suc_le_D)
next
  case (J_Int i)
  show ?case by (auto simp: reads_back_def intro!: parse_number scan_int_str dest!: Suc_le_D)
next
  case (J_Float l)
  then show ?case by (auto simp: reads_back_def intro!: parse_number scan_number_app dest!: Suc_le_D)
next
  case (J_List xs)
  show ?case
  proof (cases "xs = []")
    case True
    then show ?thesis by (auto simp: reads_back_def dest!: Suc_le_D)
  next
    case False
    let ?t = "\<lambda>r. join_char CHR '','' (map json_text xs) @ CHR '']'' # r"
    have xs: "\<forall>x \<in> set xs. json_ok x \<and> reads_back x" using J_List by simp
    obtain x ys where x: "xs = x # ys" using False by (cases xs) auto
    obtain c cs where c: "json_text x = c # cs" "starts_value c" using json_text_start [of x] xs x by auto
    have t: "\<exists>d ds. ?t r = d # ds \<and> starts_value d" for r using c by (simp add: x join_char_Cons')
    have "parse_value n (CHR ''['' # ?t r) = Some (J_List (map canon xs), r)" if len: "2 * length (CHR ''['' # ?t r) + 1 \<le> n" for n r
    proof -
      obtain m where n: "n = Suc m" using len by (cases n) auto
      have "parse_items m (?t r) = Some (map canon xs, r)"
        using len n by (intro parse_items_text [OF False xs]) simp
      then show ?thesis using t [of r] by (auto simp: n skip_ws_start) (auto simp: starts_value_def)
    qed
    then show ?thesis by (simp add: reads_back_def)
  qed
next
  case (J_Obj kvs)
  let ?ps = "sort_key fst kvs"
  let ?t = "\<lambda>r. join_char CHR '','' (map (\<lambda>p. member_text (fst p, json_text (snd p))) ?ps) @ CHR ''}'' # r"
  show ?case
  proof (cases "kvs = []")
    case True
    then show ?thesis by (auto simp: reads_back_def dest!: Suc_le_D)
  next
    case False
    have ps: "\<forall>p \<in> set ?ps. json_ok (snd p) \<and> reads_back (snd p)" using J_Obj by fastforce
    have ne: "?ps \<noteq> []" using False by (metis set_empty set_sort)
    then obtain p qs where p: "?ps = p # qs" by (cases ?ps) auto
    have t: "\<exists>ds. ?t r = quote # ds" for r by (simp add: p join_char_Cons' member_text_def str_text_def)
    have dist: "dict_of (map (\<lambda>p. (fst p, canon (snd p))) ?ps) = map (\<lambda>p. (fst p, canon (snd p))) ?ps"
      using J_Obj.prems by (intro dict_of_distinct) (simp add: comp_def distinct_map inj_on_def)
    have "parse_value n (CHR ''{'' # ?t r) = Some (canon (J_Obj kvs), r)" if len: "2 * length (CHR ''{'' # ?t r) + 1 \<le> n" for n r
    proof -
      obtain m where n: "n = Suc m" using len by (cases n) auto
      have "parse_members m (?t r) = Some (map (\<lambda>p. (fst p, canon (snd p))) ?ps, r)"
        using len n by (intro parse_members_text [OF ne ps]) simp
      then show ?thesis using t [of r] dist by (auto simp: n canon_obj simp del: canon.simps)
    qed
    then show ?thesis by (simp add: reads_back_def obj_text del: json_text.simps)
  qed
next
  case (J_Bool b)
  have "parse_value (Suc m) (json_text (J_Bool b) @ r) = Some (J_Bool b, r)" for m r by simp
  then show ?case unfolding reads_back_def
    by (metis Suc_eq_plus1 Suc_le_D canon.simps(4) add_Suc_right)
qed (auto simp: reads_back_def dest!: Suc_le_D)

lemma json_loads_text: "json_ok v \<Longrightarrow> json_loads (json_text v) = Some (canon v)"
  using reads_backD [OF json_reads_back, of v "[]" "2 * length (json_text v) + 2"] skip_ws_value [of v "[]"]
  by (simp add: json_loads_def)

lemma json_text_canon [simp]: "json_text (canon v) = json_text v"
proof (induction v)
  case (J_Obj kvs)
  have "sort_key fst (map (\<lambda>p. (fst p, canon (snd p))) (sort_key fst kvs)) = map (\<lambda>p. (fst p, canon (snd p))) (sort_key fst kvs)"
    by (rule sort_key_id_if_sorted) (simp add: comp_def)
  moreover have "map (\<lambda>p. member_text (fst p, json_text (canon (snd p)))) (sort_key fst kvs)
      = map (\<lambda>p. member_text (fst p, json_text (snd p))) (sort_key fst kvs)"
    using J_Obj by (intro map_cong refl) fastforce
  ultimately show ?case by (simp add: canon_obj obj_text comp_def del: canon.simps json_text.simps map_eq_conv)
qed (simp_all add: comp_def cong: map_cong)

section \<open>Enough depth\<close>

lemma scan_str_shorter: "scan_str s = Some (t, r) \<Longrightarrow> length r < length s"
proof (induction s arbitrary: t rule: measure_induct_rule [where f = length])
  case (less s)
  have "length r < length s" if "scan_str u = Some (x, r)" "length u < length s" for u x
    using less.IH [OF that(2,1)] that(2) by simp
  note this [of "tl s"] this [of "tl (tl s)"] this [of "drop 4 (tl (tl s))"]
  then show ?case using less.prems
    by (subst (asm) scan_str.simps) (auto split: list.splits if_splits option.splits)
qed

lemma skip_ws_shorter: "length (skip_ws s) \<le> length s"
  by (simp add: skip_ws_def length_dropWhile_le)

lemma scan_number_shorter: "scan_number s = Some (v, r) \<Longrightarrow> length r < length s"
proof -
  let ?sign = "scan_sign s" and ?whole = "scan_whole (drop (length (scan_sign s)) s)"
  assume s: "scan_number s = Some (v, r)"
  then have w: "?whole \<noteq> []" and r: "length r \<le> length s - (length ?sign + length ?whole)"
    by (auto simp: scan_number_def Let_def split: if_splits)
  have "s \<noteq> []" using w by (auto simp: scan_whole_def)
  with w r show ?thesis by (cases s) (auto simp: neq_Nil_conv)
qed

lemma parse_shorter:
  "(\<forall>s v r. parse_value n s = Some (v, r) \<longrightarrow> length r < length s)
   \<and> (\<forall>s vs r. parse_items n s = Some (vs, r) \<longrightarrow> length r < length s)
   \<and> (\<forall>s ps r. parse_members n s = Some (ps, r) \<longrightarrow> length r < length s)"
proof (induction n)
  case (Suc n)
  note v = Suc.IH [THEN conjunct1, rule_format]
    and i = Suc.IH [THEN conjunct2, THEN conjunct1, rule_format]
    and m = Suc.IH [THEN conjunct2, THEN conjunct2, rule_format]
  have ws: "skip_ws s = d # ds \<Longrightarrow> length ds < length s" for s d ds
    using skip_ws_shorter [of s] by simp
  have "length r < length s" if p: "parse_value (Suc n) s = Some (v, r)" for s v r
  proof (cases s)
    case (Cons c cs)
    then show ?thesis using p
      by (auto simp: Let_def split: if_splits list.splits
          dest!: scan_str_shorter scan_number_shorter ws m i)
  qed (use p in simp)
  moreover have "length r < length s" if p: "parse_items (Suc n) s = Some (vs, r)" for s vs r
    using p by (auto split: option.splits list.splits if_splits dest!: v i ws less_le_trans [OF _ skip_ws_shorter])
  moreover have "length r < length s" if p: "parse_members (Suc n) s = Some (ps, r)" for s ps r
    using p by (auto split: option.splits list.splits if_splits dest!: v m ws scan_str_shorter
          less_le_trans [OF _ skip_ws_shorter])
  ultimately show ?case by blast
qed simp

lemma parse_value_shorter: "parse_value n s = Some (v, r) \<Longrightarrow> length r < length s"
  using parse_shorter [of n] by blast

text \<open>More depth than twice the length of the text makes no difference, whatever the text.\<close>

lemma enough_depth:
  "(\<forall>s m. 2 * length s + 1 \<le> n \<longrightarrow> 2 * length s + 1 \<le> m \<longrightarrow> parse_value n s = parse_value m s)
   \<and> (\<forall>s m. 2 * length s + 2 \<le> n \<longrightarrow> 2 * length s + 2 \<le> m \<longrightarrow> parse_items n s = parse_items m s)
   \<and> (\<forall>s m. 2 * length s + 2 \<le> n \<longrightarrow> 2 * length s + 2 \<le> m \<longrightarrow> parse_members n s = parse_members m s)"
proof (induction n)
  case (Suc n)
  note v = Suc.IH [THEN conjunct1, rule_format]
    and i = Suc.IH [THEN conjunct2, THEN conjunct1, rule_format]
    and m = Suc.IH [THEN conjunct2, THEN conjunct2, rule_format]
  have "parse_value (Suc n) s = parse_value k s" if k: "2 * length s + 1 \<le> Suc n" "2 * length s + 1 \<le> k" for s k
  proof (cases s)
    case (Cons c cs)
    obtain l where l: "k = Suc l" using k by (cases k) auto
    have "parse_items n (skip_ws cs) = parse_items l (skip_ws cs)"
      "parse_members n (skip_ws cs) = parse_members l (skip_ws cs)"
      using skip_ws_shorter [of cs] k l Cons by (auto intro: i m)
    then show ?thesis by (cases "skip_ws cs") (simp_all add: Cons l Let_def)
  qed (use k in \<open>simp add: Suc_le_eq gr0_conv_Suc; auto dest!: Suc_le_D\<close>)
  moreover have "parse_items (Suc n) s = parse_items k s" if k: "2 * length s + 2 \<le> Suc n" "2 * length s + 2 \<le> k" for s k
  proof -
    obtain l where l: "k = Suc l" using k by (cases k) auto
    have val: "parse_value n s = parse_value l s" using k l by (intro v) auto
    have "parse_items n (skip_ws ds) = parse_items l (skip_ws ds)"
      if "parse_value l s = Some (x, r)" "skip_ws r = d # ds" for x r d ds
      using parse_value_shorter [OF that(1)] skip_ws_shorter [of r] skip_ws_shorter [of ds] k l that(2)
      by (intro i) auto
    then show ?thesis by (auto simp: l val split: option.splits list.splits)
  qed
  moreover have "parse_members (Suc n) s = parse_members k s" if k: "2 * length s + 2 \<le> Suc n" "2 * length s + 2 \<le> k" for s k
  proof -
    obtain l where l: "k = Suc l" using k by (cases k) auto
    have val: "parse_value n (skip_ws ds) = parse_value l (skip_ws ds)"
      if "s = c # cs" "scan_str cs = Some (key, r)" "skip_ws r = d # ds" for c cs key r d ds
      using scan_str_shorter [OF that(2)] skip_ws_shorter [of r] skip_ws_shorter [of ds] k l that(1,3)
      by (intro v) auto
    have "parse_members n (skip_ws es) = parse_members l (skip_ws es)"
      if "s = c # cs" "scan_str cs = Some (key, r)" "skip_ws r = d # ds"
        "parse_value l (skip_ws ds) = Some (x, r')" "skip_ws r' = e # es" for c cs key r d ds x r' e es
      using scan_str_shorter [OF that(2)] skip_ws_shorter [of r] skip_ws_shorter [of ds]
        parse_value_shorter [OF that(4)] skip_ws_shorter [of r'] skip_ws_shorter [of es] k l that(1,3,5)
      by (intro m) auto
    with val show ?thesis by (auto simp: l split: option.splits list.splits)
  qed
  ultimately show ?case by blast
qed simp

lemma json_loads_depth:
  "2 * length s + 2 \<le> n \<Longrightarrow> parse_value n (skip_ws s) = parse_value (2 * length s + 2) (skip_ws s)"
  by (rule enough_depth [THEN conjunct1, rule_format]) (use skip_ws_shorter [of s] in linarith)+

section \<open>The canonical text\<close>

lemma canonical_text_iff:
  "json_ok v \<Longrightarrow> json_ok w \<Longrightarrow> json_text v = json_text w \<longleftrightarrow> canon v = canon w"
  using json_loads_text [of v] json_loads_text [of w] by (metis json_text_canon option.inject)

text \<open>
  C40: what \<open>loads\<close> reads of a canonical text is the value with sorted dictionaries, writing that again
  gives the same text, and two values have the same text only if they are equal up to the order of
  their dictionaries.
\<close>

theorem canonical_json_round_trip:
  assumes "json_ok v" "json_ok w"
  shows "json_loads (json_text v) = Some (canon v) \<and> json_text (canon v) = json_text v
    \<and> (json_text v = json_text w \<longleftrightarrow> canon v = canon w)"
  using assms by (simp add: json_loads_text canonical_text_iff)

theorem canonical_json_round_trip_witness:
  "json_loads (json_text (J_Obj [(''b'', J_List [J_Int (-12), J_Float ''0.5'']), (''a'', J_Str [quote, CHR 0x0A])]))
     = Some (J_Obj [(''a'', J_Str [quote, CHR 0x0A]), (''b'', J_List [J_Int (-12), J_Float ''0.5''])])"
proof -
  let ?v = "J_Obj [(''b'', J_List [J_Int (-12), J_Float ''0.5'']), (''a'', J_Str [quote, CHR 0x0A])]"
  have "json_ok ?v" by code_simp
  moreover have "canon ?v = J_Obj [(''a'', J_Str [quote, CHR 0x0A]), (''b'', J_List [J_Int (-12), J_Float ''0.5''])]"
    by code_simp
  ultimately show ?thesis using canonical_json_round_trip [of ?v ?v] by simp
qed

end
