(* ===== verification/Audit_Chain.thy ===== *)
theory Audit_Chain
  imports Json_Laws Database Sha256
begin

unbundle bit_operations_syntax

text \<open>
  The hash-linked audit records (\<open>services/audit_chain.py\<close>). An append reads the last hash and writes in
  one immediate transaction, so it is one step; the text of the clock is an argument. Audit records the
  other components write are not modelled there.
\<close>

record audit_row =
  tl_id :: int
  tl_station :: "int option"
  tl_category :: string
  tl_action :: string
  tl_actor :: "int option"
  tl_payload :: string
  tl_previous :: string
  tl_hash :: string
  tl_anchor :: string
  tl_created :: string

definition opt_int_text :: "int option \<Rightarrow> string" where
  "opt_int_text i = (case i of None \<Rightarrow> [] | Some n \<Rightarrow> int_str n)"

definition audit_material ::
  "string \<Rightarrow> int option \<Rightarrow> string \<Rightarrow> string \<Rightarrow> int option \<Rightarrow> string \<Rightarrow> string \<Rightarrow> string" where
  "audit_material previous station category action actor payload created =
     join_char CHR ''|'' [previous, opt_int_text station, category, action, opt_int_text actor, payload, created]"

section \<open>Writing\<close>

definition in_order :: "audit_row list \<Rightarrow> audit_row list" where
  "in_order rows = sort_key tl_id rows"

definition last_hash :: "audit_row list \<Rightarrow> string" where
  "last_hash rows = (case rev (in_order rows) of [] \<Rightarrow> [] | r # _ \<Rightarrow> tl_hash r)"

text \<open>\<open>Inl\<close> is the violation of the unique hash, after which the transaction is dropped.\<close>

definition audit_append ::
  "string \<Rightarrow> string \<Rightarrow> string \<Rightarrow> (string \<times> json) list \<Rightarrow> int option \<Rightarrow> int option \<Rightarrow> audit_row list
    \<Rightarrow> (string + int) \<times> audit_row list" where
  "audit_append created category action payload station actor rows =
     (let previous = last_hash rows;
          body = json_text (J_Obj payload);
          h = sha256 (audit_material previous station (or_default ''operation'' category)
                (or_default ''unknown'' action) actor body created);
          i = next_rowid (map tl_id rows)
      in if h \<in> set (map tl_hash rows) then (Inl ''UNIQUE constraint failed'', rows)
         else (Inr i, rows @ [\<lparr>tl_id = i, tl_station = station, tl_category = category, tl_action = action,
                 tl_actor = actor, tl_payload = body, tl_previous = previous, tl_hash = h, tl_anchor = [],
                 tl_created = created\<rparr>]))"

definition audit_anchor :: "string \<Rightarrow> string \<Rightarrow> audit_row list \<Rightarrow> audit_row list" where
  "audit_anchor h anchor rows = update_where (\<lambda>r. tl_hash r = h) (tl_anchor_update (\<lambda>_. anchor)) rows"

section \<open>Verifying\<close>

datatype audit_verdict =
    Chain_Valid nat string
  | Chain_Broken nat int
  | Payload_Unreadable

text \<open>\<open>_canonical\<close> puts the empty dictionary for every value that is false in Python.\<close>

definition json_false :: "json \<Rightarrow> bool" where
  "json_false v = (case v of
       J_Null \<Rightarrow> True | J_Bool b \<Rightarrow> \<not> b | J_Int i \<Rightarrow> i = 0 | J_Float l \<Rightarrow> py_float l = Some (Finite 0)
     | J_Str s \<Rightarrow> s = [] | J_List xs \<Rightarrow> xs = [] | J_Obj kvs \<Rightarrow> kvs = [])"

definition read_payload :: "audit_row \<Rightarrow> string option" where
  "read_payload r = map_option (\<lambda>v. json_text (if json_false v then J_Obj [] else v))
     (json_loads (or_default ''{}'' (tl_payload r)))"

definition row_material :: "string \<Rightarrow> audit_row \<Rightarrow> string \<Rightarrow> string" where
  "row_material previous r body = audit_material previous (tl_station r) (tl_category r) (tl_action r)
     (tl_actor r) body (tl_created r)"

fun verify_from :: "nat \<Rightarrow> string \<Rightarrow> audit_row list \<Rightarrow> audit_verdict" where
  "verify_from n previous [] = Chain_Valid n previous"
| "verify_from n previous (r # rs) =
     (case read_payload r of
        None \<Rightarrow> Payload_Unreadable
      | Some body \<Rightarrow>
          let expected = sha256 (row_material previous r body)
          in if tl_previous r \<noteq> previous \<or> tl_hash r \<noteq> expected then Chain_Broken n (tl_id r)
             else verify_from n expected rs)"

definition audit_verify :: "audit_row list \<Rightarrow> audit_verdict" where
  "audit_verify rows = verify_from (length rows) [] (in_order rows)"

section \<open>Anchoring\<close>

text \<open>
  \<open>hmac.new(key, message, sha256).hexdigest()\<close>: \<open>sha256_bytes\<close> is the digest itself.
\<close>

definition sha256_bytes :: "string \<Rightarrow> string" where
  "sha256_bytes s = concat (map (\<lambda>w. map (\<lambda>i. char_of (nat (uint w div 256 ^ i mod 256))) [3, 2, 1, 0]) (sha256_words s))"

definition hmac_sha256 :: "string \<Rightarrow> string \<Rightarrow> string" where
  "hmac_sha256 key message =
     (let k = (if 64 < length key then sha256_bytes key else key);
          pad = k @ replicate (64 - length k) (char_of (0::nat));
          mask = (\<lambda>b. map (\<lambda>c. char_of (of_char c XOR b :: nat)) pad)
      in sha256 (mask 0x5c @ sha256_bytes (mask 0x36 @ message)))"

record anchor_answer =
  an_accepted :: bool
  an_witness :: bool
  an_at :: string
  an_signature :: string

record witness_anchor =
  wa_hash :: string
  wa_node :: string
  wa_signature :: string
  wa_at :: string

text \<open>The end point of the witness; an anchor for a hash it knows is not stored again.\<close>

definition ha_audit_anchor ::
  "string \<Rightarrow> bool \<Rightarrow> string \<Rightarrow> string \<Rightarrow> string \<Rightarrow> witness_anchor list \<Rightarrow> anchor_answer \<times> witness_anchor list" where
  "ha_audit_anchor secret witness_only created entry_hash node anchors =
     (let signature = hmac_sha256 secret (join_char CHR ''|'' [entry_hash, node, created])
      in (\<lparr>an_accepted = True, an_witness = witness_only, an_at = created, an_signature = signature\<rparr>,
          if entry_hash \<in> set (map wa_hash anchors) then anchors
          else anchors @ [\<lparr>wa_hash = entry_hash, wa_node = node, wa_signature = signature, wa_at = created\<rparr>]))"

definition anchor_believed :: "string \<Rightarrow> string \<Rightarrow> string \<Rightarrow> anchor_answer \<Rightarrow> bool" where
  "anchor_believed secret node head a \<longleftrightarrow> an_accepted a \<and> an_witness a \<and> secret \<noteq> [] \<and> an_at a \<noteq> []
     \<and> hmac_sha256 secret (join_char CHR ''|'' [head, node, an_at a]) = an_signature a"

text \<open>
  \<open>_anchor_audit_head\<close>: the answers of the peers in their order, \<open>None\<close> for one that raised. \<open>Inl\<close> is the
  exception of the verification.
\<close>

definition anchor_audit_head ::
  "string \<Rightarrow> string \<Rightarrow> (string \<Rightarrow> anchor_answer option list) \<Rightarrow> audit_row list \<Rightarrow> unit + audit_row list" where
  "anchor_audit_head secret node answers rows =
     (case audit_verify rows of
        Payload_Unreadable \<Rightarrow> Inl ()
      | Chain_Broken _ _ \<Rightarrow> Inr rows
      | Chain_Valid _ head \<Rightarrow>
          if head = [] then Inr rows
          else case find (anchor_believed secret node head) (concat (map (\<lambda>a. case a of None \<Rightarrow> [] | Some x \<Rightarrow> [x]) (answers head))) of
            None \<Rightarrow> Inr rows
          | Some a \<Rightarrow> Inr (audit_anchor head (an_at a @ CHR '':'' # an_signature a) rows))"

lemma honest_anchor_believed:
  "secret \<noteq> [] \<Longrightarrow> created \<noteq> [] \<Longrightarrow>
   anchor_believed secret node head (fst (ha_audit_anchor secret True created head node anchors))"
  by (simp add: anchor_believed_def ha_audit_anchor_def Let_def)

section \<open>Runs\<close>

datatype audit_event =
    Record string string string "(string \<times> json) list" "int option" "int option"
  | Anchor string string

fun audit_step :: "audit_event \<Rightarrow> audit_row list \<Rightarrow> audit_row list" where
  "audit_step (Record created category action payload station actor) rows =
     snd (audit_append created category action payload station actor rows)"
| "audit_step (Anchor h a) rows = audit_anchor h a rows"

definition audit_run :: "audit_event list \<Rightarrow> audit_row list \<Rightarrow> audit_row list" where
  "audit_run es rows = fold audit_step es rows"

text \<open>What the callers in the program write: a named category and action, and a readable payload.\<close>

fun named_record :: "audit_event \<Rightarrow> bool" where
  "named_record (Record _ category action payload _ _) \<longleftrightarrow>
     category \<noteq> [] \<and> action \<noteq> [] \<and> json_ok (J_Obj payload)"
| "named_record (Anchor _ _) \<longleftrightarrow> True"

end
