(* ===== verification/Audit_Laws.thy ===== *)
theory Audit_Laws
  imports Audit_Chain
begin

text \<open>
  The chain that the program writes verifies, and a chain that verifies with the same head holds the
  same records, up to a collision of SHA-256.
\<close>

section \<open>What the program writes\<close>

definition chained :: "audit_row list \<Rightarrow> bool" where
  "chained rows \<longleftrightarrow> sorted (map tl_id rows) \<and> (\<exists>h. \<forall>n. verify_from n [] rows = Chain_Valid n h)"

lemma in_order_sorted [simp]: "sorted (map tl_id rows) \<Longrightarrow> in_order rows = rows"
  by (simp add: in_order_def sort_key_id_if_sorted)

text \<open>The verdict on a longer chain, and the hash it ends with.\<close>

lemma verify_from_append:
  "verify_from n p (rs @ ss) = (case verify_from n p rs of Chain_Valid _ h \<Rightarrow> verify_from n h ss | v \<Rightarrow> v)"
  by (induction rs arbitrary: p) (auto simp: Let_def split: option.splits)

lemma verify_from_count: "verify_from n p rs = Chain_Valid m h \<Longrightarrow> m = n \<and> verify_from k p rs = Chain_Valid k h"
  by (induction rs arbitrary: p) (auto simp: Let_def split: option.splits if_splits)

lemma verify_from_head:
  "verify_from n p rs = Chain_Valid m h \<Longrightarrow> h = (if rs = [] then p else tl_hash (last rs))"
  by (induction rs arbitrary: p) (auto simp: Let_def split: option.splits if_splits)

lemma last_hash_sorted:
  "sorted (map tl_id rows) \<Longrightarrow> last_hash rows = (if rows = [] then [] else tl_hash (last rows))"
  by (cases rows rule: rev_cases) (simp_all add: last_hash_def)

lemma chained_head: "chained rows \<Longrightarrow> verify_from n [] rows = Chain_Valid n (last_hash rows)"
  unfolding chained_def by (metis last_hash_sorted verify_from_head)

lemma read_written:
  "json_ok (J_Obj payload) \<Longrightarrow> or_default ''{}'' (json_text (J_Obj payload)) = json_text (J_Obj payload)"
  by (simp add: or_default_def)

lemma read_payload_written:
  assumes "json_ok (J_Obj payload)" "tl_payload r = json_text (J_Obj payload)"
  shows "read_payload r = Some (json_text (J_Obj payload))"
proof -
  have "json_false (canon (J_Obj payload)) \<Longrightarrow> payload = []"
    using length_sort [of fst "map (\<lambda>p. (fst p, canon (snd p))) payload"] by (simp add: json_false_def)
  then show ?thesis
    using assms json_loads_text [OF assms(1)] json_text_canon [of "J_Obj payload"]
    unfolding read_payload_def assms(2) read_written [OF assms(1)]
    by (auto simp del: canon.simps json_text.simps(7))
qed

lemma chained_append:
  assumes "chained rows" "category \<noteq> []" "action \<noteq> []" "json_ok (J_Obj payload)"
  shows "chained (snd (audit_append created category action payload station actor rows))"
proof -
  have s: "sorted (map tl_id rows)" using assms(1) by (simp add: chained_def)
  moreover have "\<forall>i \<in> set (map tl_id rows). i \<le> next_rowid (map tl_id rows)"
    using next_rowid_greater by (meson less_imp_le)
  ultimately show ?thesis
    using assms read_payload_written [OF assms(4)] chained_head [OF assms(1)]
    by (auto simp: audit_append_def chained_def Let_def verify_from_append row_material_def or_default_def
        sorted_append simp del: json_text.simps)
qed

lemma chained_anchor: "chained rows \<Longrightarrow> chained (audit_anchor h a rows)"
proof -
  have "verify_from n p (audit_anchor h a rs) = verify_from n p rs" for n p rs
    by (induction rs arbitrary: p)
       (auto simp: audit_anchor_def update_where_def read_payload_def row_material_def Let_def split: option.splits)
  moreover have "map tl_id (audit_anchor h a rs) = map tl_id rs" for rs
    by (simp add: audit_anchor_def update_where_def comp_def)
  ultimately show "chained rows \<Longrightarrow> ?thesis" by (simp add: chained_def)
qed

lemma chained_run: "\<forall>e \<in> set es. named_record e \<Longrightarrow> chained rows \<Longrightarrow> chained (audit_run es rows)"
proof (induction es arbitrary: rows)
  case (Cons e es)
  then have "chained (audit_step e rows)"
    by (cases e) (auto intro: chained_append chained_anchor simp del: json_ok.simps)
  with Cons show ?case by (simp add: audit_run_def)
qed (simp add: audit_run_def)

text \<open>What is once written stays, but for its anchor.\<close>

lemma audit_run_extends:
  "\<exists>new. map (tl_anchor_update (\<lambda>_. [])) (audit_run es rows) = map (tl_anchor_update (\<lambda>_. [])) rows @ new"
proof (induction es arbitrary: rows)
  case (Cons e es)
  have "\<exists>new. map (tl_anchor_update (\<lambda>_. [])) (audit_step e rows) = map (tl_anchor_update (\<lambda>_. [])) rows @ new"
    by (cases e) (auto simp: audit_append_def audit_anchor_def update_where_def Let_def comp_def if_distrib
        intro!: exI [of _ "[]"])
  with Cons.IH [of "audit_step e rows"] show ?case by (auto simp: audit_run_def)
qed (simp add: audit_run_def)

lemma run_verifies:
  assumes "\<forall>e \<in> set es. named_record e"
  shows "audit_verify (audit_run es []) = Chain_Valid (length (audit_run es [])) (last_hash (audit_run es []))"
proof -
  have "chained []" by (simp add: chained_def)
  then have l: "chained (audit_run es [])" using assms by (intro chained_run)
  then have "in_order (audit_run es []) = audit_run es []" by (simp add: chained_def)
  then show ?thesis using chained_head [OF l] by (simp add: audit_verify_def)
qed

text \<open>
  C38: as long as every record has a category, an action and a payload that is a JSON object, the chain
  verifies, after whatever was recorded and anchored, with the hash of its last record, and no record
  that was written is changed or removed.
\<close>

theorem written_chain_verifies:
  assumes "\<forall>e \<in> set (es @ fs). named_record e"
  shows "audit_verify (audit_run (es @ fs) []) =
      Chain_Valid (length (audit_run (es @ fs) [])) (last_hash (audit_run (es @ fs) []))
    \<and> (\<exists>new. map (tl_anchor_update (\<lambda>_. [])) (audit_run (es @ fs) [])
          = map (tl_anchor_update (\<lambda>_. [])) (audit_run es []) @ new)"
  using run_verifies [OF assms] audit_run_extends [of fs "audit_run es []"] by (simp add: audit_run_def)

section \<open>What a verified chain says\<close>

text \<open>The fields of a record that its hash covers.\<close>

type_synonym audit_tuple = "int option \<times> string \<times> string \<times> int option \<times> string option \<times> string"

definition audit_facts :: "audit_row \<Rightarrow> audit_tuple" where
  "audit_facts r = (tl_station r, tl_category r, tl_action r, tl_actor r, read_payload r, tl_created r)"

text \<open>The texts that were hashed to verify a chain.\<close>

fun hashed_texts :: "string \<Rightarrow> audit_row list \<Rightarrow> string list" where
  "hashed_texts p [] = []"
| "hashed_texts p (r # rs) = (case read_payload r of None \<Rightarrow> []
     | Some body \<Rightarrow> row_material p r body # hashed_texts (sha256 (row_material p r body)) rs)"

definition barless :: "audit_row \<Rightarrow> bool" where
  "barless r \<longleftrightarrow> CHR ''|'' \<notin> set (tl_category r @ tl_action r @ tl_created r)"

lemma no_bar [simp]: "CHR ''|'' \<notin> set (sha256 s)" "CHR ''|'' \<notin> set (opt_int_text i)"
  using sha256_hex [of "CHR ''|''" s] int_str_chars [of "CHR ''|''"]
  by (auto simp: opt_int_text_def is_digit_def split: option.splits)

lemma opt_int_text_inj: "opt_int_text i = opt_int_text j \<Longrightarrow> i = j"
  using int_str_inj by (auto simp: opt_int_text_def split: option.splits) (metis int_str_nonempty)+

text \<open>A text names the hash before it whatever the fields contain.\<close>

lemma row_material_previous:
  "row_material p r b = row_material q s d \<Longrightarrow> CHR ''|'' \<notin> set p \<Longrightarrow> CHR ''|'' \<notin> set q \<Longrightarrow> p = q"
  using split_at_char [of "CHR ''|''" p q] by (simp add: row_material_def audit_material_def)

text \<open>The payload may contain bars: the five fields before it and the one after it do not.\<close>

lemma row_material_inj:
  assumes "row_material p r b = row_material q s d" "barless r" "barless s" "CHR ''|'' \<notin> set p" "CHR ''|'' \<notin> set q"
  shows "p = q \<and> b = d \<and> tl_station r = tl_station s \<and> tl_category r = tl_category s \<and> tl_action r = tl_action s
    \<and> tl_actor r = tl_actor s \<and> tl_created r = tl_created s"
proof -
  have cut: "s @ CHR ''|'' # u = t @ CHR ''|'' # v \<longleftrightarrow> s = t \<and> u = v"
    if "CHR ''|'' \<notin> set s" "CHR ''|'' \<notin> set t" for s t u v
    using split_at_char [OF that] by blast
  have last: "b @ CHR ''|'' # x = d @ CHR ''|'' # y \<longleftrightarrow> b = d \<and> x = y"
    if "CHR ''|'' \<notin> set x" "CHR ''|'' \<notin> set y" for b d x y
  proof -
    have "rev (b @ CHR ''|'' # x) = rev (d @ CHR ''|'' # y) \<longleftrightarrow> b = d \<and> x = y"
      using cut [of "rev x" "rev y" "rev b" "rev d"] that by auto
    then show ?thesis by (simp only: rev_is_rev_conv)
  qed
  show ?thesis using assms
    by (auto simp: row_material_def audit_material_def barless_def cut last dest: opt_int_text_inj)
qed

lemma hashed_texts_append:
  "verify_from n p rs = Chain_Valid k h \<Longrightarrow> hashed_texts p (rs @ ss) = hashed_texts p rs @ hashed_texts h ss"
  by (induction rs arbitrary: p) (auto simp: Let_def split: option.splits if_splits)

lemma head_barless: "verify_from n p rs = Chain_Valid k h \<Longrightarrow> CHR ''|'' \<notin> set p \<Longrightarrow> CHR ''|'' \<notin> set h"
  by (induction rs arbitrary: p) (auto simp: Let_def split: option.splits if_splits)

lemma verify_last:
  assumes "verify_from n [] (rs @ [r]) = Chain_Valid k h"
  shows "\<exists>p body. verify_from n [] rs = Chain_Valid n p \<and> CHR ''|'' \<notin> set p \<and> read_payload r = Some body
    \<and> h = sha256 (row_material p r body)
    \<and> hashed_texts [] (rs @ [r]) = hashed_texts [] rs @ [row_material p r body]"
proof -
  from assms obtain j p where p: "verify_from n [] rs = Chain_Valid j p"
    by (auto simp: verify_from_append split: audit_verdict.splits)
  then have "j = n" by (simp add: verify_from_count)
  with p assms head_barless [OF p] show ?thesis
    by (auto simp: verify_from_append hashed_texts_append [OF p] Let_def split: option.splits if_splits)
qed

text \<open>
  Both chains are walked from the head backwards: equal hashes come from equal texts unless two texts
  collide, and a text names the hash before it.
\<close>

definition no_collision :: "string list \<Rightarrow> string list \<Rightarrow> bool" where
  "no_collision ts us \<longleftrightarrow> (\<forall>t \<in> set ts. \<forall>u \<in> set us. sha256 t = sha256 u \<longrightarrow> t = u)"

lemma sha256_not_empty [simp]: "sha256 t \<noteq> []" "[] \<noteq> sha256 t"
  using length_sha256 [of t] by fastforce+

lemma same_head_same_texts:
  assumes "verify_from n [] rs = Chain_Valid k h" "verify_from m [] ss = Chain_Valid l h"
    and "no_collision (hashed_texts [] rs) (hashed_texts [] ss)"
  shows "hashed_texts [] rs = hashed_texts [] ss
    \<and> ((\<forall>r \<in> set (rs @ ss). barless r) \<longrightarrow> map audit_facts rs = map audit_facts ss)"
  using assms
proof (induction rs arbitrary: ss k l h rule: rev_induct)
  case Nil
  have "ss = []"
  proof (cases ss rule: rev_cases)
    case (snoc ts t)
    then show ?thesis using Nil.prems(1) verify_last [of m ts t l h] Nil.prems(2) by auto
  qed
  then show ?case by simp
next
  case (snoc r rs)
  obtain p b where r: "verify_from n [] rs = Chain_Valid n p" "CHR ''|'' \<notin> set p" "read_payload r = Some b"
      "h = sha256 (row_material p r b)" "hashed_texts [] (rs @ [r]) = hashed_texts [] rs @ [row_material p r b]"
    using verify_last [OF snoc.prems(1)] by blast
  have "ss \<noteq> []" using snoc.prems(2) r(4) by auto
  then obtain ts s where ss: "ss = ts @ [s]" by (cases ss rule: rev_cases) auto
  obtain q d where s: "verify_from m [] ts = Chain_Valid m q" "CHR ''|'' \<notin> set q" "read_payload s = Some d"
      "h = sha256 (row_material q s d)" "hashed_texts [] (ts @ [s]) = hashed_texts [] ts @ [row_material q s d]"
    using verify_last [of m ts s l h] snoc.prems(2) ss by blast
  have same: "row_material p r b = row_material q s d"
    using snoc.prems(3) r(4,5) s(4,5) ss by (simp add: no_collision_def)
  then have pq: "p = q" using row_material_previous r(2) s(2) by blast
  have rest: "no_collision (hashed_texts [] rs) (hashed_texts [] ts)"
    using snoc.prems(3) r(5) s(5) ss by (simp add: no_collision_def)
  have last: "audit_facts r = audit_facts s" if "barless r" "barless s"
    using row_material_inj [OF same that r(2) s(2)] r(3) s(3) by (simp add: audit_facts_def)
  show ?case
    using snoc.IH [OF r(1) s(1) [folded pq] rest] same last by (simp add: ss r(5) s(5))
qed

text \<open>
  C12: unless two different texts among those hashed have the same SHA-256, two chains that verify with
  the same head hashed the same texts in the same order; if no category, action or time contains a bar,
  which separates the fields of a text, they hold the same records. So no such record can be changed,
  inserted, removed or moved without changing the head.
\<close>

theorem head_fixes_records:
  assumes "audit_verify rows = Chain_Valid k h" "audit_verify rows' = Chain_Valid l h"
    and "no_collision (hashed_texts [] (in_order rows)) (hashed_texts [] (in_order rows'))"
  shows "hashed_texts [] (in_order rows) = hashed_texts [] (in_order rows')
    \<and> ((\<forall>r \<in> set (rows @ rows'). barless r) \<longrightarrow>
         map audit_facts (in_order rows) = map audit_facts (in_order rows'))"
  using same_head_same_texts [of "length rows" "in_order rows" k h "length rows'" "in_order rows'" l] assms
  by (auto simp: audit_verify_def in_order_def)

section \<open>Runs\<close>

definition two_records :: "audit_event list" where
  "two_records = [Record ''t1'' ''failover'' ''role.leader'' [(''term'', J_Int 3)] None None,
     Record ''t2'' ''guest'' ''invite.created'' [] (Some 7) (Some 1)]"

theorem written_chain_verifies_witness:
  "\<exists>h. audit_verify (audit_run two_records []) = Chain_Valid (length (audit_run two_records [])) h
     \<and> length (audit_run two_records []) \<noteq> 0"
proof -
  have named: "\<forall>e \<in> set (two_records @ []). named_record e" by (simp add: two_records_def)
  have "length (audit_run two_records []) \<noteq> 0"
    by (simp add: audit_run_def two_records_def audit_append_def Let_def)
  then show ?thesis using written_chain_verifies [OF named] by auto
qed

text \<open>The same records, but for the anchor that was added to one copy.\<close>

theorem head_fixes_records_witness:
  "\<exists>r. audit_verify [r] = Chain_Valid 1 (tl_hash r)
    \<and> audit_verify [r\<lparr>tl_anchor := ''w''\<rparr>] = Chain_Valid 1 (tl_hash r)
    \<and> map audit_facts (in_order [r]) = map audit_facts (in_order [r\<lparr>tl_anchor := ''w''\<rparr>])"
proof -
  define r where "r = hd (audit_run [Record ''t1'' ''a'' ''b'' [] None None] [])"
  have named: "\<forall>e \<in> set [Record ''t1'' ''a'' ''b'' [] None None]. named_record e" by simp
  have run: "audit_run [Record ''t1'' ''a'' ''b'' [] None None] [] = [r]"
    by (simp add: r_def audit_run_def audit_append_def Let_def)
  have v: "audit_verify [r] = Chain_Valid 1 (tl_hash r)"
    using run_verifies [OF named] by (simp add: run last_hash_def in_order_def)
  have w': "verify_from 1 [] [r\<lparr>tl_anchor := ''w''\<rparr>] = verify_from 1 [] [r]" for r
    by (cases "json_loads (or_default ''{}'' (tl_payload r))") (simp_all add: read_payload_def row_material_def Let_def)
  from v have w: "audit_verify [r\<lparr>tl_anchor := ''w''\<rparr>] = Chain_Valid 1 (tl_hash r)"
    using w' [of r] by (simp add: audit_verify_def in_order_def)
  have "barless r" "barless (r\<lparr>tl_anchor := ''w''\<rparr>)"
    by (simp_all add: r_def barless_def audit_run_def audit_append_def Let_def)
  moreover have "no_collision (hashed_texts [] (in_order [r])) (hashed_texts [] (in_order [r\<lparr>tl_anchor := ''w''\<rparr>]))"
    by (cases "json_loads (or_default ''{}'' (tl_payload r))")
       (simp_all add: no_collision_def in_order_def row_material_def read_payload_def)
  ultimately show ?thesis using head_fixes_records [OF v w] v w by auto
qed

text \<open>
  The bar that joins the fields may move between them: two different records hash the same text, so one
  can take the place of the other.
\<close>

definition bar_record :: "string \<Rightarrow> string \<Rightarrow> audit_row" where
  "bar_record category action = hd (snd (audit_append ''t1'' category action [] None None []))"

theorem bar_moves_between_fields:
  "audit_verify [bar_record ''a|b'' ''c''] = audit_verify [bar_record ''a'' ''b|c'']
   \<and> audit_verify [bar_record ''a|b'' ''c''] = Chain_Valid 1 (tl_hash (bar_record ''a|b'' ''c''))
   \<and> audit_facts (bar_record ''a|b'' ''c'') \<noteq> audit_facts (bar_record ''a'' ''b|c'')"
proof -
  have run: "[bar_record c a] = audit_run [Record ''t1'' c a [] None None] []" for c a
    by (simp add: bar_record_def audit_run_def audit_append_def Let_def)
  have v: "audit_verify [bar_record c a] = Chain_Valid 1 (tl_hash (bar_record c a))" if "c \<noteq> []" "a \<noteq> []" for c a
    using run_verifies [of "[Record ''t1'' c a [] None None]"] that
    unfolding run [symmetric] by (simp add: last_hash_def in_order_def flip: run)
  have "tl_hash (bar_record ''a|b'' ''c'') = tl_hash (bar_record ''a'' ''b|c'')"
    by (simp add: bar_record_def audit_append_def Let_def audit_material_def or_default_def)
  then show ?thesis
    using v [of "''a|b''" "''c''"] v [of "''a''" "''b|c''"]
    by (simp add: audit_facts_def bar_record_def audit_append_def Let_def)
qed

text \<open>
  A record without a category is hashed with the category \<open>operation\<close> but stored without one, so a chain
  that holds it does not verify unless the two texts collide.
\<close>

theorem unnamed_record_breaks_chain:
  "audit_verify (audit_run [Record ''t1'' [] action [] None None] []) = Chain_Broken 1 1
   \<or> sha256 (audit_material [] None ''operation'' (or_default ''unknown'' action) None ''{}'' ''t1'')
     = sha256 (audit_material [] None [] action None ''{}'' ''t1'')"
proof -
  have "json_ok (J_Obj [])" by simp
  from read_payload_written [OF this]
  have "tl_payload r = json_text (J_Obj []) \<Longrightarrow> read_payload r = Some (json_text (J_Obj []))" for r .
  then show ?thesis
    by (simp add: audit_verify_def in_order_def audit_run_def audit_append_def Let_def last_hash_def
        row_material_def or_default_def next_rowid_def)
qed

text \<open>
  A chain whose last records are removed verifies as well, with another head: only a comparison of the
  head with an anchor kept elsewhere tells, and the program makes none.
\<close>

theorem cut_chain_verifies:
  assumes "\<forall>e \<in> set es. named_record e"
  shows "\<exists>h. audit_verify (take k (audit_run es [])) = Chain_Valid (length (take k (audit_run es []))) h"
proof -
  define rows where "rows = audit_run es []"
  have l: "chained rows" unfolding rows_def using assms by (intro chained_run) (auto simp: chained_def)
  then obtain h where "verify_from (length (take k rows)) [] (take k rows @ drop k rows) = Chain_Valid (length (take k rows)) h"
    by (auto simp: chained_def)
  then obtain j h' where "verify_from (length (take k rows)) [] (take k rows) = Chain_Valid j h'"
    by (auto simp only: verify_from_append split: audit_verdict.splits)
  moreover have "in_order (take k rows) = take k rows" using l by (simp add: chained_def sorted_wrt_take flip: take_map)
  ultimately show ?thesis unfolding rows_def [symmetric] audit_verify_def by (metis verify_from_count)
qed

text \<open>
  A record whose payload is not JSON makes the verification raise. The leader's loop anchors the head
  outside every handler of exceptions, so the loop ends and the node sends no further heartbeat.
\<close>

theorem unreadable_payload_raises:
  "audit_verify [r\<lparr>tl_payload := ''{''\<rparr>] = Payload_Unreadable
   \<and> anchor_audit_head secret node answers [r\<lparr>tl_payload := ''{''\<rparr>] = Inl ()"
proof -
  have "json_loads ''{'' = None" by code_simp
  then have "audit_verify [r\<lparr>tl_payload := ''{''\<rparr>] = Payload_Unreadable"
    by (simp add: audit_verify_def in_order_def read_payload_def or_default_def)
  then show ?thesis by (simp add: anchor_audit_head_def)
qed

end
