(* ===== verification/Node_Store.thy ===== *)
theory Node_Store
  imports Json_Laws Database Sha256
begin

text \<open>
  What a node keeps that the high-availability peers copy: its stream outputs
  (\<open>repositories/station_output_repo.py\<close>) with the credential vault (\<open>security/credential_vault.py\<close>), its
  settings, the schedule, the rows of guest rooms and recordings, and the replication journal. Here the
  times of the schedule are the texts the table holds.
\<close>

section \<open>Credentials\<close>

text \<open>
  The vault maps a reference to a secret. \<open>can_protect\<close> tells whether the operating system protects data;
  a store that cannot be read or written is left out.
\<close>

type_synonym vault = "string \<Rightarrow> string option"

definition reference_prefix :: string where
  "reference_prefix = ''credential://user/''"

definition is_credential_reference :: "string \<Rightarrow> bool" where
  "is_credential_reference v \<longleftrightarrow> take (length reference_prefix) v = reference_prefix"

definition credential_reference :: "int \<Rightarrow> string" where
  "credential_reference st = reference_prefix @ ''station/'' @ int_str st @ ''/icecast''"

definition system_credential_reference :: "string \<Rightarrow> exn + string" where
  "system_credential_reference name =
     (let n = map (\<lambda>c. if c = CHR ''_'' then CHR ''-'' else c) (lower (strip name))
      in if n = [] \<or> (\<exists>c \<in> set n. c \<notin> set ''abcdefghijklmnopqrstuvwxyz0123456789-'')
         then Inl (RuntimeError ''Invalid system credential name'')
         else Inr (reference_prefix @ ''system/'' @ n))"

definition set_secret :: "bool \<Rightarrow> string \<Rightarrow> string \<Rightarrow> vault \<Rightarrow> exn + vault" where
  "set_secret can_protect reference secret v =
     (let r = strip reference in
      if \<not> is_credential_reference r then Inl (RuntimeError ''Invalid credential reference'')
      else if secret = [] then Inl (RuntimeError ''Refusing to store an empty credential'')
      else if \<not> can_protect then Inl (RuntimeError ''OS credential protection is unavailable'')
      else Inr (v(r \<mapsto> secret)))"

definition get_secret :: "string \<Rightarrow> vault \<Rightarrow> string" where
  "get_secret reference v =
     (let r = strip reference in
      if \<not> is_credential_reference r then [] else (case v r of None \<Rightarrow> [] | Some s \<Rightarrow> s))"

definition has_secret :: "string \<Rightarrow> vault \<Rightarrow> bool" where
  "has_secret reference v \<longleftrightarrow> is_credential_reference (strip reference) \<and> v (strip reference) \<noteq> None"

definition delete_secret :: "string \<Rightarrow> vault \<Rightarrow> vault" where
  "delete_secret reference v = v(strip reference := None)"

definition resolve_credential_value :: "string \<Rightarrow> vault \<Rightarrow> string" where
  "resolve_credential_value stored v = (if is_credential_reference stored then get_secret stored v else stored)"

section \<open>The node\<close>

record output_row =
  so_station :: int
  so_local :: bool
  so_device :: string
  so_icecast :: bool
  so_host :: string
  so_port :: int
  so_mount :: string
  so_user :: string
  so_password :: string
  so_gain :: rat
  so_profile :: string
  so_bitrate :: int

record slot =
  sl_id :: int
  sl_station :: int
  sl_track :: int
  sl_play_at :: string
  sl_window_end :: "string option"
  sl_event :: string
  sl_status :: string

record journal_row =
  jn_seq :: int
  jn_type :: string
  jn_entity :: string
  jn_op :: string
  jn_body :: string
  jn_checksum :: string
  jn_replicated :: bool
  jn_applied :: bool

text \<open>A row of the guest tables as a dictionary of its columns.\<close>

type_synonym json_row = "(string \<times> json) list"

record store =
  n_outputs :: "output_row list"
  n_vault :: vault
  n_settings :: "int \<Rightarrow> string \<Rightarrow> string option"
  n_slots :: "slot list"
  n_studios :: "int list"
  n_invites :: "json_row list"
  n_guests :: "json_row list"
  n_recordings :: "json_row list"
  n_consents :: "json_row list"
  n_journal :: "journal_row list"

section \<open>Outputs\<close>

definition get_output :: "int \<Rightarrow> 'a store_scheme \<Rightarrow> output_row option" where
  "get_output st n = find (\<lambda>r. so_station r = st) (n_outputs n)"

text \<open>\<open>INSERT \<dots> ON CONFLICT DO UPDATE\<close> by a key.\<close>

definition upsert_by :: "('r \<Rightarrow> 'k) \<Rightarrow> 'r \<Rightarrow> 'r list \<Rightarrow> 'r list" where
  "upsert_by key r rows =
     (if \<exists>x \<in> set rows. key x = key r then map (\<lambda>x. if key x = key r then r else x) rows else rows @ [r])"

text \<open>
  \<open>StationOutputRepository.upsert\<close>: \<open>so_password\<close> of the argument is the password given. An empty one
  keeps what is stored; a new plain one goes to the vault and leaves its reference in the row.
\<close>

definition upsert_output :: "bool \<Rightarrow> output_row \<Rightarrow> ('a store_scheme, unit) prog" where
  "upsert_output can_protect r n =
     (let given = so_password r;
          stored = (if given = [] then (case get_output (so_station r) n of None \<Rightarrow> [] | Some x \<Rightarrow> so_password x) else given);
          row = r\<lparr>so_profile := or_default ''aac_plus_196'' (so_profile r),
                  so_bitrate := (if so_bitrate r = 0 then 196 else so_bitrate r)\<rparr>
      in if stored \<noteq> [] \<and> \<not> is_credential_reference stored
         then (case set_secret can_protect (credential_reference (so_station r)) stored (n_vault n) of
             Inl e \<Rightarrow> (Inl e, n)
           | Inr v \<Rightarrow> (Inr (), n\<lparr>n_vault := v,
               n_outputs := upsert_by so_station (row\<lparr>so_password := credential_reference (so_station r)\<rparr>) (n_outputs n)\<rparr>))
         else (Inr (), n\<lparr>n_outputs := upsert_by so_station (row\<lparr>so_password := stored\<rparr>) (n_outputs n)\<rparr>))"

definition local_output_assignments :: "int option \<Rightarrow> 'a store_scheme \<Rightarrow> (int \<times> string) list" where
  "local_output_assignments except n =
     map (\<lambda>r. (so_station r, strip (so_device r)))
       (sort_key so_station (filter (\<lambda>r. so_local r \<and> sql_trim (so_device r) \<noteq> [] \<and> Some (so_station r) \<noteq> except)
          (n_outputs n)))"

text \<open>\<open>SettingsRepository.upsert_station\<close> on the settings of the node.\<close>

definition put_settings :: "int \<Rightarrow> (string \<times> string) list \<Rightarrow> 'a store_scheme \<Rightarrow> 'a store_scheme" where
  "put_settings st values n =
     n\<lparr>n_settings := (n_settings n)(st := fold (\<lambda>(k, v) s. s(k \<mapsto> v)) values (n_settings n st))\<rparr>"

end
