(* ===== verification/Replication.thy ===== *)
theory Replication
  imports Node_Store HA Queue_Repo
begin

text \<open>
  The replication journal (\<open>services/replication_journal.py\<close>), sending it to the peers
  (\<open>replicate_ordered\<close> in \<open>services/ha_coordinator.py\<close>), receiving it (\<open>api/ha.py\<close>), applying it
  (\<open>services/replication_applier.py\<close>) and the schedule operations that write it
  (\<open>repositories/schedule_repo.py\<close>). Tokens between nodes are taken as valid.
\<close>

section \<open>The journal\<close>

definition journal_checksum :: "string \<Rightarrow> string \<Rightarrow> string \<Rightarrow> string \<Rightarrow> string" where
  "journal_checksum type entity op body = sha256 (join_char CHR ''|'' [type, entity, op, body])"

text \<open>\<open>INSERT OR IGNORE\<close>: the checksum is unique, so an entry with a known content is not written again.\<close>

definition journal_append ::
  "string \<Rightarrow> string \<Rightarrow> string \<Rightarrow> json \<Rightarrow> 'a store_scheme \<Rightarrow> int \<times> 'a store_scheme" where
  "journal_append type entity op payload n =
     (let body = json_text payload;
          sum = journal_checksum type entity op body;
          i = next_rowid (map jn_seq (n_journal n))
      in case find (\<lambda>j. jn_checksum j = sum) (n_journal n) of
           Some j \<Rightarrow> (jn_seq j, n)
         | None \<Rightarrow> (i, n\<lparr>n_journal := n_journal n @ [\<lparr>jn_seq = i, jn_type = type, jn_entity = entity,
             jn_op = op, jn_body = body, jn_checksum = sum, jn_replicated = False, jn_applied = False\<rparr>]\<rparr>))"

definition journal_pending :: "int \<Rightarrow> 'a store_scheme \<Rightarrow> journal_row list" where
  "journal_pending limit n =
     take (clamp_limit 1 1000 limit) (sort_key jn_seq (filter (\<lambda>j. \<not> jn_replicated j) (n_journal n)))"

definition mark_replicated :: "int \<Rightarrow> 'a store_scheme \<Rightarrow> 'a store_scheme" where
  "mark_replicated i n =
     n\<lparr>n_journal := update_where (\<lambda>j. jn_seq j = i) (jn_replicated_update (\<lambda>_. True)) (n_journal n)\<rparr>"

section \<open>Applying an entry\<close>

text \<open>
  \<open>payload.get(key)\<close>. Fields of other types than the program writes, which Python may convert, raise here.
\<close>

definition field :: "string \<Rightarrow> json_row \<Rightarrow> json" where
  "field k r = (case map_of r k of None \<Rightarrow> J_Null | Some v \<Rightarrow> v)"

definition int_field :: "string \<Rightarrow> json_row \<Rightarrow> int option" where
  "int_field k r = (case field k r of J_Int i \<Rightarrow> Some i | J_Null \<Rightarrow> Some 0 | _ \<Rightarrow> None)"

definition text_field :: "string \<Rightarrow> json_row \<Rightarrow> string option" where
  "text_field k r = (case field k r of J_Str s \<Rightarrow> Some s | J_Null \<Rightarrow> Some [] | _ \<Rightarrow> None)"

definition apply_schedule :: "string \<Rightarrow> json_row \<Rightarrow> 'a store_scheme \<Rightarrow> 'a store_scheme option" where
  "apply_schedule op p n =
     (case int_field ''id'' p of
        None \<Rightarrow> None
      | Some i \<Rightarrow>
          if i \<le> 0 then Some n
          else if op = ''delete'' then Some (n\<lparr>n_slots := filter (\<lambda>s. sl_id s \<noteq> i) (n_slots n)\<rparr>)
          else case (int_field ''station_id'' p, int_field ''track_id'' p, text_field ''play_at'' p,
                     text_field ''event_name'' p, text_field ''status'' p, field ''window_end'' p) of
            (Some st, Some tr, Some pl, Some ev, Some s, w) \<Rightarrow>
              (case (case w of J_Null \<Rightarrow> Some None | J_Str t \<Rightarrow> Some (Some t) | _ \<Rightarrow> None) of
                 None \<Rightarrow> None
               | Some window \<Rightarrow> Some (n\<lparr>n_slots := upsert_by sl_id \<lparr>sl_id = i, sl_station = st, sl_track = tr,
                   sl_play_at = pl, sl_window_end = window, sl_event = ev, sl_status = or_default ''pending'' s\<rparr> (n_slots n)\<rparr>))
          | _ \<Rightarrow> None)"

definition invite_columns :: "string list" where
  "invite_columns = [''id'', ''studio_id'', ''station_id'', ''token_hash'', ''created_by'', ''expires_at'',
     ''redeemed_at'', ''revoked_at'', ''created_at'']"

definition guest_columns :: "string list" where
  "guest_columns = [''id'', ''invite_id'', ''studio_id'', ''station_id'', ''display_name'', ''session_token_hash'',
     ''status'', ''is_connected'', ''is_muted'', ''is_on_air'', ''gain_db'', ''connection_quality'',
     ''admitted_at'', ''left_at'', ''last_seen_at'', ''created_at'']"

definition recording_columns :: "string list" where
  "recording_columns = [''id'', ''studio_id'', ''station_id'', ''status'', ''manifest_json'', ''file_path'',
     ''started_by'', ''started_at'', ''stopped_at'', ''expires_at'', ''interruption_reason'', ''created_at'']"

text \<open>
  \<open>_upsert_row\<close> with the foreign key and the unique column of the table; the columns that must not be
  null are not checked.
\<close>

definition upsert_json ::
  "string list \<Rightarrow> (json_row \<Rightarrow> bool) \<Rightarrow> string option \<Rightarrow> json_row \<Rightarrow> json_row list \<Rightarrow> json_row list option" where
  "upsert_json columns parent unique given rows =
     (let r = map (\<lambda>c. (c, field c given)) columns in
      if \<not> parent r then None
      else if (case unique of None \<Rightarrow> False
               | Some u \<Rightarrow> \<exists>x \<in> set rows. field u x = field u r \<and> field ''id'' x \<noteq> field ''id'' r) then None
      else Some (upsert_by (field ''id'') r rows))"

fun upsert_all :: "(json_row \<Rightarrow> json_row list \<Rightarrow> json_row list option) \<Rightarrow> json list \<Rightarrow> json_row list \<Rightarrow> json_row list option" where
  "upsert_all put [] rows = Some rows"
| "upsert_all put (J_Obj r # rs) rows = (case put r rows of None \<Rightarrow> None | Some rows' \<Rightarrow> upsert_all put rs rows')"
| "upsert_all put (_ # rs) rows = None"

definition list_field :: "string \<Rightarrow> json_row \<Rightarrow> json list option" where
  "list_field k p = (case map_of p k of None \<Rightarrow> Some [] | Some (J_List xs) \<Rightarrow> Some xs | Some _ \<Rightarrow> None)"

definition off_air :: "json_row \<Rightarrow> json_row" where
  "off_air r = AList.update ''is_on_air'' (J_Int 0) (AList.update ''is_connected'' (J_Int 0) r)"

definition in_studio :: "'a store_scheme \<Rightarrow> json_row \<Rightarrow> bool" where
  "in_studio n r \<longleftrightarrow> (\<exists>i \<in> set (n_studios n). field ''studio_id'' r = J_Int i)"

definition apply_guest_room :: "json_row \<Rightarrow> 'a store_scheme \<Rightarrow> 'a store_scheme option" where
  "apply_guest_room p n =
     (case (list_field ''invites'' p, list_field ''sessions'' p) of
        (Some vs, Some ss) \<Rightarrow>
          (case upsert_all (upsert_json invite_columns (in_studio n) (Some ''token_hash'')) vs (n_invites n) of
             None \<Rightarrow> None
           | Some invites \<Rightarrow>
               map_option (\<lambda>guests. n\<lparr>n_invites := invites, n_guests := guests\<rparr>)
                 (upsert_all (\<lambda>r. upsert_json guest_columns
                      (\<lambda>x. \<exists>v \<in> set invites. field ''id'' v = field ''invite_id'' x) (Some ''session_token_hash'') (off_air r))
                    ss (n_guests n)))
      | _ \<Rightarrow> None)"

definition consent_key :: "json_row \<Rightarrow> json \<times> json" where
  "consent_key r = (field ''recording_id'' r, field ''session_id'' r)"

definition apply_guest_recording :: "json_row \<Rightarrow> 'a store_scheme \<Rightarrow> 'a store_scheme option" where
  "apply_guest_recording p n =
     (case (field ''recording'' p, list_field ''consents'' p) of
        (J_Null, _) \<Rightarrow> Some n
      | (J_Obj [], _) \<Rightarrow> Some n
      | (J_Obj r, Some cs) \<Rightarrow>
          (case upsert_json recording_columns (\<lambda>_. True) None r (n_recordings n) of
             None \<Rightarrow> None
           | Some recordings \<Rightarrow>
               map_option (\<lambda>consents. n\<lparr>n_recordings := recordings, n_consents := consents\<rparr>)
                 (upsert_all (\<lambda>c rows.
                      if (\<exists>x \<in> set recordings. field ''id'' x = field ''recording_id'' c)
                         \<and> (\<exists>g \<in> set (n_guests n). field ''id'' g = field ''session_id'' c)
                      then Some (upsert_by consent_key
                        (map (\<lambda>k. (k, field k c)) [''recording_id'', ''session_id'', ''decision'', ''decided_at'']) rows)
                      else None) cs (n_consents n)))
      | _ \<Rightarrow> None)"

text \<open>
  The password stays the node's own. Gain and port are read as numbers; a float is a parameter of the
  function that reads its text.
\<close>

definition bool_field :: "string \<Rightarrow> bool \<Rightarrow> json_row \<Rightarrow> bool option" where
  "bool_field k dflt r = (case map_of r k of None \<Rightarrow> Some dflt | Some (J_Bool b) \<Rightarrow> Some b | Some _ \<Rightarrow> None)"

definition gain_field :: "json_row \<Rightarrow> rat option" where
  "gain_field r = (case field ''output_gain_db'' r of
     J_Null \<Rightarrow> Some 0 | J_Int i \<Rightarrow> Some (of_int i)
   | J_Float l \<Rightarrow> (case py_float l of Some (Finite x) \<Rightarrow> Some x | _ \<Rightarrow> None) | _ \<Rightarrow> None)"

definition nonzero :: "int \<Rightarrow> int \<Rightarrow> int" where
  "nonzero d i = (if i = 0 then d else i)"

definition apply_stream_config :: "json_row \<Rightarrow> 'a store_scheme \<Rightarrow> 'a store_scheme option" where
  "apply_stream_config p n =
     (case (field ''station_id'' p, bool_field ''local_output_enabled'' False p, text_field ''output_device_id'' p,
            bool_field ''icecast_enabled'' True p, text_field ''icecast_host'' p, int_field ''icecast_port'' p,
            text_field ''icecast_mount'' p) of
        (J_Int st, Some lo, Some dev, Some ice, Some host, Some port, Some mount) \<Rightarrow>
          (case (text_field ''icecast_user'' p, gain_field p, text_field ''stream_codec_profile'' p,
                 int_field ''stream_bitrate_kbps'' p, bool_field ''icecast_tls_enabled'' False p) of
             (Some user, Some gain, Some profile, Some rate, Some tls) \<Rightarrow>
               (case upsert_output True \<lparr>so_station = st, so_local = lo, so_device = dev, so_icecast = ice,
                      so_host = or_default ''127.0.0.1'' host, so_port = nonzero 8000 port,
                      so_mount = or_default ''/stream'' mount, so_user = or_default ''source'' user,
                      so_password = (case get_output st n of None \<Rightarrow> [] | Some x \<Rightarrow> so_password x),
                      so_gain = gain, so_profile = or_default ''mp3_128'' profile, so_bitrate = nonzero 128 rate\<rparr> n of
                  (Inl _, _) \<Rightarrow> None
                | (Inr _, n') \<Rightarrow> Some (put_settings st
                    [(''icecast_tls_enabled'', if tls then ''true'' else ''false''), (''icecast_password'', [])] n'))
           | _ \<Rightarrow> None)
      | _ \<Rightarrow> None)"

definition apply_entry :: "journal_row \<Rightarrow> 'a store_scheme \<Rightarrow> 'a store_scheme option" where
  "apply_entry j n =
     (case json_loads (or_default ''{}'' (jn_body j)) of
        Some (J_Obj p) \<Rightarrow>
          (if jn_type j = ''stream_config'' then apply_stream_config p n
           else if jn_type j = ''guest_room'' then apply_guest_room p n
           else if jn_type j = ''guest_recording'' then apply_guest_recording p n
           else if jn_type j = ''schedule'' then apply_schedule (jn_op j) p n
           else Some n)
      | _ \<Rightarrow> None)"

definition mark_applied :: "int \<Rightarrow> 'a store_scheme \<Rightarrow> 'a store_scheme" where
  "mark_applied i n =
     n\<lparr>n_journal := update_where (\<lambda>j. jn_seq j = i) (jn_applied_update (\<lambda>_. True)) (n_journal n)\<rparr>"

text \<open>
  \<open>apply_pending\<close>: the first component is what is committed. The repository that writes an output commits
  before the entry is marked, and an entry that raises drops what was done since the last commit.
\<close>

fun apply_entries :: "journal_row list \<Rightarrow> 'a store_scheme \<Rightarrow> 'a store_scheme \<Rightarrow> bool \<times> 'a store_scheme" where
  "apply_entries [] kept now = (True, now)"
| "apply_entries (j # js) kept now =
     (case apply_entry j now of
        None \<Rightarrow> (False, kept)
      | Some n \<Rightarrow> apply_entries js (if jn_type j = ''stream_config'' then n else kept) (mark_applied (jn_seq j) n))"

definition apply_pending :: "int \<Rightarrow> 'a store_scheme \<Rightarrow> bool \<times> 'a store_scheme" where
  "apply_pending limit n = apply_entries
     (take (clamp_limit 1 1000 limit) (sort_key jn_seq (filter (\<lambda>j. \<not> jn_applied j) (n_journal n)))) n n"

section \<open>Sending and receiving\<close>

text \<open>\<open>ha_replicate\<close>: an entry whose sequence or checksum is taken is ignored, and accepted all the same.\<close>

definition ha_replicate :: "journal_row \<Rightarrow> 'a store_scheme \<Rightarrow> bool \<times> 'a store_scheme" where
  "ha_replicate e n =
     (if journal_checksum (jn_type e) (jn_entity e) (jn_op e) (jn_body e) \<noteq> jn_checksum e then (False, n)
      else apply_pending 250
        (if \<exists>j \<in> set (n_journal n). jn_seq j = jn_seq e \<or> jn_checksum j = jn_checksum e then n
         else n\<lparr>n_journal := n_journal n @ [e\<lparr>jn_replicated := True, jn_applied := False\<rparr>]\<rparr>))"

text \<open>What becomes of a request to a peer: it is lost, it arrives, or it arrives and the answer is lost.\<close>

datatype delivery = Lost | Arrives | Answer_Lost

fun post_entry :: "journal_row \<Rightarrow> delivery list \<Rightarrow> 'a store_scheme list \<Rightarrow> nat \<times> 'a store_scheme list" where
  "post_entry e (d # ds) (p # ps) =
     (let (ok, p') = (if d = Lost then (False, p) else ha_replicate e p);
          (acks, ps') = post_entry e ds ps
      in ((if ok \<and> d = Arrives then 1 else 0) + acks, p' # ps'))"
| "post_entry e _ ps = (0, ps)"

text \<open>\<open>replicate_ordered\<close> over the pending entries; \<open>False\<close> is the missing acknowledgement.\<close>

fun send_entries ::
  "int option \<Rightarrow> journal_row list \<Rightarrow> delivery list list \<Rightarrow> 'a store_scheme \<Rightarrow> 'a store_scheme list
    \<Rightarrow> bool \<times> 'a store_scheme \<times> 'a store_scheme list" where
  "send_entries through [] net n ps = (True, n, ps)"
| "send_entries through (e # es) net n ps =
     (if (case through of None \<Rightarrow> False | Some t \<Rightarrow> t < jn_seq e) then (True, n, ps)
      else let (acks, ps') = post_entry e (case net of [] \<Rightarrow> [] | ds # _ \<Rightarrow> ds) ps in
        if acks < 1 then (False, n, ps')
        else send_entries through es (tl net) (mark_replicated (jn_seq e) n) ps')"

definition replicate_ordered ::
  "int option \<Rightarrow> int \<Rightarrow> delivery list list \<Rightarrow> 'a store_scheme \<Rightarrow> 'a store_scheme list
    \<Rightarrow> bool \<times> 'a store_scheme \<times> 'a store_scheme list" where
  "replicate_ordered through limit net n ps = send_entries through (journal_pending limit n) net n ps"

section \<open>The schedule\<close>

text \<open>
  A node without high availability has no coordinator. An operation commits its change, journals it and,
  with peers, sends the journal up to its entry; the exception comes after the change is committed.
\<close>

definition ack_required :: exn where
  "ack_required = RuntimeError ''ha_replication_ack_required''"

definition opt_text :: "string option \<Rightarrow> json" where
  "opt_text w = (case w of None \<Rightarrow> J_Null | Some t \<Rightarrow> J_Str t)"

definition slot_json :: "slot \<Rightarrow> json" where
  "slot_json s = J_Obj [(''id'', J_Int (sl_id s)), (''station_id'', J_Int (sl_station s)),
     (''track_id'', J_Int (sl_track s)), (''play_at'', J_Str (sl_play_at s)), (''window_end'', opt_text (sl_window_end s)),
     (''event_name'', J_Str (sl_event s)), (''status'', J_Str (sl_status s))]"

definition slot_of :: "int \<Rightarrow> 'a store_scheme \<Rightarrow> slot option" where
  "slot_of i n = find (\<lambda>s. sl_id s = i) (n_slots n)"

definition require_safe :: "ha_node option \<Rightarrow> exn + unit" where
  "require_safe ha = (case ha of None \<Rightarrow> Inr () | Some h \<Rightarrow> require_safe_mutation [] h)"

definition schedule_replicate ::
  "ha_node option \<Rightarrow> delivery list list \<Rightarrow> int \<Rightarrow> string \<Rightarrow> json \<Rightarrow> 'x \<Rightarrow> 'a store_scheme \<Rightarrow> 'a store_scheme list
    \<Rightarrow> (exn + 'x) \<times> 'a store_scheme \<times> 'a store_scheme list" where
  "schedule_replicate ha net i op payload x n ps =
     (let (seq, n1) = journal_append ''schedule'' (int_str i) op payload n in
      if ha = None then (Inr x, n1, ps)
      else case replicate_ordered (Some seq) 250 net n1 ps of
        (True, n2, ps') \<Rightarrow> (Inr x, n2, ps')
      | (False, n2, ps') \<Rightarrow> (Inl ack_required, n2, ps'))"

definition schedule_enqueue ::
  "ha_node option \<Rightarrow> delivery list list \<Rightarrow> int \<Rightarrow> int \<Rightarrow> string \<Rightarrow> string option \<Rightarrow> string \<Rightarrow> 'a store_scheme
    \<Rightarrow> 'a store_scheme list \<Rightarrow> (exn + int) \<times> 'a store_scheme \<times> 'a store_scheme list" where
  "schedule_enqueue ha net st tr play_at window ev n ps =
     (case require_safe ha of
        Inl e \<Rightarrow> (Inl e, n, ps)
      | Inr _ \<Rightarrow>
          let i = next_rowid (map sl_id (n_slots n));
              s = \<lparr>sl_id = i, sl_station = st, sl_track = tr, sl_play_at = play_at, sl_window_end = window,
                   sl_event = ev, sl_status = ''pending''\<rparr>
          in schedule_replicate ha net i ''upsert'' (slot_json s) i (n\<lparr>n_slots := n_slots n @ [s]\<rparr>) ps)"

definition schedule_update ::
  "ha_node option \<Rightarrow> delivery list list \<Rightarrow> int \<Rightarrow> int \<Rightarrow> int \<Rightarrow> string \<Rightarrow> string option \<Rightarrow> string \<Rightarrow> 'a store_scheme
    \<Rightarrow> 'a store_scheme list \<Rightarrow> (exn + bool) \<times> 'a store_scheme \<times> 'a store_scheme list" where
  "schedule_update ha net i st tr play_at window ev n ps =
     (case require_safe ha of
        Inl e \<Rightarrow> (Inl e, n, ps)
      | Inr _ \<Rightarrow>
          let n1 = n\<lparr>n_slots := update_where (\<lambda>s. sl_id s = i) (\<lambda>s. s\<lparr>sl_station := st, sl_track := tr,
                     sl_play_at := play_at, sl_window_end := window, sl_event := ev\<rparr>) (n_slots n)\<rparr>
          in case slot_of i n1 of
               None \<Rightarrow> (Inr False, n1, ps)
             | Some s \<Rightarrow> schedule_replicate ha net i ''upsert'' (slot_json s) True n1 ps)"

definition schedule_delete ::
  "ha_node option \<Rightarrow> delivery list list \<Rightarrow> int \<Rightarrow> 'a store_scheme
    \<Rightarrow> 'a store_scheme list \<Rightarrow> (exn + bool) \<times> 'a store_scheme \<times> 'a store_scheme list" where
  "schedule_delete ha net i n ps =
     (case require_safe ha of
        Inl e \<Rightarrow> (Inl e, n, ps)
      | Inr _ \<Rightarrow>
          (case slot_of i n of
             None \<Rightarrow> (Inr False, n, ps)
           | Some s \<Rightarrow> schedule_replicate ha net i ''delete''
               (J_Obj [(''id'', J_Int i), (''station_id'', J_Int (sl_station s))]) True
               (n\<lparr>n_slots := filter (\<lambda>s. sl_id s \<noteq> i) (n_slots n)\<rparr>) ps))"

text \<open>\<open>mark_playing\<close>, \<open>mark_done\<close> and \<open>mark_failed\<close> write no journal entry.\<close>

definition schedule_mark :: "string \<Rightarrow> int \<Rightarrow> 'a store_scheme \<Rightarrow> 'a store_scheme" where
  "schedule_mark status i n = n\<lparr>n_slots := update_where (\<lambda>s. sl_id s = i) (sl_status_update (\<lambda>_. status)) (n_slots n)\<rparr>"

section \<open>Runs\<close>

datatype sched_op =
    Add "delivery list list" int int string "string option" string
  | Change "delivery list list" int int int string "string option" string
  | Remove "delivery list list" int
  | Beat "delivery list list"

text \<open>One operation on a leader with peers; the flag tells whether it reported a change.\<close>

fun sched_step ::
  "ha_node \<Rightarrow> sched_op \<Rightarrow> 'a store_scheme \<times> 'a store_scheme list \<Rightarrow> bool \<times> 'a store_scheme \<times> 'a store_scheme list" where
  "sched_step h (Add net st tr pl w ev) (n, ps) =
     (case schedule_enqueue (Some h) net st tr pl w ev n ps of (res, s) \<Rightarrow> (\<not> isl res, s))"
| "sched_step h (Change net i st tr pl w ev) (n, ps) =
     (case schedule_update (Some h) net i st tr pl w ev n ps of (res, s) \<Rightarrow> (res = Inr True, s))"
| "sched_step h (Remove net i) (n, ps) =
     (case schedule_delete (Some h) net i n ps of (res, s) \<Rightarrow> (res = Inr True, s))"
| "sched_step h (Beat net) (n, ps) = (case replicate_ordered None 50 net n ps of (_, s) \<Rightarrow> (False, s))"

fun sched_run ::
  "(ha_node \<times> sched_op) list \<Rightarrow> 'a store_scheme \<times> 'a store_scheme list \<Rightarrow> 'a store_scheme \<times> 'a store_scheme list" where
  "sched_run [] s = s"
| "sched_run ((h, x) # xs) s = sched_run xs (snd (sched_step h x s))"

text \<open>The entry an operation writes, and whether no entry with this content was written before.\<close>

fun op_entry :: "sched_op \<Rightarrow> 'a store_scheme \<Rightarrow> (int \<times> string \<times> json) option" where
  "op_entry (Add _ st tr pl w ev) n =
     (let i = next_rowid (map sl_id (n_slots n))
      in Some (i, ''upsert'', slot_json \<lparr>sl_id = i, sl_station = st, sl_track = tr, sl_play_at = pl,
           sl_window_end = w, sl_event = ev, sl_status = ''pending''\<rparr>))"
| "op_entry (Change _ i st tr pl w ev) n =
     map_option (\<lambda>s. (i, ''upsert'', slot_json (s\<lparr>sl_station := st, sl_track := tr, sl_play_at := pl,
         sl_window_end := w, sl_event := ev\<rparr>))) (slot_of i n)"
| "op_entry (Remove _ i) n =
     map_option (\<lambda>s. (i, ''delete'', J_Obj [(''id'', J_Int i), (''station_id'', J_Int (sl_station s))])) (slot_of i n)"
| "op_entry (Beat _) n = None"

definition new_content :: "sched_op \<Rightarrow> 'a store_scheme \<Rightarrow> bool" where
  "new_content x n \<longleftrightarrow> (case op_entry x n of None \<Rightarrow> True
     | Some (i, op, payload) \<Rightarrow>
         journal_checksum ''schedule'' (int_str i) op (json_text payload) \<notin> set (map jn_checksum (n_journal n)))"

fun never_repeats :: "(ha_node \<times> sched_op) list \<Rightarrow> 'a store_scheme \<times> 'a store_scheme list \<Rightarrow> bool" where
  "never_repeats [] s \<longleftrightarrow> True"
| "never_repeats ((h, x) # xs) s \<longleftrightarrow> new_content x (fst s) \<and> never_repeats xs (snd (sched_step h x s))"

end
