(* ===== verification/Replication_Laws.thy ===== *)
theory Replication_Laws
  imports Replication
begin

text \<open>
  A standby applies the journal of the leader in its order: its schedule is the schedule the leader had
  when it wrote the last entry that arrived.
\<close>

section \<open>Reading what was written\<close>

lemma map_of_canon:
  fixes kvs :: "(string \<times> json) list"
  assumes "distinct (map fst kvs)"
  shows "map_of (map (\<lambda>p. (fst p, canon (snd p))) (sort_key fst kvs)) k = map_option canon (map_of kvs k)"
proof -
  have "map_of (sort_key fst kvs) = map_of kvs"
    by (rule map_of_eqI) (use assms in \<open>auto simp: distinct_map inj_on_def comp_def map_of_eq_Some_iff\<close>)
  moreover have "map_of (map (\<lambda>p. (fst p, canon (snd p))) xs) k = map_option canon (map_of xs k)" for xs :: "(string \<times> json) list"
    by (induction xs) auto
  ultimately show ?thesis by simp
qed

text \<open>The fields of a dictionary that \<open>loads\<close> read from its canonical text.\<close>

lemma json_loads_obj:
  assumes "json_ok (J_Obj kvs)"
  obtains p where "json_loads (or_default ''{}'' (json_text (J_Obj kvs))) = Some (J_Obj p)"
    "\<And>k. field k p = (case map_of kvs k of None \<Rightarrow> J_Null | Some v \<Rightarrow> canon v)"
proof
  show "json_loads (or_default ''{}'' (json_text (J_Obj kvs))) = Some (J_Obj (map (\<lambda>p. (fst p, canon (snd p))) (sort_key fst kvs)))"
    using json_loads_text [OF assms] by (simp add: or_default_def canon_obj del: canon.simps)
  show "field k (map (\<lambda>p. (fst p, canon (snd p))) (sort_key fst kvs)) = (case map_of kvs k of None \<Rightarrow> J_Null | Some v \<Rightarrow> canon v)" for k
    using assms map_of_canon [of kvs k] by (auto simp: field_def split: option.splits)
qed

section \<open>Entries of the schedule\<close>

definition with_slots :: "slot list \<Rightarrow> store \<Rightarrow> store" where
  "with_slots xs n = n\<lparr>n_slots := xs\<rparr>"

text \<open>An entry that changes the schedule, and what it does to it.\<close>

definition slot_entry :: "journal_row \<Rightarrow> (slot list \<Rightarrow> slot list) \<Rightarrow> bool" where
  "slot_entry e f \<longleftrightarrow> jn_type e = ''schedule'' \<and>
     jn_checksum e = journal_checksum (jn_type e) (jn_entity e) (jn_op e) (jn_body e) \<and>
     (\<forall>n :: store. apply_entry e n = Some (n\<lparr>n_slots := f (n_slots n)\<rparr>))"

lemma slot_entry_flags:
  "slot_entry e f \<Longrightarrow> slot_entry (e\<lparr>jn_replicated := a, jn_applied := b\<rparr>) f"
proof -
  have "apply_entry (e\<lparr>jn_replicated := a, jn_applied := b\<rparr>) n = apply_entry e n" for n :: store
    by (simp add: apply_entry_def cong: if_cong option.case_cong json.case_cong)
  then show "slot_entry e f \<Longrightarrow> ?thesis" by (simp add: slot_entry_def)
qed

definition schedule_row :: "int \<Rightarrow> int \<Rightarrow> string \<Rightarrow> json \<Rightarrow> journal_row" where
  "schedule_row seq i op payload = \<lparr>jn_seq = seq, jn_type = ''schedule'', jn_entity = int_str i, jn_op = op,
     jn_body = json_text payload, jn_checksum = journal_checksum ''schedule'' (int_str i) op (json_text payload),
     jn_replicated = False, jn_applied = False\<rparr>"

lemma json_ok_slot: "json_ok (slot_json s)"
  by (auto simp: slot_json_def opt_text_def split: option.splits)

lemma upsert_entry:
  assumes "0 < sl_id s" "sl_status s \<noteq> []"
  shows "slot_entry (schedule_row q i ''upsert'' (slot_json s)) (upsert_by sl_id s)"
proof -
  obtain p where p: "json_loads (or_default ''{}'' (json_text (slot_json s))) = Some (J_Obj p)"
    "\<And>k. field k p = (case map_of [(''id'', J_Int (sl_id s)), (''station_id'', J_Int (sl_station s)),
     (''track_id'', J_Int (sl_track s)), (''play_at'', J_Str (sl_play_at s)), (''window_end'', opt_text (sl_window_end s)),
     (''event_name'', J_Str (sl_event s)), (''status'', J_Str (sl_status s))] k of None \<Rightarrow> J_Null | Some v \<Rightarrow> canon v)"
    using json_loads_obj [OF json_ok_slot [of s, unfolded slot_json_def]] unfolding slot_json_def by metis
  show ?thesis using assms p(1)
    by (cases s) (auto simp: slot_entry_def schedule_row_def apply_entry_def apply_schedule_def int_field_def
        text_field_def p(2) opt_text_def or_default_def split: option.splits)
qed

lemma delete_entry:
  assumes "0 < i"
  shows "slot_entry (schedule_row q i ''delete'' (J_Obj [(''id'', J_Int i), (''station_id'', J_Int st)]))
    (filter (\<lambda>s. sl_id s \<noteq> i))"
proof -
  have "json_ok (J_Obj [(''id'', J_Int i), (''station_id'', J_Int st)])" by simp
  from json_loads_obj [OF this] obtain p where
    p: "json_loads (or_default ''{}'' (json_text (J_Obj [(''id'', J_Int i), (''station_id'', J_Int st)]))) = Some (J_Obj p)"
      "\<And>k. field k p = (case map_of [(''id'', J_Int i), (''station_id'', J_Int st)] k of None \<Rightarrow> J_Null | Some v \<Rightarrow> canon v)"
    by metis
  show ?thesis using assms p(1)
    by (simp add: slot_entry_def schedule_row_def apply_entry_def apply_schedule_def int_field_def p(2)
        del: json_text.simps)
qed

section \<open>A leader and its standby\<close>

definition effect :: "journal_row \<Rightarrow> slot list \<Rightarrow> slot list" where
  "effect e = (SOME f. slot_entry e f)"

lemma slot_entry_unique: "slot_entry e f \<Longrightarrow> slot_entry e g \<Longrightarrow> f = g"
proof
  fix xs :: "slot list"
  define n :: store where "n = \<lparr>n_outputs = [], n_vault = (\<lambda>_. None), n_settings = (\<lambda>_ _. None), n_slots = xs, n_studios = [],
    n_invites = [], n_guests = [], n_recordings = [], n_consents = [], n_journal = []\<rparr>"
  assume "slot_entry e f" "slot_entry e g"
  then have "n\<lparr>n_slots := f (n_slots n)\<rparr> = n\<lparr>n_slots := g (n_slots n)\<rparr>" by (simp add: slot_entry_def)
  then show "f xs = g xs" by (simp add: n_def)
qed

lemma effect_eq: "slot_entry e f \<Longrightarrow> effect e = f"
  unfolding effect_def by (metis slot_entry_unique someI)

lemma effect_flags: "slot_entry e f \<Longrightarrow> effect (e\<lparr>jn_replicated := a, jn_applied := b\<rparr>) = effect e"
  using effect_eq slot_entry_flags by metis

definition replay :: "journal_row list \<Rightarrow> slot list \<Rightarrow> slot list" where
  "replay js xs = fold effect js xs"

definition received :: "journal_row \<Rightarrow> journal_row" where
  "received e = e\<lparr>jn_replicated := True, jn_applied := True\<rparr>"

text \<open>
  \<open>r\<close> entries of the leader are acknowledged and \<open>m\<close> have arrived at the standby, which has applied them.
\<close>

definition follows :: "slot list \<Rightarrow> store \<Rightarrow> store \<Rightarrow> nat \<Rightarrow> nat \<Rightarrow> bool" where
  "follows xs l p r m \<longleftrightarrow>
     (let J = n_journal l in
      sorted_wrt (<) (map jn_seq J) \<and> distinct (map jn_checksum J) \<and> (\<forall>e \<in> set J. \<exists>f. slot_entry e f)
      \<and> map jn_replicated J = replicate r True @ replicate (length J - r) False
      \<and> r \<le> m \<and> m \<le> length J
      \<and> n_journal p = map received (take m J)
      \<and> n_slots l = replay J xs \<and> n_slots p = replay (take m J) xs)"

lemma follows_D:
  assumes "follows xs l p r m"
  shows "sorted_wrt (<) (map jn_seq (n_journal l))" "distinct (map jn_checksum (n_journal l))"
    "\<And>e. e \<in> set (n_journal l) \<Longrightarrow> \<exists>f. slot_entry e f"
    "map jn_replicated (n_journal l) = replicate r True @ replicate (length (n_journal l) - r) False"
    "r \<le> m" "m \<le> length (n_journal l)" "n_journal p = map received (take m (n_journal l))"
    "n_slots l = replay (n_journal l) xs" "n_slots p = replay (take m (n_journal l)) xs"
  using assms by (simp_all add: follows_def Let_def)

lemma pending_entries:
  assumes "follows xs l p r m"
  shows "filter (\<lambda>j. \<not> jn_replicated j) (n_journal l) = drop r (n_journal l)"
proof -
  note f = follows_D [OF assms]
  have r: "r \<le> length (n_journal l)" using f(5,6) by simp
  have "map jn_replicated (take r (n_journal l)) = replicate r True"
    "map jn_replicated (drop r (n_journal l)) = replicate (length (n_journal l) - r) False"
    using f(4) r by (simp_all flip: take_map drop_map)
  then have "\<forall>e \<in> set (take r (n_journal l)). jn_replicated e" "\<forall>e \<in> set (drop r (n_journal l)). \<not> jn_replicated e"
    by (metis (mono_tags) in_set_replicate image_eqI list.set_map)+
  then have "filter (\<lambda>j. \<not> jn_replicated j) (take r (n_journal l) @ drop r (n_journal l)) = drop r (n_journal l)"
    by (simp only: filter_append) simp
  then show ?thesis by simp
qed

lemma journal_pending_eq:
  assumes "follows xs l p r m"
  shows "journal_pending limit l = take (clamp_limit 1 1000 limit) (drop r (n_journal l))"
proof -
  have "sorted (map jn_seq (drop r (n_journal l)))"
    using follows_D(1) [OF assms] by (simp add: strict_sorted_imp_sorted sorted_wrt_drop flip: drop_map)
  then show ?thesis by (simp add: journal_pending_def pending_entries [OF assms] sort_key_id_if_sorted)
qed

text \<open>An entry the standby knows is accepted and changes nothing.\<close>

lemma receive_known:
  assumes f: "follows xs l p r m" and k: "k < m" and e: "e = n_journal l ! k"
  shows "ha_replicate e p = (True, p)"
proof -
  note f = follows_D [OF f]
  have in_l: "e \<in> set (n_journal l)" using k f(6) e by simp
  have "e \<in> set (take m (n_journal l))" using k f(6) e by (auto simp: in_set_conv_nth intro!: exI [of _ k])
  then have "received e \<in> set (n_journal p)" using f(7) by simp
  then have "\<exists>j \<in> set (n_journal p). jn_seq j = jn_seq e \<or> jn_checksum j = jn_checksum e"
    by (rule rev_bexI) (simp add: received_def)
  moreover have "filter (\<lambda>j. \<not> jn_applied j) (n_journal p) = []" using f(7) by (auto simp: received_def filter_empty_conv)
  moreover have "jn_checksum e = journal_checksum (jn_type e) (jn_entity e) (jn_op e) (jn_body e)"
    using f(3) [OF in_l] by (auto simp: slot_entry_def)
  ultimately show ?thesis by (simp add: ha_replicate_def apply_pending_def)
qed

text \<open>The next entry is written to the standby's journal and applied.\<close>

lemma receive_next:
  assumes fl: "follows xs l p r m" and m: "m < length (n_journal l)" and e: "e = n_journal l ! m"
    and flags: "\<not> jn_replicated e"
  shows "\<exists>p'. ha_replicate e p = (True, p') \<and> follows xs l p' r (Suc m)"
proof -
  note f = follows_D [OF fl]
  have in_l: "e \<in> set (n_journal l)" using m e by simp
  then obtain g where g: "slot_entry e g" using f(3) by blast
  let ?e = "e\<lparr>jn_replicated := True, jn_applied := False\<rparr>"
  have take: "take (Suc m) (n_journal l) = take m (n_journal l) @ [e]" using m e by (simp add: take_Suc_conv_app_nth)
  have fresh: "\<not> (\<exists>j \<in> set (n_journal p). jn_seq j = jn_seq e \<or> jn_checksum j = jn_checksum e)"
  proof -
    have "distinct (map jn_seq (take (Suc m) (n_journal l)))" "distinct (map jn_checksum (take (Suc m) (n_journal l)))"
      using f(1,2) by (simp_all add: strict_sorted_iff distinct_take flip: take_map)
    then show ?thesis unfolding f(7) by (auto simp: take received_def) (metis image_eqI)+
  qed
  have "filter (\<lambda>j. \<not> jn_applied j) (n_journal p @ [?e]) = [?e]" unfolding f(7) by (auto simp: received_def filter_empty_conv)
  moreover have "slot_entry ?e g" by (rule slot_entry_flags [OF g])
  ultimately have "apply_pending 250 (p\<lparr>n_journal := n_journal p @ [?e]\<rparr>)
      = (True, mark_applied (jn_seq e) (p\<lparr>n_journal := n_journal p @ [?e], n_slots := g (n_slots p)\<rparr>))"
    by (simp add: apply_pending_def clamp_limit_def slot_entry_def)
  also have "mark_applied (jn_seq e) (p\<lparr>n_journal := n_journal p @ [?e], n_slots := g (n_slots p)\<rparr>)
      = p\<lparr>n_journal := n_journal p @ [received e], n_slots := g (n_slots p)\<rparr>"
  proof -
    have "map (\<lambda>r. if jn_seq r = jn_seq e then r\<lparr>jn_applied := True\<rparr> else r) (n_journal p) = n_journal p"
      using fresh by (intro map_idI) auto
    then show ?thesis by (simp add: mark_applied_def update_where_def received_def)
  qed
  finally have "ha_replicate e p = (True, p\<lparr>n_journal := n_journal p @ [received e], n_slots := g (n_slots p)\<rparr>)"
    using fresh g by (simp add: ha_replicate_def slot_entry_def)
  moreover have "follows xs l (p\<lparr>n_journal := n_journal p @ [received e], n_slots := g (n_slots p)\<rparr>) r (Suc m)"
    using f m fl effect_eq [OF g] by (simp add: follows_def Let_def take replay_def)
  ultimately show ?thesis by blast
qed

lemma map_update_at:
  "distinct (map key xs) \<Longrightarrow> i < length xs \<Longrightarrow> update_where (\<lambda>x. key x = key (xs ! i)) g xs = xs[i := g (xs ! i)]"
  by (rule nth_equalityI) (auto simp: update_where_def nth_list_update nth_eq_iff_index_eq distinct_map inj_on_eq_iff)

lemma mark_follows:
  assumes fl: "follows xs l p r m" and r: "r < m"
  shows "follows xs (mark_replicated (jn_seq (n_journal l ! r)) l) p (Suc r) m"
    "drop (Suc r) (n_journal (mark_replicated (jn_seq (n_journal l ! r)) l)) = drop (Suc r) (n_journal l)"
    "map effect (n_journal (mark_replicated (jn_seq (n_journal l ! r)) l)) = map effect (n_journal l)"
proof -
  note f = follows_D [OF fl]
  let ?J = "n_journal l" and ?e = "n_journal l ! r"
  let ?K = "?J[r := ?e\<lparr>jn_replicated := True\<rparr>]"
  have len: "r < length ?J" using r f(6) by simp
  have K: "n_journal (mark_replicated (jn_seq ?e) l) = ?K"
    using map_update_at [of jn_seq ?J r] f(1) len by (simp add: mark_replicated_def strict_sorted_iff)
  have same: "map g ?K = map g ?J" if "\<And>e b. g (e\<lparr>jn_replicated := b\<rparr>) = g e" for g :: "journal_row \<Rightarrow> 'x"
    by (metis len list_update_id map_update nth_map that)
  obtain g where g: "slot_entry ?e g" using f(3) [of ?e] len by auto
  have fx: "?e\<lparr>jn_replicated := True\<rparr> = ?e\<lparr>jn_replicated := True, jn_applied := jn_applied ?e\<rparr>" by simp
  have g': "slot_entry (?e\<lparr>jn_replicated := True\<rparr>) g" by (subst fx) (rule slot_entry_flags [OF g])
  have entries: "\<forall>e \<in> set ?K. \<exists>g. slot_entry e g"
    using set_update_subset_insert [of ?J r "?e\<lparr>jn_replicated := True\<rparr>"] f(3) g' by blast
  have effect: "effect (?e\<lparr>jn_replicated := True\<rparr>) = effect ?e"
    using effect_eq [OF g] effect_eq [OF g'] by simp
  have effects: "map effect ?K = map effect ?J" by (metis effect len list_update_id map_update nth_map)
  have replay: "replay ?K ys = replay ?J ys" "replay (take m ?K) ys = replay (take m ?J) ys" for ys
  proof -
    have fold: "replay js ys = fold (\<lambda>g. g) (map effect js) ys" for js by (simp add: replay_def fold_map comp_def)
    show "replay ?K ys = replay ?J ys" "replay (take m ?K) ys = replay (take m ?J) ys"
      by (simp_all add: fold effects flip: take_map)
  qed
  have reps: "map jn_replicated ?K = replicate (Suc r) True @ replicate (length ?J - Suc r) False"
  proof (rule nth_equalityI)
    fix i assume "i < length (map jn_replicated ?K)"
    then have i: "i < length ?J" by simp
    have "jn_replicated (?J ! i) = (i < r)" using arg_cong [OF f(4), of "\<lambda>xs. xs ! i"] i by (simp add: nth_append)
    then show "map jn_replicated ?K ! i = (replicate (Suc r) True @ replicate (length ?J - Suc r) False) ! i"
      using i len by (auto simp: nth_append nth_list_update less_Suc_eq simp del: replicate_Suc)
  qed (use len in simp)
  have rec: "map received (take m ?K) = map received (take m ?J)"
    using same [of received] by (simp add: received_def flip: take_map)
  show "follows xs (mark_replicated (jn_seq ?e) l) p (Suc r) m"
    using f r entries reps same [of jn_seq] same [of jn_checksum] replay rec
    by (simp add: follows_def Let_def K) (simp add: mark_replicated_def)
  show "drop (Suc r) (n_journal (mark_replicated (jn_seq ?e) l)) = drop (Suc r) ?J"
    "map effect (n_journal (mark_replicated (jn_seq ?e) l)) = map effect ?J"
    using effects by (simp_all add: K)
qed

text \<open>One request to the standby, for the first entry that is not acknowledged.\<close>

lemma post_follows:
  assumes fl: "follows xs l p r m" and r: "r < length (n_journal l)" and e: "e = n_journal l ! r"
    and post: "post_entry e ds [p] = (acks, ps)"
  shows "\<exists>p' m'. ps = [p'] \<and> follows xs l p' r m' \<and> (1 \<le> acks \<longrightarrow> r < m')"
proof (cases ds)
  case Nil
  then show ?thesis using fl post by auto
next
  case (Cons d ds')
  show ?thesis
  proof (cases "d = Lost")
    case True
    then show ?thesis using fl post Cons by (cases ds') auto
  next
    case False
    have flags: "\<not> jn_replicated e"
      using nth_mem [of 0 "drop r (n_journal l)"] r unfolding pending_entries [OF fl, symmetric] e
      by (simp add: pending_entries [OF fl]) (metis (mono_tags) mem_Collect_eq pending_entries [OF fl] set_filter)
    have "\<exists>p' m'. ha_replicate e p = (True, p') \<and> follows xs l p' r m' \<and> r < m'"
    proof (cases "r < m")
      case True
      then show ?thesis using receive_known [OF fl True e] fl by auto
    next
      case False
      then have "m = r" using follows_D(5) [OF fl] by simp
      then show ?thesis using receive_next [OF fl _ _ flags] r e by auto
    qed
    then show ?thesis using post Cons False by (cases ds') (auto simp: Let_def split: if_splits)
  qed
qed

lemma send_follows:
  assumes "follows xs l p r m" "es = take k (drop r (n_journal l))"
    and "case through of None \<Rightarrow> True | Some t \<Rightarrow> \<forall>e \<in> set (n_journal l). jn_seq e \<le> t"
    and "send_entries through es net l [p] = (ok, l', ps)"
  shows "\<exists>p' r' m'. ps = [p'] \<and> follows xs l' p' r' m' \<and> length (n_journal l') = length (n_journal l)
    \<and> (ok \<longrightarrow> r' = r + length es) \<and> n_slots l' = n_slots l \<and> map jn_seq (n_journal l') = map jn_seq (n_journal l)
    \<and> map effect (n_journal l') = map effect (n_journal l)"
  using assms
proof (induction es arbitrary: l p r m k net)
  case Nil
  then show ?case by auto
next
  case (Cons e es)
  note fl = Cons.prems(1)
  have k: "k \<noteq> 0" and r: "r < length (n_journal l)" using Cons.prems(2) by (auto simp: take_Cons' split: if_splits intro: ccontr)
  have e: "e = n_journal l ! r" and es: "es = take (k - 1) (drop (Suc r) (n_journal l))"
    using Cons.prems(2) k r by (simp_all add: Cons_nth_drop_Suc [symmetric] take_Cons')
  have thr: "\<not> (case through of None \<Rightarrow> False | Some t \<Rightarrow> t < jn_seq e)"
    using Cons.prems(3) nth_mem [OF r] by (auto simp: e split: option.splits)
  obtain acks ps1 where post: "post_entry e (case net of [] \<Rightarrow> [] | ds # _ \<Rightarrow> ds) [p] = (acks, ps1)" by fastforce
  obtain p1 m1 where p1: "ps1 = [p1]" "follows xs l p1 r m1" "1 \<le> acks \<longrightarrow> r < m1"
    using post_follows [OF fl r e post] by blast
  show ?case
  proof (cases "acks < 1")
    case True
    then show ?thesis using Cons.prems(4) thr post p1 by auto
  next
    case False
    let ?l = "mark_replicated (jn_seq e) l"
    have fl': "follows xs ?l p1 (Suc r) m1" and drop: "drop (Suc r) (n_journal ?l) = drop (Suc r) (n_journal l)"
      and eff: "map effect (n_journal ?l) = map effect (n_journal l)"
      using mark_follows [OF p1(2)] p1(3) False e by simp_all
    have seqs: "map jn_seq (n_journal ?l) = map jn_seq (n_journal l)" by (simp add: mark_replicated_def)
    then have "\<forall>x \<in> set (n_journal ?l). \<exists>y \<in> set (n_journal l). jn_seq x = jn_seq y"
      by (metis (no_types, opaque_lifting) image_iff list.set_map)
    then have "case through of None \<Rightarrow> True | Some t \<Rightarrow> \<forall>x \<in> set (n_journal ?l). jn_seq x \<le> t"
      using Cons.prems(3) by (fastforce split: option.splits)
    moreover have "send_entries through es (tl net) ?l [p1] = (ok, l', ps)"
      using Cons.prems(4) thr post p1(1) False by (simp split: if_splits)
    ultimately show ?thesis
      using Cons.IH [OF fl', of "k - 1" "tl net"] es drop seqs eff by (auto simp: mark_replicated_def)
  qed
qed

section \<open>Operations\<close>

definition sound_slots :: "slot list \<Rightarrow> bool" where
  "sound_slots xs \<longleftrightarrow> distinct (map sl_id xs) \<and> (\<forall>s \<in> set xs. 0 < sl_id s \<and> sl_status s \<noteq> [])"

lemma append_follows:
  assumes fl: "follows xs l p r m" and f: "\<And>q. slot_entry (schedule_row q i op payload) f"
    and l1: "l1 = l\<lparr>n_slots := f (n_slots l)\<rparr>"
    and fresh: "journal_checksum ''schedule'' (int_str i) op (json_text payload) \<notin> set (map jn_checksum (n_journal l))"
    and app: "journal_append ''schedule'' (int_str i) op payload l1 = (q, l2)"
  shows "follows xs l2 p r m \<and> (\<forall>e \<in> set (n_journal l2). jn_seq e \<le> q) \<and> n_slots l2 = f (n_slots l)
    \<and> (\<exists>e. n_journal l2 = n_journal l @ [e])"
proof -
  note F = follows_D [OF fl]
  let ?e = "schedule_row q i op payload"
  have none: "find (\<lambda>j. jn_checksum j = journal_checksum ''schedule'' (int_str i) op (json_text payload)) (n_journal l1) = None"
    using fresh by (auto simp: l1 find_None_iff image_iff)
  have q: "q = next_rowid (map jn_seq (n_journal l))" and l2: "l2 = l1\<lparr>n_journal := n_journal l @ [?e]\<rparr>"
    using app none by (auto simp: journal_append_def Let_def l1 schedule_row_def)
  have greater: "\<forall>e \<in> set (n_journal l). jn_seq e < q" using next_rowid_greater q by simp
  have "effect ?e = f" by (rule effect_eq [OF f])
  then have "follows xs l2 p r m"
    using F f greater fresh
    by (auto simp: follows_def Let_def l2 l1 sorted_wrt_append replay_def Suc_diff_le replicate_append_same schedule_row_def
        simp flip: replicate_Suc)
  then show ?thesis using greater by (auto simp: l2 l1 schedule_row_def)
qed

text \<open>
  The standby follows; after a reported change it has the whole journal, as long as one batch holds it.
\<close>

definition synced :: "slot list \<Rightarrow> store \<Rightarrow> store list \<Rightarrow> bool \<Rightarrow> bool" where
  "synced xs l ps ok \<longleftrightarrow> (\<exists>p r m. ps = [p] \<and> follows xs l p r m
     \<and> (ok \<longrightarrow> length (n_journal l) \<le> 250 \<longrightarrow> m = length (n_journal l)))"

lemma replicate_follows:
  assumes fl: "follows xs l p r m" and f: "\<And>q. slot_entry (schedule_row q i op payload) f"
    and fresh: "journal_checksum ''schedule'' (int_str i) op (json_text payload) \<notin> set (map jn_checksum (n_journal l))"
    and rep: "schedule_replicate (Some h) net i op payload x (l\<lparr>n_slots := f (n_slots l)\<rparr>) [p] = (res, l', ps)"
  shows "synced xs l' ps (\<not> isl res) \<and> n_slots l' = f (n_slots l)
    \<and> (\<exists>e. map effect (n_journal l') = map effect (n_journal l) @ [e]) \<and> (res = Inr x \<or> isl res)"
proof -
  obtain q l2 where app: "journal_append ''schedule'' (int_str i) op payload (l\<lparr>n_slots := f (n_slots l)\<rparr>) = (q, l2)" by fastforce
  then have l2: "follows xs l2 p r m" "\<forall>e \<in> set (n_journal l2). jn_seq e \<le> q" "n_slots l2 = f (n_slots l)"
      "\<exists>e. map effect (n_journal l2) = map effect (n_journal l) @ [e]"
    using append_follows [OF fl f refl fresh app] by auto
  obtain ok l3 ps' where send: "replicate_ordered (Some q) 250 net l2 [p] = (ok, l3, ps')" by (metis prod_cases3)
  then have "send_entries (Some q) (take 250 (drop r (n_journal l2))) net l2 [p] = (ok, l3, ps')"
    by (simp add: replicate_ordered_def journal_pending_eq [OF l2(1)] clamp_limit_def)
  from send_follows [OF l2(1) refl _ this] l2(2)
  obtain p' r' m' where r': "ps' = [p']" "follows xs l3 p' r' m'" "length (n_journal l3) = length (n_journal l2)"
    "ok \<longrightarrow> r' = r + length (take 250 (drop r (n_journal l2)))" "n_slots l3 = n_slots l2"
    "map effect (n_journal l3) = map effect (n_journal l2)" by auto
  have "ok \<longrightarrow> length (n_journal l3) \<le> 250 \<longrightarrow> m' = length (n_journal l3)"
    using r'(3,4) follows_D(5,6) [OF r'(2)] follows_D(5,6) [OF l2(1)] by auto
  moreover have "res = (if ok then Inr x else Inl ack_required)" "l' = l3" "ps = ps'"
  proof -
    have "schedule_replicate (Some h) net i op payload x (l\<lparr>n_slots := f (n_slots l)\<rparr>) [p]
        = (if ok then Inr x else Inl ack_required, l3, ps')"
      by (cases ok) (simp_all add: schedule_replicate_def app send)
    then show "res = (if ok then Inr x else Inl ack_required)" "l' = l3" "ps = ps'" using rep by simp_all
  qed
  ultimately show ?thesis using r'(1-3,5,6) l2(3,4)
    by (auto simp: synced_def)
qed

lemma slot_of_upsert:
  assumes "sound_slots xs" "find (\<lambda>s. sl_id s = i) xs = Some s" "\<And>x. sl_id (g x) = sl_id x"
  shows "update_where (\<lambda>s. sl_id s = i) g xs = upsert_by sl_id (g s) xs"
proof -
  have s: "s \<in> set xs" "sl_id s = i" using assms(2) by (auto simp: find_Some_iff)
  then have one: "x = s" if "x \<in> set xs" "sl_id x = i" for x
    using assms(1) that by (auto simp: sound_slots_def distinct_map inj_on_def)
  have "update_where (\<lambda>s. sl_id s = i) g xs = map (\<lambda>x. if sl_id x = i then g s else x) xs"
    unfolding update_where_def by (intro map_cong refl) (metis one)
  moreover have "\<exists>x \<in> set xs. sl_id x = i" using s by blast
  ultimately show ?thesis by (simp add: upsert_by_def assms(3) s(2))
qed

lemma sound_upsert: "sound_slots xs \<Longrightarrow> 0 < sl_id s \<Longrightarrow> sl_status s \<noteq> [] \<Longrightarrow> sound_slots (upsert_by sl_id s xs)"
proof -
  have "map sl_id (map (\<lambda>x. if sl_id x = sl_id s then s else x) xs) = map sl_id xs" by simp
  then show "sound_slots xs \<Longrightarrow> 0 < sl_id s \<Longrightarrow> sl_status s \<noteq> [] \<Longrightarrow> ?thesis"
    unfolding sound_slots_def upsert_by_def by (auto simp del: map_map split: if_splits)
qed

lemma next_slot_id: "sound_slots xs \<Longrightarrow> 0 < next_rowid (map sl_id xs)"
  using next_rowid_greater [of _ "map sl_id xs"] by (cases xs) (fastforce simp: sound_slots_def next_rowid_def)+

text \<open>
  One operation of the leader: the standby still follows, and has everything when a change is reported.
\<close>

lemma step_follows:
  assumes fl: "follows xs l p r m" and sound: "sound_slots (n_slots l)" and new: "new_content x l"
    and step: "sched_step h x (l, [p]) = (ok, l', ps)"
  shows "synced xs l' ps ok \<and> sound_slots (n_slots l')
    \<and> (\<exists>new. map effect (n_journal l') = map effect (n_journal l) @ new \<and> length new \<le> 1)"
proof -
  have idle: "synced xs l [p] False" using fl by (auto simp: synced_def)
  show ?thesis
proof (cases "isl (require_safe (Some h)) \<and> (\<forall>net. x \<noteq> Beat net)")
  case True
  then have "l' = l \<and> ps = [p] \<and> \<not> ok"
    using step by (cases x; cases "require_safe (Some h)")
      (auto simp: schedule_enqueue_def schedule_update_def schedule_delete_def)
  then show ?thesis using idle sound by auto
next
  case safe: False
  show ?thesis
  proof (cases x)
    case (Beat net)
    obtain b l3 ps' where send: "replicate_ordered None 50 net l [p] = (b, l3, ps')" by (metis prod_cases3)
    then have "send_entries None (take 50 (drop r (n_journal l))) net l [p] = (b, l3, ps')"
      by (simp add: replicate_ordered_def journal_pending_eq [OF fl] clamp_limit_def)
    from send_follows [OF fl refl _ this] obtain p' r' m' where "ps' = [p']" "follows xs l3 p' r' m'"
      "map effect (n_journal l3) = map effect (n_journal l)" "n_slots l3 = n_slots l" by auto
    then show ?thesis using step send sound Beat by (auto simp: synced_def)
  next
    case (Add net st tr pl w ev)
    let ?i = "next_rowid (map sl_id (n_slots l))"
    let ?s = "\<lparr>sl_id = ?i, sl_station = st, sl_track = tr, sl_play_at = pl, sl_window_end = w, sl_event = ev, sl_status = ''pending''\<rparr>"
    have i: "0 < ?i" by (rule next_slot_id [OF sound])
    have ups: "upsert_by sl_id ?s (n_slots l) = n_slots l @ [?s]"
      using next_rowid_fresh [of "map sl_id (n_slots l)"] by (auto simp: upsert_by_def image_iff)
    obtain res where rep: "schedule_replicate (Some h) net ?i ''upsert'' (slot_json ?s) ?i (l\<lparr>n_slots := upsert_by sl_id ?s (n_slots l)\<rparr>) [p]
        = (res, l', ps)" "ok = (\<not> isl res)"
      using step safe Add by (auto simp: schedule_enqueue_def ups Let_def split: sum.splits prod.splits)
    have f: "slot_entry (schedule_row q ?i ''upsert'' (slot_json ?s)) (upsert_by sl_id ?s)" for q
      using i by (intro upsert_entry) auto
    show ?thesis
      using replicate_follows [OF fl f _ rep(1)] new rep(2) sound_upsert [OF sound, of ?s] i Add
      by (auto simp: new_content_def Let_def)
  next
    case (Change net i st tr pl w ev)
    let ?g = "\<lambda>s. s\<lparr>sl_station := st, sl_track := tr, sl_play_at := pl, sl_window_end := w, sl_event := ev\<rparr>"
    show ?thesis
    proof (cases "slot_of i l")
      case None
      then have "slot_of i (l\<lparr>n_slots := update_where (\<lambda>s. sl_id s = i) ?g (n_slots l)\<rparr>) = None"
        "update_where (\<lambda>s. sl_id s = i) ?g (n_slots l) = n_slots l"
        by (auto simp: slot_of_def find_None_iff update_where_def intro!: map_idI)
      then have "l' = l \<and> ps = [p] \<and> \<not> ok"
        using step safe Change by (auto simp: schedule_update_def Let_def split: sum.splits)
      then show ?thesis using idle sound by auto
    next
      case (Some s)
      have s: "s \<in> set (n_slots l)" "sl_id s = i" using Some by (auto simp: slot_of_def find_Some_iff)
      have pos: "0 < i" "sl_status s \<noteq> []" using sound s by (auto simp: sound_slots_def)
      have ups: "update_where (\<lambda>s. sl_id s = i) ?g (n_slots l) = upsert_by sl_id (?g s) (n_slots l)"
        using Some by (intro slot_of_upsert sound) (simp_all add: slot_of_def)
      have found: "find (\<lambda>s. sl_id s = i) (upsert_by sl_id (?g s) (n_slots l)) = Some (?g s)"
        using Some s(2) unfolding ups [symmetric] slot_of_def by (simp add: find_update_where)
      obtain res where rep: "schedule_replicate (Some h) net i ''upsert'' (slot_json (?g s)) True
          (l\<lparr>n_slots := upsert_by sl_id (?g s) (n_slots l)\<rparr>) [p] = (res, l', ps)" "ok = (res = Inr True)"
        using step safe Change found by (auto simp: schedule_update_def ups Let_def slot_of_def split: sum.splits prod.splits)
      have f: "slot_entry (schedule_row q i ''upsert'' (slot_json (?g s))) (upsert_by sl_id (?g s))" for q
        using pos s by (intro upsert_entry) auto
      show ?thesis
        using replicate_follows [OF fl f _ rep(1)] new rep(2) sound_upsert [OF sound, of "?g s"] pos s Change Some
        by (auto simp: new_content_def)
    qed
  next
    case (Remove net i)
    show ?thesis
    proof (cases "slot_of i l")
      case None
      then have "l' = l \<and> ps = [p] \<and> \<not> ok"
        using step safe Remove by (auto simp: schedule_delete_def split: sum.splits)
      then show ?thesis using idle sound by auto
    next
      case (Some s)
      then have pos: "0 < i" using sound by (auto simp: slot_of_def find_Some_iff sound_slots_def)
      let ?p = "J_Obj [(''id'', J_Int i), (''station_id'', J_Int (sl_station s))]"
      obtain res where rep: "schedule_replicate (Some h) net i ''delete'' ?p True
          (l\<lparr>n_slots := filter (\<lambda>s. sl_id s \<noteq> i) (n_slots l)\<rparr>) [p] = (res, l', ps)" "ok = (res = Inr True)"
        using step safe Remove Some by (auto simp: schedule_delete_def split: sum.splits prod.splits)
      have f: "slot_entry (schedule_row q i ''delete'' ?p) (filter (\<lambda>s. sl_id s \<noteq> i))" for q
        by (rule delete_entry [OF pos])
      have "sound_slots (filter (\<lambda>s. sl_id s \<noteq> i) (n_slots l))"
        using sound by (auto simp: sound_slots_def distinct_map_filter)
      then show ?thesis
        using replicate_follows [OF fl f _ rep(1)] new rep(2) Remove Some by (auto simp: new_content_def)
    qed
  qed
qed
qed

section \<open>The standby follows the leader\<close>

lemma sched_run_append: "sched_run (xs @ ys) s = sched_run ys (sched_run xs s)"
  by (induction xs s rule: sched_run.induct) auto

lemma never_repeats_append:
  "never_repeats (xs @ ys) s \<longleftrightarrow> never_repeats xs s \<and> never_repeats ys (sched_run xs s)"
  by (induction xs s rule: never_repeats.induct) auto

lemma replay_effects: "replay js xs = fold (\<lambda>f. f) (map effect js) xs"
  by (simp add: replay_def fold_map comp_def)

text \<open>Every prefix of the journal gives the schedule the leader had after some of its operations.\<close>

definition past_schedules :: "(ha_node \<times> sched_op) list \<Rightarrow> store \<times> store list \<Rightarrow> slot list \<Rightarrow> journal_row list \<Rightarrow> bool" where
  "past_schedules ops s xs J \<longleftrightarrow> (\<forall>m \<le> length J. \<exists>k \<le> length ops. replay (take m J) xs = n_slots (fst (sched_run (take k ops) s)))"

lemma run_follows:
  fixes l p :: store
  assumes "sound_slots xs" "n_slots l = xs" "n_slots p = xs" "n_journal l = []" "n_journal p = []"
    and "never_repeats ops (l, [p])" "sched_run ops (l, [p]) = (l', ps)"
  shows "synced xs l' ps (ops \<noteq> [] \<and> fst (sched_step (fst (last ops)) (snd (last ops)) (sched_run (butlast ops) (l, [p]))))
    \<and> sound_slots (n_slots l') \<and> length (n_journal l') \<le> length ops \<and> past_schedules ops (l, [p]) xs (n_journal l')"
  using assms(6,7)
proof (induction ops arbitrary: l' ps rule: rev_induct)
  case Nil
  have "follows xs l p 0 0" using assms(2-5) by (simp add: follows_def replay_def)
  then show ?case using Nil assms(1,2,4) by (auto simp: synced_def past_schedules_def replay_def)
next
  case (snoc hx ops)
  obtain h x where hx: "hx = (h, x)" by fastforce
  obtain l1 ps1 where run: "sched_run ops (l, [p]) = (l1, ps1)" by fastforce
  have IH: "\<exists>b. synced xs l1 ps1 b" "sound_slots (n_slots l1)" "length (n_journal l1) \<le> length ops"
      "past_schedules ops (l, [p]) xs (n_journal l1)"
    using snoc.IH [of l1 ps1] snoc.prems run by (auto simp: never_repeats_append)
  then obtain p1 r m where p1: "ps1 = [p1]" "follows xs l1 p1 r m" by (auto simp: synced_def)
  obtain ok where step: "sched_step h x (l1, [p1]) = (ok, l', ps)"
    using snoc.prems(2) run hx p1(1) by (cases "sched_step h x (l1, [p1])") (auto simp: sched_run_append)
  have new: "new_content x l1" using snoc.prems(1) run hx by (auto simp: never_repeats_append)
  from step_follows [OF p1(2) IH(2) new step] obtain es where res: "synced xs l' ps ok" "sound_slots (n_slots l')"
    "map effect (n_journal l') = map effect (n_journal l1) @ es" "length es \<le> 1" by blast
  have len: "length (n_journal l') = length (n_journal l1) + length es" using arg_cong [OF res(3), of length] by simp
  have "past_schedules (ops @ [hx]) (l, [p]) xs (n_journal l')"
    unfolding past_schedules_def
  proof (intro allI impI)
    fix j assume j: "j \<le> length (n_journal l')"
    show "\<exists>k \<le> length (ops @ [hx]). replay (take j (n_journal l')) xs = n_slots (fst (sched_run (take k (ops @ [hx])) (l, [p])))"
    proof (cases "j \<le> length (n_journal l1)")
      case True
      then have "replay (take j (n_journal l')) xs = replay (take j (n_journal l1)) xs"
        by (simp add: replay_effects res(3) flip: take_map)
      moreover obtain k where "k \<le> length ops" "replay (take j (n_journal l1)) xs = n_slots (fst (sched_run (take k ops) (l, [p])))"
        using IH(4) True unfolding past_schedules_def by blast
      ultimately show ?thesis by (intro exI [of _ k]) simp
    next
      case False
      then have "take j (n_journal l') = n_journal l'" using j len res(4) by simp
      moreover have "replay (n_journal l') xs = n_slots l'" using res(1) by (auto simp: synced_def follows_def Let_def)
      ultimately show ?thesis using snoc.prems(2) by (intro exI [of _ "length (ops @ [hx])"]) simp
    qed
  qed
  then show ?case using res len IH(3) step run hx p1(1) by simp
qed

text \<open>
  C10: a standby that started with the schedule of the leader always has a schedule the leader had at
  some time of the run, and it has the leader's present one whenever an operation reports a change:
  requests and answers may be lost, entries sent again. No two entries have the same content, at most
  250 operations run, and the marks of played items are no operations here.
\<close>

theorem standby_follows_leader:
  fixes l p :: store
  assumes "sound_slots xs" "n_slots l = xs" "n_slots p = xs" "n_journal l = []" "n_journal p = []"
    and "never_repeats ops (l, [p])" "length ops \<le> 250" "sched_run ops (l, [p]) = (l', ps)"
  shows "\<exists>p'. ps = [p']
    \<and> (\<exists>k \<le> length ops. n_slots p' = n_slots (fst (sched_run (take k ops) (l, [p]))))
    \<and> (ops \<noteq> [] \<and> fst (sched_step (fst (last ops)) (snd (last ops)) (sched_run (butlast ops) (l, [p]))) \<longrightarrow> n_slots p' = n_slots l')"
proof -
  note R = run_follows [OF assms(1-6) assms(8)]
  then obtain p' r m where p': "ps = [p']" "follows xs l' p' r m"
    "ops \<noteq> [] \<and> fst (sched_step (fst (last ops)) (snd (last ops)) (sched_run (butlast ops) (l, [p]))) \<longrightarrow> m = length (n_journal l')"
    using assms(7) by (auto simp: synced_def)
  note F = follows_D [OF p'(2)]
  have "\<exists>k \<le> length ops. n_slots p' = n_slots (fst (sched_run (take k ops) (l, [p])))"
    using R F(6,9) by (auto simp: past_schedules_def)
  moreover have "m = length (n_journal l') \<longrightarrow> n_slots p' = n_slots l'" using F(8,9) by simp
  ultimately show ?thesis using p'(1,3) by blast
qed

end
