(* ===== verification/Replication_Runs.thy ===== *)
theory Replication_Runs
  imports Replication_Laws
begin

text \<open>A run of a leader and its standby, and the runs in which the standby has not what the leader has.\<close>

section \<open>A run\<close>

definition empty_store :: store where
  "empty_store = \<lparr>n_outputs = [], n_vault = (\<lambda>_. None), n_settings = (\<lambda>_ _. None), n_slots = [], n_studios = [],
     n_invites = [], n_guests = [], n_recordings = [], n_consents = [], n_journal = []\<rparr>"

definition leading_node :: ha_node where
  "leading_node = (fresh_node first_row)\<lparr>role := Leader, quorum := True\<rparr>"

lemma leading_is_safe: "require_safe (Some leading_node) = Inr ()"
  by (simp add: require_safe_def require_safe_mutation_def leading_node_def)

text \<open>A node without entries of its own applies the one that arrives.\<close>

lemma receive_first:
  fixes p :: store
  assumes e: "slot_entry e f" and p: "n_journal p = []"
  shows "ha_replicate e p = (True, p\<lparr>n_slots := f (n_slots p), n_journal := [received e]\<rparr>)"
proof -
  have "slot_entry (e\<lparr>jn_replicated := True, jn_applied := False\<rparr>) f" by (rule slot_entry_flags [OF e])
  then show ?thesis using e p
    by (simp add: ha_replicate_def apply_pending_def clamp_limit_def slot_entry_def mark_applied_def update_where_def received_def)
qed

lemma first_addition_reported:
  fixes l p :: store
  assumes "n_journal l = []" "n_journal p = []" "sound_slots (n_slots l)"
  shows "fst (sched_step leading_node (Add [[Arrives]] st tr pl w ev) (l, [p]))"
proof -
  define i where "i = next_rowid (map sl_id (n_slots l))"
  define s where "s = \<lparr>sl_id = i, sl_station = st, sl_track = tr, sl_play_at = pl, sl_window_end = w, sl_event = ev,
    sl_status = ''pending''\<rparr>"
  have "slot_entry (schedule_row q i ''upsert'' (slot_json s)) (upsert_by sl_id s)" for q
    using upsert_entry [of s q] next_slot_id [OF assms(3)] by (simp add: s_def i_def)
  note receive_first [OF this assms(2), simp]
  show ?thesis using assms(1)
    by (simp add: schedule_enqueue_def leading_is_safe schedule_replicate_def journal_append_def replicate_ordered_def
        journal_pending_def clamp_limit_def Let_def i_def [symmetric] s_def [symmetric] schedule_row_def [symmetric])
qed

definition noon :: string where
  "noon = ''12:00''"

definition add_noon :: "delivery list list \<Rightarrow> sched_op" where
  "add_noon net = Add net 1 7 noon None []"

theorem standby_follows_leader_witness:
  "\<exists>l' p'. sched_run [(leading_node, add_noon [[Arrives]])] (empty_store, [empty_store]) = (l', [p'])
     \<and> n_slots p' = n_slots l'"
proof -
  let ?ops = "[(leading_node, add_noon [[Arrives]])]"
  have flag: "fst (sched_step leading_node (add_noon [[Arrives]]) (empty_store, [empty_store]))"
    unfolding add_noon_def by (rule first_addition_reported) (simp_all add: empty_store_def sound_slots_def)
  obtain l' ps where run: "sched_run ?ops (empty_store, [empty_store]) = (l', ps)" by fastforce
  have empty: "n_slots empty_store = []" "n_journal empty_store = []" by (simp_all add: empty_store_def)
  have new: "never_repeats ?ops (empty_store, [empty_store])"
    by (simp add: new_content_def empty split: option.splits)
  have "sound_slots []" by (simp add: sound_slots_def)
  from standby_follows_leader [OF this empty(1) empty(1) empty(2) empty(2) new _ run]
  have "\<exists>p'. ps = [p'] \<and> n_slots p' = n_slots l'" using flag by auto
  then show ?thesis using run by auto
qed

section \<open>What the standby misses\<close>

lemma nothing_pending: "\<forall>j \<in> set (n_journal l). jn_replicated j \<Longrightarrow> journal_pending limit l = []"
  by (simp add: journal_pending_def)

lemma known_entry_sends_nothing:
  fixes l :: store
  assumes "journal_checksum ''schedule'' (int_str i) op (json_text payload) \<in> set (map jn_checksum (n_journal l))"
    and "\<forall>j \<in> set (n_journal l). jn_replicated j"
  shows "schedule_replicate ha net i op payload y (l\<lparr>n_slots := zs\<rparr>) ps = (Inr y, l\<lparr>n_slots := zs\<rparr>, ps)"
proof -
  obtain j where "find (\<lambda>j. jn_checksum j = journal_checksum ''schedule'' (int_str i) op (json_text payload)) (n_journal l) = Some j"
    using assms(1) by (cases "find (\<lambda>j. jn_checksum j = journal_checksum ''schedule'' (int_str i) op (json_text payload)) (n_journal l)")
      (auto simp: find_None_iff)
  then show ?thesis using nothing_pending [of "l\<lparr>n_slots := zs\<rparr>"] assms(2)
    by (simp add: schedule_replicate_def journal_append_def Let_def replicate_ordered_def)
qed

text \<open>
  An operation whose entry has the content of an earlier one, such as a slot moved away and back, reports
  its change and sends nothing: \<open>INSERT OR IGNORE\<close> keeps the old entry, which is acknowledged already.
\<close>

theorem repeated_change_stays_local:
  fixes l :: store
  assumes x: "op_entry x l = Some (i, op, payload)"
    and old: "\<not> new_content x l" and sent: "\<forall>j \<in> set (n_journal l). jn_replicated j"
  shows "\<exists>l'. sched_step leading_node x (l, ps) = (True, l', ps) \<and> n_journal l' = n_journal l"
proof -
  have known: "journal_checksum ''schedule'' (int_str i) op (json_text payload) \<in> set (map jn_checksum (n_journal l))"
    using old x by (simp add: new_content_def)
  have rep: "schedule_replicate (Some leading_node) net i op payload y (l\<lparr>n_slots := zs\<rparr>) ps = (Inr y, l\<lparr>n_slots := zs\<rparr>, ps)"
    for net and y :: int and zs
    by (rule known_entry_sends_nothing [OF known sent])
  have rep': "schedule_replicate (Some leading_node) net i op payload y (l\<lparr>n_slots := zs\<rparr>) ps = (Inr y, l\<lparr>n_slots := zs\<rparr>, ps)"
    for net and y :: bool and zs
    by (rule known_entry_sends_nothing [OF known sent])
  show ?thesis
  proof (cases x)
    case (Add net st tr pl w ev)
    then show ?thesis using x rep by (auto simp: schedule_enqueue_def leading_is_safe Let_def)
  next
    case (Change net k st tr pl w ev)
    then obtain s where s: "slot_of k l = Some s" "i = k" "op = ''upsert''"
      "payload = slot_json (s\<lparr>sl_station := st, sl_track := tr, sl_play_at := pl, sl_window_end := w, sl_event := ev\<rparr>)"
      using x by auto
    let ?g = "\<lambda>s. s\<lparr>sl_station := st, sl_track := tr, sl_play_at := pl, sl_window_end := w, sl_event := ev\<rparr>"
    have "find (\<lambda>s. sl_id s = k) (update_where (\<lambda>s. sl_id s = k) ?g xs) = map_option ?g (find (\<lambda>s. sl_id s = k) xs)" for xs :: "slot list"
      by (induction xs) (auto simp: update_where_def)
    then have "slot_of k (l\<lparr>n_slots := update_where (\<lambda>s. sl_id s = k) ?g (n_slots l)\<rparr>) = Some (?g s)"
      using s(1) by (simp add: slot_of_def)
    then show ?thesis using rep' s Change by (simp add: schedule_update_def leading_is_safe Let_def)
  next
    case (Remove net k)
    then show ?thesis using x rep' by (auto simp: schedule_delete_def leading_is_safe Let_def split: option.splits)
  next
    case (Beat net)
    then show ?thesis using x by simp
  qed
qed

text \<open>A slot marked as played on the leader stays pending on the standby, whatever is sent.\<close>

theorem marks_stay_local:
  fixes l p :: store
  assumes "\<forall>j \<in> set (n_journal l). jn_replicated j" "n_slots p = n_slots l"
    and "s \<in> set (n_slots l)" "sl_status s \<noteq> status"
  shows "\<exists>l'. sched_step h (Beat net) (schedule_mark status (sl_id s) l, [p]) = (False, l', [p])
    \<and> s \<in> set (n_slots p) \<and> s \<notin> set (n_slots l')"
proof -
  let ?l = "schedule_mark status (sl_id s) l"
  have "journal_pending 50 ?l = []" using assms(1) by (intro nothing_pending) (simp add: schedule_mark_def)
  then have "sched_step h (Beat net) (?l, [p]) = (False, ?l, [p])" by (simp add: replicate_ordered_def)
  moreover have "s \<noteq> x\<lparr>sl_status := status\<rparr>" for x :: slot using assms(4) by auto
  then have "s \<notin> set (n_slots ?l)" by (auto simp: schedule_mark_def update_where_def)
  ultimately show ?thesis using assms(2,3) by simp
qed

text \<open>When no peer acknowledges, the operation raises, but its change is committed and its entry waits.\<close>

lemma send_keeps: "send_entries through es net l ps = (ok, l', ps') \<Longrightarrow> n_slots l' = n_slots l \<and> map jn_seq (n_journal l') = map jn_seq (n_journal l)"
  by (induction es arbitrary: net l ps)
     (auto simp: Let_def mark_replicated_def update_where_def split: if_splits prod.splits)

lemma append_keeps: "journal_append type entity op payload l = (q, l') \<Longrightarrow> n_slots l' = n_slots l"
  by (auto simp: journal_append_def Let_def split: option.splits)

theorem unacknowledged_change_is_kept:
  fixes l :: store
  assumes "schedule_enqueue ha net st tr pl w ev l ps = (Inl ack_required, l', ps')"
  shows "n_slots l' = n_slots l @ [\<lparr>sl_id = next_rowid (map sl_id (n_slots l)), sl_station = st, sl_track = tr,
    sl_play_at = pl, sl_window_end = w, sl_event = ev, sl_status = ''pending''\<rparr>]"
proof -
  have "require_safe ha \<noteq> Inl ack_required"
    by (auto simp: require_safe_def require_safe_mutation_def ack_required_def split: option.splits)
  then show ?thesis using assms
    by (auto simp: schedule_enqueue_def schedule_replicate_def replicate_ordered_def Let_def
        dest!: append_keeps send_keeps split: sum.splits prod.splits if_splits bool.splits)
qed

text \<open>One acknowledgement is enough: a second standby that the request did not reach never gets the entry.\<close>

theorem one_acknowledgement_is_enough:
  fixes l p q :: store
  assumes e: "slot_entry e f" and journal: "n_journal l = [e]" "n_journal p = []" and "\<not> jn_replicated e"
    and first: "replicate_ordered None 50 [[Arrives, Lost]] l [p, q] = (ok, l', ps)"
  shows "ok \<and> (\<exists>p'. ps = [p', q] \<and> n_slots p' = f (n_slots p))
    \<and> replicate_ordered None 50 net l' ps = (True, l', ps)"
  using first journal assms(4) receive_first [OF e journal(2)]
  by (auto simp: replicate_ordered_def journal_pending_def clamp_limit_def mark_replicated_def update_where_def)

text \<open>
  With more than 250 entries waiting the batch ends before the entry of the operation, which reports
  its change all the same.
\<close>

lemma send_marks_only:
  "send_entries through es net l ps = (ok, l', ps') \<Longrightarrow> j \<in> set (n_journal l) \<Longrightarrow> \<not> jn_replicated j
    \<Longrightarrow> jn_seq j \<notin> set (map jn_seq es) \<Longrightarrow> j \<in> set (n_journal l')"
  by (induction es arbitrary: net l ps)
     (force simp: Let_def mark_replicated_def update_where_def split: if_splits prod.splits)+

theorem long_backlog_hides_entry:
  fixes l :: store
  assumes sorted: "sorted_wrt (<) (map jn_seq (n_journal l))" and new: "\<forall>j \<in> set (n_journal l). \<not> jn_replicated j"
    and long: "250 < length (n_journal l)"
    and sent: "replicate_ordered (Some (jn_seq (last (n_journal l)))) 250 net l ps = (True, l', ps')"
  shows "last (n_journal l) \<in> set (n_journal l')"
proof -
  let ?J = "n_journal l"
  have "filter (\<lambda>j. \<not> jn_replicated j) ?J = ?J" using new by simp
  then have pend: "journal_pending 250 l = take 250 ?J"
    using sorted by (simp add: journal_pending_def clamp_limit_def sort_key_id_if_sorted strict_sorted_imp_sorted)
  have ne: "?J \<noteq> []" using long by auto
  have "jn_seq x < jn_seq (last ?J)" if "x \<in> set (take 250 ?J)" for x
  proof -
    have "sorted_wrt (\<lambda>a b. jn_seq a < jn_seq b) (take 250 ?J @ drop 250 ?J)" using sorted by (simp add: sorted_wrt_map)
    moreover have "last ?J \<in> set (drop 250 ?J)" using long by (metis drop_eq_Nil last_drop last_in_set linorder_not_le)
    ultimately show ?thesis using that by (simp only: sorted_wrt_append)
  qed
  then have "jn_seq (last ?J) \<notin> set (map jn_seq (take 250 ?J))" by fastforce
  then show ?thesis using send_marks_only [of _ _ net l ps True l' ps' "last ?J"] sent pend new ne
    by (simp add: replicate_ordered_def)
qed

text \<open>An entry whose sequence number the receiver has used itself is dropped and accepted.\<close>

theorem taken_sequence_is_accepted:
  fixes n :: store
  assumes "slot_entry e f" "j \<in> set (n_journal n)" "jn_seq j = jn_seq e" "\<forall>j \<in> set (n_journal n). jn_applied j"
  shows "ha_replicate e n = (True, n)"
proof -
  have "\<exists>j \<in> set (n_journal n). jn_seq j = jn_seq e \<or> jn_checksum j = jn_checksum e" using assms(2,3) by blast
  then show ?thesis using assms(1,4) by (simp add: ha_replicate_def slot_entry_def apply_pending_def)
qed

text \<open>
  A leader that becomes a standby applies its own history with the first entry it receives: a slot it
  has played is pending again.
\<close>

theorem old_leader_replays_itself:
  fixes n :: store
  assumes s: "n_slots n = [s\<lparr>sl_status := ''done''\<rparr>]" "0 < sl_id s" "sl_status s = ''pending''"
    and own: "n_journal n = [schedule_row q (sl_id s) ''upsert'' (slot_json s)]"
    and e: "slot_entry e (upsert_by sl_id t)" "sl_id t \<noteq> sl_id s" "q < jn_seq e"
      "jn_checksum e \<noteq> jn_checksum (schedule_row q (sl_id s) ''upsert'' (slot_json s))"
  shows "\<exists>n'. ha_replicate e n = (True, n') \<and> n_slots n' = [s, t]"
proof -
  let ?own = "schedule_row q (sl_id s) ''upsert'' (slot_json s)" and ?e = "e\<lparr>jn_replicated := True, jn_applied := False\<rparr>"
  have own_entry: "slot_entry ?own (upsert_by sl_id s)" using upsert_entry [of s q] s by simp
  have e': "slot_entry ?e (upsert_by sl_id t)" by (rule slot_entry_flags [OF e(1)])
  have "sort_key jn_seq [?own, ?e] = [?own, ?e]"
    by (rule sort_key_id_if_sorted) (use e(3) in \<open>simp add: schedule_row_def\<close>)
  moreover have "jn_seq ?own = q" "\<not> jn_applied ?own" by (simp_all add: schedule_row_def)
  moreover have "upsert_by sl_id t (upsert_by sl_id s (n_slots n)) = [s, t]"
    using s(1) e(2) by (cases s) (auto simp: upsert_by_def)
  moreover have "upsert_by sl_id s [s\<lparr>sl_status := ''done''\<rparr>] = [s]" by (cases s) (simp add: upsert_by_def)
  ultimately show ?thesis using e own own_entry e' s(1)
    by (auto simp: ha_replicate_def apply_pending_def clamp_limit_def slot_entry_def mark_applied_def)
qed

text \<open>
  An entry that cannot be applied stops all later ones: the room of a studio the standby does not have
  violates the foreign key, and every request of the leader fails from then on.
\<close>

theorem entry_that_raises_blocks:
  fixes n :: store
  assumes "n_journal n = [j]" "\<not> jn_applied j" "\<And>m :: store. n_studios m = n_studios n \<Longrightarrow> apply_entry j m = None"
    and e: "slot_entry e f" "jn_seq j < jn_seq e" "jn_checksum j \<noteq> jn_checksum e"
  shows "ha_replicate e n = (False, n\<lparr>n_journal := [j, e\<lparr>jn_replicated := True, jn_applied := False\<rparr>]\<rparr>)"
proof -
  let ?e = "e\<lparr>jn_replicated := True, jn_applied := False\<rparr>"
  have "sort_key jn_seq [j, ?e] = [j, ?e]" by (rule sort_key_id_if_sorted) (use e(2) in simp)
  then show ?thesis using assms by (simp add: ha_replicate_def apply_pending_def clamp_limit_def slot_entry_def)
qed

lemma unknown_studio_raises:
  "i \<notin> set (n_studios m) \<Longrightarrow> field ''studio_id'' v = J_Int i \<Longrightarrow> apply_guest_room [(''invites'', J_List [J_Obj v]), (''sessions'', J_List [])] m = None"
proof -
  assume i: "i \<notin> set (n_studios m)" and v: "field ''studio_id'' v = J_Int i"
  have "field ''studio_id'' (map (\<lambda>c. (c, field c v)) invite_columns) = J_Int i"
    using v by (simp add: invite_columns_def field_def [of _ "_ # _"])
  then have "\<not> in_studio m (map (\<lambda>c. (c, field c v)) invite_columns)" using i by (simp add: in_studio_def)
  then show ?thesis by (simp add: apply_guest_room_def list_field_def upsert_json_def)
qed

end
