(* ===== verification/Replication_Drain.thy ===== *)
theory Replication_Drain
  imports Replication_Runs
begin

text \<open>
  What a standby reaches and what it keeps: a backlog is sent when the peer answers, and the rows it
  applies have the columns of their tables and put nobody on air.
\<close>

section \<open>A backlog drains\<close>

lemma deliver:
  assumes fl: "follows xs l p r m" and r: "r < length (n_journal l)"
  shows "\<exists>p' m'. post_entry (n_journal l ! r) [Arrives] [p] = (1, [p']) \<and> follows xs l p' r m' \<and> r < m'"
proof -
  have flags: "\<not> jn_replicated (n_journal l ! r)"
    using arg_cong [OF follows_D(4) [OF fl], of "\<lambda>bs. bs ! r"] r by (simp add: nth_append)
  have "\<exists>p' m'. ha_replicate (n_journal l ! r) p = (True, p') \<and> follows xs l p' r m' \<and> r < m'"
  proof (cases "r < m")
    case True
    then show ?thesis using receive_known [OF fl True refl] fl by auto
  next
    case False
    then have "m = r" using follows_D(5) [OF fl] by simp
    then show ?thesis using receive_next [OF fl _ _ flags] r by auto
  qed
  then show ?thesis by auto
qed

lemma send_answered:
  assumes "follows xs l p r m" "k \<le> length (n_journal l) - r" "k \<le> length net" "\<forall>ds \<in> set net. ds = [Arrives]"
  shows "\<exists>l' p' m'. send_entries None (take k (drop r (n_journal l))) net l [p] = (True, l', [p'])
    \<and> follows xs l' p' (r + k) m' \<and> n_slots l' = n_slots l \<and> length (n_journal l') = length (n_journal l)"
  using assms
proof (induction k arbitrary: l p r m net)
  case 0
  then show ?case by auto
next
  case (Suc k)
  let ?e = "n_journal l ! r"
  have r: "r < length (n_journal l)" using Suc.prems(2) by simp
  then have es: "take (Suc k) (drop r (n_journal l)) = ?e # take k (drop (Suc r) (n_journal l))"
    by (simp add: Cons_nth_drop_Suc [symmetric])
  obtain net' where net: "net = [Arrives] # net'" using Suc.prems(3,4) by (cases net) auto
  obtain p1 m1 where p1: "post_entry ?e [Arrives] [p] = (1, [p1])" "follows xs l p1 r m1" "r < m1"
    using deliver [OF Suc.prems(1) r] by blast
  let ?l1 = "mark_replicated (jn_seq ?e) l"
  note mf = mark_follows [OF p1(2,3)]
  have len: "length (n_journal ?l1) = length (n_journal l)" by (simp add: mark_replicated_def update_where_def)
  have k1: "k \<le> length (n_journal ?l1) - Suc r" unfolding len using Suc.prems(2) by arith
  have k2: "k \<le> length net'" "\<forall>ds \<in> set net'. ds = [Arrives]" 
    using Suc.prems(3) Suc.prems(4) [unfolded net] by (simp add: net, blast intro: list.set_intros(2))
  obtain l' p' m' where l': "send_entries None (take k (drop (Suc r) (n_journal ?l1))) net' ?l1 [p1] = (True, l', [p'])"
    "follows xs l' p' (Suc r + k) m'" "n_slots l' = n_slots ?l1" "length (n_journal l') = length (n_journal ?l1)"
    using Suc.IH [OF mf(1) k1 k2] by blast
  have "send_entries None (take (Suc k) (drop r (n_journal l))) net l [p] = (True, l', [p'])"
    using p1(1) l'(1) by (simp add: es net mf(2))
  moreover have "n_slots ?l1 = n_slots l" by (simp add: mark_replicated_def)
  ultimately show ?case using l'(2-4) len by (intro exI [of _ l'] exI [of _ p'] exI [of _ m']) simp
qed

definition beat :: "ha_node \<Rightarrow> ha_node \<times> sched_op" where
  "beat h = (h, Beat (replicate 50 [Arrives]))"

lemma beat_follows:
  assumes "follows xs l p r m"
  shows "\<exists>l' p' m'. snd (sched_step h (Beat (replicate 50 [Arrives])) (l, [p])) = (l', [p'])
    \<and> follows xs l' p' (min (r + 50) (length (n_journal l))) m' \<and> n_slots l' = n_slots l
    \<and> length (n_journal l') = length (n_journal l)"
proof -
  let ?k = "min 50 (length (n_journal l) - r)"
  have "take 50 (drop r (n_journal l)) = take ?k (drop r (n_journal l))"
    by (simp add: min_def)
  moreover have "r + ?k = min (r + 50) (length (n_journal l))" using follows_D(5,6) [OF assms] by linarith
  ultimately show ?thesis
    using send_answered [OF assms, of ?k "replicate 50 [Arrives]"] journal_pending_eq [OF assms, of 50]
    by (auto simp: replicate_ordered_def clamp_limit_def)
qed

lemma beats_follow:
  assumes "follows xs l p r m"
  shows "\<exists>l' p' m'. sched_run (replicate k (beat h)) (l, [p]) = (l', [p'])
    \<and> follows xs l' p' (min (r + 50 * k) (length (n_journal l))) m' \<and> n_slots l' = n_slots l
    \<and> length (n_journal l') = length (n_journal l)"
  using assms
proof (induction k arbitrary: l p r m)
  case 0
  then show ?case using follows_D(5,6) [OF 0] by (auto simp: min_def)
next
  case (Suc k)
  obtain l1 p1 m1 where l1: "snd (sched_step h (Beat (replicate 50 [Arrives])) (l, [p])) = (l1, [p1])"
    "follows xs l1 p1 (min (r + 50) (length (n_journal l))) m1" "n_slots l1 = n_slots l"
    "length (n_journal l1) = length (n_journal l)" using beat_follows [OF Suc.prems] by blast
  have min: "min (min (r + 50) n + 50 * k) n = min (r + 50 * Suc k) n" for n by (simp add: min_def)
  from Suc.IH [OF l1(2)] l1 show ?case
    by (auto simp: beat_def min simp del: sched_step.simps mult_Suc_right)
qed

text \<open>
  C11: a leader and its one standby begin with the same schedule and empty journals, and no operation
  writes an entry with the content of an earlier one (such an operation stays local, see
  \<open>repeated_change_stays_local\<close>). Then, whatever requests and answers were lost, one heartbeat for every 50
  operations, each with its requests answered, leaves the standby with the schedule of the leader and
  nothing to send.
\<close>

theorem backlog_drains:
  fixes l p :: store
  assumes "sound_slots xs" "n_slots l = xs" "n_slots p = xs" "n_journal l = []" "n_journal p = []"
    and "never_repeats ops (l, [p])" "length ops \<le> 50 * k"
  shows "\<exists>l' p'. sched_run (ops @ replicate k (beat h)) (l, [p]) = (l', [p'])
    \<and> n_slots p' = n_slots l' \<and> n_slots l' = n_slots (fst (sched_run ops (l, [p]))) \<and> journal_pending limit l' = []"
proof -
  obtain l1 ps where run: "sched_run ops (l, [p]) = (l1, ps)" by fastforce
  from run_follows [OF assms(1-6) run] obtain p1 r m where p1: "ps = [p1]" "follows xs l1 p1 r m"
    and len: "length (n_journal l1) \<le> 50 * k" using assms(7) by (auto simp: synced_def)
  from beats_follow [OF p1(2)] obtain l' p' m' where l': "sched_run (replicate k (beat h)) (l1, [p1]) = (l', [p'])"
    "follows xs l' p' (min (r + 50 * k) (length (n_journal l1))) m'" "n_slots l' = n_slots l1"
    "length (n_journal l') = length (n_journal l1)" by blast
  have full: "min (r + 50 * k) (length (n_journal l1)) = length (n_journal l')" using len l'(4) by simp
  then have "m' = length (n_journal l')" using follows_D(5,6) [OF l'(2)] by simp
  then have "n_slots p' = n_slots l'" using follows_D(8,9) [OF l'(2)] by simp
  moreover have "journal_pending limit l' = []" using journal_pending_eq [OF l'(2)] full by simp
  ultimately show ?thesis using run p1(1) l'(1,3) by (simp add: sched_run_append)
qed

theorem backlog_drains_witness:
  "\<exists>l' p'. sched_run ([(leading_node, add_noon [[Lost]])] @ replicate 1 (beat leading_node)) (empty_store, [empty_store]) = (l', [p'])
     \<and> n_slots p' = n_slots l' \<and> map sl_play_at (n_slots l') = [noon] \<and> journal_pending 50 l' = []"
proof -
  let ?ops = "[(leading_node, add_noon [[Lost]])]"
  have empty: "n_slots empty_store = []" "n_journal empty_store = []" by (simp_all add: empty_store_def)
  have new: "never_repeats ?ops (empty_store, [empty_store])"
    by (simp add: new_content_def empty split: option.splits)
  have "sound_slots []" by (simp add: sound_slots_def)
  from backlog_drains [OF this empty(1) empty(1) empty(2) empty(2) new, of 1 leading_node 50]
  obtain l' p' where "sched_run (?ops @ replicate 1 (beat leading_node)) (empty_store, [empty_store]) = (l', [p'])"
    "n_slots p' = n_slots l'" "n_slots l' = n_slots (fst (sched_run ?ops (empty_store, [empty_store])))"
    "journal_pending 50 l' = []" by auto
  moreover have "map sl_play_at (n_slots (fst (sched_run ?ops (empty_store, [empty_store])))) = [noon]"
    by (simp add: add_noon_def schedule_enqueue_def leading_is_safe schedule_replicate_def journal_append_def
        replicate_ordered_def journal_pending_def clamp_limit_def empty Let_def)
  ultimately show ?thesis by auto
qed

section \<open>What a standby stores\<close>

definition has_columns :: "string list \<Rightarrow> json_row \<Rightarrow> bool" where
  "has_columns cols r \<longleftrightarrow> map fst r = cols"

definition quiet_guest :: "json_row \<Rightarrow> bool" where
  "quiet_guest g \<longleftrightarrow> has_columns guest_columns g \<and> field ''is_connected'' g = J_Int 0 \<and> field ''is_on_air'' g = J_Int 0"

definition consent_columns :: "string list" where
  "consent_columns = [''recording_id'', ''session_id'', ''decision'', ''decided_at'']"

definition hidden_password :: "output_row \<Rightarrow> bool" where
  "hidden_password r \<longleftrightarrow> so_password r = [] \<or> is_credential_reference (so_password r)"

text \<open>Every row of a standby is one it had before or one of the shape that received entries give.\<close>

definition old_or :: "'r list \<Rightarrow> ('r \<Rightarrow> bool) \<Rightarrow> 'r \<Rightarrow> bool" where
  "old_or old P r \<longleftrightarrow> r \<in> set old \<or> P r"

definition standby_rows :: "store \<Rightarrow> store \<Rightarrow> bool" where
  "standby_rows old n \<longleftrightarrow> list_all (old_or (n_invites old) (has_columns invite_columns)) (n_invites n)
     \<and> list_all (old_or (n_guests old) quiet_guest) (n_guests n)
     \<and> list_all (old_or (n_recordings old) (has_columns recording_columns)) (n_recordings n)
     \<and> list_all (old_or (n_consents old) (has_columns consent_columns)) (n_consents n)
     \<and> list_all (old_or (n_outputs old) hidden_password) (n_outputs n)"

lemma old_or_new [simp]: "P r \<Longrightarrow> old_or old P r"
  by (simp add: old_or_def)

lemma upsert_by_all: "P r \<Longrightarrow> list_all P rows \<Longrightarrow> list_all P (upsert_by key r rows)"
  by (auto simp: upsert_by_def list_all_iff)

lemma chosen_columns [simp]:
  "has_columns cols (map (\<lambda>c. (c, field c r)) cols)"
  "c \<in> set cols \<Longrightarrow> field c (map (\<lambda>c. (c, field c r)) cols) = field c r"
  by (auto simp: has_columns_def comp_def field_def map_of_map_restrict)

lemma upsert_json_all:
  "upsert_json cols parent unique r rows = Some rows' \<Longrightarrow> P (map (\<lambda>c. (c, field c r)) cols) \<Longrightarrow> list_all P rows
    \<Longrightarrow> list_all P rows'"
  by (auto simp: upsert_json_def Let_def split: if_splits intro: upsert_by_all)

lemma upsert_all_all:
  "upsert_all put rs rows = Some rows' \<Longrightarrow> (\<And>r rows rows'. put r rows = Some rows' \<Longrightarrow> list_all P rows \<Longrightarrow> list_all P rows')
    \<Longrightarrow> list_all P rows \<Longrightarrow> list_all P rows'"
  by (induction put rs rows rule: upsert_all.induct) (auto split: option.splits)

lemma off_air_guest: "quiet_guest (map (\<lambda>c. (c, field c (off_air r))) guest_columns)"
proof -
  have "field ''is_connected'' (off_air r) = J_Int 0" "field ''is_on_air'' (off_air r) = J_Int 0"
    by (simp_all add: off_air_def field_def update_conv')
  moreover have "''is_connected'' \<in> set guest_columns" "''is_on_air'' \<in> set guest_columns" by (simp_all add: guest_columns_def)
  ultimately show ?thesis by (simp add: quiet_guest_def)
qed

lemma guest_room_rows:
  assumes "apply_guest_room p n = Some n'" "standby_rows old n"
  shows "standby_rows old n'"
proof -
  obtain vs ss invites guests where
    vs: "upsert_all (upsert_json invite_columns (in_studio n) (Some ''token_hash'')) vs (n_invites n) = Some invites"
    and ss: "upsert_all (\<lambda>r. upsert_json guest_columns (\<lambda>x. \<exists>v \<in> set invites. field ''id'' v = field ''invite_id'' x)
        (Some ''session_token_hash'') (off_air r)) ss (n_guests n) = Some guests"
    and n': "n' = n\<lparr>n_invites := invites, n_guests := guests\<rparr>"
    using assms(1) by (auto simp: apply_guest_room_def split: option.splits)
  have "list_all (old_or (n_invites old) (has_columns invite_columns)) invites"
    by (rule upsert_all_all [OF vs]) (use assms(2) in \<open>auto simp: standby_rows_def elim: upsert_json_all\<close>)
  moreover have "list_all (old_or (n_guests old) quiet_guest) guests"
    by (rule upsert_all_all [OF ss]) (use assms(2) off_air_guest in \<open>auto simp: standby_rows_def elim: upsert_json_all\<close>)
  ultimately show ?thesis using assms(2) by (simp add: n' standby_rows_def)
qed

lemma guest_recording_rows:
  assumes "apply_guest_recording p n = Some n'" "standby_rows old n"
  shows "standby_rows old n'"
proof (cases "n' = n")
  case False
  then obtain r cs recordings consents where
    r: "upsert_json recording_columns (\<lambda>_. True) None r (n_recordings n) = Some recordings"
    and cs: "upsert_all (\<lambda>c rows. if (\<exists>x \<in> set recordings. field ''id'' x = field ''recording_id'' c)
                         \<and> (\<exists>g \<in> set (n_guests n). field ''id'' g = field ''session_id'' c)
                      then Some (upsert_by consent_key (map (\<lambda>k. (k, field k c)) consent_columns) rows)
                      else None) cs (n_consents n) = Some consents"
    and n': "n' = n\<lparr>n_recordings := recordings, n_consents := consents\<rparr>"
    using assms(1) unfolding consent_columns_def
    by (auto simp: apply_guest_recording_def split: option.splits json.splits list.splits)
  have "list_all (old_or (n_consents old) (has_columns consent_columns)) consents"
    by (rule upsert_all_all [OF cs]) (use assms(2) in \<open>auto simp: standby_rows_def intro: upsert_by_all split: if_splits\<close>)
  moreover have "list_all (old_or (n_recordings old) (has_columns recording_columns)) recordings"
    using upsert_json_all [OF r] assms(2) by (simp add: standby_rows_def)
  ultimately show ?thesis using assms(2) by (simp add: n' standby_rows_def)
qed (use assms in simp)

lemma upsert_output_hides:
  assumes "upsert_output True r n = (Inr u, n')" "standby_rows old n"
  shows "standby_rows old n'"
proof -
  have ref: "is_credential_reference (credential_reference st)" for st
    by (simp add: is_credential_reference_def credential_reference_def)
  have "n_invites n' = n_invites n \<and> n_guests n' = n_guests n \<and> n_recordings n' = n_recordings n \<and> n_consents n' = n_consents n"
    using assms(1) by (auto simp: upsert_output_def Let_def split: if_splits sum.splits)
  moreover have "list_all (old_or (n_outputs old) hidden_password) (n_outputs n')"
    using assms ref by (auto simp: upsert_output_def Let_def standby_rows_def old_or_def [of _ hidden_password] hidden_password_def
        intro!: upsert_by_all split: if_splits sum.splits)
  ultimately show ?thesis using assms(2) by (simp add: standby_rows_def)
qed

lemma schedule_rows: "apply_schedule op p n = Some n' \<Longrightarrow> standby_rows old n \<Longrightarrow> standby_rows old n'"
  by (auto simp: apply_schedule_def standby_rows_def split: option.splits if_splits json.splits)

lemma put_settings_rows [simp]: "standby_rows old (put_settings st vs n) = standby_rows old n"
  by (simp add: put_settings_def standby_rows_def)

lemma stream_config_rows: "apply_stream_config p n = Some n' \<Longrightarrow> standby_rows old n \<Longrightarrow> standby_rows old n'"
  by (auto simp: apply_stream_config_def intro: upsert_output_hides split: option.splits json.splits prod.splits sum.splits)

lemma entry_rows: "apply_entry j n = Some n' \<Longrightarrow> standby_rows old n \<Longrightarrow> standby_rows old n'"
  by (auto simp: apply_entry_def split: option.splits json.splits if_splits
      intro: stream_config_rows guest_room_rows guest_recording_rows schedule_rows)

lemma journal_rows [simp]:
  "standby_rows old (mark_applied i n) = standby_rows old n" "standby_rows old (n\<lparr>n_journal := js\<rparr>) = standby_rows old n"
  by (simp_all add: mark_applied_def standby_rows_def)

lemma entries_rows: "standby_rows old kept \<Longrightarrow> standby_rows old now \<Longrightarrow> standby_rows old (snd (apply_entries js kept now))"
proof (induction js kept now rule: apply_entries.induct)
  case (2 j js kept now)
  show ?case
  proof (cases "apply_entry j now")
    case (Some n)
    then have "standby_rows old n" using entry_rows 2(3) by blast
    then show ?thesis using 2 Some by simp
  qed (use 2 in simp)
qed simp

lemma standby_rows_refl [simp]: "standby_rows n n"
  by (simp add: standby_rows_def old_or_def list_all_iff)

text \<open>
  C39: whatever entries a node receives, every guest, recording, consent and output row it has then is one
  it had before or of the shape a standby may hold: the columns of its table, no guest connected or on air
  even if the leader says so, and no password in clear. In particular a node that was the leader has its
  on-air guests only where no entry named them.
\<close>

theorem standby_rows_kept:
  "standby_rows n (fold (\<lambda>e n. snd (ha_replicate e n)) es n)"
proof -
  have "standby_rows n (snd (ha_replicate e m))" if "standby_rows n m" for e m
    using that entries_rows by (simp add: ha_replicate_def apply_pending_def)
  then have "standby_rows n m \<Longrightarrow> standby_rows n (fold (\<lambda>e n. snd (ha_replicate e n)) es m)" for m
    by (induction es arbitrary: m) simp_all
  then show ?thesis by simp
qed

text \<open>A node that was the leader, with a guest on air, receives the room of the new one, where he is on air, too.\<close>

definition aired_guest :: json_row where
  "aired_guest = [(''id'', J_Int 5), (''invite_id'', J_Int 3), (''is_connected'', J_Int 1), (''is_on_air'', J_Int 1)]"

definition room_payload :: json where
  "room_payload = J_Obj [(''invites'', J_List []), (''sessions'', J_List [J_Obj aired_guest])]"

definition room_entry :: journal_row where
  "room_entry = \<lparr>jn_seq = 1, jn_type = ''guest_room'', jn_entity = ''1'', jn_op = ''upsert'', jn_body = json_text room_payload,
     jn_checksum = journal_checksum ''guest_room'' ''1'' ''upsert'' (json_text room_payload),
     jn_replicated = False, jn_applied = False\<rparr>"

definition former_leader :: store where
  "former_leader = empty_store\<lparr>n_invites := [[(''id'', J_Int 3)]], n_guests := [aired_guest]\<rparr>"

theorem standby_rows_kept_witness:
  "\<exists>g. n_guests (snd (ha_replicate room_entry former_leader)) = [g] \<and> quiet_guest g
     \<and> field ''is_on_air'' aired_guest = J_Int 1"
proof -
  have ok: "json_ok room_payload" by (simp add: room_payload_def aired_guest_def)
  have canon: "canon room_payload = room_payload" unfolding room_payload_def aired_guest_def by code_simp
  have "json_text room_payload \<noteq> []" by (simp add: room_payload_def)
  then have body: "json_loads (or_default ''{}'' (json_text room_payload))
      = Some (J_Obj [(''invites'', J_List []), (''sessions'', J_List [J_Obj aired_guest])])"
    using json_loads_text [OF ok] canon by (simp add: or_default_def room_payload_def [symmetric])
  let ?g = "map (\<lambda>c. (c, field c (off_air aired_guest))) guest_columns"
  have "field ''id'' ?g = J_Int 5" "field ''id'' aired_guest = J_Int 5" "field ''invite_id'' ?g = J_Int 3"
    "field ''id'' [(''id'', J_Int 3)] = J_Int 3"
    by (simp_all add: guest_columns_def field_def off_air_def aired_guest_def)
  then have "apply_guest_room [(''invites'', J_List []), (''sessions'', J_List [J_Obj aired_guest])] m = Some (m\<lparr>n_guests := [?g]\<rparr>)"
    if "n_invites m = n_invites former_leader" "n_guests m = [aired_guest]" for m :: store
    using that by (simp add: apply_guest_room_def list_field_def upsert_json_def upsert_by_def former_leader_def)
  then have "n_guests (snd (ha_replicate room_entry former_leader)) = [?g]"
    by (simp add: ha_replicate_def apply_pending_def clamp_limit_def room_entry_def former_leader_def empty_store_def
        apply_entry_def body mark_applied_def)
  moreover have "?g \<noteq> aired_guest" by (simp add: guest_columns_def aired_guest_def)
  ultimately have "\<exists>g. n_guests (snd (ha_replicate room_entry former_leader)) = [g] \<and> g \<noteq> aired_guest" by blast
  then obtain g where g: "n_guests (snd (ha_replicate room_entry former_leader)) = [g]" "g \<noteq> aired_guest" by blast
  then have "quiet_guest g"
    using standby_rows_kept [of former_leader "[room_entry]"] by (simp add: standby_rows_def old_or_def former_leader_def)
  then show ?thesis using g by (simp add: aired_guest_def field_def)
qed

end
