(* ===== verification/Worker_Loop.thy ===== *)
theory Worker_Loop
  imports Settings
begin

text \<open>
  The loops that run the station workers (\<open>engine/worker_loop.py\<close>), the supervisor they ask
  (\<open>engine/runtime_supervisor.py\<close>, \<open>engine/recovery_policy.py\<close>) and the audio they fall back to
  (\<open>engine/continuity.py\<close>). Several threads share the table of loops under one lock; a step is what a
  thread does while it holds the lock, or the tick itself, whose outcome is part of the step.
\<close>

section \<open>Backing off\<close>

definition failure_backoff_schedule :: "rat list" where
  "failure_backoff_schedule = [1, 2, 5, 15, 30, 60]"

definition failure_backoff_seconds :: "nat \<Rightarrow> rat \<Rightarrow> rat" where
  "failure_backoff_seconds failures interval =
     max (max (1 / 10) interval)
       (failure_backoff_schedule ! min (max 1 failures - 1) (length failure_backoff_schedule - 1))"

section \<open>Supervision\<close>

definition decide_recovery_action :: "bool \<Rightarrow> bool \<Rightarrow> string" where
  "decide_recovery_action component_error recoverable =
     (if \<not> component_error then ''none'' else if recoverable then ''degrade'' else ''restart_last_resort'')"

text \<open>What the runtime reports; a value it leaves out is the default the supervisor puts.\<close>

record runtime_report =
  rr_running :: bool
  rr_program_running :: bool
  rr_icecast :: bool
  rr_local :: bool
  rr_icecast_required :: bool
  rr_local_required :: bool

text \<open>
  \<open>evaluate_station\<close>: the action and whether the runtime is asked to recover its outputs.
\<close>

definition evaluate_station :: "runtime_report \<Rightarrow> string \<times> bool" where
  "evaluate_station r =
     (if \<not> rr_running r then
        (if rr_program_running r then (''degrade'', True) else (decide_recovery_action True False, False))
      else if rr_icecast_required r \<and> \<not> rr_icecast r then (decide_recovery_action True True, True)
      else if rr_local_required r \<and> \<not> rr_local r then (decide_recovery_action True True, True)
      else (''none'', False))"

text \<open>The report of the supervisor has a station and an action, and no other of the keys that are read.\<close>

definition supervisor_report :: "int \<Rightarrow> runtime_report \<Rightarrow> (string \<times> string) list" where
  "supervisor_report st r = [(''station_id'', int_str st), (''action'', fst (evaluate_station r))]"

definition report_value :: "string \<Rightarrow> (string \<times> string) list \<Rightarrow> string \<Rightarrow> string" where
  "report_value k r dflt = (case map_of r k of None \<Rightarrow> dflt | Some v \<Rightarrow> or_default dflt v)"

section \<open>Continuity audio\<close>

definition fallback_setting_keys :: "string list" where
  "fallback_setting_keys = [''continuity_fallback_uri'', ''fallback_uri'']"

definition default_continuity_uri :: string where
  "default_continuity_uri = ''silence://continuous''"

definition normalize_fallback_uri :: "(string \<Rightarrow> string) \<Rightarrow> string \<Rightarrow> string" where
  "normalize_fallback_uri resolve raw = (if strip raw = [] then [] else strip (resolve (strip raw)))"

text \<open>\<open>resolve\<close> stands for the media paths of the node.\<close>

definition resolve_station_fallback_uri :: "(string \<Rightarrow> string) \<Rightarrow> int \<Rightarrow> db \<Rightarrow> string \<Rightarrow> string" where
  "resolve_station_fallback_uri resolve st d requested =
     (let candidates = normalize_fallback_uri resolve requested #
            concat (map (\<lambda>s. map (\<lambda>k. normalize_fallback_uri resolve (setting s k [])) fallback_setting_keys)
              [get_station st d, get_system d])
      in case find (\<lambda>u. u \<noteq> []) candidates of None \<Rightarrow> default_continuity_uri | Some u \<Rightarrow> u)"

section \<open>Loops and threads\<close>

text \<open>
  The entry of a station in \<open>_loops\<close>. The stop event belongs to the entry and its thread, so it is kept with
  the thread, whose number is \<open>lo_thread\<close>. \<open>next_recovery_at\<close> is never read and \<open>runtime_bad_since\<close> never set.
\<close>

record loop_entry =
  lo_thread :: nat
  lo_uri :: string
  lo_interval :: rat
  lo_ticks :: nat
  lo_sequence :: int
  lo_error :: string
  lo_failures :: nat
  lo_backoff :: rat
  lo_next :: rat
  lo_action :: string
  lo_ticking :: bool
  lo_started :: rat
  lo_completed :: rat
  lo_heartbeat :: rat

text \<open>
  Where a thread is: before the stop event is asked, after it is asked, in a tick with the settings it
  read, waiting for the next tick, or gone.
\<close>

datatype loop_pc = Checking | Reading | Ticking string | Pausing | Gone

record loop_thread =
  lt_station :: int
  lt_stop :: bool
  lt_pc :: loop_pc

text \<open>\<open>mg_joins\<close>: the calls of \<open>stop\<close> that wait for a thread.\<close>

record manager =
  mg_loops :: "int \<Rightarrow> loop_entry option"
  mg_threads :: "loop_thread list"
  mg_joins :: "(int \<times> nat) list"

definition no_loops :: manager where
  "no_loops = \<lparr>mg_loops = (\<lambda>_. None), mg_threads = [], mg_joins = []\<rparr>"

definition thread_alive :: "nat \<Rightarrow> manager \<Rightarrow> bool" where
  "thread_alive g m \<longleftrightarrow> g < length (mg_threads m) \<and> lt_pc (mg_threads m ! g) \<noteq> Gone"

definition stop_set :: "nat \<Rightarrow> manager \<Rightarrow> bool" where
  "stop_set g m \<longleftrightarrow> g < length (mg_threads m) \<and> lt_stop (mg_threads m ! g)"

section \<open>The manager's calls\<close>

definition new_entry :: "nat \<Rightarrow> string \<Rightarrow> rat \<Rightarrow> rat \<Rightarrow> loop_entry" where
  "new_entry g uri interval now = \<lparr>lo_thread = g, lo_uri = uri, lo_interval = interval, lo_ticks = 0, lo_sequence = 0,
     lo_error = [], lo_failures = 0, lo_backoff = 0, lo_next = 0, lo_action = ''none'', lo_ticking = False,
     lo_started = 0, lo_completed = now, lo_heartbeat = now\<rparr>"

text \<open>\<open>start\<close> with the resolved audio; the flag tells whether a running loop is reused.\<close>

definition start_loop :: "int \<Rightarrow> string \<Rightarrow> rat \<Rightarrow> rat \<Rightarrow> manager \<Rightarrow> bool \<times> manager" where
  "start_loop st uri interval now m =
     (let safe = max (1 / 10) interval in
      case mg_loops m st of
        Some e \<Rightarrow>
          if thread_alive (lo_thread e) m
          then (True, m\<lparr>mg_loops := (mg_loops m)(st \<mapsto> e\<lparr>lo_uri := uri, lo_interval := safe\<rparr>)\<rparr>)
          else (False, m\<lparr>mg_loops := (mg_loops m)(st \<mapsto> new_entry (length (mg_threads m)) uri safe now),
                 mg_threads := mg_threads m @ [\<lparr>lt_station = st, lt_stop = False, lt_pc = Checking\<rparr>]\<rparr>)
      | None \<Rightarrow> (False, m\<lparr>mg_loops := (mg_loops m)(st \<mapsto> new_entry (length (mg_threads m)) uri safe now),
                 mg_threads := mg_threads m @ [\<lparr>lt_station = st, lt_stop = False, lt_pc = Checking\<rparr>]\<rparr>))"

text \<open>\<open>stop\<close> before and after it waits for the thread, at most 15 seconds.\<close>

definition stop_begin :: "int \<Rightarrow> manager \<Rightarrow> manager" where
  "stop_begin st m = (case mg_loops m st of
     None \<Rightarrow> m
   | Some e \<Rightarrow> m\<lparr>mg_threads := (mg_threads m)[lo_thread e := (mg_threads m ! lo_thread e)\<lparr>lt_stop := True\<rparr>],
       mg_joins := (st, lo_thread e) # mg_joins m\<rparr>)"

definition stop_end :: "int \<Rightarrow> nat \<Rightarrow> manager \<Rightarrow> manager" where
  "stop_end st g m =
     (let m1 = m\<lparr>mg_joins := remove1 (st, g) (mg_joins m)\<rparr> in
      case mg_loops m st of
        Some e \<Rightarrow> if lo_thread e = g \<and> \<not> thread_alive g m then m1\<lparr>mg_loops := (mg_loops m)(st := None)\<rparr> else m1
      | None \<Rightarrow> m1)"

definition worker_tick_stall_seconds :: rat where
  "worker_tick_stall_seconds = 60"

record status_report =
  ls_running :: bool
  ls_stopping :: bool
  ls_ticks :: nat
  ls_failures :: nat
  ls_next_in :: rat
  ls_elapsed :: rat
  ls_stalled :: bool

text \<open>\<open>status\<close>, without the texts; a start time of zero counts as now.\<close>

definition loop_status :: "int \<Rightarrow> rat \<Rightarrow> manager \<Rightarrow> status_report" where
  "loop_status st now m = (case mg_loops m st of
     None \<Rightarrow> \<lparr>ls_running = False, ls_stopping = False, ls_ticks = 0, ls_failures = 0, ls_next_in = 0, ls_elapsed = 0,
       ls_stalled = False\<rparr>
   | Some e \<Rightarrow>
       let running = thread_alive (lo_thread e) m;
           elapsed = (if lo_ticking e then max 0 (now - (if lo_started e = 0 then now else lo_started e)) else 0)
       in \<lparr>ls_running = running, ls_stopping = stop_set (lo_thread e) m, ls_ticks = lo_ticks e, ls_failures = lo_failures e,
            ls_next_in = max 0 (lo_next e - now), ls_elapsed = elapsed,
            ls_stalled = (running \<and> lo_ticking e \<and> worker_tick_stall_seconds \<le> elapsed)\<rparr>)"

section \<open>Steps\<close>

text \<open>
  \<open>Ask\<close> is the condition of the loop; \<open>Read\<close> reads the entry and begins a tick or waits out the delay;
  \<open>Tick_Done\<close> is the end of a tick at a time, with the supervisor's action and either the queue sequence
  it evaluated or the error; \<open>Wake\<close> ends the waiting, when the event is set, the time has passed or the
  audio process has ended.
\<close>

datatype loop_event =
    Start_Loop int string rat rat
  | Stop_Begin int
  | Stop_End int nat
  | Ask nat
  | Read nat rat
  | Tick_Done nat rat "string option" "string + int"
  | Wake nat

definition set_pc :: "nat \<Rightarrow> loop_pc \<Rightarrow> manager \<Rightarrow> manager" where
  "set_pc g pc m = m\<lparr>mg_threads := (mg_threads m)[g := (mg_threads m ! g)\<lparr>lt_pc := pc\<rparr>]\<rparr>"

definition entry_of :: "nat \<Rightarrow> manager \<Rightarrow> loop_entry option" where
  "entry_of g m = mg_loops m (lt_station (mg_threads m ! g))"

definition put_entry :: "nat \<Rightarrow> loop_entry \<Rightarrow> manager \<Rightarrow> manager" where
  "put_entry g e m = m\<lparr>mg_loops := (mg_loops m)(lt_station (mg_threads m ! g) \<mapsto> e)\<rparr>"

definition begin_tick :: "rat \<Rightarrow> loop_entry \<Rightarrow> loop_entry" where
  "begin_tick now e = e\<lparr>lo_ticking := True, lo_started := now, lo_heartbeat := now\<rparr>"

definition read_entry :: "nat \<Rightarrow> rat \<Rightarrow> manager \<Rightarrow> manager" where
  "read_entry g now m = (case entry_of g m of
     None \<Rightarrow> set_pc g Gone m
   | Some e \<Rightarrow>
       if 0 < lo_next e - now then set_pc g Pausing (put_entry g (e\<lparr>lo_heartbeat := now\<rparr>) m)
       else set_pc g (Ticking (lo_uri e)) (put_entry g (begin_tick now e) m))"

definition end_tick :: "rat \<Rightarrow> string option \<Rightarrow> string + int \<Rightarrow> loop_entry \<Rightarrow> loop_entry" where
  "end_tick now action outcome e =
     (let e1 = (case action of None \<Rightarrow> e | Some a \<Rightarrow> e\<lparr>lo_action := a\<rparr>);
          e2 = (case outcome of
              Inr seq \<Rightarrow> e1\<lparr>lo_error := [], lo_failures := 0, lo_backoff := 0, lo_next := 0, lo_sequence := seq\<rparr>
            | Inl err \<Rightarrow>
                let backoff = failure_backoff_seconds (lo_failures e + 1) (lo_interval e)
                in e1\<lparr>lo_error := err, lo_failures := lo_failures e + 1, lo_backoff := backoff, lo_next := now + backoff\<rparr>)
      in e2\<lparr>lo_ticks := lo_ticks e + 1, lo_ticking := False, lo_completed := now, lo_heartbeat := now\<rparr>)"

definition finish_tick :: "nat \<Rightarrow> rat \<Rightarrow> string option \<Rightarrow> string + int \<Rightarrow> manager \<Rightarrow> manager" where
  "finish_tick g now action outcome m = set_pc g Pausing
     (case entry_of g m of None \<Rightarrow> m | Some e \<Rightarrow> put_entry g (end_tick now action outcome e) m)"

text \<open>The audio a tick starts for a station that does not run: the settings the thread read before.\<close>

definition emergency_fallback :: "string option \<Rightarrow> string \<Rightarrow> string option" where
  "emergency_fallback action uri = (if action = Some ''restart_last_resort'' \<and> uri \<noteq> [] then Some uri else None)"

inductive loop_step :: "manager \<Rightarrow> loop_event \<Rightarrow> manager \<Rightarrow> bool" where
  start: "loop_step m (Start_Loop st uri interval now) (snd (start_loop st uri interval now m))"
| stop: "loop_step m (Stop_Begin st) (stop_begin st m)"
| joined: "(st, g) \<in> set (mg_joins m) \<Longrightarrow> loop_step m (Stop_End st g) (stop_end st g m)"
| ask: "thread_alive g m \<Longrightarrow> lt_pc (mg_threads m ! g) = Checking
    \<Longrightarrow> loop_step m (Ask g) (set_pc g (if stop_set g m then Gone else Reading) m)"
| read: "thread_alive g m \<Longrightarrow> lt_pc (mg_threads m ! g) = Reading \<Longrightarrow> loop_step m (Read g now) (read_entry g now m)"
| tick: "thread_alive g m \<Longrightarrow> lt_pc (mg_threads m ! g) = Ticking uri
    \<Longrightarrow> loop_step m (Tick_Done g now action outcome) (finish_tick g now action outcome m)"
| wake: "thread_alive g m \<Longrightarrow> lt_pc (mg_threads m ! g) = Pausing \<Longrightarrow> loop_step m (Wake g) (set_pc g Checking m)"

code_pred (modes: i \<Rightarrow> i \<Rightarrow> o \<Rightarrow> bool) loop_step .

inductive_cases loop_stepE: "loop_step m ev m'"

inductive loop_run :: "manager \<Rightarrow> loop_event list \<Rightarrow> manager \<Rightarrow> bool" where
  idle: "loop_run m [] m"
| more: "loop_run m evs m1 \<Longrightarrow> loop_step m1 ev m2 \<Longrightarrow> loop_run m (evs @ [ev]) m2"

end
