(* ===== verification/Worker_Loop_Laws.thy ===== *)
theory Worker_Loop_Laws
  imports Worker_Loop
begin

text \<open>One loop per station, the end of a stopped loop, and the delays after failures.\<close>

section \<open>One loop per station\<close>

definition sole_loops :: "manager \<Rightarrow> bool" where
  "sole_loops m \<longleftrightarrow>
     (\<forall>st e. mg_loops m st = Some e \<longrightarrow> lo_thread e < length (mg_threads m) \<and> lt_station (mg_threads m ! lo_thread e) = st)
     \<and> (\<forall>g. thread_alive g m \<longrightarrow> (\<exists>e. entry_of g m = Some e \<and> lo_thread e = g
            \<and> lo_ticking e = (\<exists>uri. lt_pc (mg_threads m ! g) = Ticking uri)))"

lemma sole_entry: "sole_loops m \<Longrightarrow> mg_loops m st = Some e \<Longrightarrow>
    lo_thread e < length (mg_threads m) \<and> lt_station (mg_threads m ! lo_thread e) = st"
  by (simp add: sole_loops_def)

lemma sole_thread: "sole_loops m \<Longrightarrow> thread_alive g m \<Longrightarrow>
    \<exists>e. entry_of g m = Some e \<and> lo_thread e = g \<and> lo_ticking e = (\<exists>uri. lt_pc (mg_threads m ! g) = Ticking uri)"
  by (simp add: sole_loops_def)

lemma threads_set_pc [simp]:
  "length (mg_threads (set_pc g pc m)) = length (mg_threads m)" "mg_loops (set_pc g pc m) = mg_loops m"
  "lt_station (mg_threads (set_pc g pc m) ! h) = lt_station (mg_threads m ! h)"
  "lt_stop (mg_threads (set_pc g pc m) ! h) = lt_stop (mg_threads m ! h)"
  "g < length (mg_threads m) \<Longrightarrow> lt_pc (mg_threads (set_pc g pc m) ! g) = pc"
  "h \<noteq> g \<Longrightarrow> mg_threads (set_pc g pc m) ! h = mg_threads m ! h"
proof -
  have same: "f (t\<lparr>lt_pc := pc\<rparr>) = f t \<Longrightarrow> f (mg_threads (set_pc g pc m) ! h) = f (mg_threads m ! h)"
    if "t = mg_threads m ! g" for f :: "loop_thread \<Rightarrow> 'x" and t
    by (cases "h = g"; cases "g < length (mg_threads m)") (simp_all add: set_pc_def that list_update_beyond)
  show "lt_station (mg_threads (set_pc g pc m) ! h) = lt_station (mg_threads m ! h)"
    "lt_stop (mg_threads (set_pc g pc m) ! h) = lt_stop (mg_threads m ! h)"
    by (rule same [OF refl], simp)+
qed (simp_all add: set_pc_def)

lemma put_entry_parts [simp]:
  "mg_threads (put_entry g e m) = mg_threads m"
  "mg_loops (put_entry g e m) = (mg_loops m)(lt_station (mg_threads m ! g) \<mapsto> e)"
  by (simp_all add: put_entry_def)

lemma alive_set_pc [simp]:
  "g < length (mg_threads m) \<Longrightarrow> thread_alive h (set_pc g pc m) \<longleftrightarrow> (if h = g then pc \<noteq> Gone else thread_alive h m)"
  by (auto simp: thread_alive_def)

lemma alive_put_entry [simp]: "thread_alive h (put_entry g e m) = thread_alive h m"
  by (simp add: thread_alive_def)

lemma tick_parts [simp]:
  "lo_thread (begin_tick now e) = lo_thread e" "lo_ticking (begin_tick now e)"
  "lo_thread (end_tick now a r e) = lo_thread e" "\<not> lo_ticking (end_tick now a r e)"
  by (auto simp: begin_tick_def end_tick_def Let_def split: option.splits sum.splits)

text \<open>A thread that moves, with the entry of its own station.\<close>

lemma sole_moves:
  assumes m: "sole_loops m" and g: "thread_alive g m" and e: "entry_of g m = Some e"
    and e': "lo_thread e' = g" "lo_ticking e' = (\<exists>uri. pc = Ticking uri)"
  shows "sole_loops (set_pc g pc (put_entry g e' m))"
  unfolding sole_loops_def
proof (intro conjI allI impI)
  have len: "g < length (mg_threads m)" using g by (simp add: thread_alive_def)
  fix st x assume "mg_loops (set_pc g pc (put_entry g e' m)) st = Some x"
  then show "lo_thread x < length (mg_threads (set_pc g pc (put_entry g e' m)))"
    "lt_station (mg_threads (set_pc g pc (put_entry g e' m)) ! lo_thread x) = st"
    using sole_entry [OF m, of st] e' len by (auto split: if_splits)
next
  have len: "g < length (mg_threads m)" using g by (simp add: thread_alive_def)
  have own: "lo_thread e = g" using sole_thread [OF m g] e by auto
  fix h assume h: "thread_alive h (set_pc g pc (put_entry g e' m))"
  show "\<exists>x. entry_of h (set_pc g pc (put_entry g e' m)) = Some x \<and> lo_thread x = h
      \<and> lo_ticking x = (\<exists>uri. lt_pc (mg_threads (set_pc g pc (put_entry g e' m)) ! h) = Ticking uri)"
  proof (cases "h = g")
    case True
    then show ?thesis using len e' by (simp add: entry_of_def)
  next
    case False
    then have "thread_alive h m" using h len by simp
    then obtain x where x: "entry_of h m = Some x" "lo_thread x = h"
      "lo_ticking x = (\<exists>uri. lt_pc (mg_threads m ! h) = Ticking uri)" using sole_thread [OF m] by blast
    have "lt_station (mg_threads m ! h) \<noteq> lt_station (mg_threads m ! g)"
    proof
      assume "lt_station (mg_threads m ! h) = lt_station (mg_threads m ! g)"
      then have "x = e" using e x(1) unfolding entry_of_def by simp
      then show False using x(2) own False by simp
    qed
    then have "entry_of h (set_pc g pc (put_entry g e' m)) = Some x" using x(1) by (simp add: entry_of_def)
    then show ?thesis using x(2,3) False by (intro exI [of _ x]) simp
  qed
qed

lemma put_same_entry: "entry_of g m = Some e \<Longrightarrow> put_entry g e m = m"
  by (simp add: put_entry_def entry_of_def fun_upd_idem)

lemma sole_set_pc:
  assumes "sole_loops m" "thread_alive g m" "\<not> (\<exists>uri. lt_pc (mg_threads m ! g) = Ticking uri)" "\<not> (\<exists>uri. pc = Ticking uri)"
  shows "sole_loops (set_pc g pc m)"
proof -
  obtain e where e: "entry_of g m = Some e" "lo_thread e = g" "\<not> lo_ticking e"
    using sole_thread [OF assms(1,2)] assms(3) by auto
  then show ?thesis using sole_moves [OF assms(1,2) e(1), of e pc] assms(4) put_same_entry [OF e(1)] by simp
qed

lemma sole_start:
  assumes "sole_loops m" shows "sole_loops (snd (start_loop st uri interval now m))"
proof (cases "\<exists>e. mg_loops m st = Some e \<and> thread_alive (lo_thread e) m")
  case True
  then obtain e where e: "mg_loops m st = Some e" "thread_alive (lo_thread e) m" by blast
  let ?e = "e\<lparr>lo_uri := uri, lo_interval := max (1 / 10) interval\<rparr>"
  have st: "lt_station (mg_threads m ! lo_thread e) = st" using sole_entry [OF assms e(1)] by blast
  have own: "entry_of (lo_thread e) m = Some e" using e(1) st by (simp add: entry_of_def)
  have pc: "set_pc (lo_thread e) (lt_pc (mg_threads m ! lo_thread e)) n = n" if "mg_threads n = mg_threads m" for n
    by (simp add: set_pc_def that)
  have "sole_loops (set_pc (lo_thread e) (lt_pc (mg_threads m ! lo_thread e)) (put_entry (lo_thread e) ?e m))"
    using sole_thread [OF assms e(2)] own by (intro sole_moves [OF assms e(2) own]) simp_all
  then have "sole_loops (put_entry (lo_thread e) ?e m)" by (simp add: pc)
  then show ?thesis using e st by (simp add: start_loop_def Let_def put_entry_def)
next
  case False
  let ?m = "m\<lparr>mg_loops := (mg_loops m)(st \<mapsto> new_entry (length (mg_threads m)) uri (max (1 / 10) interval) now),
     mg_threads := mg_threads m @ [\<lparr>lt_station = st, lt_stop = False, lt_pc = Checking\<rparr>]\<rparr>"
  have res: "snd (start_loop st uri interval now m) = ?m"
    using False by (auto simp: start_loop_def Let_def split: option.splits)
  have none: "lt_station (mg_threads m ! g) \<noteq> st" if "thread_alive g m" for g
    using sole_thread [OF assms that] False that by (auto simp: entry_of_def)
  have alive: "thread_alive g ?m \<longleftrightarrow> g = length (mg_threads m) \<or> thread_alive g m" for g
    by (auto simp: thread_alive_def nth_append less_Suc_eq)
  have "\<exists>e. entry_of g ?m = Some e \<and> lo_thread e = g \<and> lo_ticking e = (\<exists>uri. lt_pc (mg_threads ?m ! g) = Ticking uri)"
    if g: "thread_alive g ?m" for g
  proof (cases "g = length (mg_threads m)")
    case True
    then show ?thesis by (simp add: entry_of_def new_entry_def)
  next
    case False
    then have "thread_alive g m" using g alive by blast
    then show ?thesis using sole_thread [OF assms, of g] none [of g]
      by (auto simp: entry_of_def thread_alive_def nth_append)
  qed
  moreover have "lo_thread e < length (mg_threads ?m) \<and> lt_station (mg_threads ?m ! lo_thread e) = x"
    if "mg_loops ?m x = Some e" for x e
    using that sole_entry [OF assms, of x e] by (auto simp: new_entry_def nth_append less_Suc_eq split: if_splits)
  ultimately show ?thesis unfolding res sole_loops_def by blast
qed

lemma stop_threads:
  assumes "sole_loops m"
  shows "mg_loops (stop_begin st m) = mg_loops m" "length (mg_threads (stop_begin st m)) = length (mg_threads m)"
    "lt_station (mg_threads (stop_begin st m) ! g) = lt_station (mg_threads m ! g)"
    "lt_pc (mg_threads (stop_begin st m) ! g) = lt_pc (mg_threads m ! g)"
    "lt_stop (mg_threads m ! g) \<Longrightarrow> lt_stop (mg_threads (stop_begin st m) ! g)"
  using sole_entry [OF assms, of st]
  by (auto simp: stop_begin_def nth_list_update split: option.splits)

lemma sole_stop_begin:
  assumes "sole_loops m" shows "sole_loops (stop_begin st m)"
  using assms stop_threads [OF assms, where st = st] unfolding sole_loops_def thread_alive_def entry_of_def by simp

lemma sole_stop_end:
  assumes "sole_loops m" shows "sole_loops (stop_end st g m)"
proof (cases "\<exists>e. mg_loops m st = Some e \<and> lo_thread e = g \<and> \<not> thread_alive g m")
  case True
  then obtain e where e: "mg_loops m st = Some e" "lo_thread e = g" "\<not> thread_alive g m" by blast
  have res: "mg_loops (stop_end st g m) = (mg_loops m)(st := None)" "mg_threads (stop_end st g m) = mg_threads m"
    using e by (simp_all add: stop_end_def Let_def)
  have "lt_station (mg_threads m ! h) \<noteq> st" if h: "thread_alive h m" for h
  proof
    assume "lt_station (mg_threads m ! h) = st"
    then have "lo_thread e = h" using sole_thread [OF assms h] e(1) by (auto simp: entry_of_def)
    then show False using e h by simp
  qed
  then show ?thesis using assms unfolding sole_loops_def by (auto simp: res thread_alive_def entry_of_def)
next
  case False
  then have "mg_loops (stop_end st g m) = mg_loops m" "mg_threads (stop_end st g m) = mg_threads m"
    by (auto simp: stop_end_def Let_def split: option.splits)
  then show ?thesis using assms unfolding sole_loops_def by (simp add: thread_alive_def entry_of_def)
qed

lemma sole_read:
  assumes "sole_loops m" "thread_alive g m" "lt_pc (mg_threads m ! g) = Reading"
  shows "sole_loops (read_entry g now m)"
proof -
  obtain e where e: "entry_of g m = Some e" "lo_thread e = g" "\<not> lo_ticking e" using sole_thread [OF assms(1,2)] assms(3) by auto
  show ?thesis
    using sole_moves [OF assms(1,2) e(1), of "e\<lparr>lo_heartbeat := now\<rparr>" Pausing]
      sole_moves [OF assms(1,2) e(1), of "begin_tick now e" "Ticking (lo_uri e)"] e
    by (simp add: read_entry_def)
qed

lemma sole_finish:
  assumes "sole_loops m" "thread_alive g m"
  shows "sole_loops (finish_tick g now action outcome m)"
proof -
  obtain e where e: "entry_of g m = Some e" "lo_thread e = g" using sole_thread [OF assms] by auto
  show ?thesis
    using sole_moves [OF assms e(1), of "end_tick now action outcome e" Pausing] e by (simp add: finish_tick_def)
qed

lemma sole_step: "loop_step m ev m' \<Longrightarrow> sole_loops m \<Longrightarrow> sole_loops m'"
  by (induction rule: loop_step.induct)
     (simp_all add: sole_start sole_stop_begin sole_stop_end sole_read sole_finish sole_set_pc)

lemma sole_run: "loop_run m evs m' \<Longrightarrow> sole_loops m \<Longrightarrow> sole_loops m'"
  by (induction rule: loop_run.induct) (auto intro: sole_step)

lemma sole_no_loops: "sole_loops no_loops"
  by (simp add: sole_loops_def no_loops_def thread_alive_def)

text \<open>
  C14: in every run of the threads and the calls of the manager at most one loop of a station is alive,
  it is the one in the table, and the table says that a tick is in progress exactly when the loop ticks:
  no two ticks of a station overlap in one process.
\<close>

theorem one_loop_per_station:
  assumes "loop_run no_loops evs m" "thread_alive g m"
  shows "(thread_alive h m \<and> lt_station (mg_threads m ! h) = lt_station (mg_threads m ! g) \<longrightarrow> h = g)
    \<and> (\<exists>e. mg_loops m (lt_station (mg_threads m ! g)) = Some e \<and> lo_thread e = g
        \<and> lo_ticking e = (\<exists>uri. lt_pc (mg_threads m ! g) = Ticking uri))"
proof -
  have sole: "sole_loops m" using sole_run [OF assms(1) sole_no_loops] .
  obtain e where e: "entry_of g m = Some e" "lo_thread e = g" "lo_ticking e = (\<exists>uri. lt_pc (mg_threads m ! g) = Ticking uri)"
    using sole_thread [OF sole assms(2)] by blast
  have "h = g" if h: "thread_alive h m" "lt_station (mg_threads m ! h) = lt_station (mg_threads m ! g)"
  proof -
    obtain x where "entry_of h m = Some x" "lo_thread x = h" using sole_thread [OF sole h(1)] by blast
    then show "h = g" using e(1,2) h(2) unfolding entry_of_def by simp
  qed
  then show ?thesis using e unfolding entry_of_def by blast
qed

section \<open>A stopped loop ends\<close>

fun own_event :: "nat \<Rightarrow> loop_event \<Rightarrow> bool" where
  "own_event g (Ask h) = (h = g)"
| "own_event g (Read h _) = (h = g)"
| "own_event g (Tick_Done h _ _ _) = (h = g)"
| "own_event g (Wake h) = (h = g)"
| "own_event g _ = False"

fun done_by :: "nat \<Rightarrow> loop_event \<Rightarrow> bool" where
  "done_by g (Tick_Done h _ _ _) = (h = g)"
| "done_by g _ = False"

text \<open>The steps a stopped thread can still make, and the ticks it can still end.\<close>

fun steps_left :: "loop_pc \<Rightarrow> nat" where
  "steps_left Reading = 4"
| "steps_left (Ticking _) = 3"
| "steps_left Pausing = 2"
| "steps_left Checking = 1"
| "steps_left Gone = 0"

fun ticks_left :: "loop_pc \<Rightarrow> nat" where
  "ticks_left Reading = 1"
| "ticks_left (Ticking _) = 1"
| "ticks_left _ = 0"

lemma other_threads:
  assumes "loop_step m ev m'" "sole_loops m" "g < length (mg_threads m)" "\<not> own_event g ev"
  shows "g < length (mg_threads m') \<and> lt_pc (mg_threads m' ! g) = lt_pc (mg_threads m ! g)
    \<and> (lt_stop (mg_threads m ! g) \<longrightarrow> lt_stop (mg_threads m' ! g))"
  using assms
proof (cases rule: loop_step.cases)
  case (start st uri interval now)
  then show ?thesis using assms by (auto simp: start_loop_def Let_def nth_append split: option.splits)
next
  case (stop st)
  then show ?thesis using assms stop_threads [OF assms(2), where st = st] by simp
next
  case (joined st h)
  then show ?thesis using assms by (auto simp: stop_end_def Let_def split: option.splits)
next
  case (read h now)
  then have "h \<noteq> g" using assms(4) by auto
  then show ?thesis using read assms by (auto simp: read_entry_def split: option.splits)
next
  case (tick h uri now a r)
  then have "h \<noteq> g" using assms(4) by auto
  then show ?thesis using tick assms by (auto simp: finish_tick_def split: option.splits)
qed (use assms in auto)

lemma stopped_step:
  assumes "loop_step m ev m'" "sole_loops m" "stop_set g m"
  shows "stop_set g m' \<and> steps_left (lt_pc (mg_threads m' ! g)) + of_bool (own_event g ev) \<le> steps_left (lt_pc (mg_threads m ! g))
    \<and> ticks_left (lt_pc (mg_threads m' ! g)) + of_bool (done_by g ev) \<le> ticks_left (lt_pc (mg_threads m ! g))"
proof (cases "own_event g ev")
  case False
  then have "\<not> done_by g ev" by (cases ev) auto
  then show ?thesis using other_threads [OF assms(1,2) _ False] assms(3) False by (simp add: stop_set_def)
next
  case True
  have len: "g < length (mg_threads m)" using assms(3) by (simp add: stop_set_def)
  show ?thesis using assms(1)
  proof (cases rule: loop_step.cases)
    case (ask h)
    then show ?thesis using True assms(3) len by (simp add: stop_set_def)
  next
    case (read h now)
    then show ?thesis using True assms(3) len by (auto simp: stop_set_def read_entry_def split: option.splits)
  next
    case (tick h uri now a r)
    then show ?thesis using True assms(3) len by (auto simp: stop_set_def finish_tick_def split: option.splits)
  next
    case (wake h)
    then show ?thesis using True assms(3) len by (simp add: stop_set_def)
  qed (use True in auto)
qed

lemma stopped_run:
  "loop_run m evs m' \<Longrightarrow> sole_loops m \<Longrightarrow> stop_set g m \<Longrightarrow> stop_set g m'
    \<and> steps_left (lt_pc (mg_threads m' ! g)) + length (filter (own_event g) evs) \<le> steps_left (lt_pc (mg_threads m ! g))
    \<and> ticks_left (lt_pc (mg_threads m' ! g)) + length (filter (done_by g) evs) \<le> ticks_left (lt_pc (mg_threads m ! g))"
proof (induction rule: loop_run.induct)
  case (more m evs m1 ev m2)
  then have "sole_loops m1" using sole_run by blast
  then show ?case using stopped_step [OF more.hyps(2), of g] more by (auto simp: of_bool_def split: if_splits)
qed simp

lemma alive_moves: "thread_alive g m \<Longrightarrow> \<exists>ev m'. own_event g ev \<and> loop_step m ev m'"
proof (cases "lt_pc (mg_threads m ! g)")
  case Checking
  assume "thread_alive g m"
  then show ?thesis using loop_step.ask [OF _ Checking] by (intro exI [of _ "Ask g"]) auto
next
  case Reading
  assume "thread_alive g m"
  then show ?thesis using loop_step.read [OF _ Reading] by (intro exI [of _ "Read g 0"]) auto
next
  case (Ticking uri)
  assume "thread_alive g m"
  then show ?thesis using loop_step.tick [OF _ Ticking] by (intro exI [of _ "Tick_Done g 0 None (Inr 0)"]) auto
next
  case Pausing
  assume "thread_alive g m"
  then show ?thesis using loop_step.wake [OF _ Pausing] by (intro exI [of _ "Wake g"]) auto
qed (simp add: thread_alive_def)

text \<open>
  C15: after a stop the loop of the station ends at most one more tick and makes at most four more steps,
  whatever the other threads and callers do, a later start included; as long as it lives it can make a
  step, and after the fourth it is gone.
\<close>

theorem stopped_loop_ends:
  assumes "loop_run no_loops evs m" "mg_loops m st = Some e" "thread_alive (lo_thread e) m"
    and "loop_run (stop_begin st m) evs' m'"
  shows "length (filter (done_by (lo_thread e)) evs') \<le> 1 \<and> length (filter (own_event (lo_thread e)) evs') \<le> 4
    \<and> (length (filter (own_event (lo_thread e)) evs') = 4 \<longrightarrow> \<not> thread_alive (lo_thread e) m')
    \<and> (thread_alive (lo_thread e) m' \<longrightarrow> (\<exists>ev m''. own_event (lo_thread e) ev \<and> loop_step m' ev m''))"
proof -
  have sole: "sole_loops m" using sole_run [OF assms(1) sole_no_loops] .
  have "stop_set (lo_thread e) (stop_begin st m)"
    using sole_entry [OF sole assms(2)] assms(2) by (simp add: stop_set_def stop_begin_def)
  from stopped_run [OF assms(4) sole_stop_begin [OF sole] this]
  have left: "steps_left (lt_pc (mg_threads m' ! lo_thread e)) + length (filter (own_event (lo_thread e)) evs')
      \<le> steps_left (lt_pc (mg_threads (stop_begin st m) ! lo_thread e))"
    "length (filter (done_by (lo_thread e)) evs') \<le> ticks_left (lt_pc (mg_threads (stop_begin st m) ! lo_thread e))" by auto
  have bound: "steps_left pc \<le> 4" "ticks_left pc \<le> 1" "steps_left pc = 0 \<Longrightarrow> pc = Gone" for pc by (cases pc; simp)+
  have "lt_pc (mg_threads m' ! lo_thread e) = Gone" if "length (filter (own_event (lo_thread e)) evs') = 4"
    by (rule bound(3)) (use left(1) bound(1) [of "lt_pc (mg_threads (stop_begin st m) ! lo_thread e)"] that in linarith)
  moreover have "length (filter (done_by (lo_thread e)) evs') \<le> 1" "length (filter (own_event (lo_thread e)) evs') \<le> 4"
    using left bound(1,2) [of "lt_pc (mg_threads (stop_begin st m) ! lo_thread e)"] by linarith+
  ultimately show ?thesis using alive_moves [of "lo_thread e" m'] by (auto simp: thread_alive_def)
qed

section \<open>Delays after failures\<close>

fun failed_tick :: "loop_event \<Rightarrow> bool" where
  "failed_tick (Tick_Done _ _ _ r) = isl r"
| "failed_tick _ = False"

definition failures_in_row :: "nat \<Rightarrow> loop_event list \<Rightarrow> nat" where
  "failures_in_row g evs = length (takeWhile failed_tick (rev (filter (done_by g) evs)))"

lemma failures_snoc:
  "failures_in_row g (evs @ [ev]) = (if done_by g ev then (if failed_tick ev then Suc (failures_in_row g evs) else 0)
     else failures_in_row g evs)"
  by (simp add: failures_in_row_def)

definition counted :: "loop_event list \<Rightarrow> manager \<Rightarrow> bool" where
  "counted evs m \<longleftrightarrow> (\<forall>g. length (mg_threads m) \<le> g \<longrightarrow> filter (done_by g) evs = [])
     \<and> (\<forall>st e. mg_loops m st = Some e \<longrightarrow> lo_failures e = failures_in_row (lo_thread e) evs)"

lemma counted_same:
  "counted evs m \<Longrightarrow> (\<And>g. \<not> done_by g ev) \<Longrightarrow> length (mg_threads m) \<le> length (mg_threads m') \<Longrightarrow>
    (\<And>st e'. mg_loops m' st = Some e' \<Longrightarrow> (\<exists>e. mg_loops m st = Some e \<and> lo_thread e' = lo_thread e \<and> lo_failures e' = lo_failures e))
    \<Longrightarrow> counted (evs @ [ev]) m'"
  unfolding counted_def failures_snoc by (auto; fastforce)

lemma counted_start:
  assumes "counted evs m" "ev = Start_Loop st uri interval now"
  shows "counted (evs @ [ev]) (snd (start_loop st uri interval now m))"
proof -
  have old: "failures_in_row (length (mg_threads m)) evs = 0"
    using assms(1) by (simp add: counted_def failures_in_row_def)
  show ?thesis using assms old
    by (auto simp: counted_def failures_snoc start_loop_def new_entry_def Let_def split: option.splits if_splits)
qed

lemma counted_tick:
  assumes c: "counted evs m" and m: "sole_loops m" and g: "thread_alive g m"
  shows "counted (evs @ [Tick_Done g now a r]) (finish_tick g now a r m)"
proof -
  obtain e where e: "entry_of g m = Some e" "lo_thread e = g" using sole_thread [OF m g] by blast
  have len: "g < length (mg_threads m)" using g by (simp add: thread_alive_def)
  have fails: "lo_failures e = failures_in_row g evs" using c e by (auto simp: counted_def entry_of_def)
  have new: "lo_failures (end_tick now a r e) = (if isl r then Suc (failures_in_row g evs) else 0)"
    using fails by (auto simp: end_tick_def Let_def split: option.splits sum.splits)
  have other: "lo_thread x \<noteq> g" if "mg_loops m st = Some x" "st \<noteq> lt_station (mg_threads m ! g)" for st x
    using sole_entry [OF m that(1)] that(2) by auto
  show ?thesis using c e new len
    by (auto simp: counted_def failures_snoc finish_tick_def dest: other)
qed

lemma counted_step:
  assumes "loop_step m ev m'" "sole_loops m" "counted evs m"
  shows "counted (evs @ [ev]) m'"
  using assms(1)
proof (cases rule: loop_step.cases)
  case (start st uri interval now)
  then show ?thesis using counted_start [OF assms(3)] by simp
next
  case (stop st)
  then show ?thesis using stop_threads [OF assms(2), where st = st] by (intro counted_same [OF assms(3)]) auto
next
  case (joined st g)
  then show ?thesis by (intro counted_same [OF assms(3)]) (auto simp: stop_end_def Let_def split: option.splits if_splits)
next
  case (ask g)
  then show ?thesis by (intro counted_same [OF assms(3)]) auto
next
  case (read g now)
  then show ?thesis
    by (intro counted_same [OF assms(3)]) (auto simp: read_entry_def begin_tick_def entry_of_def split: option.splits if_splits)
next
  case (tick g uri now a r)
  then show ?thesis using counted_tick [OF assms(3,2)] by simp
next
  case (wake g)
  then show ?thesis by (intro counted_same [OF assms(3)]) auto
qed

lemma counted_run: "loop_run m evs m' \<Longrightarrow> m = no_loops \<Longrightarrow> counted evs m'"
proof (induction rule: loop_run.induct)
  case (more m evs m1 ev m2)
  then show ?case using counted_step [OF more.hyps(2)] sole_run [OF more.hyps(1)] sole_no_loops by blast
qed (simp add: counted_def no_loops_def)

text \<open>The loop waits until a time: it does not tick and its entry holds the time.\<close>

definition waits :: "nat \<Rightarrow> rat \<Rightarrow> manager \<Rightarrow> bool" where
  "waits g t m \<longleftrightarrow> g < length (mg_threads m) \<and> \<not> (\<exists>uri. lt_pc (mg_threads m ! g) = Ticking uri)
     \<and> (\<forall>e. mg_loops m (lt_station (mg_threads m ! g)) = Some e \<longrightarrow> lo_thread e = g \<longrightarrow> t \<le> lo_next e)"

definition ticks_now :: "nat \<Rightarrow> manager \<Rightarrow> bool" where
  "ticks_now g m \<longleftrightarrow> g < length (mg_threads m) \<and> (\<exists>uri. lt_pc (mg_threads m ! g) = Ticking uri)"

lemma waits_step:
  assumes "loop_step m ev m'" "sole_loops m" "waits g t m"
  shows "waits g t m' \<or> ticks_now g m'"
  using assms(1)
proof (cases rule: loop_step.cases)
  case (start st uri interval now)
  then show ?thesis using assms(3)
    by (auto simp: waits_def start_loop_def new_entry_def Let_def nth_append split: option.splits if_splits)
next
  case (stop st)
  then show ?thesis using assms(3) stop_threads [OF assms(2), where st = st] by (simp add: waits_def)
next
  case (joined st h)
  then show ?thesis using assms(3) by (auto simp: waits_def stop_end_def Let_def split: option.splits if_splits)
next
  case (ask h)
  then show ?thesis using assms(3) by (cases "h = g") (auto simp: waits_def)
next
  case (read h now)
  show ?thesis
  proof (cases "h = g")
    case True
    obtain e where e: "entry_of g m = Some e" "lo_thread e = g" using sole_thread [OF assms(2)] read(3) True by blast
    then have "t \<le> lo_next e" using assms(3) by (simp add: waits_def entry_of_def)
    then show ?thesis using read True e assms(3) by (auto simp: waits_def ticks_now_def read_entry_def)
  next
    case False
    obtain e where e: "entry_of h m = Some e" "lo_thread e = h" using sole_thread [OF assms(2)] read(3) by blast
    show ?thesis using read False e assms(3)
      by (auto simp: waits_def read_entry_def begin_tick_def thread_alive_def)
  qed
next
  case (tick h uri now a r)
  then have "h \<noteq> g" using assms(3) by (auto simp: waits_def)
  moreover obtain e where "entry_of h m = Some e" "lo_thread e = h" using sole_thread [OF assms(2)] tick(3) by blast
  ultimately show ?thesis using tick assms(3) by (auto simp: waits_def finish_tick_def thread_alive_def)
next
  case (wake h)
  then show ?thesis using assms(3) by (cases "h = g") (auto simp: waits_def)
qed

lemma ticks_on:
  assumes "loop_step m ev m'" "sole_loops m" "ticks_now g m" "\<not> done_by g ev"
  shows "ticks_now g m'"
proof -
  have "\<not> own_event g ev" using assms(1,3,4) by cases (auto simp: ticks_now_def)
  then show ?thesis using other_threads [OF assms(1,2)] assms(3) by (simp add: ticks_now_def)
qed

lemma waits_run:
  "loop_run m evs m' \<Longrightarrow> sole_loops m \<Longrightarrow> waits g t m \<Longrightarrow> filter (done_by g) evs = [] \<Longrightarrow> waits g t m' \<or> ticks_now g m'"
proof (induction rule: loop_run.induct)
  case (more m evs m1 ev m2)
  then have sole: "sole_loops m1" and quiet: "\<not> done_by g ev" using sole_run by (auto split: if_splits)
  have "waits g t m1 \<or> ticks_now g m1" using more by (simp split: if_splits)
  then show ?case
  proof
    assume "waits g t m1"
    then show ?thesis using waits_step [OF more.hyps(2) sole] by blast
  next
    assume "ticks_now g m1"
    then show ?thesis using ticks_on [OF more.hyps(2) sole _ quiet] by blast
  qed
qed simp

lemma schedule_below: "k \<noteq> 0 \<Longrightarrow> failure_backoff_schedule ! min (k - 1) 5 \<le> failure_backoff_seconds k interval"
  unfolding failure_backoff_seconds_def by (simp add: failure_backoff_schedule_def numeral_eq_Suc)

lemma read_begins:
  assumes "loop_step m (Read g now) m'" "lt_pc (mg_threads m' ! g) = Ticking uri" "sole_loops m" "waits g t m"
  shows "t \<le> now"
proof -
  have step: "thread_alive g m" "m' = read_entry g now m" using assms(1) by (auto elim: loop_stepE)
  then obtain e where e: "entry_of g m = Some e" "lo_thread e = g" using sole_thread [OF assms(3)] by blast
  have "t \<le> lo_next e" using assms(4) e by (simp add: waits_def entry_of_def)
  moreover have "\<not> 0 < lo_next e - now" using assms(2) step e by (auto simp: read_entry_def thread_alive_def split: if_splits)
  ultimately show ?thesis by simp
qed

lemma tick_waits:
  assumes "loop_step m (Tick_Done g t a (Inl err)) m'" "sole_loops m" "counted evs m"
  shows "waits g (t + failure_backoff_schedule ! min (failures_in_row g (evs @ [Tick_Done g t a (Inl err)]) - 1) 5) m'"
proof -
  have step: "thread_alive g m" "m' = finish_tick g t a (Inl err) m" using assms(1) by (auto elim: loop_stepE)
  then obtain e where e: "entry_of g m = Some e" "lo_thread e = g" using sole_thread [OF assms(2)] by blast
  have "lo_failures e = failures_in_row g evs" using assms(3) e by (auto simp: counted_def entry_of_def)
  then have "lo_next (end_tick t a (Inl err) e) = t + failure_backoff_seconds (failures_in_row g evs + 1) (lo_interval e)"
    by (simp add: end_tick_def Let_def split: option.splits)
  then show ?thesis using step e schedule_below [of "failures_in_row g evs + 1" "lo_interval e"]
    by (simp add: waits_def finish_tick_def failures_snoc thread_alive_def)
qed

text \<open>
  C16: after the k-th failed tick in a row a loop begins its next tick only when the k-th delay of the
  schedule (1, 2, 5, 15, 30 and then 60 seconds) has passed, whatever is called in between.
\<close>

theorem failures_back_off:
  assumes "loop_run no_loops (evs @ [Tick_Done g t a (Inl err)]) m" "loop_run m evs' m'" "filter (done_by g) evs' = []"
    and "loop_step m' (Read g now) m''" "lt_pc (mg_threads m'' ! g) = Ticking uri"
  shows "t + failure_backoff_schedule ! min (failures_in_row g (evs @ [Tick_Done g t a (Inl err)]) - 1) 5 \<le> now"
proof -
  obtain m0 where m0: "loop_run no_loops evs m0" "loop_step m0 (Tick_Done g t a (Inl err)) m"
    using assms(1) by (auto elim: loop_run.cases)
  have sole: "sole_loops m0" "sole_loops m" "sole_loops m'"
    using sole_run m0(1) assms(1,2) sole_no_loops by blast+
  have "waits g (t + failure_backoff_schedule ! min (failures_in_row g (evs @ [Tick_Done g t a (Inl err)]) - 1) 5) m"
    using tick_waits [OF m0(2) sole(1)] counted_run [OF m0(1)] by blast
  from waits_run [OF assms(2) sole(2) this assms(3)]
  have "waits g (t + failure_backoff_schedule ! min (failures_in_row g (evs @ [Tick_Done g t a (Inl err)]) - 1) 5) m'"
    using assms(4) by (auto simp: ticks_now_def elim: loop_stepE)
  then show ?thesis using read_begins [OF assms(4,5) sole(3)] by blast
qed

end
