(* ===== verification/Worker_Loop_Runs.thy ===== *)
theory Worker_Loop_Runs
  imports Worker_Loop_Laws
begin

text \<open>A run of a loop, and the start that comes while a stopped loop still ticks.\<close>

lemma loop_run_Cons: "loop_run m1 evs m2 \<Longrightarrow> loop_step m ev m1 \<Longrightarrow> loop_run m (ev # evs) m2"
proof (induction rule: loop_run.induct)
  case (idle m1)
  then show ?case using loop_run.more [OF loop_run.idle, of m ev m1] by simp
next
  case (more m1 evs m2 ev' m3)
  then show ?case using loop_run.more [of m "ev # evs" m2 ev' m3] by simp
qed

section \<open>A run\<close>

definition m_started :: manager where
  "m_started = snd (start_loop 1 ''fallback.mp3'' 1 0 no_loops)"

definition m_ticking :: manager where
  "m_ticking = read_entry 0 0 (set_pc 0 Reading m_started)"

definition m_failed :: manager where
  "m_failed = finish_tick 0 10 None (Inl ''disk full'') m_ticking"

definition m_again :: manager where
  "m_again = read_entry 0 12 (set_pc 0 Reading (set_pc 0 Checking m_failed))"

lemmas m_defs = m_started_def m_ticking_def m_failed_def m_again_def start_loop_def no_loops_def new_entry_def
  read_entry_def entry_of_def set_pc_def put_entry_def begin_tick_def finish_tick_def end_tick_def thread_alive_def
  stop_set_def failure_backoff_seconds_def failure_backoff_schedule_def

lemma run_to_tick: "loop_run no_loops [Start_Loop 1 ''fallback.mp3'' 1 0, Ask 0, Read 0 0] m_ticking"
proof -
  have 1: "loop_step no_loops (Start_Loop 1 ''fallback.mp3'' 1 0) m_started" unfolding m_started_def by (rule loop_step.start)
  have 2: "loop_step m_started (Ask 0) (set_pc 0 Reading m_started)"
    using loop_step.ask [of 0 m_started] by (simp add: m_defs)
  have 3: "loop_step (set_pc 0 Reading m_started) (Read 0 0) m_ticking"
    unfolding m_ticking_def by (rule loop_step.read) (simp_all add: m_defs)
  show ?thesis by (intro loop_run_Cons [OF _ 1] loop_run_Cons [OF _ 2] loop_run_Cons [OF _ 3] loop_run.idle)
qed

lemma run_to_failure:
  "loop_run no_loops [Start_Loop 1 ''fallback.mp3'' 1 0, Ask 0, Read 0 0, Tick_Done 0 10 None (Inl ''disk full'')] m_failed"
proof -
  have "loop_step m_ticking (Tick_Done 0 10 None (Inl ''disk full'')) m_failed"
    unfolding m_failed_def by (rule loop_step.tick [where uri = "''fallback.mp3''"]) (simp_all add: m_defs)
  from loop_run.more [OF run_to_tick this] show ?thesis by simp
qed

theorem one_loop_per_station_witness:
  "\<exists>e. mg_loops m_ticking 1 = Some e \<and> lo_thread e = 0 \<and> lo_ticking e"
proof -
  have "thread_alive 0 m_ticking" "lt_station (mg_threads m_ticking ! 0) = 1"
    "lt_pc (mg_threads m_ticking ! 0) = Ticking ''fallback.mp3''" by (simp_all add: m_defs)
  then show ?thesis using one_loop_per_station [OF run_to_tick, of 0 0] by auto
qed

theorem stopped_loop_ends_witness:
  "length (filter (done_by 0) [Tick_Done 0 10 None (Inr 3)]) \<le> 1
     \<and> (\<exists>m'. loop_run (stop_begin 1 m_ticking) [Tick_Done 0 10 None (Inr 3)] m' \<and> (\<exists>ev m''. own_event 0 ev \<and> loop_step m' ev m''))"
proof -
  let ?m = "stop_begin 1 m_ticking" and ?ev = "Tick_Done 0 10 None (Inr 3)"
  have e: "mg_loops m_ticking 1 = Some (begin_tick 0 (new_entry 0 ''fallback.mp3'' 1 0))" "thread_alive 0 m_ticking"
    by (simp_all add: m_defs)
  have "loop_step ?m ?ev (finish_tick 0 10 None (Inr 3) ?m)"
    by (rule loop_step.tick [where uri = "''fallback.mp3''"]) (simp_all add: m_defs stop_begin_def)
  then have run: "loop_run ?m [?ev] (finish_tick 0 10 None (Inr 3) ?m)"
    using loop_run.more [OF loop_run.idle] by fastforce
  have alive: "thread_alive 0 (finish_tick 0 10 None (Inr 3) ?m)" by (simp add: m_defs stop_begin_def)
  show ?thesis
    using stopped_loop_ends [OF run_to_tick e(1) _ run] e(2) alive run
    by (auto simp: begin_tick_def new_entry_def)
qed

theorem failures_back_off_witness:
  "(10::rat) + failure_backoff_schedule ! min (failures_in_row 0
      ([Start_Loop 1 ''fallback.mp3'' 1 0, Ask 0, Read 0 0] @ [Tick_Done 0 10 None (Inl ''disk full'')]) - 1) 5 \<le> 12
   \<and> failures_in_row 0 ([Start_Loop 1 ''fallback.mp3'' 1 0, Ask 0, Read 0 0] @ [Tick_Done 0 10 None (Inl ''disk full'')]) = 1"
proof -
  have 1: "loop_step m_failed (Wake 0) (set_pc 0 Checking m_failed)"
    by (rule loop_step.wake) (simp_all add: m_defs)
  have 2: "loop_step (set_pc 0 Checking m_failed) (Ask 0) (set_pc 0 Reading (set_pc 0 Checking m_failed))"
    using loop_step.ask [of 0 "set_pc 0 Checking m_failed"] by (simp add: m_defs)
  have 3: "loop_step (set_pc 0 Reading (set_pc 0 Checking m_failed)) (Read 0 12) m_again"
    unfolding m_again_def by (rule loop_step.read) (simp_all add: m_defs)
  have rest: "loop_run m_failed [Wake 0, Ask 0] (set_pc 0 Reading (set_pc 0 Checking m_failed))"
    by (intro loop_run_Cons [OF _ 1] loop_run_Cons [OF _ 2] loop_run.idle)
  have "lt_pc (mg_threads m_again ! 0) = Ticking ''fallback.mp3''" by (simp add: m_defs)
  then show ?thesis
    using failures_back_off [of "[Start_Loop 1 ''fallback.mp3'' 1 0, Ask 0, Read 0 0]" 0 10 None "''disk full''", OF _ rest _ 3]
      run_to_failure by (simp add: failures_in_row_def)
qed

section \<open>A start that comes too early\<close>

lemma no_new_thread:
  assumes "loop_step m ev m'" "\<forall>uri i now. ev \<noteq> Start_Loop st uri i now" "sole_loops m"
    and "thread_alive g m'" "lt_station (mg_threads m' ! g) = st"
  shows "thread_alive g m \<and> lt_station (mg_threads m ! g) = st"
  using assms(1)
proof (cases rule: loop_step.cases)
  case (start st' uri interval now)
  then show ?thesis using assms(2,4,5)
    by (auto simp: start_loop_def Let_def thread_alive_def nth_append less_Suc_eq split: option.splits if_splits)
next
  case (stop st')
  then show ?thesis using assms(4,5) stop_threads [OF assms(3), where st = st'] by (simp add: thread_alive_def)
next
  case (joined st' h)
  then show ?thesis using assms(4,5) by (auto simp: stop_end_def Let_def thread_alive_def split: option.splits if_splits)
next
  case (ask h)
  then show ?thesis using assms(4,5) by (cases "h = g") (auto simp: thread_alive_def)
next
  case (read h now)
  then show ?thesis using assms(4,5)
    by (cases "h = g") (auto simp: read_entry_def thread_alive_def split: option.splits if_splits)
next
  case (tick h uri now a r)
  then show ?thesis using assms(4,5)
    by (cases "h = g") (auto simp: finish_tick_def thread_alive_def split: option.splits)
next
  case (wake h)
  then show ?thesis using assms(4,5) by (cases "h = g") (auto simp: thread_alive_def)
qed

lemma no_new_threads:
  "loop_run m evs m' \<Longrightarrow> sole_loops m \<Longrightarrow> \<forall>uri i now. Start_Loop st uri i now \<notin> set evs
    \<Longrightarrow> thread_alive g m' \<Longrightarrow> lt_station (mg_threads m' ! g) = st \<Longrightarrow> thread_alive g m \<and> lt_station (mg_threads m ! g) = st"
proof (induction rule: loop_run.induct)
  case (more m evs m1 ev m2)
  have ev: "\<forall>uri i now. ev \<noteq> Start_Loop st uri i now" and evs: "\<forall>uri i now. Start_Loop st uri i now \<notin> set evs"
    using more.prems(2) by (metis in_set_conv_decomp, simp)
  have "thread_alive g m1 \<and> lt_station (mg_threads m1 ! g) = st"
    using no_new_thread [OF more.hyps(2) ev sole_run [OF more.hyps(1) more.prems(1)] more.prems(3,4)] .
  then show ?case using more.IH [OF more.prems(1) evs] by blast
qed simp

text \<open>
  A start while a stopped loop still ticks reports a running loop and starts none: the old loop makes at
  most four more steps, and then the station has no loop until the next call of start. The coordinator
  does this when a node loses the leadership and regains it during a tick that outlasts the 15 seconds
  \<open>stop\<close> waits.
\<close>

theorem start_while_stopping:
  assumes run: "loop_run no_loops evs m" and e: "mg_loops m st = Some e"
    and stopping: "stop_set (lo_thread e) m" "thread_alive (lo_thread e) m"
    and start: "start_loop st uri interval now m = (reused, m1)"
    and later: "loop_run m1 evs' m'" "\<forall>uri i now. Start_Loop st uri i now \<notin> set evs'"
    and steps: "length (filter (own_event (lo_thread e)) evs') = 4"
  shows "reused \<and> ls_running (loop_status st now m1) \<and> (\<forall>g. thread_alive g m' \<longrightarrow> lt_station (mg_threads m' ! g) \<noteq> st)"
proof -
  have sole: "sole_loops m" using sole_run [OF run sole_no_loops] .
  have m1: "reused" "m1 = m\<lparr>mg_loops := (mg_loops m)(st \<mapsto> e\<lparr>lo_uri := uri, lo_interval := max (1 / 10) interval\<rparr>)\<rparr>"
    using start e stopping(2) by (auto simp: start_loop_def Let_def)
  have sole1: "sole_loops m1" using sole_start [OF sole, of st uri interval now] start by simp
  have same: "stop_set g m1 = stop_set g m" "thread_alive g m1 = thread_alive g m" for g
    by (simp_all add: m1(2) stop_set_def thread_alive_def)
  from stopped_run [OF later(1) sole1, of "lo_thread e"] stopping(1) same(1)
  have "steps_left (lt_pc (mg_threads m' ! lo_thread e)) + 4 \<le> steps_left (lt_pc (mg_threads m1 ! lo_thread e))"
    using steps by simp
  moreover have "steps_left pc \<le> 4" "steps_left pc = 0 \<Longrightarrow> pc = Gone" for pc by (cases pc; simp)+
  ultimately have gone: "\<not> thread_alive (lo_thread e) m'"
    unfolding thread_alive_def by (metis add_le_same_cancel2 le_trans le_zero_eq)
  have "lt_station (mg_threads m' ! g) \<noteq> st" if g: "thread_alive g m'" for g
  proof
    assume "lt_station (mg_threads m' ! g) = st"
    from no_new_threads [OF later(1) sole1 later(2) g this]
    have alive: "thread_alive g m1" "lt_station (mg_threads m1 ! g) = st" by auto
    from sole_thread [OF sole1 alive(1)] alive(2) have "lo_thread e = g" by (auto simp: entry_of_def m1(2))
    then show False using g gone by simp
  qed
  moreover have "ls_running (loop_status st now m1)"
    using stopping(2) by (simp add: loop_status_def m1(2) Let_def thread_alive_def)
  ultimately show ?thesis using m1(1) by blast
qed

section \<open>Dead air\<close>

lemma fallback_not_empty: "resolve_station_fallback_uri resolve st d requested \<noteq> []"
  by (auto simp: resolve_station_fallback_uri_def default_continuity_uri_def Let_def find_Some_iff split: option.splits)

text \<open>
  A station whose audio and programme process do not run gets continuity audio with its next tick,
  whatever its settings are, and no other report of the runtime starts it.
\<close>

theorem dead_air_is_covered:
  "(emergency_fallback (Some (fst (evaluate_station r))) (resolve_station_fallback_uri resolve st d requested)
      = Some (resolve_station_fallback_uri resolve st d requested)) \<longleftrightarrow> \<not> rr_running r \<and> \<not> rr_program_running r"
  using fallback_not_empty [of resolve st d requested]
  by (auto simp: emergency_fallback_def evaluate_station_def decide_recovery_action_def)

end
