(* ===== verification/Stream_Config.thy ===== *)
theory Stream_Config
  imports Replication_Drain
begin

text \<open>
  Changing where a station streams to (\<open>services/stream_config_service.py\<close>): drafts, their validation, the
  safe application with its snapshot, and rolling back. What the network, the media files and the audio
  runtime answer is an argument. Of the audit records, which another component writes, only the failure of
  the one inside the safe application matters here; it is an argument too. The snapshot of an operation is
  kept as a value where the table holds its canonical JSON text.
\<close>

section \<open>Configurations\<close>

record stream_config =
  cf_station :: int
  cf_local :: bool
  cf_device :: string
  cf_icecast :: bool
  cf_host :: string
  cf_port :: int
  cf_mount :: string
  cf_user :: string
  cf_password :: string
  cf_reference :: string
  cf_tls :: bool
  cf_gain :: rat
  cf_profile :: string
  cf_bitrate :: int

definition stream_profiles :: "(string \<times> int) list" where
  "stream_profiles = [(''mp3_128'', 128), (''aac_plus_196'', 196)]"

definition has_dots :: "string \<Rightarrow> bool" where
  "has_dots s \<longleftrightarrow> (\<exists>i \<in> set [0..<length s]. take 2 (drop i s) = ''..'')"

text \<open>\<open>_normalize\<close>; the keys of the payload are all there.\<close>

definition normalize_stream :: "stream_config \<Rightarrow> exn + stream_config" where
  "normalize_stream c =
     (let profile = lower (strip (or_default ''mp3_128'' (cf_profile c)));
          host = strip (cf_host c); mount = strip (cf_mount c); user = strip (or_default ''source'' (cf_user c))
      in if cf_station c \<le> 0 then Inl (RuntimeError ''station_id_required'')
         else case map_of stream_profiles profile of
           None \<Rightarrow> Inl (RuntimeError ''unsupported_stream_profile'')
         | Some bitrate \<Rightarrow>
             if host = [] then Inl (RuntimeError ''broadcast_address_required'')
             else if \<not> (1 \<le> cf_port c \<and> cf_port c \<le> 65535) then Inl (RuntimeError ''invalid_stream_port'')
             else if take 1 mount \<noteq> ''/'' \<or> has_dots mount \<or> (\<exists>x \<in> set mount. is_space x)
             then Inl (RuntimeError ''invalid_stream_mount'')
             else if user = [] then Inl (RuntimeError ''source_user_required'')
             else if \<not> (-30 \<le> cf_gain c \<and> cf_gain c \<le> 12) then Inl (RuntimeError ''invalid_output_gain'')
             else Inr (c\<lparr>cf_device := strip (cf_device c), cf_host := host, cf_mount := mount, cf_user := user,
                 cf_reference := [], cf_profile := profile, cf_bitrate := bitrate\<rparr>))"

text \<open>\<open>text_of\<close> gives the text of a float, as \<open>repr\<close> and \<open>json.dumps\<close> do.\<close>

definition config_fields :: "(rat \<Rightarrow> string) \<Rightarrow> stream_config \<Rightarrow> (string \<times> json) list" where
  "config_fields text_of c = [(''station_id'', J_Int (cf_station c)), (''local_output_enabled'', J_Bool (cf_local c)),
     (''output_device_id'', J_Str (cf_device c)), (''icecast_enabled'', J_Bool (cf_icecast c)),
     (''icecast_host'', J_Str (cf_host c)), (''icecast_port'', J_Int (cf_port c)), (''icecast_mount'', J_Str (cf_mount c)),
     (''icecast_user'', J_Str (cf_user c)), (''icecast_tls_enabled'', J_Bool (cf_tls c)),
     (''output_gain_db'', J_Float (text_of (cf_gain c))), (''stream_codec_profile'', J_Str (cf_profile c)),
     (''stream_bitrate_kbps'', J_Int (cf_bitrate c))]"

definition hash_config :: "(rat \<Rightarrow> string) \<Rightarrow> stream_config \<Rightarrow> string" where
  "hash_config text_of c = sha256 (json_text (J_Obj (config_fields text_of c @
     (if cf_reference c = [] then [] else [(''password_reference'', J_Str (cf_reference c))]))))"

definition public_config :: "(rat \<Rightarrow> string) \<Rightarrow> stream_config \<Rightarrow> json" where
  "public_config text_of c = J_Obj (config_fields text_of c @
     [(''icecast_password_configured'', J_Bool (cf_reference c \<noteq> []))])"

section \<open>Tables\<close>

record stream_draft =
  df_id :: int
  df_station :: int
  df_revision :: int
  df_config :: stream_config
  df_hash :: string
  df_status :: string
  df_outcome :: "string option"
  df_by :: int

text \<open>\<open>_snapshot_output\<close>: the output row and the settings it goes with; the TLS flag is never read again.\<close>

record stream_snapshot =
  sn_output :: "output_row option"
  sn_settings :: "(string \<times> string) list"

record stream_operation =
  sp_id :: int
  sp_draft :: int
  sp_station :: int
  sp_key :: string
  sp_status :: string
  sp_previous :: stream_snapshot
  sp_by :: int

record stream_store = store +
  st_stations :: "int list"
  st_drafts :: "stream_draft list"
  st_operations :: "stream_operation list"

definition output_setting_keys :: "string list" where
  "output_setting_keys = [''output_mode'', ''speaker_monitor_enabled'', ''output_device_id'', ''icecast_host'',
     ''icecast_port'', ''icecast_mount'', ''icecast_username'', ''icecast_password'', ''icecast_tls_enabled'',
     ''output_gain_db'', ''stream_codec_profile'', ''stream_bitrate_kbps'']"

definition snapshot_output :: "int \<Rightarrow> 'a store_scheme \<Rightarrow> stream_snapshot" where
  "snapshot_output st n = \<lparr>sn_output = get_output st n,
     sn_settings = concat (map (\<lambda>k. case n_settings n st k of None \<Rightarrow> [] | Some v \<Rightarrow> [(k, v)]) output_setting_keys)\<rparr>"

section \<open>Drafts\<close>

definition enforce_basic_change :: "stream_config \<Rightarrow> 'a store_scheme \<Rightarrow> exn + unit" where
  "enforce_basic_change c n =
     (case get_output (cf_station c) n of
        None \<Rightarrow> Inl (RuntimeError ''advanced_permission_required_for_new_destination'')
      | Some r \<Rightarrow>
          let tls = (lower (case n_settings n (cf_station c) ''icecast_tls_enabled'' of None \<Rightarrow> ''false'' | Some v \<Rightarrow> v)
                       \<in> {''1'', ''true'', ''yes'', ''on''})
          in if cf_password c \<noteq> [] then Inl (RuntimeError ''advanced_permission_required_for_credentials'')
             else if (cf_local c, cf_device c, cf_icecast c, cf_host c, cf_port c, cf_mount c, cf_user c, cf_tls c, cf_gain c)
                 \<noteq> (so_local r, so_device r, so_icecast r, so_host r, so_port r, so_mount r, so_user r, tls, so_gain r)
             then Inl (RuntimeError ''advanced_permission_required_for_destination'')
             else Inr ())"

text \<open>
  \<open>create_draft\<close>: the password goes to the vault under the random name \<open>draft_name\<close> before the row is written,
  and stays there when the row violates the foreign key.
\<close>

definition create_draft ::
  "(rat \<Rightarrow> string) \<Rightarrow> bool \<Rightarrow> string \<Rightarrow> stream_config \<Rightarrow> int \<Rightarrow> bool \<Rightarrow> (stream_store, int) prog" where
  "create_draft text_of can_protect draft_name c actor allow_advanced n =
     (case normalize_stream c of
        Inl e \<Rightarrow> (Inl e, n)
      | Inr c1 \<Rightarrow>
          case (if allow_advanced then Inr () else enforce_basic_change c1 n) of
            Inl e \<Rightarrow> (Inl e, n)
          | Inr _ \<Rightarrow>
              case (if cf_password c1 = [] then Inr ([], n_vault n)
                    else case system_credential_reference (''stream-draft-'' @ draft_name) of
                      Inl e \<Rightarrow> Inl e
                    | Inr ref \<Rightarrow> map_sum id (Pair ref) (set_secret can_protect ref (cf_password c1) (n_vault n))) of
                Inl e \<Rightarrow> (Inl e, n)
              | Inr (ref, v) \<Rightarrow>
                  let n1 = n\<lparr>n_vault := v\<rparr>; c2 = c1\<lparr>cf_password := [], cf_reference := ref\<rparr>;
                      i = next_rowid (map df_id (st_drafts n))
                  in if cf_station c \<notin> set (st_stations n) then (Inl IntegrityError, n1)
                     else (Inr i, n1\<lparr>st_drafts := st_drafts n @ [\<lparr>df_id = i, df_station = cf_station c, df_revision = 1,
                       df_config = c2, df_hash = hash_config text_of c2, df_status = ''draft'', df_outcome = None,
                       df_by = actor\<rparr>]\<rparr>))"

definition find_draft :: "int \<Rightarrow> 'a stream_store_scheme \<Rightarrow> stream_draft option" where
  "find_draft i n = find (\<lambda>d. df_id d = i) (st_drafts n)"

text \<open>What the destination answers: whether it was reached, and the occupied mounts it reports, if any.\<close>

record destination_probe =
  pr_reachable :: bool
  pr_mounts :: "string list option"
  pr_media_missing :: bool

definition same_destination :: "output_row \<Rightarrow> stream_config \<Rightarrow> bool" where
  "same_destination r c \<longleftrightarrow> so_host r = cf_host c \<and> so_port r = cf_port c \<and> so_mount r = cf_mount c"

definition validation_outcome :: "destination_probe \<Rightarrow> ha_node option \<Rightarrow> stream_config \<Rightarrow> output_row option \<Rightarrow> string" where
  "validation_outcome p ha c existing =
     (let conflict = (pr_reachable p \<and> (case pr_mounts p of None \<Rightarrow> False
            | Some ms \<Rightarrow> cf_mount c \<in> set ms \<and> \<not> (case existing of None \<Rightarrow> False | Some r \<Rightarrow> same_destination r c)));
          credential = (cf_reference c \<noteq> [] \<or> (case existing of None \<Rightarrow> False | Some r \<Rightarrow> so_password r \<noteq> []));
          standby = (case ha of None \<Rightarrow> True | Some h \<Rightarrow> quorum h \<and> role h = Leader)
      in if pr_media_missing p \<or> conflict \<or> \<not> standby \<or> \<not> credential then ''unsafe''
         else if pr_reachable p then ''ready'' else ''needs_attention'')"

definition validate_draft ::
  "destination_probe \<Rightarrow> ha_node option \<Rightarrow> int \<Rightarrow> ('a stream_store_scheme, string) prog" where
  "validate_draft p ha i n =
     (case find_draft i n of
        None \<Rightarrow> (Inl (RuntimeError ''stream_draft_not_found''), n)
      | Some d \<Rightarrow>
          let outcome = validation_outcome p ha (df_config d) (get_output (cf_station (df_config d)) n)
          in (Inr outcome, n\<lparr>st_drafts := update_where (\<lambda>d. df_id d = i)
                (\<lambda>d. d\<lparr>df_status := ''validated'', df_outcome := Some outcome, df_revision := df_revision d + 1\<rparr>) (st_drafts n)\<rparr>))"

section \<open>Verification at the listener\<close>

text \<open>
  The runtime before the change, whether it has an input, whether it restarted, the length of the window,
  and what is seen each second: whether the output is fed, and whether the listener hears audio.
\<close>

record live_check =
  lv_running :: bool
  lv_input :: bool
  lv_restarted :: bool
  lv_seconds :: rat
  lv_seen :: "(bool \<times> bool) list"

fun watch_listener :: "bool \<Rightarrow> nat \<Rightarrow> nat \<Rightarrow> bool \<Rightarrow> (bool \<times> bool) list \<Rightarrow> exn + nat \<times> bool" where
  "watch_listener icecast successes fails heard [] = Inr (successes, heard)"
| "watch_listener icecast successes fails heard ((fed, ok) # seen) =
     (if \<not> fed then Inl (RuntimeError ''live_output_verification_window_failed'')
      else if \<not> icecast then watch_listener icecast successes fails heard seen
      else if ok then watch_listener icecast (successes + 1) 0 True seen
      else if 2 \<le> fails + 1 then Inl (RuntimeError ''listener_audio_verification_failed'')
      else watch_listener icecast successes (fails + 1) False seen)"

definition verify_live :: "bool \<Rightarrow> live_check \<Rightarrow> exn + bool" where
  "verify_live icecast lv =
     (if \<not> lv_running lv then Inr False
      else if \<not> lv_input lv then Inl (RuntimeError ''active_runtime_input_unavailable'')
      else if \<not> lv_restarted lv then Inl (RuntimeError ''live_output_readback_failed'')
      else case watch_listener icecast 0 0 (\<not> icecast) (lv_seen lv) of
        Inl e \<Rightarrow> Inl e
      | Inr (successes, heard) \<Rightarrow>
          if \<not> icecast \<or> (heard \<and> (if 2 \<le> max 1 (min 60 (lv_seconds lv)) then 2 else 1) \<le> successes) then Inr True
          else Inl (RuntimeError ''listener_audio_verification_failed''))"

section \<open>Applying and rolling back\<close>

definition config_settings :: "(rat \<Rightarrow> string) \<Rightarrow> stream_config \<Rightarrow> (string \<times> string) list" where
  "config_settings text_of c = [(''output_mode'', if cf_icecast c then ''icecast'' else ''speaker''),
     (''speaker_monitor_enabled'', if cf_local c then ''true'' else ''false''), (''output_device_id'', cf_device c),
     (''icecast_host'', cf_host c), (''icecast_port'', int_str (cf_port c)), (''icecast_mount'', cf_mount c),
     (''icecast_username'', cf_user c), (''icecast_password'', []),
     (''icecast_tls_enabled'', if cf_tls c then ''true'' else ''false''), (''output_gain_db'', text_of (cf_gain c)),
     (''stream_codec_profile'', cf_profile c), (''stream_bitrate_kbps'', int_str (cf_bitrate c))]"

definition config_row :: "stream_config \<Rightarrow> string \<Rightarrow> output_row" where
  "config_row c password = \<lparr>so_station = cf_station c, so_local = cf_local c, so_device = cf_device c,
     so_icecast = cf_icecast c, so_host = cf_host c, so_port = cf_port c, so_mount = cf_mount c, so_user = cf_user c,
     so_password = password, so_gain = cf_gain c, so_profile = cf_profile c, so_bitrate = cf_bitrate c\<rparr>"

text \<open>\<open>ae_audit\<close>: the exception, if any, of the audit record of a successful application.\<close>

record apply_env =
  ae_text :: "rat \<Rightarrow> string"
  ae_protect :: bool
  ae_ha :: "ha_node option"
  ae_net :: "delivery list list"
  ae_live :: live_check
  ae_audit :: "exn option"

text \<open>What \<open>apply\<close> does between the snapshot and its result; the peers receive the journal entry first.\<close>

definition write_config ::
  "apply_env \<Rightarrow> string \<Rightarrow> int \<Rightarrow> stream_config \<Rightarrow> 'a stream_store_scheme \<Rightarrow> 'a stream_store_scheme list
    \<Rightarrow> (exn + bool) \<times> 'a stream_store_scheme \<times> 'a stream_store_scheme list" where
  "write_config v reason draft c n ps =
     (case (case ae_ha v of None \<Rightarrow> Inr () | Some h \<Rightarrow> require_safe_mutation reason h) of
        Inl e \<Rightarrow> (Inl e, n, ps)
      | Inr _ \<Rightarrow>
          let (seq, n1) = journal_append ''stream_config'' (int_str draft) ''apply'' (public_config (ae_text v) c) n;
              (sent, n2, ps') = (if ae_ha v = None then (True, n1, ps) else replicate_ordered (Some seq) 250 (ae_net v) n1 ps)
          in if \<not> sent then (Inl ack_required, n2, ps')
             else case upsert_output (ae_protect v) (config_row c (resolve_credential_value (cf_reference c) (n_vault n2))) n2 of
               (Inl e, n3) \<Rightarrow> (Inl e, n3, ps')
             | (Inr _, n3) \<Rightarrow>
                 let n4 = put_settings (cf_station c) (config_settings (ae_text v) c) n3
                 in if \<not> (case get_output (cf_station c) n4 of None \<Rightarrow> False
                          | Some r \<Rightarrow> so_host r = cf_host c \<and> so_mount r = cf_mount c)
                    then (Inl (RuntimeError ''authoritative_readback_failed''), n4, ps')
                    else (verify_live (cf_icecast c) (ae_live v), n4, ps'))"

definition find_operation :: "int \<Rightarrow> 'a stream_store_scheme \<Rightarrow> stream_operation option" where
  "find_operation i n = find (\<lambda>x. sp_id x = i) (st_operations n)"

text \<open>\<open>_restore_previous\<close>, whose row the upsert may complete with defaults.\<close>

definition restored_row :: "int \<Rightarrow> output_row \<Rightarrow> output_row" where
  "restored_row st r = r\<lparr>so_station := st, so_host := or_default ''127.0.0.1'' (so_host r), so_port := nonzero 8000 (so_port r),
     so_mount := or_default ''/stream'' (so_mount r), so_user := or_default ''source'' (so_user r),
     so_profile := or_default ''mp3_128'' (so_profile r), so_bitrate := nonzero 128 (so_bitrate r)\<rparr>"

definition restore_settings :: "int \<Rightarrow> (string \<times> string) list \<Rightarrow> 'a store_scheme \<Rightarrow> 'a store_scheme" where
  "restore_settings st kept n = put_settings st (filter (\<lambda>p. fst p \<in> set output_setting_keys) kept)
     (n\<lparr>n_settings := (n_settings n)(st := (\<lambda>k. if k \<in> set output_setting_keys then None else n_settings n st k))\<rparr>)"

definition restore_previous :: "bool \<Rightarrow> int \<Rightarrow> ('a stream_store_scheme, unit) prog" where
  "restore_previous can_protect i n =
     (case find_operation i n of
        None \<Rightarrow> (Inl (RuntimeError ''stream_operation_not_found''), n)
      | Some op \<Rightarrow>
          case (case sn_output (sp_previous op) of
                  Some r \<Rightarrow> upsert_output can_protect (restored_row (sp_station op) r) n
                | None \<Rightarrow> (Inr (), n\<lparr>n_outputs := filter (\<lambda>r. so_station r \<noteq> sp_station op) (n_outputs n)\<rparr>)) of
            (Inl e, n1) \<Rightarrow> (Inl e, n1)
          | (Inr _, n1) \<Rightarrow> (Inr (), restore_settings (sp_station op) (sn_settings (sp_previous op)) n1))"

definition set_operation :: "int \<Rightarrow> string \<Rightarrow> 'a stream_store_scheme \<Rightarrow> 'a stream_store_scheme" where
  "set_operation i s n = n\<lparr>st_operations := update_where (\<lambda>x. sp_id x = i) (sp_status_update (\<lambda>_. s)) (st_operations n)\<rparr>"

definition apply_refusal :: "string \<Rightarrow> string \<Rightarrow> stream_draft option \<Rightarrow> exn option" where
  "apply_refusal key reason d =
     (case d of
        None \<Rightarrow> Some (RuntimeError ''stream_draft_not_found'')
      | Some d \<Rightarrow>
          if df_status d \<noteq> ''validated'' then Some (RuntimeError ''stream_draft_not_validated'')
          else if df_outcome d \<noteq> Some ''ready'' \<and> strip reason = []
          then Some (RuntimeError (if df_outcome d = Some ''unsafe'' then ''stream_draft_unsafe'' else ''stream_draft_needs_attention''))
          else None)"

definition applied_node :: "int \<Rightarrow> int \<Rightarrow> 'a stream_store_scheme \<Rightarrow> 'a stream_store_scheme" where
  "applied_node op i n = (set_operation op ''applied'' n)
     \<lparr>st_drafts := update_where (\<lambda>d. df_id d = i) (df_status_update (\<lambda>_. ''applied'')) (st_drafts n)\<rparr>"

text \<open>What \<open>apply\<close> does with an exception.\<close>

definition undo_apply ::
  "apply_env \<Rightarrow> int \<Rightarrow> exn \<Rightarrow> 'a stream_store_scheme \<Rightarrow> (exn + int) \<times> 'a stream_store_scheme" where
  "undo_apply v op e n =
     (case restore_previous (ae_protect v) op n of
        (Inl e', n1) \<Rightarrow> (Inl e', n1)
      | (Inr _, n1) \<Rightarrow> (Inl e, set_operation op ''rolled_back'' n1))"

text \<open>
  \<open>apply\<close> returns the number of the operation, an earlier one for a key that was used before. The audit
  record is written after the operation and the draft are committed as applied, within the same \<open>try\<close>.
\<close>

definition apply_draft ::
  "apply_env \<Rightarrow> int \<Rightarrow> string \<Rightarrow> string \<Rightarrow> int \<Rightarrow> 'a stream_store_scheme \<Rightarrow> 'a stream_store_scheme list
    \<Rightarrow> (exn + int) \<times> 'a stream_store_scheme \<times> 'a stream_store_scheme list" where
  "apply_draft v actor idem reason i n ps =
     (let key = strip idem in
      if key = [] \<or> 128 < length key then (Inl (RuntimeError ''idempotency_key_required''), n, ps)
      else case find (\<lambda>x. sp_key x = key) (st_operations n) of
        Some op \<Rightarrow> (Inr (sp_id op), n, ps)
      | None \<Rightarrow>
          (case apply_refusal key reason (find_draft i n) of
             Some e \<Rightarrow> (Inl e, n, ps)
           | None \<Rightarrow>
               let c = df_config (the (find_draft i n)); op = next_rowid (map sp_id (st_operations n));
                   n1 = n\<lparr>st_operations := st_operations n @ [\<lparr>sp_id = op, sp_draft = i, sp_station = cf_station c, sp_key = key,
                     sp_status = ''preparing'', sp_previous = snapshot_output (cf_station c) n, sp_by = actor\<rparr>]\<rparr>
               in case write_config v reason i c n1 ps of
                    (Inl e, n2, ps') \<Rightarrow> (let (r, n3) = undo_apply v op e n2 in (r, n3, ps'))
                  | (Inr _, n2, ps') \<Rightarrow>
                      (case ae_audit v of
                         None \<Rightarrow> (Inr op, applied_node op i n2, ps')
                       | Some e \<Rightarrow> (let (r, n3) = undo_apply v op e (applied_node op i n2) in (r, n3, ps')))))"

definition rollback_operation :: "bool \<Rightarrow> int \<Rightarrow> ('a stream_store_scheme, unit) prog" where
  "rollback_operation can_protect i n =
     (case restore_previous can_protect i n of
        (Inl e, n1) \<Rightarrow> (Inl e, n1)
      | (Inr _, n1) \<Rightarrow> (Inr (), set_operation i ''rolled_back'' n1))"

end
