(* ===== verification/Stream_Laws.thy ===== *)
theory Stream_Laws
  imports Stream_Config
begin

text \<open>
  A change of the stream either takes effect as a whole or leaves outputs and settings as they were, and it
  takes effect only when it was validated and the node may change anything.
\<close>

section \<open>What sending and writing leave alone\<close>

lemma send_frame: "send_entries through es net l ps = (ok, l', ps') \<Longrightarrow>
    n_outputs l' = n_outputs l \<and> n_settings l' = n_settings l \<and> n_vault l' = n_vault l \<and> store.more l' = store.more l"
  by (induction es arbitrary: net l ps)
     (auto simp: Let_def mark_replicated_def split: if_splits prod.splits)

lemma append_frame: "journal_append type entity op payload l = (q, l') \<Longrightarrow>
    n_outputs l' = n_outputs l \<and> n_settings l' = n_settings l \<and> n_vault l' = n_vault l \<and> store.more l' = store.more l"
  by (auto simp: journal_append_def Let_def split: option.splits)

lemma upsert_output_frame: "upsert_output can_protect r n = (res, n') \<Longrightarrow>
    n_settings n' = n_settings n \<and> store.more n' = store.more n \<and> n_journal n' = n_journal n"
  by (auto simp: upsert_output_def Let_def split: if_splits sum.splits)

lemma more_tables:
  fixes n n' :: "'a stream_store_scheme"
  shows "store.more n' = store.more n \<Longrightarrow> st_operations n' = st_operations n \<and> st_drafts n' = st_drafts n \<and> st_stations n' = st_stations n"
  by (cases n; cases n') simp

text \<open>The row an upsert stores, with the password it ends up with.\<close>

definition stored_row :: "output_row \<Rightarrow> string \<Rightarrow> output_row" where
  "stored_row r p = r\<lparr>so_profile := or_default ''aac_plus_196'' (so_profile r),
     so_bitrate := (if so_bitrate r = 0 then 196 else so_bitrate r), so_password := p\<rparr>"

lemma stored_row_station [simp]: "so_station (stored_row r p) = so_station r"
  by (simp add: stored_row_def)

lemma stored_row_password [simp]: "so_password (stored_row r p) = p"
  by (simp add: stored_row_def)

lemma upsert_output_alt: "upsert_output can_protect r n =
  (let given = so_password r;
       stored = (if given = [] then (case get_output (so_station r) n of None \<Rightarrow> [] | Some x \<Rightarrow> so_password x) else given)
   in if stored \<noteq> [] \<and> \<not> is_credential_reference stored
      then (case set_secret can_protect (credential_reference (so_station r)) stored (n_vault n) of
          Inl e \<Rightarrow> (Inl e, n)
        | Inr v \<Rightarrow> (Inr (), n\<lparr>n_vault := v,
            n_outputs := upsert_by so_station (stored_row r (credential_reference (so_station r))) (n_outputs n)\<rparr>))
      else (Inr (), n\<lparr>n_outputs := upsert_by so_station (stored_row r stored) (n_outputs n)\<rparr>))"
  unfolding upsert_output_def stored_row_def Let_def by (rule refl)

text \<open>A password column holds a reference into the vault, or nothing.\<close>

definition vaulted :: "string \<Rightarrow> bool" where
  "vaulted p \<longleftrightarrow> p = [] \<or> is_credential_reference p"

lemma vaulted_simps [simp]: "vaulted []" "vaulted (credential_reference st)"
proof -
  have "strip (credential_reference st) = credential_reference st"
    by (simp add: strip_def credential_reference_def reference_prefix_def is_space_def)
  then show "vaulted (credential_reference st)"
    by (simp add: vaulted_def is_credential_reference_def credential_reference_def)
qed (simp add: vaulted_def)

lemma upsert_output_rows:
  assumes "upsert_output can_protect r n = (res, n')"
  shows "(n' = n \<and> isl res)
    \<or> (\<exists>p. vaulted p \<and> n_outputs n' = upsert_by so_station (stored_row r p) (n_outputs n) \<and> \<not> isl res)"
proof -
  define q where "q = (if so_password r = [] then (case get_output (so_station r) n of None \<Rightarrow> [] | Some x \<Rightarrow> so_password x) else so_password r)"
  have alt: "upsert_output can_protect r n = (if \<not> vaulted q
      then (case set_secret can_protect (credential_reference (so_station r)) q (n_vault n) of
          Inl e \<Rightarrow> (Inl e, n)
        | Inr v \<Rightarrow> (Inr (), n\<lparr>n_vault := v,
            n_outputs := upsert_by so_station (stored_row r (credential_reference (so_station r))) (n_outputs n)\<rparr>))
      else (Inr (), n\<lparr>n_outputs := upsert_by so_station (stored_row r q) (n_outputs n)\<rparr>))"
    unfolding upsert_output_alt [of can_protect r n] Let_def q_def [symmetric] vaulted_def de_Morgan_disj by (rule refl)
  show ?thesis
  proof (cases "vaulted q")
    case False
    show ?thesis
    proof (cases "set_secret can_protect (credential_reference (so_station r)) q (n_vault n)")
      case (Inl e)
      then have "(res, n') = (Inl e, n)" unfolding assms [symmetric] alt using False by simp
      then show ?thesis by simp
    next
      case (Inr v)
      then have "(res, n') = (Inr (), n\<lparr>n_vault := v,
          n_outputs := upsert_by so_station (stored_row r (credential_reference (so_station r))) (n_outputs n)\<rparr>)"
        unfolding assms [symmetric] alt using False by simp
      then show ?thesis by (intro disjI2 exI [of _ "credential_reference (so_station r)"]) simp
    qed
  next
    case True
    then have "(res, n') = (Inr (), n\<lparr>n_outputs := upsert_by so_station (stored_row r q) (n_outputs n)\<rparr>)"
      unfolding assms [symmetric] alt by simp
    then show ?thesis using True by (intro disjI2 exI [of _ q]) simp
  qed
qed

lemma upsert_twice:
  "key r = key r' \<Longrightarrow> upsert_by key r (upsert_by key r' xs) = upsert_by key r xs"
proof -
  assume k: "key r = key r'"
  show ?thesis
  proof (cases "\<exists>x \<in> set xs. key x = key r'")
    case True
    then have "\<exists>x \<in> set (map (\<lambda>x. if key x = key r' then r' else x) xs). key x = key r'" by auto
    then show ?thesis using True by (simp add: upsert_by_def k comp_def if_distrib cong: if_cong)
  next
    case False
    then have "map (\<lambda>x. if key x = key r' then r else x) xs = xs" by (intro map_idI) auto
    then show ?thesis using False by (simp add: upsert_by_def k)
  qed
qed

lemma upsert_same: "distinct (map key xs) \<Longrightarrow> r \<in> set xs \<Longrightarrow> upsert_by key r xs = xs"
  by (auto simp: upsert_by_def distinct_map inj_on_def intro!: map_idI)

lemma upsert_removed: "\<forall>x \<in> set xs. key x \<noteq> k \<Longrightarrow> key r = k \<Longrightarrow> filter (\<lambda>x. key x \<noteq> k) (upsert_by key r xs) = xs"
  by (auto simp: upsert_by_def filter_id_conv)

lemma find_upsert: "find (\<lambda>x. key x = key r) (upsert_by key r xs) = Some r"
proof (cases "\<exists>x \<in> set xs. key x = key r")
  case True
  then have "find (\<lambda>x. key x = key r) (map (\<lambda>x. if key x = key r then r else x) xs) = Some r"
    by (induction xs) auto
  then show ?thesis using True by (simp add: upsert_by_def)
next
  case False
  then have "find (\<lambda>x. key x = key r) (xs @ [r]) = Some r" by (induction xs) auto
  then show ?thesis using False by (simp add: upsert_by_def)
qed

lemma find_upsert_other: "key r \<noteq> k \<Longrightarrow> find (\<lambda>x. key x = k) (upsert_by key r xs) = find (\<lambda>x. key x = k) xs"
proof -
  assume k: "key r \<noteq> k"
  then have "find (\<lambda>x. key x = k) (map (\<lambda>x. if key x = key r then r else x) xs) = find (\<lambda>x. key x = k) xs"
    "find (\<lambda>x. key x = k) (xs @ [r]) = find (\<lambda>x. key x = k) xs" by (induction xs) auto
  then show ?thesis by (simp add: upsert_by_def)
qed

section \<open>Settings\<close>

lemma fold_settings_other: "k \<notin> fst ` set vs \<Longrightarrow> fold (\<lambda>(k, v) s. s(k \<mapsto> v)) vs s k = s k"
  by (induction vs arbitrary: s) auto

lemma fold_settings_present:
  "fold (\<lambda>(k, v) s. s(k \<mapsto> v)) (concat (map (\<lambda>k. case f k of None \<Rightarrow> [] | Some v \<Rightarrow> [(k, v)]) keys)) s
     = (\<lambda>k. if k \<in> set keys \<and> f k \<noteq> None then f k else s k)"
  by (induction keys arbitrary: s) (auto simp: fun_eq_iff split: option.splits)

lemma restore_settings_exact:
  assumes "\<And>k. k \<notin> set output_setting_keys \<Longrightarrow> n_settings n' st k = n_settings n st k"
    and "\<And>x. x \<noteq> st \<Longrightarrow> n_settings n' x = n_settings n x"
  shows "n_settings (restore_settings st (sn_settings (snapshot_output st n)) n') = n_settings n"
proof
  fix x
  have "filter (\<lambda>p. fst p \<in> set output_setting_keys) (sn_settings (snapshot_output st n)) = sn_settings (snapshot_output st n)"
    by (auto simp: filter_id_conv snapshot_output_def split: option.splits)
  moreover have "(\<lambda>k. if k \<in> set output_setting_keys \<and> n_settings n st k \<noteq> None then n_settings n st k
      else if k \<in> set output_setting_keys then None else n_settings n' st k) = n_settings n st"
    using assms(1) by auto
  ultimately show "n_settings (restore_settings st (sn_settings (snapshot_output st n)) n') x = n_settings n x"
    using assms(2) by (auto simp: restore_settings_def put_settings_def snapshot_output_def fold_settings_present)
qed

lemma config_keys: "fst ` set (config_settings text_of c) = set output_setting_keys"
  by (auto simp: config_settings_def output_setting_keys_def)

section \<open>Writing a configuration\<close>

definition only_station :: "int \<Rightarrow> 'a stream_store_scheme \<Rightarrow> 'a stream_store_scheme \<Rightarrow> bool" where
  "only_station st n n' \<longleftrightarrow>
     (n_outputs n' = n_outputs n
      \<or> (\<exists>r. so_station r = st \<and> vaulted (so_password r) \<and> n_outputs n' = upsert_by so_station r (n_outputs n)))
     \<and> (\<forall>k. k \<notin> set output_setting_keys \<longrightarrow> n_settings n' st k = n_settings n st k)
     \<and> (\<forall>x. x \<noteq> st \<longrightarrow> n_settings n' x = n_settings n x)
     \<and> store.more n' = store.more n"

lemma config_row_station [simp]: "so_station (config_row c p) = cf_station c"
  by (simp add: config_row_def)

lemma write_config_frame:
  assumes "write_config v reason draft c n ps = (res, n', ps')"
  shows "only_station (cf_station c) n n'"
proof -
  obtain seq n1 where app: "journal_append ''stream_config'' (int_str draft) ''apply'' (public_config (ae_text v) c) n = (seq, n1)"
    by fastforce
  obtain sent n2 ps2 where sent: "(if ae_ha v = None then (True, n1, ps) else replicate_ordered (Some seq) 250 (ae_net v) n1 ps)
      = (sent, n2, ps2)" by (metis prod_cases3)
  have n1: "n_outputs n1 = n_outputs n" "n_settings n1 = n_settings n" "store.more n1 = store.more n"
    using append_frame [OF app] by simp_all
  have n2: "n_outputs n2 = n_outputs n" "n_settings n2 = n_settings n" "store.more n2 = store.more n"
    using sent n1 by (auto simp: replicate_ordered_def split: if_splits dest!: send_frame)
  obtain res3 n3 where up: "upsert_output (ae_protect v) (config_row c (resolve_credential_value (cf_reference c) (n_vault n2))) n2
      = (res3, n3)" by fastforce
  have n3: "n_settings n3 = n_settings n" "store.more n3 = store.more n"
    "n_outputs n3 = n_outputs n
     \<or> (\<exists>r. so_station r = cf_station c \<and> vaulted (so_password r) \<and> n_outputs n3 = upsert_by so_station r (n_outputs n))"
    subgoal using upsert_output_frame [OF up] n2 by simp
    subgoal using upsert_output_frame [OF up] n2 by simp
    subgoal
    proof (cases res3)
      case (Inr u)
      then obtain p where "vaulted p" "n_outputs n3 = upsert_by so_station (stored_row (config_row c
          (resolve_credential_value (cf_reference c) (n_vault n2))) p) (n_outputs n)"
        using upsert_output_rows [OF up] n2(1) by auto
      then show ?thesis using stored_row_station stored_row_password config_row_station by metis
    qed (use upsert_output_rows [OF up] n2(1) in simp)
    done
  have base: "only_station (cf_station c) n n" "only_station (cf_station c) n n2" "only_station (cf_station c) n n3"
    using n2 n3 by (auto simp: only_station_def)
  have "only_station (cf_station c) n (put_settings (cf_station c) (config_settings (ae_text v) c) n3)"
    using n3 config_keys [of "ae_text v" c]
    by (auto simp: only_station_def put_settings_def fold_settings_other)
  then show ?thesis using assms base
    by (auto simp: write_config_def app sent up Let_def split: sum.splits if_splits)
qed

section \<open>Restoring\<close>

text \<open>
  What SQLite and the program keep true of the rows: one per station, and no password in clear, since
  \<open>init_db\<close> and every upsert move passwords into the vault.
\<close>

definition vaulted_outputs :: "'a store_scheme \<Rightarrow> bool" where
  "vaulted_outputs n \<longleftrightarrow> distinct (map so_station (n_outputs n)) \<and> (\<forall>r \<in> set (n_outputs n). vaulted (so_password r))"

lemma distinct_upsert: "distinct (map key xs) \<Longrightarrow> distinct (map key (upsert_by key r xs))"
proof (cases "\<exists>x \<in> set xs. key x = key r")
  case True
  have "map key (map (\<lambda>x. if key x = key r then r else x) xs) = map key xs" by (induction xs) auto
  then show "distinct (map key xs) \<Longrightarrow> ?thesis" using True by (simp only: upsert_by_def if_True)
next
  case False
  then have "key r \<notin> key ` set xs" by (metis imageE)
  then show "distinct (map key xs) \<Longrightarrow> ?thesis" using False by (simp add: upsert_by_def)
qed

lemma upsert_output_vaulted:
  assumes "vaulted_outputs n" "upsert_output can_protect r n = (res, n')"
  shows "vaulted_outputs n'"
  using upsert_output_rows [OF assms(2)] assms(1) distinct_upsert [of so_station "n_outputs n"]
  by (auto simp: vaulted_outputs_def) (auto simp: upsert_by_def split: if_splits)

text \<open>
  A restored row is the old one with defaults for what was empty; if it had no password it may keep the
  one that was written meanwhile.
\<close>

definition restored_as :: "output_row \<Rightarrow> output_row \<Rightarrow> bool" where
  "restored_as r r' \<longleftrightarrow> r' = r \<or> (r' = (restored_row (so_station r) r)\<lparr>so_password := so_password r'\<rparr>
     \<and> (so_password r \<noteq> [] \<longrightarrow> so_password r' = so_password r))"

text \<open>A row that needs no defaults and has a password.\<close>

definition complete_output :: "output_row \<Rightarrow> bool" where
  "complete_output r \<longleftrightarrow> so_host r \<noteq> [] \<and> so_port r \<noteq> 0 \<and> so_mount r \<noteq> [] \<and> so_user r \<noteq> [] \<and> so_profile r \<noteq> []
     \<and> so_bitrate r \<noteq> 0 \<and> so_password r \<noteq> []"

lemma restored_complete: "complete_output r \<Longrightarrow> restored_as r r' \<Longrightarrow> r' = r"
  by (auto simp: complete_output_def restored_as_def restored_row_def or_default_def nonzero_def)

lemma restored_rows_complete:
  "list_all2 restored_as rs rs' \<Longrightarrow> \<forall>r \<in> set rs. complete_output r \<Longrightarrow> rs' = rs"
  by (induction rule: list_all2_induct) (auto dest: restored_complete)

lemma restored_row_stored: "stored_row (restored_row st r) p = (restored_row st r)\<lparr>so_password := p\<rparr>"
  by (simp add: stored_row_def restored_row_def or_default_def nonzero_def)

lemma restored_row_simps [simp]: "so_station (restored_row st r) = st" "so_password (restored_row st r) = so_password r"
  by (simp_all add: restored_row_def)

lemma upsert_vaulted:
  assumes "p = (if so_password r = [] then (case get_output (so_station r) n of None \<Rightarrow> [] | Some x \<Rightarrow> so_password x) else so_password r)"
    and "vaulted p"
  shows "upsert_output can_protect r n = (Inr (), n\<lparr>n_outputs := upsert_by so_station (stored_row r p) (n_outputs n)\<rparr>)"
  using assms(2) unfolding upsert_output_alt Let_def assms(1) [symmetric] vaulted_def
  by (metis (no_types, lifting))

lemma get_output_Some: "get_output st n = Some r \<Longrightarrow> r \<in> set (n_outputs n) \<and> so_station r = st"
  by (auto simp: get_output_def find_Some_iff)

lemma upsert_restores:
  assumes "distinct (map so_station rows)" "r \<in> set rows" "restored_as r r'" "so_station r' = so_station r"
  shows "list_all2 restored_as rows (upsert_by so_station r' rows)"
proof -
  have "restored_as x (if so_station x = so_station r' then r' else x)" if "x \<in> set rows" for x
  proof (cases "so_station x = so_station r'")
    case True
    then have "x = r" using assms that by (metis distinct_map inj_onD)
    then show ?thesis using assms(3,4) by simp
  qed (simp add: restored_as_def)
  then have "list_all2 restored_as rows (map (\<lambda>x. if so_station x = so_station r' then r' else x) rows)"
    by (simp add: list_all2_conv_all_nth)
  moreover have "\<exists>x \<in> set rows. so_station x = so_station r'" using assms(2,4) by auto
  ultimately show ?thesis by (simp add: upsert_by_def)
qed

lemma restore_exact:
  fixes n n2 :: "'a stream_store_scheme"
  assumes rows_ok: "vaulted_outputs n" and only: "only_station st n n2"
    and op: "find_operation i n2 = Some x" "sp_station x = st" "sp_previous x = snapshot_output st n"
  shows "\<exists>n3. restore_previous can_protect i n2 = (Inr (), n3) \<and> list_all2 restored_as (n_outputs n) (n_outputs n3)
    \<and> n_settings n3 = n_settings n
    \<and> store.more n3 = store.more n2 \<and> n_journal n3 = n_journal n2 \<and> n_vault n3 = n_vault n2"
proof -
  have rows: "n_outputs n2 = n_outputs n
      \<or> (\<exists>r. so_station r = st \<and> vaulted (so_password r) \<and> n_outputs n2 = upsert_by so_station r (n_outputs n))"
    and settings: "\<And>k. k \<notin> set output_setting_keys \<Longrightarrow> n_settings n2 st k = n_settings n st k"
      "\<And>y. y \<noteq> st \<Longrightarrow> n_settings n2 y = n_settings n y"
    using only by (simp_all add: only_station_def)
  have same: "n_settings (restore_settings st (sn_settings (snapshot_output st n)) m) = n_settings n"
    if "n_settings m = n_settings n2" for m
    by (rule restore_settings_exact) (simp_all add: that settings)
  have rest: "n_outputs (restore_settings st kept m) = n_outputs m" "store.more (restore_settings st kept m) = store.more m"
    "n_journal (restore_settings st kept m) = n_journal m" "n_vault (restore_settings st kept m) = n_vault m" for kept and m :: "'a stream_store_scheme"
    by (simp_all add: restore_settings_def put_settings_def)
  show ?thesis
  proof (cases "get_output st n")
    case None
    then have none: "\<forall>r \<in> set (n_outputs n). so_station r \<noteq> st" by (auto simp: get_output_def find_None_iff)
    then have "filter (\<lambda>r. so_station r \<noteq> st) (n_outputs n2) = n_outputs n"
      using rows upsert_removed [OF none] by (auto simp: filter_id_conv)
    moreover have "list_all2 restored_as (n_outputs n) (n_outputs n)"
      by (simp add: list_all2_same restored_as_def)
    ultimately show ?thesis
      using op None same [of "n2\<lparr>n_outputs := filter (\<lambda>r. so_station r \<noteq> st) (n_outputs n2)\<rparr>"] rest
      by (simp add: restore_previous_def snapshot_output_def)
  next
    case (Some r)
    then have r: "r \<in> set (n_outputs n)" "so_station r = st" "vaulted (so_password r)" and dist: "distinct (map so_station (n_outputs n))"
      using rows_ok get_output_Some by (auto simp: vaulted_outputs_def)
    define p where "p = (if so_password r = [] then (case get_output st n2 of None \<Rightarrow> [] | Some x \<Rightarrow> so_password x) else so_password r)"
    let ?r = "stored_row (restored_row st r) p"
    have "vaulted p"
    proof -
      have "vaulted (so_password y)" if "get_output st n2 = Some y" for y
        using rows that Some r(3) find_upsert [of so_station _ "n_outputs n"] by (auto simp: get_output_def)
      then show ?thesis using r(3) by (auto simp: p_def split: option.splits)
    qed
    then have up: "upsert_output can_protect (restored_row st r) n2 = (Inr (), n2\<lparr>n_outputs := upsert_by so_station ?r (n_outputs n2)\<rparr>)"
      by (intro upsert_vaulted) (simp_all add: p_def)
    have "upsert_by so_station ?r (n_outputs n2) = upsert_by so_station ?r (n_outputs n)"
      using rows upsert_twice [of so_station ?r] by auto
    moreover have "list_all2 restored_as (n_outputs n) (upsert_by so_station ?r (n_outputs n))"
      by (rule upsert_restores [OF dist r(1)]) (use r(2) in \<open>simp_all add: restored_as_def restored_row_stored p_def\<close>)
    ultimately show ?thesis
      using op Some same [of "n2\<lparr>n_outputs := upsert_by so_station ?r (n_outputs n2)\<rparr>"] rest up
      by (simp add: restore_previous_def snapshot_output_def)
  qed
qed

section \<open>All or nothing\<close>

text \<open>The node after the operation of a change is written down.\<close>

definition with_operation :: "int \<Rightarrow> string \<Rightarrow> int \<Rightarrow> stream_config \<Rightarrow> 'a stream_store_scheme \<Rightarrow> 'a stream_store_scheme" where
  "with_operation actor key i c n = n\<lparr>st_operations := st_operations n @ [\<lparr>sp_id = next_rowid (map sp_id (st_operations n)),
     sp_draft = i, sp_station = cf_station c, sp_key = key, sp_status = ''preparing'',
     sp_previous = snapshot_output (cf_station c) n, sp_by = actor\<rparr>]\<rparr>"

lemma with_operation_parts [simp]:
  "n_outputs (with_operation actor key i c n) = n_outputs n" "n_settings (with_operation actor key i c n) = n_settings n"
  "st_drafts (with_operation actor key i c n) = st_drafts n" "n_journal (with_operation actor key i c n) = n_journal n"
  "n_vault (with_operation actor key i c n) = n_vault n"
  "snapshot_output st (with_operation actor key i c n) = snapshot_output st n"
  "vaulted_outputs (with_operation actor key i c n) = vaulted_outputs n"
  by (simp_all add: with_operation_def snapshot_output_def get_output_def vaulted_outputs_def)

lemma find_with_operation:
  assumes "st_operations m = st_operations (with_operation actor key i c n)"
  shows "find_operation (next_rowid (map sp_id (st_operations n))) m = Some \<lparr>sp_id = next_rowid (map sp_id (st_operations n)),
     sp_draft = i, sp_station = cf_station c, sp_key = key, sp_status = ''preparing'',
     sp_previous = snapshot_output (cf_station c) n, sp_by = actor\<rparr>"
proof -
  have "\<forall>x \<in> set (st_operations n). sp_id x \<noteq> next_rowid (map sp_id (st_operations n))"
    using next_rowid_fresh [of "map sp_id (st_operations n)"] by (metis imageI list.set_map)
  then have "find (\<lambda>x. sp_id x = next_rowid (map sp_id (st_operations n))) (st_operations n) = None" by (auto simp: find_None_iff)
  moreover have "find P (xs @ [x]) = (case find P xs of None \<Rightarrow> if P x then Some x else None | Some y \<Rightarrow> Some y)"
    for P and xs :: "stream_operation list" and x by (induction xs) auto
  ultimately show ?thesis using assms by (simp add: find_operation_def with_operation_def)
qed

text \<open>The branches of \<open>apply_draft\<close>.\<close>

lemma applied_node_parts [simp]:
  "n_outputs (applied_node op i n) = n_outputs n" "n_settings (applied_node op i n) = n_settings n"
  "n_vault (applied_node op i n) = n_vault n" "n_journal (applied_node op i n) = n_journal n"
  by (simp_all add: applied_node_def set_operation_def)

lemma apply_draft_cases:
  assumes "apply_draft v actor idem reason i n ps = (res, n', ps')"
  obtains e where "res = Inl e" "n' = n" "ps' = ps"
    | x where "find (\<lambda>x. sp_key x = strip idem) (st_operations n) = Some x" "res = Inr (sp_id x)" "n' = n" "ps' = ps"
    | d live n2 where "find_draft i n = Some d" "df_status d = ''validated''" "df_outcome d = Some ''ready'' \<or> strip reason \<noteq> []"
        "write_config v reason i (df_config d) (with_operation actor (strip idem) i (df_config d) n) ps = (Inr live, n2, ps')"
        "ae_audit v = None" "res = Inr (next_rowid (map sp_id (st_operations n)))"
        "n' = applied_node (next_rowid (map sp_id (st_operations n))) i n2"
    | d written n2 e m where "find_draft i n = Some d" "df_status d = ''validated''"
        "df_outcome d = Some ''ready'' \<or> strip reason \<noteq> []"
        "write_config v reason i (df_config d) (with_operation actor (strip idem) i (df_config d) n) ps = (written, n2, ps')"
        "written = Inl e \<and> m = n2 \<or>
         ae_audit v = Some e \<and> m = applied_node (next_rowid (map sp_id (st_operations n))) i n2"
        "(res, n') = undo_apply v (next_rowid (map sp_id (st_operations n))) e m"
proof (cases "strip idem = [] \<or> 128 < length (strip idem)")
  case True
  then have "apply_draft v actor idem reason i n ps = (Inl (RuntimeError ''idempotency_key_required''), n, ps)"
    by (simp only: apply_draft_def Let_def if_True)
  then show ?thesis using assms by (intro that(1)) auto
next
  case key: False
  show ?thesis
  proof (cases "find (\<lambda>x. sp_key x = strip idem) (st_operations n)")
    case (Some x)
    then have "apply_draft v actor idem reason i n ps = (Inr (sp_id x), n, ps)"
      using key by (simp add: apply_draft_def Let_def)
    then show ?thesis using assms by (intro that(2) [OF Some]) auto
  next
    case new: None
    show ?thesis
    proof (cases "apply_refusal (strip idem) reason (find_draft i n)")
      case (Some e)
      then have "apply_draft v actor idem reason i n ps = (Inl e, n, ps)"
        using key new by (simp add: apply_draft_def Let_def)
      then show ?thesis using assms by (intro that(1)) auto
    next
      case None
      let ?op = "next_rowid (map sp_id (st_operations n))"
      obtain d where d: "find_draft i n = Some d" "df_status d = ''validated''" "df_outcome d = Some ''ready'' \<or> strip reason \<noteq> []"
        using None by (auto simp: apply_refusal_def split: option.splits if_splits)
      obtain written n2 ps2 where w: "write_config v reason i (df_config d) (with_operation actor (strip idem) i (df_config d) n) ps
          = (written, n2, ps2)" by (metis prod_cases3)
      have app: "(res, n', ps') = (case written of
            Inl e \<Rightarrow> (let (r, n3) = undo_apply v ?op e n2 in (r, n3, ps2))
          | Inr _ \<Rightarrow> (case ae_audit v of
              None \<Rightarrow> (Inr ?op, applied_node ?op i n2, ps2)
            | Some e \<Rightarrow> (let (r, n3) = undo_apply v ?op e (applied_node ?op i n2) in (r, n3, ps2))))"
        unfolding assms [symmetric] using key new None w d(1)
        by (simp add: apply_draft_def Let_def with_operation_def split: sum.splits)
      then have "ps' = ps2" by (auto split: sum.splits option.splits prod.splits)
      with w have w': "write_config v reason i (df_config d) (with_operation actor (strip idem) i (df_config d) n) ps
          = (written, n2, ps')" by simp
      show ?thesis
      proof (cases written)
        case (Inl e)
        then have "(res, n') = undo_apply v ?op e n2" using app by (auto split: prod.splits)
        then show ?thesis using Inl by (intro that(4) [OF d w', of e n2]) simp_all
      next
        case (Inr live)
        show ?thesis
        proof (cases "ae_audit v")
          case None
          then show ?thesis using app Inr w' by (intro that(3) [OF d, of live n2]) simp_all
        next
          case (Some e)
          then have "(res, n') = undo_apply v ?op e (applied_node ?op i n2)" using app Inr by (auto split: prod.splits)
          then show ?thesis using Some by (intro that(4) [OF d w', of e "applied_node ?op i n2"]) simp_all
        qed
      qed
    qed
  qed
qed

end
