(* ===== verification/Stream_Props.thy ===== *)
theory Stream_Props
  imports Stream_Laws
begin

text \<open>What changing the stream guarantees, and what a failed or a later change leaves behind.\<close>

lemma find_append_last: "\<forall>x \<in> set xs. key x \<noteq> k \<Longrightarrow> key y = k \<Longrightarrow> find (\<lambda>x. key x = k) (xs @ [y]) = Some y"
  by (induction xs) auto

lemma set_operation_last:
  assumes "st_operations m = xs @ [x]" "\<forall>y \<in> set xs. sp_id y \<noteq> sp_id x"
  shows "st_operations (set_operation (sp_id x) s m) = xs @ [x\<lparr>sp_status := s\<rparr>]"
proof -
  have "map (\<lambda>r. if sp_id r = sp_id x then r\<lparr>sp_status := s\<rparr> else r) xs = xs" using assms(2) by (intro map_idI) auto
  then show ?thesis using assms(1) by (simp add: set_operation_def update_where_def)
qed

lemma set_operation_parts [simp]:
  "n_outputs (set_operation i s n) = n_outputs n" "n_settings (set_operation i s n) = n_settings n"
  "st_drafts (set_operation i s n) = st_drafts n" "n_vault (set_operation i s n) = n_vault n"
  by (simp_all add: set_operation_def)

definition draft_applied :: "int \<Rightarrow> stream_draft list \<Rightarrow> stream_draft list" where
  "draft_applied i ds = update_where (\<lambda>d. df_id d = i) (df_status_update (\<lambda>_. ''applied'')) ds"

text \<open>Undoing what was written, or written and then marked as applied.\<close>

lemma undo_exact:
  fixes n m :: stream_store
  assumes rows_ok: "vaulted_outputs n" and only: "only_station (cf_station c) (with_operation actor key i c n) n2"
    and m: "m = n2 \<or> m = applied_node (next_rowid (map sp_id (st_operations n))) i n2"
    and undo: "(res, n') = undo_apply v (next_rowid (map sp_id (st_operations n))) e m"
  shows "res = Inl e \<and> list_all2 restored_as (n_outputs n) (n_outputs n') \<and> n_settings n' = n_settings n
    \<and> st_drafts n' = st_drafts m \<and> n_vault n' = n_vault n2
    \<and> (\<exists>x. st_operations n' = st_operations n @ [x] \<and> sp_status x = ''rolled_back'' \<and> sp_key x = key)"
proof -
  let ?op = "next_rowid (map sp_id (st_operations n))" and ?n1 = "with_operation actor key i c n"
  have fresh: "\<forall>y \<in> set (st_operations n). sp_id y \<noteq> ?op"
    using next_rowid_fresh [of "map sp_id (st_operations n)"] by (metis imageI list.set_map)
  have ops: "st_operations n2 = st_operations ?n1"
    using only more_tables [of n2 ?n1] by (simp add: only_station_def)
  define x where "x = \<lparr>sp_id = ?op, sp_draft = i, sp_station = cf_station c, sp_key = key,
    sp_status = (if m = n2 then ''preparing'' else ''applied''), sp_previous = snapshot_output (cf_station c) n, sp_by = actor\<rparr>"
  have m_ops: "st_operations m = st_operations n @ [x]"
  proof (cases "m = n2")
    case True
    then show ?thesis using ops by (simp add: x_def with_operation_def)
  next
    case False
    then have "st_operations m = st_operations (set_operation ?op ''applied'' n2)"
      using m by (simp add: applied_node_def)
    then show ?thesis
      using set_operation_last [of n2 "st_operations n" "x\<lparr>sp_status := ''preparing''\<rparr>" "''applied''"] ops fresh False
      by (simp add: x_def with_operation_def)
  qed
  have m_rest: "n_outputs m = n_outputs n2" "n_settings m = n_settings n2" "n_vault m = n_vault n2"
    using m by auto
  have only_m: "only_station (cf_station c) (n\<lparr>st_operations := st_operations m, st_drafts := st_drafts m\<rparr>) m"
  proof -
    have "store.more n2 = store.more ?n1" using only by (simp add: only_station_def)
    then have "st_stations m = st_stations n" using m more_tables [of n2 ?n1]
      by (auto simp: applied_node_def set_operation_def with_operation_def)
    then have "store.more m = store.more (n\<lparr>st_operations := st_operations m, st_drafts := st_drafts m\<rparr>)"
      by (cases m; cases n) simp
    then show ?thesis using only m_rest by (simp add: only_station_def)
  qed
  have found: "find_operation ?op m = Some x"
    using fresh by (simp add: find_operation_def m_ops x_def find_append_last)
  have "snapshot_output (cf_station c) (n\<lparr>st_operations := st_operations m, st_drafts := st_drafts m\<rparr>)
      = snapshot_output (cf_station c) n"
    by (simp add: snapshot_output_def get_output_def)
  then obtain n3 where n3: "restore_previous (ae_protect v) ?op m = (Inr (), n3)"
      "list_all2 restored_as (n_outputs n) (n_outputs n3)" "n_settings n3 = n_settings n" "store.more n3 = store.more m"
      "n_vault n3 = n_vault m"
    using restore_exact [OF _ only_m found, of "ae_protect v"] rows_ok by (auto simp: x_def vaulted_outputs_def)
  have n': "res = Inl e" "n' = set_operation ?op ''rolled_back'' n3" using undo n3(1) by (simp_all add: undo_apply_def)
  have tables: "st_operations n3 = st_operations n @ [x]" "st_drafts n3 = st_drafts m"
    using more_tables [OF n3(4)] m_ops by simp_all
  have "\<exists>x. st_operations n' = st_operations n @ [x] \<and> sp_status x = ''rolled_back'' \<and> sp_key x = key"
    using set_operation_last [OF tables(1), of "''rolled_back''"] fresh by (simp add: n'(2) x_def)
  then show ?thesis using n' n3 tables m_rest by simp
qed

text \<open>
  C18: an application that raises, at whatever point, leaves the settings as they were, every output row as
  it was or restored as such, and one record of the operation, rolled back, when it had begun. A restored
  row has defaults for an empty address, port, mount, user, profile or bit rate, and if it had no password
  it may keep that of the change; every other field and every row that is complete and has a password is
  what it was. The draft stays what it was unless it was the audit record of a successful change that
  failed: then it stays marked as applied.
\<close>

theorem failed_change_restores:
  fixes n :: stream_store
  assumes "apply_draft v actor idem reason i n ps = (Inl e, n', ps')" "vaulted_outputs n"
  shows "list_all2 restored_as (n_outputs n) (n_outputs n') \<and> n_settings n' = n_settings n
    \<and> ((\<forall>r \<in> set (n_outputs n). complete_output r) \<longrightarrow> n_outputs n' = n_outputs n)
    \<and> (st_operations n' = st_operations n
       \<or> (\<exists>x. st_operations n' = st_operations n @ [x] \<and> sp_status x = ''rolled_back'' \<and> sp_key x = strip idem))
    \<and> (st_drafts n' = st_drafts n \<or> ae_audit v \<noteq> None \<and> st_drafts n' = draft_applied i (st_drafts n))"
  using assms(1)
proof (cases rule: apply_draft_cases)
  case 1
  then show ?thesis by (simp add: list_all2_same restored_as_def)
next
  case (4 d written n2 e' m)
  have only: "only_station (cf_station (df_config d)) (with_operation actor (strip idem) i (df_config d) n) n2"
    using write_config_frame [OF 4(4)] .
  have "st_drafts n2 = st_drafts n"
    using only more_tables [of n2 "with_operation actor (strip idem) i (df_config d) n"] by (simp add: only_station_def)
  then have "st_drafts m = st_drafts n \<or> ae_audit v \<noteq> None \<and> st_drafts m = draft_applied i (st_drafts n)"
    using 4(5) by (auto simp: applied_node_def draft_applied_def)
  moreover have "m = n2 \<or> m = applied_node (next_rowid (map sp_id (st_operations n))) i n2" using 4(5) by blast
  ultimately show ?thesis
    using undo_exact [OF assms(2) only _ 4(6)] restored_rows_complete by auto
qed auto

text \<open>
  The audit record of a change is written after the change is committed, inside the handler that undoes it:
  when that record fails, the output and the operation are rolled back, but the draft stays applied.
\<close>

theorem failed_audit_leaves_draft_applied:
  fixes n :: stream_store
  assumes "find_draft i n = Some d" "df_status d = ''validated''" "df_outcome d = Some ''ready''"
    and "strip idem \<noteq> []" "length (strip idem) \<le> 128" "\<forall>x \<in> set (st_operations n). sp_key x \<noteq> strip idem"
    and "write_config v reason i (df_config d) (with_operation actor (strip idem) i (df_config d) n) ps = (Inr live, n2, ps')"
    and "ae_audit v = Some e" "vaulted_outputs n"
  shows "\<exists>n'. apply_draft v actor idem reason i n ps = (Inl e, n', ps') \<and> st_drafts n' = draft_applied i (st_drafts n)
    \<and> list_all2 restored_as (n_outputs n) (n_outputs n')
    \<and> (\<exists>x. st_operations n' = st_operations n @ [x] \<and> sp_status x = ''rolled_back'')"
proof -
  let ?op = "next_rowid (map sp_id (st_operations n))"
  obtain res n' where undo: "undo_apply v ?op e (applied_node ?op i n2) = (res, n')" by fastforce
  have only: "only_station (cf_station (df_config d)) (with_operation actor (strip idem) i (df_config d) n) n2"
    using write_config_frame [OF assms(7)] .
  have drafts: "st_drafts n2 = st_drafts n"
    using only more_tables [of n2 "with_operation actor (strip idem) i (df_config d) n"] by (simp add: only_station_def)
  have undone: "res = Inl e \<and> list_all2 restored_as (n_outputs n) (n_outputs n') \<and> n_settings n' = n_settings n
      \<and> st_drafts n' = st_drafts (applied_node ?op i n2) \<and> n_vault n' = n_vault n2
      \<and> (\<exists>x. st_operations n' = st_operations n @ [x] \<and> sp_status x = ''rolled_back'' \<and> sp_key x = strip idem)"
    by (rule undo_exact [OF assms(9) only _ undo [symmetric]]) simp
  have new: "find (\<lambda>x. sp_key x = strip idem) (st_operations n) = None" using assms(6) by (simp add: find_None_iff)
  have "apply_refusal (strip idem) reason (find_draft i n) = None" using assms(1-3) by (simp add: apply_refusal_def)
  then have "apply_draft v actor idem reason i n ps = (res, n', ps')"
    using assms(1,4,5,7,8) new undo by (simp add: apply_draft_def Let_def with_operation_def)
  then show ?thesis using undone drafts by (auto simp: applied_node_def draft_applied_def)
qed

lemma fold_settings_in:
  "distinct (map fst vs) \<Longrightarrow> (k, x) \<in> set vs \<Longrightarrow> fold (\<lambda>(k, v) s. s(k \<mapsto> v)) vs s k = Some x"
proof (induction vs arbitrary: s)
  case (Cons p vs)
  obtain k' x' where p: "p = (k', x')" by fastforce
  show ?case
  proof (cases "p = (k, x)")
    case True
    have "fold (\<lambda>(k, v) s. s(k \<mapsto> v)) (p # vs) s k = fold (\<lambda>(k, v) s. s(k \<mapsto> v)) vs (s(k \<mapsto> x)) k"
      by (simp only: True fold_simps prod.case)
    also have "\<dots> = (s(k \<mapsto> x)) k" by (rule fold_settings_other) (use Cons.prems(1) True in auto)
    also have "\<dots> = Some x" by simp
    finally show ?thesis .
  qed (use Cons p in auto)
qed simp

lemma config_settings_distinct: "distinct (map fst (config_settings text_of c))"
  by (simp add: config_settings_def)

text \<open>A change that is written: it was allowed, it was heard, and this is what it wrote.\<close>

lemma write_config_done:
  fixes n :: "'a stream_store_scheme"
  assumes "write_config v reason draft c n ps = (Inr live, n', ps')"
  shows "(case ae_ha v of None \<Rightarrow> True | Some h \<Rightarrow> role h = Leader \<and> quorum h \<or> strip reason \<noteq> [])
    \<and> verify_live (cf_icecast c) (ae_live v) = Inr live
    \<and> (\<exists>p q. n_outputs n' = upsert_by so_station (stored_row (config_row c q) p) (n_outputs n))
    \<and> n_settings n' = (n_settings n)(cf_station c := fold (\<lambda>(k, v) s. s(k \<mapsto> v)) (config_settings (ae_text v) c) (n_settings n (cf_station c)))
    \<and> store.more n' = store.more n"
proof -
  obtain seq n1 where app: "journal_append ''stream_config'' (int_str draft) ''apply'' (public_config (ae_text v) c) n = (seq, n1)"
    by fastforce
  obtain sent n2 ps2 where sent: "(if ae_ha v = None then (True, n1, ps) else replicate_ordered (Some seq) 250 (ae_net v) n1 ps)
      = (sent, n2, ps2)" by (metis prod_cases3)
  have n1: "n_outputs n1 = n_outputs n" "n_settings n1 = n_settings n" "store.more n1 = store.more n"
    using append_frame [OF app] by simp_all
  have n2: "n_outputs n2 = n_outputs n" "n_settings n2 = n_settings n" "store.more n2 = store.more n"
    using sent n1 by (auto simp: replicate_ordered_def split: if_splits dest!: send_frame)
  let ?q = "resolve_credential_value (cf_reference c) (n_vault n2)"
  obtain res3 n3 where up: "upsert_output (ae_protect v) (config_row c ?q) n2 = (res3, n3)" by fastforce
  have safe: "case ae_ha v of None \<Rightarrow> True | Some h \<Rightarrow> role h = Leader \<and> quorum h \<or> strip reason \<noteq> []"
    using assms by (auto simp: write_config_def require_safe_mutation_def split: option.splits sum.splits if_splits)
  have ok: "\<not> isl res3" "n' = put_settings (cf_station c) (config_settings (ae_text v) c) n3"
    "verify_live (cf_icecast c) (ae_live v) = Inr live"
    using assms by (auto simp: write_config_def app sent up Let_def split: sum.splits if_splits)
  have frame: "n_settings n3 = n_settings n" "store.more n3 = store.more n" using upsert_output_frame [OF up] n2 by simp_all
  have rows: "\<exists>p. n_outputs n3 = upsert_by so_station (stored_row (config_row c ?q) p) (n_outputs n)"
    using upsert_output_rows [OF up] ok(1) n2(1) by auto
  then have "\<exists>p q. n_outputs n' = upsert_by so_station (stored_row (config_row c q) p) (n_outputs n)"
    unfolding ok(2) put_settings_def by simp blast
  then show ?thesis using safe ok(2,3) frame by (simp add: put_settings_def)
qed

text \<open>
  C19: an application that reports success for a new key had a validated draft that was ready or a reason to
  override, and a node that may change anything; the station then has exactly the host, port, mount, user,
  device, gain, profile and settings of the draft, and every other station has what it had.
\<close>

theorem applied_change_is_cleared:
  fixes n :: stream_store
  assumes "apply_draft v actor idem reason i n ps = (Inr op, n', ps')" "\<forall>x \<in> set (st_operations n). sp_key x \<noteq> strip idem"
  shows "\<exists>d r. find_draft i n = Some d \<and> df_status d = ''validated'' \<and> (df_outcome d = Some ''ready'' \<or> strip reason \<noteq> [])
    \<and> (case ae_ha v of None \<Rightarrow> True | Some h \<Rightarrow> role h = Leader \<and> quorum h \<or> strip reason \<noteq> [])
    \<and> \<not> isl (verify_live (cf_icecast (df_config d)) (ae_live v))
    \<and> get_output (cf_station (df_config d)) n' = Some r \<and> same_destination r (df_config d)
    \<and> so_user r = cf_user (df_config d) \<and> so_device r = cf_device (df_config d) \<and> so_gain r = cf_gain (df_config d)
    \<and> so_local r = cf_local (df_config d) \<and> so_icecast r = cf_icecast (df_config d)
    \<and> so_profile r = or_default ''aac_plus_196'' (cf_profile (df_config d))
    \<and> (\<forall>p \<in> set (config_settings (ae_text v) (df_config d)). n_settings n' (cf_station (df_config d)) (fst p) = Some (snd p))
    \<and> (\<forall>st. st \<noteq> cf_station (df_config d) \<longrightarrow> get_output st n' = get_output st n \<and> n_settings n' st = n_settings n st)"
  using assms(1)
proof (cases rule: apply_draft_cases)
  case (2 x)
  then show ?thesis using assms(2) by (auto simp: find_Some_iff)
next
  case (3 d live n2)
  let ?c = "df_config d"
  from write_config_done [OF 3(4)] obtain p q where
    wrote: "case ae_ha v of None \<Rightarrow> True | Some h \<Rightarrow> role h = Leader \<and> quorum h \<or> strip reason \<noteq> []"
      "n_outputs n2 = upsert_by so_station (stored_row (config_row ?c q) p) (n_outputs n)"
      "n_settings n2 = (n_settings n)(cf_station ?c := fold (\<lambda>(k, v) s. s(k \<mapsto> v)) (config_settings (ae_text v) ?c) (n_settings n (cf_station ?c)))"
    and heard: "\<not> isl (verify_live (cf_icecast ?c) (ae_live v))"
    by auto
  have n': "n_outputs n' = n_outputs n2" "n_settings n' = n_settings n2" using 3(7) by simp_all
  let ?r = "stored_row (config_row ?c q) p"
  have "get_output (cf_station ?c) n' = Some ?r"
    using find_upsert [of so_station ?r "n_outputs n"] by (simp add: get_output_def n' wrote(2))
  moreover have "get_output st n' = get_output st n \<and> n_settings n' st = n_settings n st" if "st \<noteq> cf_station ?c" for st
    using that find_upsert_other [of so_station ?r st] by (simp add: get_output_def n' wrote)
  moreover have "n_settings n' (cf_station ?c) (fst y) = Some (snd y)" if "y \<in> set (config_settings (ae_text v) ?c)" for y
    using that fold_settings_in [OF config_settings_distinct, of "fst y" "snd y"] by (simp add: n' wrote(3))
  moreover have "same_destination ?r ?c \<and> so_user ?r = cf_user ?c \<and> so_device ?r = cf_device ?c \<and> so_gain ?r = cf_gain ?c
      \<and> so_local ?r = cf_local ?c \<and> so_icecast ?r = cf_icecast ?c \<and> so_profile ?r = or_default ''aac_plus_196'' (cf_profile ?c)"
    by (simp add: stored_row_def config_row_def same_destination_def)
  ultimately show ?thesis using 3(1-3) wrote(1) heard by blast
next
  case (4 d written n2 e m)
  then show ?thesis by (auto simp: undo_apply_def split: prod.splits sum.splits)
qed auto

section \<open>The listener's window\<close>

fun never_twice :: "bool list \<Rightarrow> bool" where
  "never_twice (False # False # xs) = False"
| "never_twice (x # xs) = never_twice xs"
| "never_twice [] = True"

lemma watch_listener_ok:
  "watch_listener True k fails heard seen = Inr (l, ok) \<Longrightarrow> fails \<le> 1 \<Longrightarrow>
     (\<forall>x \<in> set seen. fst x) \<and> l = k + length (filter snd seen) \<and> ok = (if seen = [] then heard else snd (last seen))
     \<and> never_twice (replicate fails False @ map snd seen)"
proof (induction True k fails heard seen rule: watch_listener.induct)
  case (2 k fails heard fed ok' seen)
  consider "fed \<and> ok'" | "fed \<and> \<not> ok' \<and> fails = 0"
    using 2(4,5) by (fastforce split: if_splits)
  then show ?case
  proof cases
    case 1
    have "never_twice (replicate fails False @ True # ys) = never_twice ys" for ys
      using 2(5) by (cases fails) (auto simp: le_Suc_eq)
    then show ?thesis using 2 1 by auto
  next
    case 2
    then show ?thesis using "2.hyps" "2.prems" by auto
  qed
qed (auto simp: le_Suc_eq)

text \<open>
  C21: a change is verified live only if the output was fed at every observation and, with Icecast, the
  listener heard audio at least twice, at the last observation too, and never missed it twice in a row.
\<close>

theorem verified_means_heard:
  assumes "verify_live icecast lv = Inr True"
  shows "lv_running lv \<and> lv_input lv \<and> lv_restarted lv \<and> (\<forall>x \<in> set (lv_seen lv). fst x)
    \<and> (icecast \<longrightarrow> lv_seen lv \<noteq> [] \<and> snd (last (lv_seen lv)) \<and> never_twice (map snd (lv_seen lv))
         \<and> (if 2 \<le> lv_seconds lv then 2 else 1) \<le> length (filter snd (lv_seen lv)))"
proof -
  define need where "need = (if 2 \<le> max 1 (min 60 (lv_seconds lv)) then 2 else 1 :: nat)"
  have run: "lv_running lv" "lv_input lv" "lv_restarted lv" using assms by (auto simp: verify_live_def split: if_splits)
  obtain l ok where w: "watch_listener icecast 0 0 (\<not> icecast) (lv_seen lv) = Inr (l, ok)"
    using assms run by (auto simp: verify_live_def split: sum.splits)
  have heard: "\<not> icecast \<or> (ok \<and> need \<le> l)"
    using assms run w unfolding verify_live_def need_def [symmetric] by (simp split: if_splits)
  have fed: "watch_listener False k f h seen = Inr x \<Longrightarrow> \<forall>y \<in> set seen. fst y" for k f h seen and x :: "nat \<times> bool"
    by (induction False k f h seen rule: watch_listener.induct) (auto split: if_splits)
  have "(2 \<le> max 1 (min 60 (lv_seconds lv))) = (2 \<le> lv_seconds lv)" by (auto simp: min_def max_def)
  then have need: "need = (if 2 \<le> lv_seconds lv then 2 else 1)" by (simp add: need_def)
  show ?thesis
  proof (cases icecast)
    case True
    then have seen: "(\<forall>x \<in> set (lv_seen lv). fst x) \<and> l = length (filter snd (lv_seen lv)) \<and> never_twice (map snd (lv_seen lv))
        \<and> ok = (if lv_seen lv = [] then False else snd (last (lv_seen lv)))"
      using watch_listener_ok [of 0 0 False "lv_seen lv" l ok] w by simp
    then show ?thesis using run heard True unfolding need by (auto split: if_splits)
  qed (use fed w run in auto)
qed

theorem verified_means_heard_witness:
  "never_twice (map snd [(True, True), (True, False), (True, True)])
   \<and> verify_live True \<lparr>lv_running = True, lv_input = True, lv_restarted = True, lv_seconds = 3,
       lv_seen = [(True, True), (True, False), (True, True)]\<rparr> = Inr True"
proof -
  let ?lv = "\<lparr>lv_running = True, lv_input = True, lv_restarted = True, lv_seconds = 3,
       lv_seen = [(True, True), (True, False), (True, True)]\<rparr>"
  have "verify_live True ?lv = Inr True" by (simp add: verify_live_def)
  then show ?thesis using verified_means_heard [of True ?lv] by simp
qed

section \<open>Basic operators\<close>

text \<open>
  C20: a draft of an operator who may only pick a quality keeps the destination, its encryption, the
  device, the gain and the password of the station as they were when it was made; nothing but the profile
  and the bit rate that belongs to it differ, and the vault is not touched.
\<close>

theorem basic_draft_keeps_destination:
  assumes "create_draft text_of can_protect name c actor False n = (Inr i, n')"
  shows "\<exists>d r. find_draft i n' = Some d \<and> get_output (df_station d) n = Some r
    \<and> df_config d = \<lparr>cf_station = df_station d, cf_local = so_local r, cf_device = so_device r, cf_icecast = so_icecast r,
        cf_host = so_host r, cf_port = so_port r, cf_mount = so_mount r, cf_user = so_user r, cf_password = [], cf_reference = [],
        cf_tls = (lower (case n_settings n (df_station d) ''icecast_tls_enabled'' of None \<Rightarrow> ''false'' | Some v \<Rightarrow> v)
            \<in> {''1'', ''true'', ''yes'', ''on''}),
        cf_gain = so_gain r, cf_profile = cf_profile (df_config d), cf_bitrate = cf_bitrate (df_config d)\<rparr>
    \<and> map_of stream_profiles (cf_profile (df_config d)) = Some (cf_bitrate (df_config d))
    \<and> n_vault n' = n_vault n \<and> n_outputs n' = n_outputs n"
proof -
  obtain c1 where c1: "normalize_stream c = Inr c1" using assms by (auto simp: create_draft_def split: sum.splits)
  then have basic: "enforce_basic_change c1 n = Inr ()" using assms by (auto simp: create_draft_def split: sum.splits)
  then obtain r where r: "get_output (cf_station c1) n = Some r" "cf_password c1 = []"
    and eq: "cf_local c1 = so_local r" "cf_device c1 = so_device r" "cf_icecast c1 = so_icecast r" "cf_host c1 = so_host r"
      "cf_port c1 = so_port r" "cf_mount c1 = so_mount r" "cf_user c1 = so_user r" "cf_gain c1 = so_gain r"
      "cf_tls c1 = (lower (case n_settings n (cf_station c1) ''icecast_tls_enabled'' of None \<Rightarrow> ''false'' | Some v \<Rightarrow> v)
        \<in> {''1'', ''true'', ''yes'', ''on''})"
    by (auto simp: enforce_basic_change_def Let_def split: option.splits if_splits)
  have norm: "cf_station c1 = cf_station c" "cf_reference c1 = []" "map_of stream_profiles (cf_profile c1) = Some (cf_bitrate c1)"
    using c1 by (auto simp: normalize_stream_def Let_def split: option.splits if_splits)
  define d where "d = \<lparr>df_id = next_rowid (map df_id (st_drafts n)), df_station = cf_station c, df_revision = 1,
    df_config = c1, df_hash = hash_config text_of c1, df_status = ''draft'', df_outcome = None, df_by = actor\<rparr>"
  have "c1\<lparr>cf_password := [], cf_reference := []\<rparr> = c1" using r(2) norm(2) by (cases c1) simp
  then have n': "i = next_rowid (map df_id (st_drafts n))" "n' = n\<lparr>st_drafts := st_drafts n @ [d]\<rparr>"
    using assms c1 basic r(2) by (auto simp: create_draft_def d_def Let_def split: if_splits)
  have "\<forall>x \<in> set (st_drafts n). df_id x \<noteq> i"
    using next_rowid_fresh [of "map df_id (st_drafts n)"] unfolding n'(1) by (metis imageI list.set_map)
  then have "find (\<lambda>x. df_id x = i) (st_drafts n @ [d]) = Some d"
    by (rule find_append_last) (simp add: d_def n'(1))
  then have "find_draft i n' = Some d" by (simp add: find_draft_def n'(2))
  moreover have "c1 = \<lparr>cf_station = cf_station c, cf_local = so_local r, cf_device = so_device r, cf_icecast = so_icecast r,
      cf_host = so_host r, cf_port = so_port r, cf_mount = so_mount r, cf_user = so_user r, cf_password = [], cf_reference = [],
      cf_tls = (lower (case n_settings n (cf_station c) ''icecast_tls_enabled'' of None \<Rightarrow> ''false'' | Some v \<Rightarrow> v)
          \<in> {''1'', ''true'', ''yes'', ''on''}),
      cf_gain = so_gain r, cf_profile = cf_profile c1, cf_bitrate = cf_bitrate c1\<rparr>"
    using eq r(2) norm(1,2) by (cases c1) simp
  ultimately show ?thesis using r(1) norm n'(2) by (intro exI [of _ d] exI [of _ r]) (simp add: d_def)
qed

section \<open>What a failed change leaves behind\<close>

text \<open>
  The row of the station refers to its one secret: after a change with a new password has failed, the
  restored row reads the new password, also when it had one of its own.
\<close>

lemma upsert_new_secret:
  assumes "so_password r \<noteq> []" "\<not> is_credential_reference (so_password r)"
  shows "upsert_output True r n = (Inr (), n\<lparr>n_vault := (n_vault n)(credential_reference (so_station r) \<mapsto> so_password r),
    n_outputs := upsert_by so_station (stored_row r (credential_reference (so_station r))) (n_outputs n)\<rparr>)"
proof -
  have "strip (credential_reference st) = credential_reference st" for st
    by (simp add: strip_def credential_reference_def reference_prefix_def is_space_def)
  then show ?thesis using assms
    by (simp add: upsert_output_alt set_secret_def is_credential_reference_def credential_reference_def)
qed

theorem failed_change_keeps_new_password:
  fixes n :: stream_store
  assumes d: "find_draft i n = Some d" "df_status d = ''validated''" "df_outcome d = Some ''ready''"
    and key: "strip idem \<noteq> []" "length (strip idem) \<le> 128" "\<forall>x \<in> set (st_operations n). sp_key x \<noteq> strip idem"
    and env: "ae_protect v" "ae_ha v = None" "verify_live (cf_icecast (df_config d)) (ae_live v) = Inl e"
    and password: "resolve_credential_value (cf_reference (df_config d)) (n_vault n) = pw" "pw \<noteq> []" "\<not> is_credential_reference pw"
    and rows_ok: "vaulted_outputs n"
  shows "\<exists>n'. apply_draft v actor idem reason i n ps = (Inl e, n', ps) \<and> list_all2 restored_as (n_outputs n) (n_outputs n')
    \<and> n_vault n' (credential_reference (cf_station (df_config d))) = Some pw"
proof -
  let ?c = "df_config d" and ?op = "next_rowid (map sp_id (st_operations n))"
  let ?n1 = "with_operation actor (strip idem) i ?c n"
  obtain seq n2 where app: "journal_append ''stream_config'' (int_str i) ''apply'' (public_config (ae_text v) ?c) ?n1 = (seq, n2)"
    by fastforce
  have n2: "n_vault n2 = n_vault n" using append_frame [OF app] by simp
  define n3 where "n3 = put_settings (cf_station ?c) (config_settings (ae_text v) ?c)
    (n2\<lparr>n_vault := (n_vault n2)(credential_reference (cf_station ?c) \<mapsto> pw),
        n_outputs := upsert_by so_station (stored_row (config_row ?c pw) (credential_reference (cf_station ?c))) (n_outputs n2)\<rparr>)"
  have up: "upsert_output True (config_row ?c pw) n2 = (Inr (), n2\<lparr>n_vault := (n_vault n2)(credential_reference (cf_station ?c) \<mapsto> pw),
      n_outputs := upsert_by so_station (stored_row (config_row ?c pw) (credential_reference (cf_station ?c))) (n_outputs n2)\<rparr>)"
    using upsert_new_secret [of "config_row ?c pw" n2] password(2,3) by (simp add: config_row_def)
  have "get_output (cf_station ?c) n3 = Some (stored_row (config_row ?c pw) (credential_reference (cf_station ?c)))"
    using find_upsert [of so_station "stored_row (config_row ?c pw) (credential_reference (cf_station ?c))" "n_outputs n2"]
    by (simp add: n3_def get_output_def put_settings_def)
  then have w: "write_config v reason i ?c ?n1 ps = (Inl e, n3, ps)"
    using env app up password(1) n2 by (simp add: write_config_def Let_def n3_def stored_row_def config_row_def)
  have only: "only_station (cf_station ?c) ?n1 n3" using write_config_frame [OF w] .
  obtain res n' where undo: "undo_apply v ?op e n3 = (res, n')" by fastforce
  have undone: "res = Inl e \<and> list_all2 restored_as (n_outputs n) (n_outputs n') \<and> n_settings n' = n_settings n
      \<and> st_drafts n' = st_drafts n3 \<and> n_vault n' = n_vault n3
      \<and> (\<exists>x. st_operations n' = st_operations n @ [x] \<and> sp_status x = ''rolled_back'' \<and> sp_key x = strip idem)"
    by (rule undo_exact [OF rows_ok only _ undo [symmetric]]) simp
  have new: "find (\<lambda>x. sp_key x = strip idem) (st_operations n) = None" using key(3) by (simp add: find_None_iff)
  have "apply_draft v actor idem reason i n ps = (res, n', ps)"
    using key(1,2) new d w undo by (simp add: apply_draft_def Let_def apply_refusal_def with_operation_def)
  then show ?thesis using undone n2 by (simp add: n3_def put_settings_def)
qed

text \<open>
  The journal entry of a change is written before the change: it stays, and reaches the peers, when the
  change fails, and nothing tells them of a rollback.
\<close>

lemma send_keeps_checksums: "send_entries through es net l ps = (ok, l', ps') \<Longrightarrow> map jn_checksum (n_journal l') = map jn_checksum (n_journal l)"
  by (induction es arbitrary: net l ps)
     (auto simp: Let_def mark_replicated_def update_where_def split: if_splits prod.splits)

theorem failed_change_stays_in_the_journal:
  assumes "write_config v reason i c n ps = (res, n', ps')"
    and "case ae_ha v of None \<Rightarrow> True | Some h \<Rightarrow> role h = Leader \<and> quorum h"
  shows "journal_checksum ''stream_config'' (int_str i) ''apply'' (json_text (public_config (ae_text v) c))
    \<in> set (map jn_checksum (n_journal n'))"
proof -
  let ?sum = "journal_checksum ''stream_config'' (int_str i) ''apply'' (json_text (public_config (ae_text v) c))"
  obtain seq n1 where app: "journal_append ''stream_config'' (int_str i) ''apply'' (public_config (ae_text v) c) n = (seq, n1)"
    by fastforce
  obtain sent n2 ps2 where sent: "(if ae_ha v = None then (True, n1, ps) else replicate_ordered (Some seq) 250 (ae_net v) n1 ps)
      = (sent, n2, ps2)" by (metis prod_cases3)
  have "?sum \<in> set (map jn_checksum (n_journal n1))"
  proof (cases "find (\<lambda>j. jn_checksum j = ?sum) (n_journal n)")
    case None
    then have "n1 = n\<lparr>n_journal := n_journal n1\<rparr> \<and> jn_checksum (last (n_journal n1)) = ?sum \<and> n_journal n1 \<noteq> []"
      using app by (auto simp: journal_append_def Let_def)
    then show ?thesis by (metis image_eqI last_in_set list.set_map)
  next
    case (Some j)
    then have "n1 = n" using app by (simp add: journal_append_def Let_def)
    moreover have "j \<in> set (n_journal n)" "jn_checksum j = ?sum" using Some by (auto simp: find_Some_iff)
    ultimately show ?thesis by (metis image_eqI list.set_map)
  qed
  moreover have "map jn_checksum (n_journal n2) = map jn_checksum (n_journal n1)"
    using sent by (auto simp: replicate_ordered_def split: if_splits dest!: send_keeps_checksums)
  ultimately have n2: "?sum \<in> set (map jn_checksum (n_journal n2))" by simp
  obtain res3 n3 where up: "upsert_output (ae_protect v) (config_row c (resolve_credential_value (cf_reference c) (n_vault n2))) n2
      = (res3, n3)" by fastforce
  have safe: "(case ae_ha v of None \<Rightarrow> Inr () | Some h \<Rightarrow> require_safe_mutation reason h) = Inr ()"
    using assms(2) by (auto simp: require_safe_mutation_def split: option.splits)
  have "n_journal n' = n_journal n2"
    using assms(1) upsert_output_frame [OF up]
    by (auto simp: write_config_def app sent up safe Let_def put_settings_def split: sum.splits if_splits)
  then show ?thesis using n2 by simp
qed

theorem rollback_tells_no_peer:
  "rollback_operation can_protect i n = (res, n') \<Longrightarrow> n_journal n' = n_journal n"
  by (auto simp: rollback_operation_def restore_previous_def restore_settings_def put_settings_def set_operation_def
      split: option.splits prod.splits sum.splits dest: upsert_output_frame)

end
