(* ===== verification/Stream_Runs.thy ===== *)
theory Stream_Runs
  imports Stream_Props
begin

text \<open>A station whose stream is changed, for the theorems about changes.\<close>

definition old_output :: output_row where
  "old_output = \<lparr>so_station = 1, so_local = False, so_device = [], so_icecast = True, so_host = ''old.example'', so_port = 80,
     so_mount = ''/live'', so_user = ''source'', so_password = credential_reference 1, so_gain = 0,
     so_profile = ''mp3_128'', so_bitrate = 128\<rparr>"

definition new_config :: "string \<Rightarrow> stream_config" where
  "new_config ref = \<lparr>cf_station = 1, cf_local = False, cf_device = [], cf_icecast = True, cf_host = ''new.example'', cf_port = 80,
     cf_mount = ''/live'', cf_user = ''source'', cf_password = [], cf_reference = ref, cf_tls = False, cf_gain = 0,
     cf_profile = ''mp3_128'', cf_bitrate = 128\<rparr>"

definition draft_reference :: string where
  "draft_reference = reference_prefix @ ''system/stream-draft-1''"

definition ready_draft :: "string \<Rightarrow> stream_draft" where
  "ready_draft ref = \<lparr>df_id = 1, df_station = 1, df_revision = 2, df_config = new_config ref, df_hash = [],
     df_status = ''validated'', df_outcome = Some ''ready'', df_by = 1\<rparr>"

definition streaming_node :: "string \<Rightarrow> stream_store" where
  "streaming_node ref = \<lparr>n_outputs = [old_output], n_vault = [credential_reference 1 \<mapsto> ''old'', draft_reference \<mapsto> ''new''],
     n_settings = (\<lambda>_ _. None), n_slots = [], n_studios = [], n_invites = [], n_guests = [], n_recordings = [], n_consents = [],
     n_journal = [], st_stations = [1], st_drafts = [ready_draft ref], st_operations = []\<rparr>"

definition idle_check :: live_check where
  "idle_check = \<lparr>lv_running = False, lv_input = False, lv_restarted = False, lv_seconds = 60, lv_seen = []\<rparr>"

definition single_node :: "live_check \<Rightarrow> apply_env" where
  "single_node lv = \<lparr>ae_text = (\<lambda>_. ''0.0''), ae_protect = True, ae_ha = None, ae_net = [], ae_live = lv, ae_audit = None\<rparr>"

lemma old_complete: "complete_output old_output"
  by (simp add: complete_output_def old_output_def credential_reference_def reference_prefix_def)

lemma streaming_vaulted: "vaulted_outputs (streaming_node ref)"
  by (simp add: vaulted_outputs_def streaming_node_def old_output_def)

lemma ready_found: "find_draft 1 (streaming_node ref) = Some (ready_draft ref)"
  by (simp add: find_draft_def streaming_node_def ready_draft_def)

lemma draft_password: "resolve_credential_value draft_reference (n_vault (streaming_node ref)) = ''new''"
proof -
  have "strip draft_reference = draft_reference"
    by (simp add: strip_def draft_reference_def reference_prefix_def is_space_def)
  then show ?thesis
    by (simp add: resolve_credential_value_def get_secret_def is_credential_reference_def draft_reference_def streaming_node_def)
qed

theorem failed_change_restores_witness:
  "\<exists>e n' ps'. apply_draft (single_node (idle_check\<lparr>lv_running := True\<rparr>)) 1 ''key'' [] 1 (streaming_node draft_reference) []
       = (Inl e, n', ps')
     \<and> n_outputs n' = [old_output] \<and> n_vault n' (credential_reference 1) = Some ''new''"
proof -
  let ?v = "single_node (idle_check\<lparr>lv_running := True\<rparr>)" and ?n = "streaming_node draft_reference"
  have key: "strip ''key'' = ''key''" by code_simp
  have "\<exists>n'. apply_draft ?v 1 ''key'' [] 1 ?n [] = (Inl (RuntimeError ''active_runtime_input_unavailable''), n', [])
      \<and> list_all2 restored_as (n_outputs ?n) (n_outputs n') \<and> n_vault n' (credential_reference (cf_station (df_config (ready_draft draft_reference)))) = Some ''new''"
  proof (rule failed_change_keeps_new_password [OF ready_found])
    show "vaulted_outputs ?n" by (rule streaming_vaulted)
    show "resolve_credential_value (cf_reference (df_config (ready_draft draft_reference))) (n_vault ?n) = ''new''"
      using draft_password [of draft_reference] by (simp add: ready_draft_def new_config_def)
  qed (simp_all add: key ready_draft_def streaming_node_def single_node_def idle_check_def verify_live_def
      is_credential_reference_def reference_prefix_def new_config_def)
  then obtain n' where n': "apply_draft ?v 1 ''key'' [] 1 ?n [] = (Inl (RuntimeError ''active_runtime_input_unavailable''), n', [])"
    "n_vault n' (credential_reference 1) = Some ''new''" by (auto simp: ready_draft_def new_config_def)
  have "n_outputs n' = [old_output]"
    using failed_change_restores [OF n'(1) streaming_vaulted] by (simp add: streaming_node_def old_complete)
  then show ?thesis using n' by blast
qed

theorem applied_change_is_cleared_witness:
  "\<exists>n' r. get_output 1 n' = Some r \<and> so_host r = ''new.example'' \<and> n_settings n' 1 ''icecast_port'' = Some ''80''
     \<and> apply_draft (single_node idle_check) 1 ''key'' [] 1 (streaming_node []) [] = (Inr 1, n', [])"
proof -
  let ?v = "single_node idle_check" and ?n = "streaming_node []"
  have key: "strip ''key'' = ''key''" by code_simp
  have port: "int_str 80 = ''80''" by code_simp
  obtain res n' ps' where run: "apply_draft ?v 1 ''key'' [] 1 ?n [] = (res, n', ps')" by (metis prod_cases3)
  have "res = Inr 1 \<and> ps' = []"
  proof -
    have ref: "credential_reference 1 \<noteq> []" "is_credential_reference (credential_reference 1)"
      by (simp_all add: credential_reference_def reference_prefix_def is_credential_reference_def)
    have up: "upsert_output True (config_row (new_config []) []) m
        = (Inr (), m\<lparr>n_outputs := upsert_by so_station (stored_row (config_row (new_config []) []) (credential_reference 1)) (n_outputs m)\<rparr>)"
      if "n_outputs m = [old_output]" for m :: stream_store
      using that ref by (simp add: upsert_output_alt config_row_def new_config_def get_output_def old_output_def Let_def)
    let ?m = "with_operation 1 ''key'' 1 (new_config []) ?n"
    obtain seq m1 where app: "journal_append ''stream_config'' (int_str 1) ''apply'' (public_config (ae_text ?v) (new_config [])) ?m
        = (seq, m1)" by fastforce
    have m1: "n_outputs m1 = [old_output]" using append_frame [OF app] by (simp add: streaming_node_def)
    have resolve: "resolve_credential_value (cf_reference (new_config [])) v = []" for v
      by (simp add: resolve_credential_value_def is_credential_reference_def reference_prefix_def new_config_def)
    have live: "verify_live (cf_icecast (new_config [])) (ae_live ?v) = Inr False"
      by (simp add: verify_live_def single_node_def idle_check_def)
    let ?r = "stored_row (config_row (new_config []) []) (credential_reference 1)"
    have "get_output 1 (put_settings 1 ss (m1\<lparr>n_outputs := upsert_by so_station ?r [old_output]\<rparr>)) = Some ?r" for ss
      using find_upsert [of so_station ?r "[old_output]"] by (simp add: get_output_def put_settings_def new_config_def)
    moreover have "so_host ?r = cf_host (new_config []) \<and> so_mount ?r = cf_mount (new_config [])" "cf_station (new_config []) = 1"
      by (simp_all add: stored_row_def config_row_def new_config_def)
    moreover have env: "ae_ha ?v = None" "ae_protect ?v" "ae_audit ?v = None" by (simp_all add: single_node_def)
    ultimately have w: "\<exists>m2. write_config ?v [] 1 (new_config []) ?m [] = (Inr False, m2, [])"
      using up [OF m1] m1 app resolve live by (simp add: write_config_def Let_def)
    have "apply_refusal ''key'' [] (find_draft 1 ?n) = None" "st_operations ?n = []" "df_config (ready_draft []) = new_config []"
      unfolding ready_found by (simp_all add: apply_refusal_def ready_draft_def streaming_node_def)
    then have "fst (apply_draft ?v 1 ''key'' [] 1 ?n []) = Inr 1 \<and> snd (snd (apply_draft ?v 1 ''key'' [] 1 ?n [])) = []"
      using w env(3) by (auto simp: apply_draft_def key ready_found next_rowid_def with_operation_def Let_def)
    then show ?thesis by (simp add: run)
  qed
  then have run: "apply_draft ?v 1 ''key'' [] 1 ?n [] = (Inr 1, n', [])" using run by simp
  have "\<forall>x \<in> set (st_operations ?n). sp_key x \<noteq> strip ''key''" by (simp add: streaming_node_def)
  from applied_change_is_cleared [OF run this] obtain d r where d: "find_draft 1 ?n = Some d" "get_output (cf_station (df_config d)) n' = Some r"
    "same_destination r (df_config d)"
    "\<forall>p \<in> set (config_settings (ae_text ?v) (df_config d)). n_settings n' (cf_station (df_config d)) (fst p) = Some (snd p)" by blast
  have "d = ready_draft []" using d(1) ready_found by simp
  then have "get_output 1 n' = Some r" "so_host r = ''new.example''" "n_settings n' 1 ''icecast_port'' = Some ''80''"
    using d(2-4) by (simp_all add: ready_draft_def new_config_def same_destination_def config_settings_def port)
  then show ?thesis using run by blast
qed

theorem basic_draft_keeps_destination_witness:
  "\<exists>d. find_draft 2 (snd (create_draft (\<lambda>_. ''0.0'') True ''x'' ((new_config [])\<lparr>cf_host := ''old.example'', cf_profile := ''aac_plus_196''\<rparr>) 1
      False (streaming_node []))) = Some d \<and> cf_host (df_config d) = ''old.example'' \<and> cf_bitrate (df_config d) = 196"
proof -
  let ?c = "(new_config [])\<lparr>cf_host := ''old.example'', cf_profile := ''aac_plus_196''\<rparr>"
  have norm: "normalize_stream ?c = Inr (?c\<lparr>cf_bitrate := 196\<rparr>)" unfolding new_config_def by code_simp
  have low: "lower ''false'' = ''false''" by code_simp
  have "enforce_basic_change (?c\<lparr>cf_bitrate := 196\<rparr>) (streaming_node []) = Inr ()"
    by (simp add: enforce_basic_change_def get_output_def streaming_node_def old_output_def new_config_def low)
  then obtain n' where run: "create_draft (\<lambda>_. ''0.0'') True ''x'' ?c 1 False (streaming_node []) = (Inr 2, n')"
    by (simp add: create_draft_def norm Let_def) (simp add: new_config_def streaming_node_def ready_draft_def next_rowid_def max_or_zero_def Let_def)
  from basic_draft_keeps_destination [OF run] obtain d r where d: "find_draft 2 n' = Some d" "get_output (df_station d) (streaming_node []) = Some r"
    "df_config d = \<lparr>cf_station = df_station d, cf_local = so_local r, cf_device = so_device r, cf_icecast = so_icecast r,
        cf_host = so_host r, cf_port = so_port r, cf_mount = so_mount r, cf_user = so_user r, cf_password = [], cf_reference = [],
        cf_tls = (lower (case n_settings (streaming_node []) (df_station d) ''icecast_tls_enabled'' of None \<Rightarrow> ''false'' | Some v \<Rightarrow> v)
            \<in> {''1'', ''true'', ''yes'', ''on''}), cf_gain = so_gain r, cf_profile = cf_profile (df_config d), cf_bitrate = cf_bitrate (df_config d)\<rparr>"
    by blast
  have "r = old_output" using d(2) by (auto simp: get_output_def streaming_node_def split: if_splits)
  then have "cf_host (df_config d) = ''old.example''" using arg_cong [OF d(3), of cf_host] by (simp add: old_output_def)
  moreover have "cf_bitrate (df_config d) = 196"
  proof -
    have "cf_bitrate (df_config (the (find_draft 2 (snd (create_draft (\<lambda>_. ''0.0'') True ''x'' ?c 1 False (streaming_node [])))))) = 196"
      using \<open>enforce_basic_change (?c\<lparr>cf_bitrate := 196\<rparr>) (streaming_node []) = Inr ()\<close>
      by (simp add: create_draft_def norm Let_def)
        (simp add: new_config_def streaming_node_def ready_draft_def next_rowid_def max_or_zero_def find_draft_def Let_def)
    then show ?thesis using d(1) run by simp
  qed
  ultimately show ?thesis using d(1) run by simp
qed

end
