(* ===== verification/Spec2Isabelle.thy ===== *)
theory Spec2Isabelle
  imports Autofill_Props Playout_Props Track_Repo Worker_Limits HA Account_Props Studio_Props Guest_Runs Audit_Laws Replication_Drain Worker_Loop_Runs Stream_Runs
begin

text \<open>
  A verification development for RadioTEDU OnAir, the automation and control server of a radio
  station (\<open>src/app\<close>, Python). It models the part that decides what goes on air and the part that
  decides who may say so.

  The parts and how they interact. One SQLite database holds everything that must survive a crash.
  Repositories (\<open>src/app/repositories\<close>) are the only code that writes its tables. For every station a
  worker (\<open>engine/station_worker.py\<close>) runs a tick every few seconds: it renews its lease on the
  station, repairs the output, follows the open show session, keeps the queue filled, completes what
  has ended and starts the next item on the playout runtime. A thread per station repeats the tick and
  backs off when it fails. Operators edit the same queue through the HTTP end points, guarded by a
  concurrency token. The guard middleware asks the access rules about each request, with the claims of a
  token the account end points have issued. In a studio operators join, hand over and open the
  microphone; guests are invited, admitted and mixed, and recorded when all consent. Several nodes may
  run the server: the high-availability coordinator elects the one that may broadcast, which journals its
  changes of the schedule, the guests and the stream and sends them to the others, and an audit chain
  records who did what.

  Foundations.
  \<^item> \<open>Prelude\<close>: the exceptions of the source, programs over a state that may raise, relations every
    step of such a program keeps, lemmas on lists and sorting.
  \<^item> \<open>Py_Text\<close>, \<open>Py_Time\<close>, \<open>Sha256\<close>: the Python text operations, the calendar and ISO times, and
    SHA-256 on 32-bit words, as far as the modelled code uses them.
  \<^item> \<open>Database\<close>: the rows of the tables the playout core uses (\<open>db.py\<close>), and one \<open>sqlite3\<close> connection
    as a pair of the database on disk and the connection's view with its open transaction; the
    unique indexes are checked where SQLite checks them.

  The queue and its siblings.
  \<^item> \<open>Queue_Repo\<close> is \<open>repositories/queue_repo.py\<close>, one definition per method. \<open>Queue_Laws\<close> proves what
    its statements do (renumbering, the token), \<open>Queue_Props\<close> the exact effect of each guarded
    command and of the skip, the refusals, the token's guarantee and when enqueueing adds a row.
  \<^item> \<open>Media_Repos\<close> holds the ad breaks, scheduled items, the programme queue and the show sessions;
    \<open>Media_Props\<close> what they promise. \<open>Track_Repo\<close> is the track library and the deactivation cascade.
  \<^item> \<open>Interfaces\<close> states two contracts as locales. \<open>indexed_queue\<close>, a queue edited by index, is
    interpreted on the broadcast queue and on the programme queue; \<open>managed_items\<close>, items that are
    marked pending, playing and done, is interpreted on queue items, ads and scheduled items.
  \<^item> \<open>Settings\<close> is \<open>settings_repo.py\<close> and \<open>ad_policy.py\<close>. \<open>Playout_State\<close> is
    \<open>engine/playout_state.py\<close> and \<open>engine/lease.py\<close>; \<open>Playout_Props\<close> shows that the transition log
    explains the current item, what start-up reconciliation achieves and that a lease excludes
    (locale \<open>step_frame\<close>, interpreted on both kinds of event).
  \<^item> \<open>Autofill\<close> is \<open>engine/broadcast_queue_autofill.py\<close>, \<open>Autofill_Props\<close> its promises.

  The station worker.
  \<^item> \<open>Worker_Base\<close>, \<open>Worker_Items\<close>, \<open>Worker_Fill\<close> and \<open>Worker_Tick\<close> are \<open>engine/station_worker.py\<close>
    and \<open>engine/priority.py\<close>, in the order a tick calls them; \<open>process_once\<close> is one tick. The state is
    the connection, the runtime and the worker's own fields.
  \<^item> \<open>Worker_Writes\<close> is the abstract specification: the relation of the database writes a tick may
    make. \<open>Worker_Frame\<close>, \<open>Worker_Upkeep\<close> and \<open>Tick_Frame\<close> prove the refinement once, in the locales
    \<open>upkeep_frame\<close>, \<open>playout_frame\<close> and \<open>tick_frame\<close>: a property of databases that every permitted
    write keeps is kept by a tick, on disk and in memory, whether it returns or raises.
    \<open>Worker_Props\<close> interprets them on isolation of stations, on the item on air, on ads and on the
    show life cycle.
  \<^item> \<open>Worker_Limits\<close>: the fencing by the lease, the bounds on restarts and on automatic filling, and
    runs in which the worker does not do what it means to.

  \<^item> \<open>Worker_Loop\<close> is \<open>engine/worker_loop.py\<close> with the supervisor, the recovery policy and the choice of
    the continuity audio: a step relation over the threads and the calls of the manager.
    \<open>Worker_Loop_Laws\<close> proves by rule induction that a station has one loop, that a stopped loop ends and
    that failures are followed by their delays; \<open>Worker_Loop_Runs\<close> holds runs, one of them the start
    that comes while a stopped loop still ticks.

  Studios, microphones and guests.
  \<^item> \<open>Logs\<close> is the operation log. \<open>Studios\<close> is \<open>studio_repo.py\<close> and \<open>studio_service.py\<close> with the end
    points, \<open>Studio_Laws\<close> its invariant. \<open>Live_Mic\<close> is \<open>audio/live_mic_registry.py\<close> with the socket
    messages and end points that open and close the microphone, a WebRTC offer in two steps around the
    answer it awaits; \<open>Studio_Props\<close> shows that the microphone follows the desk, unless an offer is
    answered after its user lost it.
  \<^item> \<open>Guest_Room\<close> and \<open>Guest_Recording\<close> are \<open>guest_room_service.py\<close>, \<open>program_recording.py\<close> and the choice
    of sources of \<open>guest_audio_registry.py\<close>; the checks and the writes of an operation are separate
    definitions. \<open>Guest_Laws\<close> and \<open>Guest_Props\<close> prove who may be heard and recorded when requests are
    handled one after the other. \<open>Guest_Races\<close> lets any number of requests wait between check and
    write and shows which overlaps keep the room safe; \<open>Guest_Runs\<close> has the witnesses and the overlaps
    that do not.

  Nodes.
  \<^item> \<open>HA\<close> is \<open>services/ha_coordinator.py\<close>: one node's state and row, the handlers as functions, a step
    relation for any sequence of them, and elections among nodes that call each other. A round
    calls the peers in turn; when each call came back and with what is an argument of the step that ends
    the round.
  \<^item> \<open>Json\<close> writes and reads JSON as \<open>json.dumps\<close> and \<open>json.loads\<close> do; \<open>Json_Laws\<close> proves the round trip.
    \<open>Audit_Chain\<close> is \<open>services/audit_chain.py\<close> with the anchoring of its head at a witness, \<open>Audit_Laws\<close>
    what the chain proves and what it does not.
  \<^item> \<open>Node_Store\<close> holds what the peers copy: outputs with the credential vault, settings, the schedule and
    the guest rows. \<open>Replication\<close> is the journal, sending, receiving and applying it
    (\<open>replication_journal.py\<close>, \<open>ha_coordinator.py\<close>, \<open>api/ha.py\<close>, \<open>replication_applier.py\<close>) and the schedule
    operations that write it. \<open>Replication_Laws\<close> is the refinement: replaying a prefix of the leader's
    journal gives the standby's schedule. \<open>Replication_Drain\<close> shows that a backlog drains and what a standby
    stores; \<open>Replication_Runs\<close> what it misses.
  \<^item> \<open>Stream_Config\<close> is \<open>services/stream_config_service.py\<close>. \<open>Stream_Laws\<close> and \<open>Stream_Props\<close> show that a
    change takes effect as a whole or not at all, and what a failed one leaves behind; \<open>Stream_Runs\<close> has
    the witnesses.

  Accounts and access.
  \<^item> \<open>Guards\<close>: \<open>middleware/rate_limit.py\<close> and \<open>auth/brute_force.py\<close>, with the sliding window the
    limiter is proved equivalent to.
  \<^item> \<open>Rbac\<close>, \<open>Rbac_Sync\<close>: users, role templates, assignments and sessions (\<open>user_repo.py\<close>,
    \<open>rbac_repo.py\<close>, parts of \<open>show_repo.py\<close>) and what \<open>init_db\<close> does to them, with the invariant
    \<open>acc_ok\<close> of the tables' constraints.
  \<^item> \<open>Accounts\<close>: \<open>auth/jwt_handler.py\<close>, \<open>api/auth.py\<close>, \<open>api/users.py\<close>, \<open>api/roles.py\<close>. \<open>Access\<close>:
    \<open>auth/dependencies.py\<close> and the guard middleware of \<open>main.py\<close>. \<open>Account_Runs\<close> composes the end
    points to runs, \<open>Account_Props\<close> holds their properties.

  Parameters. Code that is not under \<open>src/\<close> or that only touches the outside is an argument: the
  playout runtime, the file system, the audio prober and the AI host are functions of the worker's
  \<open>env\<close>, which the properties quantify over; JSON web tokens and password hashes (\<open>jose\<close>, \<open>passlib\<close>) are the
  fields of \<open>crypto\<close>; random choices, token ids and salts, clock readings, answers of peers, what becomes
  of a request between nodes, the start of the recorder and what a listener hears are arguments. What a property needs of them (fresh token digests, no digest collision, increasing
  clocks) is a premise of that property, and its witness meets it at concrete values.

  Bounds. The loops of the source are bounded by their own constants, which the model keeps: the
  automatic filling by 100 rounds and 200 rows, the skipping of unplayable items by 20, restarts by
  3 per item and 180 seconds apart, guesses by 5 in 300 seconds, batches of the journal by 50 and 250
  entries. Fuel is added in one place: \<open>json_loads\<close> reads a text with twice its length and two as the
  depth, which \<open>Json_Laws\<close> proves to be enough, so that more of it never changes a result. Every other
  function of the model is total.

  Simplifications. Text is ASCII; a float is a rational or one of the three non-finite values; one
  clock reading serves a tick; messages of exceptions leave out the input they quote. Columns that
  only display code reads, log lines and broadcasts to browsers are left out, and the operations of the
  other parts do not write the audit chain, which is modelled on its own. The schedule occurs twice: with
  times for the worker, and with the texts of its table for replication. Threads are modelled where they
  share state under a lock (the loops) or come between a check and a write (guests, WebRTC offers, rounds
  of the coordinator, requests to the peers); the other operations run one after the other. So a studio
  request is one step, although its lock is one per station and a user may join studios of two stations
  at once, and the mixer reads the guests and stores what it read in one step, but for
  \<open>racing_load_outlives_kick\<close>. An audit record that fails is modelled where the code goes on from
  it: in the application of a stream change.

  Not modelled: the audio pipelines and processes (GStreamer, FFmpeg, the samples of microphones and
  guests), the AI host and its prompts, the HTTP rendering and parsing around the end points (\<open>api/legacy.py\<close> foremost),
  set-up and installation, database migrations, web sockets, the desktop and browser programs and the
  generator of the manuals: they are input and output around the modelled core, or configuration of
  programs that are not under \<open>src/\<close>.
\<close>

end
